(* ===== verification/Prelude.thy ===== *)
theory Prelude
  imports Complex_Main "HOL-Library.AList" "HOL-Library.Word"
begin

text \<open>
  What every component theory shares.
  \<^item> \<open>rust_res\<close>: Rust's \<open>Result<a, e>\<close> as a sum, the error on the left.
  \<^item> Rust strings: a \<open>String\<close> is the list of its UTF-8 bytes, one \<open>char\<close> per byte, so
    \<open>len()\<close> is \<open>length\<close>; the string operations of the standard library that the sources
    call (\<open>trim\<close>, \<open>to_ascii_lowercase\<close>, \<open>strip_prefix\<close>, \<open>split_once\<close>, \<dots>).
  \<^item> \<open>u64\<close> arithmetic as it is compiled in release builds (the workspace sets no
    \<open>overflow-checks\<close>): sums wrap at \<open>2 ^ 64\<close>.
  \<^item> JSON values, for the payloads of the pipe actions.
\<close>

section \<open>Results, integers\<close>

type_synonym ('e, 'a) rust_res = "'e + 'a"

named_theorems store_simps \<open>look-up after an update, for keyed stores\<close>
named_theorems wf_intros \<open>operations keep their component's well-formedness\<close>

definition u64_max :: nat where
  "u64_max = 2 ^ 64 - 1"

definition u64_add :: "nat \<Rightarrow> nat \<Rightarrow> nat" where
  "u64_add a b = (a + b) mod 2 ^ 64"

definition u64_sum :: "nat list \<Rightarrow> nat" where
  "u64_sum xs = foldl u64_add 0 xs"

definition u64_saturating_add :: "nat \<Rightarrow> nat \<Rightarrow> nat" where
  "u64_saturating_add a b = min (a + b) u64_max"

lemma u64_sum_from: "a < 2 ^ 64 \<Longrightarrow> foldl u64_add a xs = (a + sum_list xs) mod 2 ^ 64"
proof (induction xs arbitrary: a)
  case (Cons x xs)
  have "u64_add a x < 2 ^ 64" by (simp add: u64_add_def)
  from Cons.IH[OF this] show ?case
    by (simp add: u64_add_def mod_simps add.assoc)
qed simp

lemma u64_sum_eq: "u64_sum xs = sum_list xs mod 2 ^ 64"
  using u64_sum_from [of 0 xs] by (simp add: u64_sum_def)

lemma u64_sum_exact: "sum_list xs < 2 ^ 64 \<Longrightarrow> u64_sum xs = sum_list xs"
  by (simp add: u64_sum_eq)

section \<open>Rust strings\<close>

definition ascii_lower :: "char \<Rightarrow> char" where
  "ascii_lower c = (let n = of_char c :: nat in if 65 \<le> n \<and> n \<le> 90 then char_of (n + 32) else c)"

definition to_ascii_lowercase :: "string \<Rightarrow> string" where
  "to_ascii_lowercase s = map ascii_lower s"

definition ascii_upper :: "char \<Rightarrow> char" where
  "ascii_upper c = (let n = of_char c :: nat in if 97 \<le> n \<and> n \<le> 122 then char_of (n - 32) else c)"

definition to_ascii_uppercase :: "string \<Rightarrow> string" where
  "to_ascii_uppercase s = map ascii_upper s"

definition eq_ignore_ascii_case :: "string \<Rightarrow> string \<Rightarrow> bool" where
  "eq_ignore_ascii_case a b = (to_ascii_lowercase a = to_ascii_lowercase b)"

definition starts_with :: "string \<Rightarrow> string \<Rightarrow> bool" where
  "starts_with s p = (take (length p) s = p)"

definition ends_with :: "string \<Rightarrow> string \<Rightarrow> bool" where
  "ends_with s p = (length p \<le> length s \<and> drop (length s - length p) s = p)"

definition strip_prefix :: "string \<Rightarrow> string \<Rightarrow> string option" where
  "strip_prefix p s = (if starts_with s p then Some (drop (length p) s) else None)"

text \<open>\<open>find_sub p s\<close>: the offset of the first occurrence of \<open>p\<close>, as \<open>str::find\<close>.\<close>

fun find_sub :: "string \<Rightarrow> string \<Rightarrow> nat option" where
  "find_sub p [] = (if p = [] then Some 0 else None)"
| "find_sub p (c # s) = (if starts_with (c # s) p then Some 0 else map_option Suc (find_sub p s))"

definition contains_sub :: "string \<Rightarrow> string \<Rightarrow> bool" where
  "contains_sub s p = (find_sub p s \<noteq> None)"

text \<open>\<open>s.split(c).next()\<close>: everything before the first \<open>c\<close>.\<close>

definition before_char :: "char \<Rightarrow> string \<Rightarrow> string" where
  "before_char c s = takeWhile (\<lambda>x. x \<noteq> c) s"

definition split_once :: "char \<Rightarrow> string \<Rightarrow> (string \<times> string) option" where
  "split_once c s = (if c \<in> set s then Some (takeWhile (\<lambda>x. x \<noteq> c) s, tl (dropWhile (\<lambda>x. x \<noteq> c) s)) else None)"

definition rsplit_once :: "char \<Rightarrow> string \<Rightarrow> (string \<times> string) option" where
  "rsplit_once c s = map_option (\<lambda>(a, b). (rev b, rev a)) (split_once c (rev s))"

definition trim_end_char :: "char \<Rightarrow> string \<Rightarrow> string" where
  "trim_end_char c s = rev (dropWhile (\<lambda>x. x = c) (rev s))"

text \<open>
  \<open>ws_len bs\<close> is the length of the white-space character that the UTF-8 bytes \<open>bs\<close> start
  with, 0 when they start with another one: the 25 code points of \<open>char::is_whitespace\<close>
  (U+0009..000D, 0020, 0085, 00A0, 1680, 2000..200A, 2028, 2029, 202F, 205F, 3000).
\<close>

fun ws_code :: "nat list \<Rightarrow> nat" where
  "ws_code (a # b # c # _) =
     (if a = 32 \<or> 9 \<le> a \<and> a \<le> 13 then 1
      else if a = 194 \<and> (b = 133 \<or> b = 160) then 2
      else if a = 225 \<and> b = 154 \<and> c = 128
        \<or> a = 226 \<and> b = 128 \<and> (128 \<le> c \<and> c \<le> 138 \<or> c = 168 \<or> c = 169 \<or> c = 175)
        \<or> a = 226 \<and> b = 129 \<and> c = 159
        \<or> a = 227 \<and> b = 128 \<and> c = 128 then 3
      else 0)"
| "ws_code [a, b] =
     (if a = 32 \<or> 9 \<le> a \<and> a \<le> 13 then 1
      else if a = 194 \<and> (b = 133 \<or> b = 160) then 2 else 0)"
| "ws_code [a] = (if a = 32 \<or> 9 \<le> a \<and> a \<le> 13 then 1 else 0)"
| "ws_code [] = 0"

definition ws_len :: "string \<Rightarrow> nat" where
  "ws_len s = ws_code (map of_char (take 3 s))"

text \<open>The length of the white-space character at the end, 0 when there is none.\<close>

definition ws_len_end :: "string \<Rightarrow> nat" where
  "ws_len_end s =
     (let n = length s in
      if 1 \<le> n \<and> ws_len (drop (n - 1) s) = 1 then 1
      else if 2 \<le> n \<and> ws_len (drop (n - 2) s) = 2 then 2
      else if 3 \<le> n \<and> ws_len (drop (n - 3) s) = 3 then 3 else 0)"

function trim_start :: "string \<Rightarrow> string" where
  "trim_start s = (if s = [] \<or> ws_len s = 0 then s else trim_start (drop (ws_len s) s))"
  by pat_completeness auto
termination
  by (relation "measure length") auto

function trim_end :: "string \<Rightarrow> string" where
  "trim_end s = (if s = [] \<or> ws_len_end s = 0 then s else trim_end (take (length s - ws_len_end s) s))"
  by pat_completeness auto
termination
  by (relation "measure length") auto

declare trim_start.simps [simp del] trim_end.simps [simp del]

definition trim :: "string \<Rightarrow> string" where
  "trim s = trim_end (trim_start s)"

lemma trim_start_Nil [simp]: "trim_start [] = []"
  by (subst trim_start.simps) simp

lemma trim_end_Nil [simp]: "trim_end [] = []"
  by (subst trim_end.simps) simp

lemma trim_Nil [simp]: "trim [] = []"
  by (simp add: trim_def)

lemma starts_with_append [simp]: "starts_with (p @ s) p"
  by (simp add: starts_with_def)

lemma starts_withE: "starts_with s p \<Longrightarrow> \<exists>t. s = p @ t"
  unfolding starts_with_def by (metis append_take_drop_id)

text \<open>The first occurrence of a substring.\<close>

lemma find_sub_bound: "find_sub p s = Some i \<Longrightarrow> i + length p \<le> length s"
proof (induction s arbitrary: i)
  case (Cons c s)
  show ?case
  proof (cases "starts_with (c # s) p")
    case True
    then have "length p \<le> length (c # s)" by (metis starts_withE length_append le_add1)
    then show ?thesis using Cons.prems True by simp
  next
    case False
    then show ?thesis using Cons by auto
  qed
qed (auto split: if_splits)

lemma starts_with_Nil [simp]: "starts_with s []" "p \<noteq> [] \<Longrightarrow> \<not> starts_with [] p"
  by (simp_all add: starts_with_def)

lemma find_sub_None: "p \<noteq> [] \<Longrightarrow> find_sub p s = None \<longleftrightarrow> (\<forall>j. \<not> starts_with (drop j s) p)"
proof (induction s)
  case (Cons c s)
  show ?case
  proof (cases "starts_with (c # s) p")
    case True
    then show ?thesis by (auto intro: exI [of _ 0])
  next
    case False
    have "(\<forall>j. \<not> starts_with (drop j (c # s)) p) \<longleftrightarrow> (\<forall>j. \<not> starts_with (drop j s) p)"
      using False by (metis drop0 drop_Suc_Cons not0_implies_Suc)
    then show ?thesis using Cons False by simp
  qed
qed simp

lemma find_sub_shift:
  "k \<le> length s \<Longrightarrow> \<forall>j<k. \<not> starts_with (drop j s) p \<Longrightarrow> find_sub p s = map_option (\<lambda>i. k + i) (find_sub p (drop k s))"
proof (induction k arbitrary: s)
  case (Suc k)
  then obtain c t where s: "s = c # t" by (cases s) auto
  have "\<not> starts_with (c # t) p" and "\<forall>j<k. \<not> starts_with (drop j t) p"
    using Suc.prems(2) by (auto simp: s)
  then show ?case
    using Suc.IH [of t] Suc.prems(1) by (simp add: s option.map_comp o_def)
next
  case 0
  then show ?case by (cases "find_sub p s") simp_all
qed

lemma find_sub_Some:
  assumes "p \<noteq> []" and "find_sub p s = Some i"
  shows "i + length p \<le> length s" "starts_with (drop i s) p" "j < i \<Longrightarrow> \<not> starts_with (drop j s) p"
proof -
  have "i + length p \<le> length s \<and> starts_with (drop i s) p \<and> (\<forall>j<i. \<not> starts_with (drop j s) p)"
    using assms(2)
  proof (induction s arbitrary: i)
    case (Cons c s)
    show ?case
    proof (cases "starts_with (c # s) p")
      case True
      then show ?thesis using Cons.prems find_sub_bound [OF Cons.prems] by simp
    next
      case False
      then obtain i' where i: "i = Suc i'" "find_sub p s = Some i'" using Cons.prems by auto
      have "\<not> starts_with (drop j (c # s)) p" if "j < i" for j
        using that Cons.IH [OF i(2)] False by (cases j) (auto simp: i(1))
      then show ?thesis using Cons.IH [OF i(2)] by (simp add: i(1))
    qed
  qed (use assms(1) in \<open>simp split: if_splits\<close>)
  then show "i + length p \<le> length s" "starts_with (drop i s) p" "j < i \<Longrightarrow> \<not> starts_with (drop j s) p" by auto
qed

lemma starts_with_append_same: "length p \<le> length s \<Longrightarrow> starts_with (s @ t) p = starts_with s p"
  by (simp add: starts_with_def)

lemma find_sub_append:
  assumes "p \<noteq> []" and "find_sub p s = Some i"
  shows "find_sub p (s @ t) = Some i"
proof -
  note found = find_sub_Some [OF assms]
  have "\<not> starts_with (drop j (s @ t)) p" if "j < i" for j
    using found(3) [OF that] found(1) that starts_with_append_same [of p "drop j s" t] by simp
  moreover have "starts_with (drop i s @ t) p"
    using found(1,2) starts_with_append_same [of p "drop i s" t] by simp
  then have "find_sub p (drop i s @ t) = Some 0"
    using assms(1) by (cases "drop i s @ t") auto
  ultimately show ?thesis
    using find_sub_shift [of i "s @ t" p] found(1) by simp
qed

section \<open>JSON values\<close>

text \<open>
  \<open>serde_json::Value\<close>: numbers are integers or floats, an object is its list of members
  (one per key), \<open>jget\<close> is \<open>Value::get\<close>, which finds nothing outside an object.
\<close>

datatype json = JNull | JBool bool | JInt int | JFloat real | JStr string
  | JArr "json list" | JObj "(string \<times> json) list"

fun jget :: "string \<Rightarrow> json \<Rightarrow> json option" where
  "jget k (JObj m) = map_of m k"
| "jget k _ = None"

fun as_str :: "json \<Rightarrow> string option" where
  "as_str (JStr s) = Some s"
| "as_str _ = None"

fun as_bool :: "json \<Rightarrow> bool option" where
  "as_bool (JBool b) = Some b"
| "as_bool _ = None"

fun as_u64 :: "json \<Rightarrow> nat option" where
  "as_u64 (JInt i) = (if 0 \<le> i \<and> i < 2 ^ 64 then Some (nat i) else None)"
| "as_u64 _ = None"

fun as_f64 :: "json \<Rightarrow> real option" where
  "as_f64 (JInt i) = Some (real_of_int i)"
| "as_f64 (JFloat r) = Some r"
| "as_f64 _ = None"

definition get_str :: "string \<Rightarrow> json \<Rightarrow> string option" where
  "get_str k v = Option.bind (jget k v) as_str"

definition unwrap_or :: "'a \<Rightarrow> 'a option \<Rightarrow> 'a" where
  "unwrap_or d x = (case x of None \<Rightarrow> d | Some y \<Rightarrow> y)"

lemma unwrap_or_simps [simp]: "unwrap_or d None = d" "unwrap_or d (Some y) = y"
  by (simp_all add: unwrap_or_def)

section \<open>Replies of the pipe actions\<close>

text \<open>
  \<open>wylde_shared::ipc::IpcError\<close> and \<open>Reply\<close> (\<open>ipc/wire.rs\<close>): a reply is an error or its data;
  the transport name and the duration, filled in by the transport, are left out.
\<close>

record ipc_error =
  ie_code :: string
  ie_message :: string
  ie_details :: "json option"

type_synonym reply = "(ipc_error, json) rust_res"

definition ipc_err :: "string \<Rightarrow> string \<Rightarrow> reply" where
  "ipc_err code message = Inl \<lparr>ie_code = code, ie_message = message, ie_details = None\<rparr>"

text \<open>The punctuation U+2014 of the messages, and the quotes.\<close>

definition em_dash :: string where
  "em_dash = [CHR 0xE2, CHR 0x80, CHR 0x94]"

definition dquote :: string where
  "dquote = [CHR 0x22]"

definition squote :: string where
  "squote = [CHR 0x27]"

text \<open>Decimal notation, as \<open>format!\<close> prints an integer.\<close>

fun nat_str :: "nat \<Rightarrow> string" where
  "nat_str n = (if n < 10 then [char_of (n + 48)] else nat_str (n div 10) @ [char_of (n mod 10 + 48)])"

declare nat_str.simps [simp del]

lemma nat_str_value: "foldl (\<lambda>v c. v * 10 + (of_char c - 48)) 0 (nat_str n) = (n :: nat)"
  by (induction n rule: nat_str.induct) (subst nat_str.simps, simp)

lemma nat_str_inject [simp]: "nat_str m = nat_str n \<longleftrightarrow> m = n"
  by (metis nat_str_value)

definition int_str :: "int \<Rightarrow> string" where
  "int_str i = (if i < 0 then CHR ''-'' # nat_str (nat (- i)) else nat_str (nat i))"

text \<open>\<open>Map::insert\<close> on an object, nothing on another value.\<close>

fun jput :: "string \<Rightarrow> json \<Rightarrow> json \<Rightarrow> json" where
  "jput k v (JObj m) = JObj (AList.update k v m)"
| "jput k v j = j"

lemma jget_jput [simp]: "jget k' (jput k v (JObj m)) = (if k' = k then Some v else jget k' (JObj m))"
  by (simp add: update_conv')

section \<open>Bytes\<close>

type_synonym byte = "8 word"

definition bytes_of :: "string \<Rightarrow> byte list" where
  "bytes_of s = map (\<lambda>c. word_of_nat (of_char c)) s"

text \<open>\<open>is_char_boundary\<close>: an offset at an end, or at a byte that does not continue a character.\<close>

definition utf8_cont :: "char \<Rightarrow> bool" where
  "utf8_cont c = (let n = of_char c :: nat in 128 \<le> n \<and> n < 192)"

definition is_char_boundary :: "string \<Rightarrow> nat \<Rightarrow> bool" where
  "is_char_boundary s i = (i = 0 \<or> i = length s \<or> (i < length s \<and> \<not> utf8_cont (s ! i)))"

text \<open>\<open>&s[i..j]\<close>, which panics (\<open>None\<close>) outside the string, off a boundary, or when \<open>i > j\<close>.\<close>

definition str_slice :: "string \<Rightarrow> nat \<Rightarrow> nat \<Rightarrow> string option" where
  "str_slice s i j =
     (if i \<le> j \<and> is_char_boundary s i \<and> is_char_boundary s j then Some (take (j - i) (drop i s)) else None)"

text \<open>\<open>str::lines\<close>: a final newline ends the last line, a carriage return before a newline goes.\<close>

fun split_lines :: "string \<Rightarrow> string list" where
  "split_lines [] = []"
| "split_lines (c # s) =
     (if c = CHR 0x0A then [] # split_lines s
      else case split_lines s of [] \<Rightarrow> [[c]]
           | l # ls \<Rightarrow> if c = CHR 0x0D \<and> take 1 s = [CHR 0x0A] then [] # ls else (c # l) # ls)"

text \<open>\<open>s.chars().take(n).collect()\<close>.\<close>

fun take_chars :: "nat \<Rightarrow> string \<Rightarrow> string" where
  "take_chars 0 s = []"
| "take_chars (Suc n) [] = []"
| "take_chars (Suc n) (c # s) = (c # takeWhile utf8_cont s) @ take_chars n (dropWhile utf8_cont s)"

text \<open>\<open>[T]::join\<close>, and \<open>s.chars().count()\<close>: the bytes that begin a character.\<close>

fun join_strs :: "string \<Rightarrow> string list \<Rightarrow> string" where
  "join_strs sep [] = []"
| "join_strs sep [s] = s"
| "join_strs sep (s # t # ss) = s @ sep @ join_strs sep (t # ss)"

definition n_chars :: "string \<Rightarrow> nat" where
  "n_chars s = length (filter (\<lambda>c. \<not> utf8_cont c) s)"

text \<open>\<open>str::parse::<usize>\<close>: digits, after an optional plus sign, of a number below \<open>2 ^ 64\<close>.\<close>

definition is_digit :: "char \<Rightarrow> bool" where
  "is_digit c = (let n = of_char c :: nat in 48 \<le> n \<and> n \<le> 57)"

definition parse_usize :: "string \<Rightarrow> nat option" where
  "parse_usize s =
     (let d = (case s of c # t \<Rightarrow> if c = CHR ''+'' then t else s | [] \<Rightarrow> s);
          v = foldl (\<lambda>v c. v * 10 + (of_char c - 48)) 0 d
      in if d \<noteq> [] \<and> list_all is_digit d \<and> v < 2 ^ 64 then Some v else None)"

lemma nat_str_digits: "nat_str n \<noteq> [] \<and> list_all is_digit (nat_str n)"
proof (induction n rule: nat_str.induct)
  case (1 n)
  then show ?case by (auto simp: nat_str.simps [of n] is_digit_def Let_def)
qed

lemma parse_nat_str: "n < 2 ^ 64 \<Longrightarrow> parse_usize (nat_str n) = Some n"
proof -
  assume n: "n < 2 ^ 64"
  obtain c t where s: "nat_str n = c # t" "is_digit c"
    using nat_str_digits [of n] by (cases "nat_str n") auto
  then have "c \<noteq> CHR ''+''" by (auto simp: is_digit_def Let_def)
  then show ?thesis
    using n s nat_str_digits [of n] nat_str_value [of n] by (simp add: parse_usize_def Let_def)
qed

lemma find_SomeD: "List.find p xs = Some x \<Longrightarrow> p x \<and> x \<in> set xs"
  by (induction xs) (auto split: if_splits)

lemma find_NoneD: "List.find p xs = None \<longleftrightarrow> (\<forall>x \<in> set xs. \<not> p x)"
  by (induction xs) auto

end
