(* ===== verification/Keyed_Store.thy ===== *)
theory Keyed_Store
  imports Prelude
begin

text \<open>
  The interface of a keyed store, Rust's \<open>HashMap\<close> as the components use it: look-up,
  insertion, removal and the list of entries in iteration order. The locale \<open>keyed_store\<close>
  states the laws; the lemmas proved in it (the accounting of a sum over the values, the
  entries after an update) serve the VRAM broker, the device gate, the rate limiters and
  the pairing tables. The implementation is an association list with distinct keys.
\<close>

locale keyed_store =
  fixes get :: "'m \<Rightarrow> 'k \<Rightarrow> 'v option"
    and put :: "'k \<Rightarrow> 'v \<Rightarrow> 'm \<Rightarrow> 'm"
    and del :: "'k \<Rightarrow> 'm \<Rightarrow> 'm"
    and entries :: "'m \<Rightarrow> ('k \<times> 'v) list"
    and inv :: "'m \<Rightarrow> bool"
  assumes get_put: "inv m \<Longrightarrow> get (put k v m) k' = (if k' = k then Some v else get m k')"
    and get_del: "inv m \<Longrightarrow> get (del k m) k' = (if k' = k then None else get m k')"
    and inv_put: "inv m \<Longrightarrow> inv (put k v m)"
    and inv_del: "inv m \<Longrightarrow> inv (del k m)"
    and entries_iff: "inv m \<Longrightarrow> (k, v) \<in> set (entries m) \<longleftrightarrow> get m k = Some v"
    and entries_distinct: "inv m \<Longrightarrow> distinct (map fst (entries m))"
begin

text \<open>The sum of a weight over the stored values.\<close>

definition weight :: "('v \<Rightarrow> nat) \<Rightarrow> 'm \<Rightarrow> nat" where
  "weight f m = sum_list (map (\<lambda>e. f (snd e)) (entries m))"

lemma weight_set: "inv m \<Longrightarrow> weight f m = (\<Sum>e\<in>set (entries m). f (snd e))"
  unfolding weight_def
  using entries_distinct [of m] by (intro sum_list_distinct_conv_sum_set) (simp add: distinct_map)

lemma set_entries_put:
  "inv m \<Longrightarrow> set (entries (put k v m)) = insert (k, v) {e \<in> set (entries m). fst e \<noteq> k}"
  by (rule set_eqI) (clarsimp simp: entries_iff inv_put get_put, auto)

lemma set_entries_del:
  "inv m \<Longrightarrow> set (entries (del k m)) = {e \<in> set (entries m). fst e \<noteq> k}"
  by (rule set_eqI) (clarsimp simp: entries_iff inv_del get_del)

lemma set_entries_split:
  assumes "inv m"
  shows "set (entries m) = {e \<in> set (entries m). fst e \<noteq> k} \<union>
    (case get m k of None \<Rightarrow> {} | Some v \<Rightarrow> {(k, v)})"
  using assms by (auto simp: entries_iff split: option.splits)

lemma weight_del:
  assumes "inv m"
  shows "weight f (del k m) + (case get m k of None \<Rightarrow> 0 | Some v \<Rightarrow> f v) = weight f m"
proof -
  let ?A = "{e \<in> set (entries m). fst e \<noteq> k}"
  let ?B = "case get m k of None \<Rightarrow> {} | Some v \<Rightarrow> {(k, v)}"
  have "weight f m = (\<Sum>e\<in>?A \<union> ?B. f (snd e))"
    using weight_set [OF assms, of f] set_entries_split [OF assms, of k] by simp
  also have "\<dots> = (\<Sum>e\<in>?A. f (snd e)) + (\<Sum>e\<in>?B. f (snd e))"
    by (rule sum.union_disjoint) (auto split: option.splits)
  also have "(\<Sum>e\<in>?B. f (snd e)) = (case get m k of None \<Rightarrow> 0 | Some v \<Rightarrow> f v)"
    by (simp split: option.splits)
  also have "(\<Sum>e\<in>?A. f (snd e)) = weight f (del k m)"
    using weight_set [OF inv_del [OF assms], of f] set_entries_del [OF assms] by simp
  finally show ?thesis by simp
qed

lemma weight_put:
  assumes "inv m"
  shows "weight f (put k v m) + (case get m k of None \<Rightarrow> 0 | Some w \<Rightarrow> f w) = weight f m + f v"
proof -
  let ?A = "{e \<in> set (entries m). fst e \<noteq> k}"
  have "weight f (put k v m) = (\<Sum>e\<in>insert (k, v) ?A. f (snd e))"
    using weight_set [OF inv_put [OF assms], of f] set_entries_put [OF assms] by simp
  also have "\<dots> = f v + (\<Sum>e\<in>?A. f (snd e))"
    by (subst sum.insert) auto
  also have "(\<Sum>e\<in>?A. f (snd e)) = weight f (del k m)"
    using weight_set [OF inv_del [OF assms], of f] set_entries_del [OF assms] by simp
  finally show ?thesis using weight_del [OF assms, of f k] by simp
qed

lemma weight_del_le: "inv m \<Longrightarrow> weight f (del k m) \<le> weight f m"
  using weight_del [of m f k] by simp

lemma weight_put_fresh: "inv m \<Longrightarrow> get m k = None \<Longrightarrow> weight f (put k v m) = weight f m + f v"
  using weight_put [of m f k v] by simp

end

section \<open>Hash maps\<close>

type_synonym ('k, 'v) hmap = "('k \<times> 'v) list"

definition hm_get :: "('k, 'v) hmap \<Rightarrow> 'k \<Rightarrow> 'v option" where
  "hm_get m k = map_of m k"

definition hm_put :: "'k \<Rightarrow> 'v \<Rightarrow> ('k, 'v) hmap \<Rightarrow> ('k, 'v) hmap" where
  "hm_put k v m = AList.update k v m"

definition hm_del :: "'k \<Rightarrow> ('k, 'v) hmap \<Rightarrow> ('k, 'v) hmap" where
  "hm_del k m = AList.delete k m"

definition hm_ok :: "('k, 'v) hmap \<Rightarrow> bool" where
  "hm_ok m = distinct (map fst m)"

definition hm_values :: "('k, 'v) hmap \<Rightarrow> 'v list" where
  "hm_values m = map snd m"

text \<open>\<open>HashMap::retain\<close>.\<close>

definition hm_retain :: "('k \<Rightarrow> 'v \<Rightarrow> bool) \<Rightarrow> ('k, 'v) hmap \<Rightarrow> ('k, 'v) hmap" where
  "hm_retain p m = filter (\<lambda>(k, v). p k v) m"

lemma hm_get_Nil [simp]: "hm_get [] k = None"
  by (simp add: hm_get_def)

lemma hm_get_Cons: "hm_get ((k', v) # m) k = (if k' = k then Some v else hm_get m k)"
  by (simp add: hm_get_def)

lemma hm_ok_Nil [simp]: "hm_ok []"
  by (simp add: hm_ok_def)

lemma hm_get_put [simp, store_simps]: "hm_get (hm_put k v m) k' = (if k' = k then Some v else hm_get m k')"
  by (simp add: hm_get_def hm_put_def update_conv')

lemma hm_get_del [simp, store_simps]: "hm_get (hm_del k m) k' = (if k' = k then None else hm_get m k')"
  by (simp add: hm_get_def hm_del_def delete_conv')

lemma hm_ok_put [simp, wf_intros]: "hm_ok m \<Longrightarrow> hm_ok (hm_put k v m)"
  by (simp add: hm_ok_def hm_put_def distinct_update)

lemma hm_ok_del [simp, wf_intros]: "hm_ok m \<Longrightarrow> hm_ok (hm_del k m)"
  by (simp add: hm_ok_def hm_del_def distinct_delete)

lemma hm_ok_retain [simp, wf_intros]: "hm_ok m \<Longrightarrow> hm_ok (hm_retain p m)"
  by (induction m) (auto simp: hm_ok_def hm_retain_def)

lemma hm_entry_iff: "hm_ok m \<Longrightarrow> (k, v) \<in> set m \<longleftrightarrow> hm_get m k = Some v"
  by (simp add: hm_ok_def hm_get_def)

lemma hm_all_entries:
  "hm_ok m \<Longrightarrow> (\<forall>e \<in> set m. case e of (k, v) \<Rightarrow> P k v) \<longleftrightarrow> (\<forall>k v. hm_get m k = Some v \<longrightarrow> P k v)"
  by (auto simp: hm_entry_iff [symmetric])

lemma hm_get_retain [store_simps]:
  "hm_ok m \<Longrightarrow> hm_get (hm_retain p m) k =
     (case hm_get m k of None \<Rightarrow> None | Some v \<Rightarrow> if p k v then Some v else None)"
proof (induction m)
  case (Cons a m)
  then show ?case
    by (cases a) (auto simp: hm_ok_def hm_get_def hm_retain_def map_of_eq_None_iff
        split: option.splits dest: map_of_SomeD)
qed (simp add: hm_retain_def)

interpretation hm: keyed_store hm_get hm_put hm_del "\<lambda>m. m" hm_ok
proof unfold_locales
qed (simp_all add: hm_entry_iff, simp add: hm_ok_def)

text \<open>The sum over the values, as the code computes it from \<open>values()\<close>.\<close>

definition hm_weight :: "('v \<Rightarrow> nat) \<Rightarrow> ('k, 'v) hmap \<Rightarrow> nat" where
  "hm_weight f m = sum_list (map f (hm_values m))"

lemma hm_weight_eq: "hm_weight f m = hm.weight f m"
  by (simp add: hm_weight_def hm.weight_def hm_values_def comp_def)

lemma hm_weight_put:
  "hm_ok m \<Longrightarrow> hm_weight f (hm_put k v m) + (case hm_get m k of None \<Rightarrow> 0 | Some w \<Rightarrow> f w)
     = hm_weight f m + f v"
  by (simp only: hm_weight_eq hm.weight_put)

lemma hm_weight_put_fresh:
  "hm_ok m \<Longrightarrow> hm_get m k = None \<Longrightarrow> hm_weight f (hm_put k v m) = hm_weight f m + f v"
  by (simp only: hm_weight_eq hm.weight_put_fresh)

lemma hm_weight_del:
  "hm_ok m \<Longrightarrow> hm_weight f (hm_del k m) + (case hm_get m k of None \<Rightarrow> 0 | Some w \<Rightarrow> f w)
     = hm_weight f m"
  by (simp only: hm_weight_eq hm.weight_del)

lemma hm_weight_del_le: "hm_ok m \<Longrightarrow> hm_weight f (hm_del k m) \<le> hm_weight f m"
  by (simp only: hm_weight_eq hm.weight_del_le)

lemma hm_values_iff: "hm_ok m \<Longrightarrow> v \<in> set (hm_values m) \<longleftrightarrow> (\<exists>k. hm_get m k = Some v)"
  by (force simp: hm_values_def hm_entry_iff [symmetric])

end
