(* ===== verification/Vram_Registry.thy ===== *)
theory Vram_Registry
  imports Keyed_Store
begin

text \<open>
  The lease store of the VRAM broker (\<open>wylde-vram-broker/src/registry.rs\<close>): one record per
  lease, the nonce index, the totals reported by NVML and sysinfo. Each operation of the code
  holds the registry's mutex for its whole body, so each is one function on the registry; the
  clock is an argument. Byte counts are the \<open>u64\<close>s of the code as natural numbers, sums wrap
  at \<open>2 ^ 64\<close>; seconds (\<open>f64\<close>) are reals, without rounding. The iteration order of a
  \<open>HashMap\<close> is the order of the list that stands for it; no theorem fixes it.
\<close>

section \<open>Leases and the registry\<close>

record lease =
  ls_id :: string
  ls_service :: string
  ls_model :: string
  ls_bytes :: nat
  ls_dram :: nat
  ls_priority :: int
  ls_granted_at :: real
  ls_expires_at :: real
  ls_heartbeat_at :: real
  ls_pid :: nat
  ls_synthetic :: bool
  ls_estimated :: bool
  ls_nonce :: string

record vram_config =
  vc_safety_margin :: nat
  vc_dram_margin :: nat
  vc_spillover :: bool
  vc_est_vram :: nat
  vc_est_dram :: nat
  vc_default_ttl :: real
  vc_grace_period :: real
  vc_evict_timeout :: real
  vc_ollama_poll :: real
  vc_cache_ttl :: real

record registry =
  rg_leases :: "(string, lease) hmap"
  rg_by_nonce :: "(string, string) hmap"
  rg_total :: nat
  rg_used :: nat
  rg_gpu_name :: string
  rg_nvml_at :: real
  rg_dram_total :: nat
  rg_dram_used :: nat
  rg_sys_at :: real

definition reg_new :: registry where
  "reg_new = \<lparr>rg_leases = [], rg_by_nonce = [], rg_total = 0, rg_used = 0, rg_gpu_name = [],
     rg_nvml_at = 0, rg_dram_total = 0, rg_dram_used = 0, rg_sys_at = 0\<rparr>"

definition set_gpu :: "real \<Rightarrow> nat \<Rightarrow> nat \<Rightarrow> string \<Rightarrow> registry \<Rightarrow> registry" where
  "set_gpu now tot used name r =
     r\<lparr>rg_total := tot, rg_used := used, rg_gpu_name := name, rg_nvml_at := now\<rparr>"

definition set_dram :: "real \<Rightarrow> nat \<Rightarrow> nat \<Rightarrow> registry \<Rightarrow> registry" where
  "set_dram now tot used r =
     r\<lparr>rg_dram_total := tot, rg_dram_used := used, rg_sys_at := now\<rparr>"

section \<open>Accounting\<close>

definition reserved_total :: "registry \<Rightarrow> nat" where
  "reserved_total r = u64_sum (map ls_bytes (hm_values (rg_leases r)))"

definition reserved_dram_total :: "registry \<Rightarrow> nat" where
  "reserved_dram_total r = u64_sum (map ls_dram (hm_values (rg_leases r)))"

text \<open>\<open>saturating_sub\<close> on \<open>u64\<close> is the truncated subtraction of \<open>nat\<close>.\<close>

definition free_for_grant :: "vram_config \<Rightarrow> registry \<Rightarrow> nat" where
  "free_for_grant cfg r =
     (let reserved = u64_sum (map ls_bytes (hm_values (rg_leases r)))
      in rg_total r - reserved - vc_safety_margin cfg)"

definition free_for_grant_dram :: "vram_config \<Rightarrow> registry \<Rightarrow> nat" where
  "free_for_grant_dram cfg r =
     (let reserved = u64_sum (map ls_dram (hm_values (rg_leases r)))
      in rg_dram_total r - reserved - vc_dram_margin cfg)"

section \<open>Lease operations\<close>

definition find_by_nonce :: "string \<Rightarrow> registry \<Rightarrow> lease option" where
  "find_by_nonce nonce r =
     (if nonce = [] then None
      else case hm_get (rg_by_nonce r) nonce of
        None \<Rightarrow> None
      | Some lid \<Rightarrow> hm_get (rg_leases r) lid)"

definition reg_add :: "lease \<Rightarrow> registry \<Rightarrow> registry" where
  "reg_add l r =
     (let r1 = r\<lparr>rg_leases := hm_put (ls_id l) l (rg_leases r)\<rparr>
      in if ls_nonce l \<noteq> []
         then r1\<lparr>rg_by_nonce := hm_put (ls_nonce l) (ls_id l) (rg_by_nonce r1)\<rparr> else r1)"

definition reg_get :: "string \<Rightarrow> registry \<Rightarrow> lease option" where
  "reg_get lid r = hm_get (rg_leases r) lid"

definition reg_remove :: "string \<Rightarrow> registry \<Rightarrow> lease option \<times> registry" where
  "reg_remove lid r =
     (case hm_get (rg_leases r) lid of
        None \<Rightarrow> (None, r)
      | Some l \<Rightarrow>
          let r1 = r\<lparr>rg_leases := hm_del lid (rg_leases r)\<rparr>
          in (Some l, if ls_nonce l \<noteq> []
                      then r1\<lparr>rg_by_nonce := hm_del (ls_nonce l) (rg_by_nonce r1)\<rparr> else r1))"

definition reg_touch :: "real \<Rightarrow> string \<Rightarrow> real \<Rightarrow> registry \<Rightarrow> lease option \<times> registry" where
  "reg_touch now lid ttl r =
     (case hm_get (rg_leases r) lid of
        None \<Rightarrow> (None, r)
      | Some l \<Rightarrow>
          let l' = l\<lparr>ls_heartbeat_at := now, ls_expires_at := now + ttl\<rparr>
          in (Some l', r\<lparr>rg_leases := hm_put lid l' (rg_leases r)\<rparr>))"

definition all_leases :: "registry \<Rightarrow> lease list" where
  "all_leases r = hm_values (rg_leases r)"

text \<open>Removing a list of ids, as the loops of \<open>reap_expired\<close> and \<open>replace_synthetic\<close> do.\<close>

fun remove_ids :: "string list \<Rightarrow> registry \<Rightarrow> lease list \<times> registry" where
  "remove_ids [] r = ([], r)"
| "remove_ids (lid # ids) r =
     (case reg_remove lid r of
        (None, r1) \<Rightarrow> remove_ids ids r1
      | (Some l, r1) \<Rightarrow> (case remove_ids ids r1 of (ls, r2) \<Rightarrow> (l # ls, r2)))"

definition reap_expired :: "real \<Rightarrow> registry \<Rightarrow> lease list \<times> registry" where
  "reap_expired now r =
     (let expired_ids = map fst (filter (\<lambda>(_, l). \<not> ls_synthetic l \<and> now > ls_expires_at l) (rg_leases r))
      in remove_ids expired_ids r)"

definition replace_synthetic :: "string \<Rightarrow> lease list \<Rightarrow> registry \<Rightarrow> registry" where
  "replace_synthetic service new_leases r =
     (let ids = map fst (filter (\<lambda>(_, l). ls_synthetic l \<and> ls_service l = service) (rg_leases r));
          r1 = snd (remove_ids ids r)
      in r1\<lparr>rg_leases := fold (\<lambda>l m. hm_put (ls_id l) l m) new_leases (rg_leases r1)\<rparr>)"

section \<open>The registry's invariant\<close>

text \<open>
  \<open>reg_ok\<close>, what every operation keeps: keys are distinct, a lease is stored under its own
  id, and an entry of the nonce index names a live lease that carries the nonce.
\<close>

definition reg_ok :: "registry \<Rightarrow> bool" where
  "reg_ok r \<longleftrightarrow> hm_ok (rg_leases r) \<and> hm_ok (rg_by_nonce r)
     \<and> (\<forall>(lid, l) \<in> set (rg_leases r). ls_id l = lid)
     \<and> (\<forall>(n, lid) \<in> set (rg_by_nonce r). n \<noteq> [] \<and>
          (case hm_get (rg_leases r) lid of None \<Rightarrow> False | Some l \<Rightarrow> ls_nonce l = n))"

lemma reg_ok_iff:
  "reg_ok r \<longleftrightarrow> hm_ok (rg_leases r) \<and> hm_ok (rg_by_nonce r)
     \<and> (\<forall>lid l. hm_get (rg_leases r) lid = Some l \<longrightarrow> ls_id l = lid)
     \<and> (\<forall>n lid. hm_get (rg_by_nonce r) n = Some lid \<longrightarrow>
          n \<noteq> [] \<and> (\<exists>l. hm_get (rg_leases r) lid = Some l \<and> ls_nonce l = n))"
proof (cases "hm_ok (rg_leases r) \<and> hm_ok (rg_by_nonce r)")
  case True
  then have l: "(\<forall>e \<in> set (rg_leases r). case e of (lid, l) \<Rightarrow> ls_id l = lid)
      \<longleftrightarrow> (\<forall>lid l. hm_get (rg_leases r) lid = Some l \<longrightarrow> ls_id l = lid)"
    by (intro hm_all_entries) simp
  have n: "(\<forall>e \<in> set (rg_by_nonce r). case e of (n, lid) \<Rightarrow> n \<noteq> [] \<and>
          (case hm_get (rg_leases r) lid of None \<Rightarrow> False | Some l \<Rightarrow> ls_nonce l = n))
      \<longleftrightarrow> (\<forall>n lid. hm_get (rg_by_nonce r) n = Some lid \<longrightarrow> n \<noteq> [] \<and>
          (case hm_get (rg_leases r) lid of None \<Rightarrow> False | Some l \<Rightarrow> ls_nonce l = n))"
    using True by (intro hm_all_entries) simp
  have o: "(case x of None \<Rightarrow> False | Some l \<Rightarrow> ls_nonce l = m) \<longleftrightarrow> (\<exists>l. x = Some l \<and> ls_nonce l = m)"
    for x and m by (cases x) simp_all
  show ?thesis unfolding reg_ok_def l n unfolding o ..
qed (auto simp: reg_ok_def)

lemma reg_ok_intro:
  assumes "hm_ok (rg_leases r)" and "hm_ok (rg_by_nonce r)"
    and "\<And>lid l. hm_get (rg_leases r) lid = Some l \<Longrightarrow> ls_id l = lid"
    and "\<And>n lid. hm_get (rg_by_nonce r) n = Some lid \<Longrightarrow>
          n \<noteq> [] \<and> (\<exists>l. hm_get (rg_leases r) lid = Some l \<and> ls_nonce l = n)"
  shows "reg_ok r"
  using assms by (simp add: reg_ok_iff)

lemma reg_ok_leases: "reg_ok r \<Longrightarrow> hm_ok (rg_leases r)"
  by (simp add: reg_ok_def)

lemma reg_ok_id: "reg_ok r \<Longrightarrow> hm_get (rg_leases r) lid = Some l \<Longrightarrow> ls_id l = lid"
  by (simp add: reg_ok_iff)

lemma reg_ok_index: "reg_ok r \<Longrightarrow> hm_get (rg_by_nonce r) n = Some lid \<Longrightarrow>
    n \<noteq> [] \<and> (\<exists>l. hm_get (rg_leases r) lid = Some l \<and> ls_nonce l = n)"
  by (simp add: reg_ok_iff)

lemma reg_ok_new [wf_intros]: "reg_ok reg_new"
  by (simp add: reg_ok_def reg_new_def)

lemma reg_ok_set_gpu [wf_intros]: "reg_ok r \<Longrightarrow> reg_ok (set_gpu now t u n r)"
  by (simp add: reg_ok_def set_gpu_def)

lemma reg_ok_set_dram [wf_intros]: "reg_ok r \<Longrightarrow> reg_ok (set_dram now t u r)"
  by (simp add: reg_ok_def set_dram_def)

lemma reg_ok_add [wf_intros]:
  assumes ok: "reg_ok r" and fresh: "hm_get (rg_leases r) (ls_id l) = None"
  shows "reg_ok (reg_add l r)"
proof (rule reg_ok_intro)
  show "hm_ok (rg_leases (reg_add l r))" "hm_ok (rg_by_nonce (reg_add l r))"
    using ok by (auto simp: reg_add_def Let_def reg_ok_def)
  show "\<And>lid k. hm_get (rg_leases (reg_add l r)) lid = Some k \<Longrightarrow> ls_id k = lid"
    using ok by (auto simp: reg_add_def Let_def reg_ok_id split: if_splits)
  fix n lid
  assume "hm_get (rg_by_nonce (reg_add l r)) n = Some lid"
  then show "n \<noteq> [] \<and> (\<exists>k. hm_get (rg_leases (reg_add l r)) lid = Some k \<and> ls_nonce k = n)"
    using reg_ok_index [OF ok, of n lid] fresh
    by (auto simp: reg_add_def Let_def split: if_splits)
qed

lemma reg_ok_remove [wf_intros]:
  assumes ok: "reg_ok r"
  shows "reg_ok (snd (reg_remove lid r))"
proof (cases "hm_get (rg_leases r) lid")
  case None
  then show ?thesis using ok by (simp add: reg_remove_def)
next
  case (Some l)
  show ?thesis
  proof (rule reg_ok_intro)
    show "hm_ok (rg_leases (snd (reg_remove lid r)))" "hm_ok (rg_by_nonce (snd (reg_remove lid r)))"
      using ok Some by (auto simp: reg_remove_def Let_def reg_ok_def)
    show "\<And>k m. hm_get (rg_leases (snd (reg_remove lid r))) k = Some m \<Longrightarrow> ls_id m = k"
      using ok Some by (auto simp: reg_remove_def Let_def reg_ok_id split: if_splits)
    fix n k
    assume "hm_get (rg_by_nonce (snd (reg_remove lid r))) n = Some k"
    with Some have "hm_get (rg_by_nonce r) n = Some k" and "n \<noteq> ls_nonce l \<or> ls_nonce l = []"
      by (auto simp: reg_remove_def Let_def split: if_splits)
    with reg_ok_index [OF ok this(1)] Some
    show "n \<noteq> [] \<and> (\<exists>m. hm_get (rg_leases (snd (reg_remove lid r))) k = Some m \<and> ls_nonce m = n)"
      by (auto simp: reg_remove_def Let_def)
  qed
qed

lemma reg_ok_touch [wf_intros]:
  assumes ok: "reg_ok r"
  shows "reg_ok (snd (reg_touch now lid ttl r))"
proof (cases "hm_get (rg_leases r) lid")
  case None
  then show ?thesis using ok by (simp add: reg_touch_def)
next
  case (Some l)
  show ?thesis
  proof (rule reg_ok_intro)
    show "hm_ok (rg_leases (snd (reg_touch now lid ttl r)))" "hm_ok (rg_by_nonce (snd (reg_touch now lid ttl r)))"
      using ok Some by (auto simp: reg_touch_def Let_def reg_ok_def)
    show "\<And>k m. hm_get (rg_leases (snd (reg_touch now lid ttl r))) k = Some m \<Longrightarrow> ls_id m = k"
      using reg_ok_id [OF ok] Some by (auto simp: reg_touch_def Let_def split: if_splits)
    fix n k
    assume "hm_get (rg_by_nonce (snd (reg_touch now lid ttl r))) n = Some k"
    with Some have "hm_get (rg_by_nonce r) n = Some k" by (simp add: reg_touch_def Let_def)
    from reg_ok_index [OF ok this] Some
    show "n \<noteq> [] \<and> (\<exists>m. hm_get (rg_leases (snd (reg_touch now lid ttl r))) k = Some m \<and> ls_nonce m = n)"
      by (auto simp: reg_touch_def Let_def)
  qed
qed

lemma reg_ok_remove_ids [wf_intros]: "reg_ok r \<Longrightarrow> reg_ok (snd (remove_ids ids r))"
proof (induction ids r rule: remove_ids.induct)
  case (2 lid ids r)
  have "reg_ok (snd (reg_remove lid r))" using "2.prems" by (rule reg_ok_remove)
  then show ?case using "2.IH" by (auto split: prod.splits option.splits)
qed simp

lemma reg_ok_reap [wf_intros]: "reg_ok r \<Longrightarrow> reg_ok (snd (reap_expired now r))"
  by (simp add: reap_expired_def Let_def reg_ok_remove_ids)

lemma get_remove_ids:
  "hm_get (rg_leases (snd (remove_ids ids r))) k
     = (if k \<in> set ids then None else hm_get (rg_leases r) k)"
proof (induction ids r rule: remove_ids.induct)
  case (2 lid ids r)
  have get: "hm_get (rg_leases (snd (reg_remove lid r))) k
      = (if k = lid then None else hm_get (rg_leases r) k)"
    by (auto simp: reg_remove_def Let_def split: option.splits)
  show ?case using "2.IH" get by (auto split: prod.splits option.splits)
qed simp

lemma reg_ok_put_plain:
  assumes ok: "reg_ok r" and fresh: "hm_get (rg_leases r) (ls_id l) = None"
  shows "reg_ok (r\<lparr>rg_leases := hm_put (ls_id l) l (rg_leases r)\<rparr>)"
proof (rule reg_ok_intro)
  fix n lid
  assume "hm_get (rg_by_nonce (r\<lparr>rg_leases := hm_put (ls_id l) l (rg_leases r)\<rparr>)) n = Some lid"
  then have "hm_get (rg_by_nonce r) n = Some lid" by simp
  from reg_ok_index [OF ok this] fresh
  show "n \<noteq> [] \<and> (\<exists>k. hm_get (rg_leases (r\<lparr>rg_leases := hm_put (ls_id l) l (rg_leases r)\<rparr>)) lid = Some k
      \<and> ls_nonce k = n)"
    by auto
next
  show "\<And>k m. hm_get (rg_leases (r\<lparr>rg_leases := hm_put (ls_id l) l (rg_leases r)\<rparr>)) k = Some m \<Longrightarrow> ls_id m = k"
    using reg_ok_id [OF ok] by (auto split: if_splits)
qed (use ok in \<open>simp_all add: reg_ok_def\<close>)

lemma reg_ok_put_all:
  assumes "reg_ok r" and "\<forall>l\<in>set ls. hm_get (rg_leases r) (ls_id l) = None" and "distinct (map ls_id ls)"
  shows "reg_ok (r\<lparr>rg_leases := fold (\<lambda>l m. hm_put (ls_id l) l m) ls (rg_leases r)\<rparr>)"
  using assms
proof (induction ls arbitrary: r)
  case (Cons l ls)
  let ?r = "r\<lparr>rg_leases := hm_put (ls_id l) l (rg_leases r)\<rparr>"
  have "reg_ok ?r"
    using Cons.prems by (intro reg_ok_put_plain) auto
  moreover have "\<forall>k\<in>set ls. hm_get (rg_leases ?r) (ls_id k) = None"
    using Cons.prems by (auto simp: image_iff)
  ultimately have "reg_ok (?r\<lparr>rg_leases := fold (\<lambda>l m. hm_put (ls_id l) l m) ls (rg_leases ?r)\<rparr>)"
    using Cons.prems by (intro Cons.IH) auto
  then show ?case by simp
qed simp

lemma reg_ok_replace [wf_intros]:
  assumes "reg_ok r" and "\<forall>l\<in>set ls. hm_get (rg_leases r) (ls_id l) = None" and "distinct (map ls_id ls)"
  shows "reg_ok (replace_synthetic svc ls r)"
  unfolding replace_synthetic_def Let_def
  using assms by (intro reg_ok_put_all reg_ok_remove_ids) (auto simp: get_remove_ids)

text \<open>
  \<open>reg_full\<close>: the index is complete as well, so no two live leases share a nonce. A grant
  keeps it when its nonce is not in use; two overlapping requests with one nonce break it.
\<close>

definition reg_full :: "registry \<Rightarrow> bool" where
  "reg_full r \<longleftrightarrow> hm_ok (rg_leases r) \<and> hm_ok (rg_by_nonce r)
     \<and> (\<forall>lid l. hm_get (rg_leases r) lid = Some l \<longrightarrow> ls_id l = lid)
     \<and> (\<forall>n lid. hm_get (rg_by_nonce r) n = Some lid \<longleftrightarrow>
          n \<noteq> [] \<and> (\<exists>l. hm_get (rg_leases r) lid = Some l \<and> ls_nonce l = n))"

lemma reg_fullI:
  assumes "hm_ok (rg_leases r)" and "hm_ok (rg_by_nonce r)"
    and "\<And>lid l. hm_get (rg_leases r) lid = Some l \<Longrightarrow> ls_id l = lid"
    and "\<And>n lid. hm_get (rg_by_nonce r) n = Some lid \<longleftrightarrow>
          n \<noteq> [] \<and> (\<exists>l. hm_get (rg_leases r) lid = Some l \<and> ls_nonce l = n)"
  shows "reg_full r"
  using assms by (simp add: reg_full_def)

lemma reg_full_leases: "reg_full r \<Longrightarrow> hm_ok (rg_leases r)"
  by (simp add: reg_full_def)

lemma reg_full_nonces: "reg_full r \<Longrightarrow> hm_ok (rg_by_nonce r)"
  by (simp add: reg_full_def)

lemma reg_full_id: "reg_full r \<Longrightarrow> hm_get (rg_leases r) lid = Some l \<Longrightarrow> ls_id l = lid"
  by (simp add: reg_full_def)

lemma reg_full_nonce_iff: "reg_full r \<Longrightarrow> hm_get (rg_by_nonce r) n = Some lid \<longleftrightarrow>
    n \<noteq> [] \<and> (\<exists>l. hm_get (rg_leases r) lid = Some l \<and> ls_nonce l = n)"
  by (simp add: reg_full_def)

lemma reg_full_nonce_unique:
  assumes "reg_full r" and "hm_get (rg_leases r) a = Some l" and "hm_get (rg_leases r) b = Some l'"
    and "ls_nonce l = ls_nonce l'" and "ls_nonce l \<noteq> []"
  shows "a = b"
proof -
  from assms have "hm_get (rg_by_nonce r) (ls_nonce l) = Some a"
    and "hm_get (rg_by_nonce r) (ls_nonce l) = Some b"
    by (auto simp: reg_full_nonce_iff)
  then show ?thesis by simp
qed

lemma reg_full_new [wf_intros]: "reg_full reg_new"
  by (simp add: reg_full_def reg_new_def)

lemma reg_full_set_gpu [wf_intros]: "reg_full r \<Longrightarrow> reg_full (set_gpu now t u n r)"
  by (simp add: reg_full_def set_gpu_def)

lemma reg_full_set_dram [wf_intros]: "reg_full r \<Longrightarrow> reg_full (set_dram now t u r)"
  by (simp add: reg_full_def set_dram_def)

lemma reg_full_ok: "reg_full r \<Longrightarrow> reg_ok r"
  by (rule reg_ok_intro) (auto simp: reg_full_def)

lemma find_by_nonce_Some:
  assumes ok: "reg_full r"
  shows "find_by_nonce n r = Some l \<longleftrightarrow>
     n \<noteq> [] \<and> ls_nonce l = n \<and> hm_get (rg_leases r) (ls_id l) = Some l"
proof
  assume "find_by_nonce n r = Some l"
  then obtain lid where n: "n \<noteq> []" and idx: "hm_get (rg_by_nonce r) n = Some lid"
    and get: "hm_get (rg_leases r) lid = Some l"
    by (auto simp: find_by_nonce_def split: if_splits option.splits)
  from idx obtain k where "hm_get (rg_leases r) lid = Some k" "ls_nonce k = n"
    using reg_full_nonce_iff [OF ok] by blast
  with n get show "n \<noteq> [] \<and> ls_nonce l = n \<and> hm_get (rg_leases r) (ls_id l) = Some l"
    using reg_full_id [OF ok get] by simp
next
  assume l: "n \<noteq> [] \<and> ls_nonce l = n \<and> hm_get (rg_leases r) (ls_id l) = Some l"
  then have "hm_get (rg_by_nonce r) n = Some (ls_id l)"
    using reg_full_nonce_iff [OF ok] by blast
  with l show "find_by_nonce n r = Some l" by (simp add: find_by_nonce_def)
qed

lemma find_by_nonce_None:
  assumes "reg_full r" and "n \<noteq> []"
  shows "find_by_nonce n r = None \<longleftrightarrow> (\<forall>lid l. hm_get (rg_leases r) lid = Some l \<longrightarrow> ls_nonce l \<noteq> n)"
proof -
  have "find_by_nonce n r = None \<longleftrightarrow> (\<forall>l. find_by_nonce n r \<noteq> Some l)" by auto
  also have "\<dots> \<longleftrightarrow> (\<forall>l. ls_nonce l = n \<longrightarrow> hm_get (rg_leases r) (ls_id l) \<noteq> Some l)"
    using assms(2) by (auto simp: find_by_nonce_Some [OF assms(1)])
  also have "\<dots> \<longleftrightarrow> (\<forall>lid l. hm_get (rg_leases r) lid = Some l \<longrightarrow> ls_nonce l \<noteq> n)"
    using reg_full_id [OF assms(1)] by blast
  finally show ?thesis .
qed

text \<open>A new lease has a fresh id (a UUID) and a nonce no live lease has.\<close>

definition lease_fresh :: "lease \<Rightarrow> registry \<Rightarrow> bool" where
  "lease_fresh l r \<longleftrightarrow> hm_get (rg_leases r) (ls_id l) = None \<and> find_by_nonce (ls_nonce l) r = None"

lemma reg_full_add [wf_intros]:
  assumes ok: "reg_full r" and fresh: "lease_fresh l r"
  shows "reg_full (reg_add l r)"
proof (rule reg_fullI)
  show "hm_ok (rg_leases (reg_add l r))" "hm_ok (rg_by_nonce (reg_add l r))"
    using ok by (auto simp: reg_add_def Let_def reg_full_def)
  show "\<And>lid k. hm_get (rg_leases (reg_add l r)) lid = Some k \<Longrightarrow> ls_id k = lid"
    using ok by (auto simp: reg_add_def Let_def reg_full_id split: if_splits)
  fix n lid
  have none: "\<And>lid k. n \<noteq> [] \<Longrightarrow> n = ls_nonce l \<Longrightarrow> hm_get (rg_leases r) lid = Some k \<Longrightarrow> ls_nonce k \<noteq> n"
    using fresh find_by_nonce_None [OF ok, of n] by (auto simp: lease_fresh_def)
  have get: "hm_get (rg_leases (reg_add l r)) lid
      = (if lid = ls_id l then Some l else hm_get (rg_leases r) lid)"
    by (simp add: reg_add_def Let_def)
  have nonce: "hm_get (rg_by_nonce (reg_add l r)) n
      = (if n = ls_nonce l \<and> n \<noteq> [] then Some (ls_id l) else hm_get (rg_by_nonce r) n)"
    using ok by (auto simp: reg_add_def Let_def)
  show "hm_get (rg_by_nonce (reg_add l r)) n = Some lid \<longleftrightarrow>
          n \<noteq> [] \<and> (\<exists>k. hm_get (rg_leases (reg_add l r)) lid = Some k \<and> ls_nonce k = n)"
    using none fresh ok by (auto simp: get nonce lease_fresh_def reg_full_nonce_iff)
qed

lemma reg_remove_snd:
  "snd (reg_remove lid r) = r
     \<lparr>rg_leases := hm_del lid (rg_leases r),
      rg_by_nonce := (case hm_get (rg_leases r) lid of None \<Rightarrow> rg_by_nonce r
        | Some l \<Rightarrow> if ls_nonce l \<noteq> [] then hm_del (ls_nonce l) (rg_by_nonce r) else rg_by_nonce r)\<rparr>
   \<or> hm_get (rg_leases r) lid = None \<and> snd (reg_remove lid r) = r"
  by (auto simp: reg_remove_def Let_def split: option.splits)

lemma reg_full_remove [wf_intros]:
  assumes ok: "reg_full r"
  shows "reg_full (snd (reg_remove lid r))"
proof (cases "hm_get (rg_leases r) lid")
  case None
  then show ?thesis using ok by (simp add: reg_remove_def)
next
  case (Some l)
  let ?r = "snd (reg_remove lid r)"
  have get: "hm_get (rg_leases ?r) k = (if k = lid then None else hm_get (rg_leases r) k)" for k
    using Some by (simp add: reg_remove_def Let_def)
  have nonce: "hm_get (rg_by_nonce ?r) n
      = (if n = ls_nonce l \<and> n \<noteq> [] then None else hm_get (rg_by_nonce r) n)" for n
    using Some by (auto simp: reg_remove_def Let_def)
  show ?thesis
  proof (rule reg_fullI)
    show "hm_ok (rg_leases ?r)" "hm_ok (rg_by_nonce ?r)"
      using ok Some by (auto simp: reg_remove_def Let_def reg_full_def)
    show "\<And>k m. hm_get (rg_leases ?r) k = Some m \<Longrightarrow> ls_id m = k"
      using ok by (auto simp: get reg_full_id split: if_splits)
    fix n k
    show "hm_get (rg_by_nonce ?r) n = Some k \<longleftrightarrow>
          n \<noteq> [] \<and> (\<exists>m. hm_get (rg_leases ?r) k = Some m \<and> ls_nonce m = n)"
      using ok Some reg_full_nonce_unique [OF ok Some]
      by (auto simp: get nonce reg_full_nonce_iff)
  qed
qed

lemma reg_full_touch [wf_intros]:
  assumes ok: "reg_full r"
  shows "reg_full (snd (reg_touch now lid ttl r))"
proof (cases "hm_get (rg_leases r) lid")
  case None
  then show ?thesis using ok by (simp add: reg_touch_def)
next
  case (Some l)
  then show ?thesis
    using ok by (intro reg_fullI) (auto simp: reg_touch_def Let_def reg_full_def split: if_splits)
qed

lemma reg_full_remove_ids [wf_intros]: "reg_full r \<Longrightarrow> reg_full (snd (remove_ids ids r))"
proof (induction ids r rule: remove_ids.induct)
  case (2 lid ids r)
  have "reg_full (snd (reg_remove lid r))" using "2.prems" by (rule reg_full_remove)
  then show ?case using "2.IH" by (auto split: prod.splits option.splits)
qed simp

lemma reg_full_reap [wf_intros]: "reg_full r \<Longrightarrow> reg_full (snd (reap_expired now r))"
  by (simp add: reap_expired_def Let_def reg_full_remove_ids)

lemma reg_full_put_plain:
  assumes ok: "reg_full r" and "hm_get (rg_leases r) (ls_id l) = None" and "ls_nonce l = []"
  shows "reg_full (r\<lparr>rg_leases := hm_put (ls_id l) l (rg_leases r)\<rparr>)"
  using assms by (intro reg_fullI) (auto simp: reg_full_def split: if_splits)

lemma reg_full_put_all:
  assumes "reg_full r" and "distinct (map ls_id ls)"
    and "\<forall>l\<in>set ls. ls_nonce l = [] \<and> hm_get (rg_leases r) (ls_id l) = None"
  shows "reg_full (r\<lparr>rg_leases := fold (\<lambda>l m. hm_put (ls_id l) l m) ls (rg_leases r)\<rparr>)"
  using assms
proof (induction ls arbitrary: r)
  case (Cons l ls)
  let ?r = "r\<lparr>rg_leases := hm_put (ls_id l) l (rg_leases r)\<rparr>"
  have "reg_full ?r" using Cons.prems by (intro reg_full_put_plain) auto
  moreover have "\<forall>k\<in>set ls. ls_nonce k = [] \<and> hm_get (rg_leases ?r) (ls_id k) = None"
    using Cons.prems by (auto simp: image_iff)
  ultimately have "reg_full (?r\<lparr>rg_leases := fold (\<lambda>l m. hm_put (ls_id l) l m) ls (rg_leases ?r)\<rparr>)"
    using Cons.prems by (intro Cons.IH) auto
  then show ?case by simp
qed simp

lemma reg_full_replace [wf_intros]:
  assumes "reg_full r" and "distinct (map ls_id ls)"
    and "\<forall>l\<in>set ls. ls_nonce l = [] \<and> hm_get (rg_leases r) (ls_id l) = None"
  shows "reg_full (replace_synthetic svc ls r)"
  unfolding replace_synthetic_def Let_def
  using assms by (intro reg_full_put_all reg_full_remove_ids) (auto simp: get_remove_ids)

section \<open>The accounting of each operation\<close>

text \<open>The exact (unwrapped) sums.\<close>

definition vram_sum :: "registry \<Rightarrow> nat" where
  "vram_sum r = hm_weight ls_bytes (rg_leases r)"

definition dram_sum :: "registry \<Rightarrow> nat" where
  "dram_sum r = hm_weight ls_dram (rg_leases r)"

lemma reserved_total_exact: "vram_sum r < 2 ^ 64 \<Longrightarrow> reserved_total r = vram_sum r"
  by (simp add: reserved_total_def vram_sum_def hm_weight_def u64_sum_exact)

lemma reserved_dram_exact: "dram_sum r < 2 ^ 64 \<Longrightarrow> reserved_dram_total r = dram_sum r"
  by (simp add: reserved_dram_total_def dram_sum_def hm_weight_def u64_sum_exact)

lemma free_for_grant_eq: "free_for_grant cfg r = rg_total r - reserved_total r - vc_safety_margin cfg"
  by (simp add: free_for_grant_def reserved_total_def)

lemma free_for_grant_dram_eq:
  "free_for_grant_dram cfg r = rg_dram_total r - reserved_dram_total r - vc_dram_margin cfg"
  by (simp add: free_for_grant_dram_def reserved_dram_total_def)

lemma vram_sum_add:
  "reg_ok r \<Longrightarrow> hm_get (rg_leases r) (ls_id l) = None \<Longrightarrow> vram_sum (reg_add l r) = vram_sum r + ls_bytes l"
  by (simp add: vram_sum_def reg_add_def Let_def hm_weight_put_fresh reg_ok_leases)

lemma dram_sum_add:
  "reg_ok r \<Longrightarrow> hm_get (rg_leases r) (ls_id l) = None \<Longrightarrow> dram_sum (reg_add l r) = dram_sum r + ls_dram l"
  by (simp add: dram_sum_def reg_add_def Let_def hm_weight_put_fresh reg_ok_leases)

lemma vram_sum_remove:
  assumes "reg_ok r" and "hm_get (rg_leases r) lid = Some l"
  shows "vram_sum (snd (reg_remove lid r)) + ls_bytes l = vram_sum r"
  using hm_weight_del [OF reg_ok_leases [OF assms(1)], of ls_bytes lid] assms
  by (simp add: vram_sum_def reg_remove_def Let_def)

lemma vram_sum_touch:
  assumes "reg_ok r"
  shows "vram_sum (snd (reg_touch now lid ttl r)) = vram_sum r"
proof (cases "hm_get (rg_leases r) lid")
  case None
  then show ?thesis by (simp add: reg_touch_def)
next
  case (Some l)
  with hm_weight_put [OF reg_ok_leases [OF assms], of ls_bytes lid
      "l\<lparr>ls_heartbeat_at := now, ls_expires_at := now + ttl\<rparr>"]
  show ?thesis by (simp add: vram_sum_def reg_touch_def Let_def)
qed

text \<open>
  \<open>reap_expired\<close> drops exactly the real leases whose time has run out; synthetic leases
  and leases touched in time stay.
\<close>

lemma reap_expired_get:
  assumes "reg_ok r"
  shows "hm_get (rg_leases (snd (reap_expired now r))) lid =
    (case hm_get (rg_leases r) lid of None \<Rightarrow> None
     | Some l \<Rightarrow> if \<not> ls_synthetic l \<and> now > ls_expires_at l then None else Some l)"
proof -
  have "lid \<in> set (map fst (filter (\<lambda>(_, l). \<not> ls_synthetic l \<and> now > ls_expires_at l) (rg_leases r)))
    \<longleftrightarrow> (\<exists>l. hm_get (rg_leases r) lid = Some l \<and> \<not> ls_synthetic l \<and> now > ls_expires_at l)"
    using hm_entry_iff [OF reg_ok_leases [OF assms]] by force
  then show ?thesis
    by (auto simp: reap_expired_def Let_def get_remove_ids split: option.splits)
qed

end
