(* ===== verification/Vram_Estimate.thy ===== *)
theory Vram_Estimate
  imports Vram_Registry
begin

text \<open>
  The keep-warm cache (\<open>model_cache.rs\<close>) and the footprint estimates for requests without a
  size (\<open>estimate.rs\<close>): cache, live synthetic lease, name heuristic, configured defaults, in
  this order. The name heuristic parses an \<open>f64\<close> by the grammar of Rust's \<open>f64::from_str\<close>;
  its value is a real number, an infinity or not-a-number, without rounding.
\<close>

section \<open>The keep-warm cache\<close>

record cache_entry =
  ce_service :: string
  ce_model :: string
  ce_bytes :: nat
  ce_last_used :: real
  ce_last_priority :: int

record model_cache =
  mc_ttl :: real
  mc_entries :: "(string, cache_entry) hmap"

definition cache_key :: "string \<Rightarrow> string \<Rightarrow> string" where
  "cache_key service model = service @ '':'' @ model"

definition cache_touch :: "real \<Rightarrow> string \<Rightarrow> string \<Rightarrow> nat \<Rightarrow> int \<Rightarrow> model_cache \<Rightarrow> model_cache" where
  "cache_touch now service model nbytes priority c =
     c\<lparr>mc_entries := hm_put (cache_key service model)
        \<lparr>ce_service = service, ce_model = model, ce_bytes = nbytes, ce_last_used = now,
         ce_last_priority = priority\<rparr> (mc_entries c)\<rparr>"

definition cache_last_used :: "string \<Rightarrow> string \<Rightarrow> model_cache \<Rightarrow> real" where
  "cache_last_used service model c =
     (case hm_get (mc_entries c) (cache_key service model) of
        None \<Rightarrow> 0 | Some e \<Rightarrow> ce_last_used e)"

definition warm_for :: "real \<Rightarrow> string \<Rightarrow> string \<Rightarrow> model_cache \<Rightarrow> bool" where
  "warm_for now service model c =
     (case hm_get (mc_entries c) (cache_key service model) of
        None \<Rightarrow> False
      | Some e \<Rightarrow> now - ce_last_used e < mc_ttl c)"

definition cache_all :: "real \<Rightarrow> model_cache \<Rightarrow> cache_entry list" where
  "cache_all now c =
     (let cutoff = now - mc_ttl c in filter (\<lambda>e. cutoff \<le> ce_last_used e) (hm_values (mc_entries c)))"

definition cache_prune :: "real \<Rightarrow> model_cache \<Rightarrow> nat \<times> model_cache" where
  "cache_prune now c =
     (let cutoff = now - mc_ttl c;
          stale = map fst (filter (\<lambda>(_, e). ce_last_used e < cutoff) (mc_entries c))
      in (length stale, c\<lparr>mc_entries := fold hm_del stale (mc_entries c)\<rparr>))"

lemma fold_del_get: "hm_get (fold hm_del ks m) k = (if k \<in> set ks then None else hm_get m k)"
  by (induction ks arbitrary: m) auto

lemma fold_del_ok: "hm_ok m \<Longrightarrow> hm_ok (fold hm_del ks m)"
  by (induction ks arbitrary: m) auto

text \<open>Pruning removes exactly the entries older than the time to live.\<close>

lemma cache_prune_get:
  assumes "hm_ok (mc_entries c)"
  shows "hm_get (mc_entries (snd (cache_prune now c))) k =
    (case hm_get (mc_entries c) k of None \<Rightarrow> None
     | Some e \<Rightarrow> if ce_last_used e < now - mc_ttl c then None else Some e)"
proof -
  have "k \<in> set (map fst (filter (\<lambda>(_, e). ce_last_used e < now - mc_ttl c) (mc_entries c)))
      \<longleftrightarrow> (\<exists>e. hm_get (mc_entries c) k = Some e \<and> ce_last_used e < now - mc_ttl c)"
    using hm_entry_iff [OF assms] by force
  then show ?thesis
    by (auto simp: cache_prune_def Let_def fold_del_get split: option.splits)
qed

section \<open>Parsing a float\<close>

datatype f64val = FNan | FInf bool | FNum real

definition digits_val :: "string \<Rightarrow> nat" where
  "digits_val s = foldl (\<lambda>v c. 10 * v + (of_char c - 48)) 0 s"

definition parse_exp :: "string \<Rightarrow> int option" where
  "parse_exp s =
     (case s of [] \<Rightarrow> None
      | c # r \<Rightarrow>
          let (neg, ds) = (if c = CHR ''-'' then (True, r) else if c = CHR ''+'' then (False, r) else (False, s))
          in if ds = [] \<or> \<not> list_all is_digit ds then None
             else Some (if neg then - int (digits_val ds) else int (digits_val ds)))"

definition pow10 :: "int \<Rightarrow> real" where
  "pow10 e = (if 0 \<le> e then 10 ^ nat e else 1 / 10 ^ nat (- e))"

definition parse_number :: "string \<Rightarrow> real option" where
  "parse_number s =
     (let ip = takeWhile is_digit s; rest = dropWhile is_digit s;
          (fp, rest2) = (case rest of [] \<Rightarrow> ([], [])
             | c # r \<Rightarrow> if c = CHR ''.'' then (takeWhile is_digit r, dropWhile is_digit r) else ([], rest))
      in if ip = [] \<and> fp = [] then None
         else let m = real (digits_val (ip @ fp)) / 10 ^ length fp
              in case rest2 of [] \<Rightarrow> Some m
                 | c # r \<Rightarrow> if c = CHR ''e'' \<or> c = CHR ''E''
                     then map_option (\<lambda>e. m * pow10 e) (parse_exp r) else None)"

definition parse_f64 :: "string \<Rightarrow> f64val option" where
  "parse_f64 s =
     (let (neg, t) = (case s of [] \<Rightarrow> (False, [])
             | c # r \<Rightarrow> if c = CHR ''-'' then (True, r) else if c = CHR ''+'' then (False, r) else (False, s));
          l = to_ascii_lowercase t
      in if l = ''inf'' \<or> l = ''infinity'' then Some (FInf neg)
         else if l = ''nan'' then Some FNan
         else map_option (\<lambda>r. FNum (if neg then - r else r)) (parse_number t))"

section \<open>Estimates\<close>

definition GIB :: nat where
  "GIB = 1024 * 1024 * 1024"

record estimate =
  es_vram :: nat
  es_dram :: nat

definition normalize_model_name :: "string \<Rightarrow> string" where
  "normalize_model_name name = to_ascii_lowercase (trim name)"

definition model_cache_bytes :: "real \<Rightarrow> model_cache \<Rightarrow> string \<Rightarrow> string \<Rightarrow> nat option" where
  "model_cache_bytes now c service model =
     (if \<not> warm_for now service model c then None
      else map_option ce_bytes
        (List.find (\<lambda>e. ce_service e = service \<and> ce_model e = model) (cache_all now c)))"

definition synthetic_bytes_for :: "registry \<Rightarrow> string \<Rightarrow> (nat \<times> nat) option" where
  "synthetic_bytes_for r model =
     (let needle = normalize_model_name model
      in map_option (\<lambda>l. (ls_bytes l, ls_dram l))
           (List.find (\<lambda>l. normalize_model_name (ls_model l) = needle)
             (filter ls_synthetic (all_leases r))))"

definition after_last :: "(char \<Rightarrow> bool) \<Rightarrow> string \<Rightarrow> string" where
  "after_last p s = rev (takeWhile (\<lambda>c. \<not> p c) (rev s))"

text \<open>\<open>clamp(1.0, 80.0)\<close> keeps not-a-number, and \<open>NaN as u64\<close> is 0.\<close>

definition name_heuristic :: "string \<Rightarrow> nat option" where
  "name_heuristic model =
     (let lower = to_ascii_lowercase model;
          suffix = after_last (\<lambda>c. c = CHR '':'') lower;
          token = trim_end_char (CHR ''b'') (after_last (\<lambda>c. c = CHR ''-'' \<or> c = CHR ''_'') suffix)
      in case parse_f64 token of
           None \<Rightarrow> None
         | Some FNan \<Rightarrow> Some 0
         | Some (FInf neg) \<Rightarrow> Some (if neg then GIB else 80 * GIB)
         | Some (FNum n) \<Rightarrow> Some (nat \<lfloor>max 1 (min 80 (n * (6 / 10) + 1)) * real GIB\<rfloor>))"

definition estimate_for ::
  "vram_config \<Rightarrow> real \<Rightarrow> registry \<Rightarrow> model_cache \<Rightarrow> string \<Rightarrow> string \<Rightarrow> int option \<Rightarrow> estimate" where
  "estimate_for cfg now r c service model hint =
     (if hint \<noteq> None \<and> 0 < the hint then \<lparr>es_vram = nat (the hint), es_dram = 0\<rparr>
      else case model_cache_bytes now c service model of
        Some bytes \<Rightarrow> \<lparr>es_vram = bytes, es_dram = 0\<rparr>
      | None \<Rightarrow>
         (case synthetic_bytes_for r model of
            Some (vram, dram) \<Rightarrow> \<lparr>es_vram = vram, es_dram = dram\<rparr>
          | None \<Rightarrow>
             (case name_heuristic model of
                Some bytes \<Rightarrow> \<lparr>es_vram = bytes, es_dram = 0\<rparr>
              | None \<Rightarrow> \<lparr>es_vram = vc_est_vram cfg, es_dram = vc_est_dram cfg\<rparr>)))"

text \<open>
  A name that parses to a number is estimated between one and eighty gibibytes; only a
  parameter count of not-a-number escapes the clamp.
\<close>

lemma floor_gib_range:
  fixes v :: real
  assumes "1 \<le> v" and "v \<le> 80"
  shows "GIB \<le> nat \<lfloor>v * real GIB\<rfloor> \<and> nat \<lfloor>v * real GIB\<rfloor> \<le> 80 * GIB"
proof -
  let ?z = "\<lfloor>v * 1073741824\<rfloor>"
  have lo: "(1073741824::int) \<le> ?z" and hi: "?z < (85899345921::int)"
    using assms by (simp_all add: le_floor_iff floor_less_iff)
  obtain z where z: "?z = z" by blast
  have "1073741824 \<le> nat z \<and> nat z \<le> 85899345920"
    using lo hi unfolding z by auto
  then show ?thesis by (simp add: GIB_def z)
qed

lemma name_heuristic_range:
  assumes "name_heuristic m = Some b" and "b \<noteq> 0"
  shows "GIB \<le> b \<and> b \<le> 80 * GIB"
proof -
  have "\<And>x. GIB \<le> nat \<lfloor>max 1 (min 80 x) * real GIB\<rfloor>
      \<and> nat \<lfloor>max 1 (min 80 x) * real GIB\<rfloor> \<le> 80 * GIB"
    by (rule floor_gib_range) auto
  then show ?thesis
    using assms by (auto simp: name_heuristic_def Let_def split: option.splits f64val.splits if_splits)
qed

end
