(* ===== verification/Vram_Policy.thy ===== *)
theory Vram_Policy
  imports Vram_Estimate "HOL-Library.Multiset"
begin

text \<open>
  Admission (\<open>wylde-vram-broker/src/policy.rs\<close>): \<open>try_grant\<close> with its early returns, the choice
  of the leases to evict, and the two polling loops of preemption. The broker's state is the
  registry and the keep-warm cache. A fresh lease id (a UUID) and the clock are arguments;
  what the services do when they are signalled, and what happens on the other connections
  while the code sleeps, are functions on the state.
\<close>

section \<open>Requests, results and state\<close>

record grant_request =
  gq_service :: string
  gq_model :: string
  gq_bytes :: int
  gq_priority :: int
  gq_ttl :: real
  gq_preempt :: bool
  gq_pid :: nat
  gq_nonce :: string

record broker =
  bk_reg :: registry
  bk_cache :: model_cache

datatype grant_how = HowFast | HowDedup | HowSpilled | HowPreempted "string list" bool

record blocker_view =
  bv_id :: string
  bv_service :: string
  bv_model :: string
  bv_bytes :: nat
  bv_priority :: int
  bv_synthetic :: bool

datatype broker_error =
    InvalidRequest string
  | WouldExceedTotal (we_total: nat) (we_total_dram: nat) (we_requested: nat)
  | InsufficientVram (iv_requested: nat) (iv_priority: int) (iv_free: nat) (iv_total: nat)
      (iv_free_dram: nat) (iv_total_dram: nat) (iv_blockers: "blocker_view list")
      (iv_unresponsive: "string list")

type_synonym grant_result = "(broker_error, lease \<times> grant_how) rust_res"

section \<open>Recording a grant\<close>

definition grant_split ::
  "real \<Rightarrow> string \<Rightarrow> string \<Rightarrow> string \<Rightarrow> nat \<Rightarrow> nat \<Rightarrow> int \<Rightarrow> real \<Rightarrow> nat \<Rightarrow> string \<Rightarrow> bool
   \<Rightarrow> broker \<Rightarrow> lease \<times> broker" where
  "grant_split now lid service model vram_bytes dram_bytes priority ttl pid nonce estimated b =
     (let l = \<lparr>ls_id = lid, ls_service = service, ls_model = model, ls_bytes = vram_bytes,
                ls_dram = dram_bytes, ls_priority = priority, ls_granted_at = now,
                ls_expires_at = now + ttl, ls_heartbeat_at = now, ls_pid = pid,
                ls_synthetic = False, ls_estimated = estimated, ls_nonce = nonce\<rparr>
      in (l, b\<lparr>bk_reg := reg_add l (bk_reg b),
               bk_cache := cache_touch now service model vram_bytes priority (bk_cache b)\<rparr>))"

definition grant ::
  "real \<Rightarrow> string \<Rightarrow> string \<Rightarrow> string \<Rightarrow> nat \<Rightarrow> int \<Rightarrow> real \<Rightarrow> nat \<Rightarrow> string \<Rightarrow> broker \<Rightarrow> lease \<times> broker" where
  "grant now lid service model nbytes priority ttl pid nonce b =
     grant_split now lid service model nbytes 0 priority ttl pid nonce False b"

text \<open>\<open>grant_req\<close>: the argument list that every call in \<open>try_grant\<close> passes.\<close>

definition grant_req ::
  "real \<Rightarrow> string \<Rightarrow> grant_request \<Rightarrow> bool \<Rightarrow> nat \<Rightarrow> nat \<Rightarrow> broker \<Rightarrow> lease \<times> broker" where
  "grant_req now lid q estimated vram dram b =
     grant_split now lid (gq_service q) (gq_model q) vram dram (gq_priority q) (gq_ttl q)
       (gq_pid q) (gq_nonce q) estimated b"

section \<open>Errors\<close>

text \<open>Negation of an \<open>i32\<close>, wrapping as in a release build.\<close>

definition neg_i32 :: "int \<Rightarrow> int" where
  "neg_i32 p = (if p = - (2 ^ 31) then p else - p)"

definition all_blockers_view :: "registry \<Rightarrow> blocker_view list" where
  "all_blockers_view r =
     map (\<lambda>l. \<lparr>bv_id = ls_id l, bv_service = ls_service l, bv_model = ls_model l,
               bv_bytes = ls_bytes l, bv_priority = ls_priority l, bv_synthetic = ls_synthetic l\<rparr>)
       (sort_key (\<lambda>l. neg_i32 (ls_priority l)) (all_leases r))"

definition insufficient ::
  "vram_config \<Rightarrow> registry \<Rightarrow> nat \<Rightarrow> int \<Rightarrow> blocker_view list \<Rightarrow> string list \<Rightarrow> grant_result" where
  "insufficient cfg r nbytes priority blocker_snapshot unresponsive =
     Inl (InsufficientVram nbytes priority (free_for_grant cfg r) (rg_total r)
       (free_for_grant_dram cfg r) (rg_dram_total r) blocker_snapshot unresponsive)"

section \<open>Admission\<close>

text \<open>\<open>resolve_bytes\<close>: the size of the request, and whether it is an estimate (lines 92--106).\<close>

definition resolve_bytes :: "vram_config \<Rightarrow> real \<Rightarrow> grant_request \<Rightarrow> broker \<Rightarrow> (nat \<times> bool) option" where
  "resolve_bytes cfg now q b =
     (if 0 < gq_bytes q then Some (nat (gq_bytes q), False)
      else let e = estimate_for cfg now (bk_reg b) (bk_cache b) (gq_service q) (gq_model q) None
           in if es_vram e = 0 then None else Some (es_vram e, True))"

definition total_capacity :: "vram_config \<Rightarrow> registry \<Rightarrow> nat" where
  "total_capacity cfg r =
     u64_saturating_add (rg_total r - vc_safety_margin cfg)
       (if vc_spillover cfg then rg_dram_total r - vc_dram_margin cfg else 0)"

definition blockers_for :: "int \<Rightarrow> registry \<Rightarrow> lease list" where
  "blockers_for priority r =
     sort_key ls_priority
       (filter (\<lambda>l. \<not> ls_synthetic l \<and> ls_priority l < priority) (all_leases r))"

text \<open>The loop of lines 213--221: take blockers until enough bytes have accumulated.\<close>

fun pick_evict :: "nat \<Rightarrow> nat \<Rightarrow> lease list \<Rightarrow> lease list" where
  "pick_evict nbytes accum [] = []"
| "pick_evict nbytes accum (l # ls) =
     (if nbytes \<le> accum then [] else l # pick_evict nbytes (u64_add accum (ls_bytes l)) ls)"

text \<open>\<open>try_grant\<close> up to the first wait: a final result, or the leases to evict.\<close>

datatype admission = AdmitDone grant_result broker | AdmitPreempt nat bool "lease list"

definition admit :: "vram_config \<Rightarrow> real \<Rightarrow> string \<Rightarrow> grant_request \<Rightarrow> broker \<Rightarrow> admission" where
  "admit cfg now lid q b =
     (let r = bk_reg b in
      case resolve_bytes cfg now q b of
        None \<Rightarrow> AdmitDone (Inl (InvalidRequest ''bytes must be positive'')) b
      | Some (nbytes, estimated) \<Rightarrow>
      if rg_total r \<noteq> 0 \<and> total_capacity cfg r < nbytes
      then AdmitDone (Inl (WouldExceedTotal (rg_total r) (rg_dram_total r) nbytes)) b
      else case find_by_nonce (gq_nonce q) r of
        Some existing \<Rightarrow> AdmitDone (Inr (existing, HowDedup)) b
      | None \<Rightarrow>
      if nbytes \<le> free_for_grant cfg r
      then (case grant_req now lid q estimated nbytes 0 b of
              (l, b') \<Rightarrow> AdmitDone (Inr (l, HowFast)) b')
      else if vc_spillover cfg \<and> nbytes - free_for_grant cfg r \<le> free_for_grant_dram cfg r
      then (case grant_req now lid q estimated (free_for_grant cfg r) (nbytes - free_for_grant cfg r) b of
              (l, b') \<Rightarrow> AdmitDone (Inr (l, HowSpilled)) b')
      else
        let blockers = blockers_for (gq_priority q) r;
            freeable = u64_sum (map ls_bytes blockers);
            free_now = free_for_grant cfg r
        in if u64_add freeable free_now < nbytes
           then AdmitDone (insufficient cfg r nbytes (gq_priority q) (all_blockers_view r) []) b
           else if \<not> gq_preempt q
           then AdmitDone (insufficient cfg r nbytes (gq_priority q) (all_blockers_view r) []) b
           else AdmitPreempt nbytes estimated (pick_evict nbytes free_now blockers))"

section \<open>Preemption\<close>

text \<open>
  One entry of a schedule is an iteration of a polling loop: the clock when its condition is
  read, and what the rest of the system does to the state during the sleep after it. A
  schedule that ends before the deadline leaves the call waiting (\<open>None\<close>).
\<close>

type_synonym schedule = "(real \<times> (broker \<Rightarrow> broker)) list"

fun wait_fit :: "vram_config \<Rightarrow> nat \<Rightarrow> real \<Rightarrow> schedule \<Rightarrow> broker \<Rightarrow> (bool \<times> real \<times> broker \<times> schedule) option" where
  "wait_fit cfg nbytes deadline [] b = None"
| "wait_fit cfg nbytes deadline ((now, env) # sch) b =
     (if deadline \<le> now then Some (False, now, b, sch)
      else if nbytes \<le> free_for_grant cfg (bk_reg b) then Some (True, now, b, sch)
      else wait_fit cfg nbytes deadline sch (env b))"

text \<open>
  \<open>soft l b\<close>: the owner of \<open>l\<close> gets \<open>/vram/please-evict\<close>; whether it accepts, and the state
  when the reply is back. \<open>hard l b\<close>: the same for \<open>/vram/evict\<close>, whose reply is ignored.
\<close>

definition signal_soft_evict ::
  "(lease \<Rightarrow> broker \<Rightarrow> bool \<times> broker) \<Rightarrow> (lease \<Rightarrow> broker \<Rightarrow> broker) \<Rightarrow> lease \<Rightarrow> broker \<Rightarrow> broker" where
  "signal_soft_evict soft hard l b =
     (case soft l b of (ok, b1) \<Rightarrow> if \<not> ok then hard l b1 else b1)"

definition hard_evict_survivors :: "(lease \<Rightarrow> broker \<Rightarrow> broker) \<Rightarrow> lease list \<Rightarrow> broker \<Rightarrow> broker" where
  "hard_evict_survivors hard ls b =
     fold (\<lambda>l b. if reg_get (ls_id l) (bk_reg b) \<noteq> None then hard l b else b) ls b"

text \<open>Lines 244--274: hard eviction of the survivors, and the second polling loop.\<close>

definition hard_phase ::
  "vram_config \<Rightarrow> string \<Rightarrow> grant_request \<Rightarrow> (lease \<Rightarrow> broker \<Rightarrow> broker) \<Rightarrow> real \<Rightarrow> nat \<Rightarrow> bool
   \<Rightarrow> lease list \<Rightarrow> broker \<Rightarrow> schedule \<Rightarrow> (grant_result \<times> broker) option" where
  "hard_phase cfg lid q hard hard_start nbytes estimated to_evict b sch =
     (case wait_fit cfg nbytes (hard_start + vc_evict_timeout cfg) sch (hard_evict_survivors hard to_evict b) of
        None \<Rightarrow> None
      | Some (fits, now, b2, _) \<Rightarrow>
          if fits
          then (case grant_req now lid q estimated nbytes 0 b2 of
                  (l, b3) \<Rightarrow> Some (Inr (l, HowPreempted (map ls_id to_evict) False), b3))
          else let still_held = map ls_service (filter (\<lambda>l. reg_get (ls_id l) (bk_reg b2) \<noteq> None) to_evict)
               in Some (insufficient cfg (bk_reg b2) nbytes (gq_priority q)
                    (all_blockers_view (bk_reg b2)) still_held, b2))"

definition preempt ::
  "vram_config \<Rightarrow> string \<Rightarrow> grant_request \<Rightarrow> (lease \<Rightarrow> broker \<Rightarrow> bool \<times> broker) \<Rightarrow> (lease \<Rightarrow> broker \<Rightarrow> broker)
   \<Rightarrow> real \<Rightarrow> real \<Rightarrow> schedule \<Rightarrow> nat \<Rightarrow> bool \<Rightarrow> lease list \<Rightarrow> broker \<Rightarrow> (grant_result \<times> broker) option" where
  "preempt cfg lid q soft hard soft_start hard_start sch nbytes estimated to_evict b =
     (if 0 < vc_grace_period cfg
      then case wait_fit cfg nbytes (soft_start + vc_grace_period cfg) sch
             (fold (signal_soft_evict soft hard) to_evict b) of
           None \<Rightarrow> None
         | Some (fits, now, b2, sch2) \<Rightarrow>
             if fits
             then (case grant_req now lid q estimated nbytes 0 b2 of
                     (l, b3) \<Rightarrow> Some (Inr (l, HowPreempted (map ls_id to_evict) True), b3))
             else hard_phase cfg lid q hard hard_start nbytes estimated to_evict b2 sch2
      else hard_phase cfg lid q hard hard_start nbytes estimated to_evict b sch)"

definition try_grant ::
  "vram_config \<Rightarrow> real \<Rightarrow> string \<Rightarrow> (lease \<Rightarrow> broker \<Rightarrow> bool \<times> broker) \<Rightarrow> (lease \<Rightarrow> broker \<Rightarrow> broker)
   \<Rightarrow> real \<Rightarrow> real \<Rightarrow> schedule \<Rightarrow> grant_request \<Rightarrow> broker \<Rightarrow> (grant_result \<times> broker) option" where
  "try_grant cfg now lid soft hard soft_start hard_start sch q b =
     (case admit cfg now lid q b of
        AdmitDone res b' \<Rightarrow> Some (res, b')
      | AdmitPreempt nbytes estimated to_evict \<Rightarrow>
          preempt cfg lid q soft hard soft_start hard_start sch nbytes estimated to_evict b)"

section \<open>What a grant changes\<close>

definition req_lease :: "real \<Rightarrow> string \<Rightarrow> grant_request \<Rightarrow> bool \<Rightarrow> nat \<Rightarrow> nat \<Rightarrow> lease" where
  "req_lease now lid q estimated vram dram = fst (grant_req now lid q estimated vram dram undefined)"

lemma req_lease_sel [simp]:
  "ls_id (req_lease now lid q e v d) = lid" "ls_bytes (req_lease now lid q e v d) = v"
  "ls_dram (req_lease now lid q e v d) = d" "ls_nonce (req_lease now lid q e v d) = gq_nonce q"
  "ls_service (req_lease now lid q e v d) = gq_service q"
  "ls_priority (req_lease now lid q e v d) = gq_priority q"
  "ls_synthetic (req_lease now lid q e v d) = False"
  "ls_estimated (req_lease now lid q e v d) = e"
  by (simp_all add: req_lease_def grant_req_def grant_split_def Let_def)

lemma grant_req_eq:
  "grant_req now lid q e v d b = (req_lease now lid q e v d,
     b\<lparr>bk_reg := reg_add (req_lease now lid q e v d) (bk_reg b),
       bk_cache := cache_touch now (gq_service q) (gq_model q) v (gq_priority q) (bk_cache b)\<rparr>)"
  by (simp add: req_lease_def grant_req_def grant_split_def Let_def)

lemma reg_add_sel [simp]:
  "rg_total (reg_add l r) = rg_total r" "rg_dram_total (reg_add l r) = rg_dram_total r"
  by (simp_all add: reg_add_def Let_def)

lemma reg_add_get [simp]:
  "hm_get (rg_leases (reg_add l r)) k = (if k = ls_id l then Some l else hm_get (rg_leases r) k)"
  by (simp add: reg_add_def Let_def)

text \<open>The state an admission may start from: a consistent registry whose sums fit an \<open>u64\<close>.\<close>

definition accountable :: "registry \<Rightarrow> bool" where
  "accountable r \<longleftrightarrow> reg_ok r \<and> vram_sum r < 2 ^ 64 \<and> dram_sum r < 2 ^ 64 \<and> rg_total r < 2 ^ 64"

lemma free_for_grant_exact:
  "accountable r \<Longrightarrow> free_for_grant cfg r = rg_total r - vram_sum r - vc_safety_margin cfg"
  by (simp add: accountable_def free_for_grant_eq reserved_total_exact)

lemma free_for_grant_dram_exact:
  "accountable r \<Longrightarrow> free_for_grant_dram cfg r = rg_dram_total r - dram_sum r - vc_dram_margin cfg"
  by (simp add: accountable_def free_for_grant_dram_eq reserved_dram_exact)

text \<open>A grant that fits leaves the margins free.\<close>

definition within_limits :: "vram_config \<Rightarrow> lease \<Rightarrow> registry \<Rightarrow> bool" where
  "within_limits cfg l r \<longleftrightarrow>
     (ls_bytes l = 0 \<or> vram_sum r + vc_safety_margin cfg \<le> rg_total r) \<and>
     (ls_dram l = 0 \<or> dram_sum r + vc_dram_margin cfg \<le> rg_dram_total r)"

lemma grant_req_within:
  assumes "accountable (bk_reg b)" and "hm_get (rg_leases (bk_reg b)) lid = None"
    and "v \<le> free_for_grant cfg (bk_reg b)" and "d \<le> free_for_grant_dram cfg (bk_reg b)"
    and "grant_req now lid q e v d b = (l, b')"
  shows "within_limits cfg l (bk_reg b') \<and> reg_ok (bk_reg b') \<and> ls_bytes l = v \<and> ls_dram l = d
     \<and> reg_get (ls_id l) (bk_reg b') = Some l"
proof -
  let ?l = "req_lease now lid q e v d"
  have ok: "reg_ok (bk_reg b)" using assms(1) by (simp add: accountable_def)
  have l: "l = ?l" and b': "bk_reg b' = reg_add ?l (bk_reg b)"
    using assms(5) by (auto simp: grant_req_eq)
  have "vram_sum (bk_reg b') = vram_sum (bk_reg b) + v" "dram_sum (bk_reg b') = dram_sum (bk_reg b) + d"
    using vram_sum_add [OF ok, of ?l] dram_sum_add [OF ok, of ?l] assms(2) by (simp_all add: b')
  then show ?thesis
    using assms(2-4) free_for_grant_exact [OF assms(1), of cfg]
      free_for_grant_dram_exact [OF assms(1), of cfg] reg_ok_add [OF ok, of ?l]
    by (auto simp: within_limits_def l b' reg_get_def)
qed

text \<open>How an admission can end, one case per return statement.\<close>

lemma admit_doneE:
  assumes "admit cfg now lid q b = AdmitDone res b'"
  obtains (invalid) "resolve_bytes cfg now q b = None"
      "res = Inl (InvalidRequest ''bytes must be positive'')" "b' = b"
  | (exceeds) n e where "resolve_bytes cfg now q b = Some (n, e)" "b' = b"
      "rg_total (bk_reg b) \<noteq> 0" "total_capacity cfg (bk_reg b) < n"
      "res = Inl (WouldExceedTotal (rg_total (bk_reg b)) (rg_dram_total (bk_reg b)) n)"
  | (dedup) n e l where "resolve_bytes cfg now q b = Some (n, e)" "b' = b"
      "find_by_nonce (gq_nonce q) (bk_reg b) = Some l" "res = Inr (l, HowDedup)"
  | (fast) n e l where "resolve_bytes cfg now q b = Some (n, e)"
      "find_by_nonce (gq_nonce q) (bk_reg b) = None" "n \<le> free_for_grant cfg (bk_reg b)"
      "grant_req now lid q e n 0 b = (l, b')" "res = Inr (l, HowFast)"
  | (spilled) n e l where "resolve_bytes cfg now q b = Some (n, e)"
      "find_by_nonce (gq_nonce q) (bk_reg b) = None" "free_for_grant cfg (bk_reg b) < n"
      "vc_spillover cfg" "n - free_for_grant cfg (bk_reg b) \<le> free_for_grant_dram cfg (bk_reg b)"
      "grant_req now lid q e (free_for_grant cfg (bk_reg b)) (n - free_for_grant cfg (bk_reg b)) b = (l, b')"
      "res = Inr (l, HowSpilled)"
  | (insufficient) n e where "resolve_bytes cfg now q b = Some (n, e)" "b' = b"
      "find_by_nonce (gq_nonce q) (bk_reg b) = None" "free_for_grant cfg (bk_reg b) < n"
      "vc_spillover cfg \<longrightarrow> free_for_grant_dram cfg (bk_reg b) < n - free_for_grant cfg (bk_reg b)"
      "gq_preempt q \<longrightarrow> u64_add (u64_sum (map ls_bytes (blockers_for (gq_priority q) (bk_reg b))))
          (free_for_grant cfg (bk_reg b)) < n"
      "res = insufficient cfg (bk_reg b) n (gq_priority q) (all_blockers_view (bk_reg b)) []"
proof (cases "resolve_bytes cfg now q b")
  case None
  with assms have "res = Inl (InvalidRequest ''bytes must be positive'')" and "b' = b"
    by (simp_all add: admit_def Let_def)
  with None show thesis by (rule invalid)
next
  case (Some ne)
  obtain n e where ne: "ne = (n, e)" by (cases ne)
  note r = Some [unfolded ne]
  let ?r = "bk_reg b"
  let ?big = "rg_total ?r \<noteq> 0 \<and> total_capacity cfg ?r < n"
  let ?free = "free_for_grant cfg ?r"
  let ?spill = "vc_spillover cfg \<and> n - ?free \<le> free_for_grant_dram cfg ?r"
  show thesis
  proof (cases ?big)
    case True
    with r have "admit cfg now lid q b = AdmitDone (Inl (WouldExceedTotal (rg_total ?r) (rg_dram_total ?r) n)) b"
      by (simp add: admit_def Let_def)
    with assms have "res = Inl (WouldExceedTotal (rg_total ?r) (rg_dram_total ?r) n)" "b' = b" by auto
    with True r show thesis by (elim conjE) (rule exceeds)
  next
    case small: False
    show thesis
    proof (cases "find_by_nonce (gq_nonce q) ?r")
      case (Some l)
      with r small have "admit cfg now lid q b = AdmitDone (Inr (l, HowDedup)) b"
        unfolding admit_def Let_def by simp
      with assms have "res = Inr (l, HowDedup)" "b' = b" by auto
      with Some r show thesis by (intro dedup)
    next
      case new: None
      show thesis
      proof (cases "n \<le> ?free")
        case True
        obtain l b1 where g: "grant_req now lid q e n 0 b = (l, b1)" by fastforce
        with r small new True have "admit cfg now lid q b = AdmitDone (Inr (l, HowFast)) b1"
          unfolding admit_def Let_def by simp
        with assms have "res = Inr (l, HowFast)" "b' = b1" by auto
        with g r new True show thesis by (intro fast) simp_all
      next
        case full: False
        show thesis
        proof (cases ?spill)
          case True
          obtain l b1 where g: "grant_req now lid q e ?free (n - ?free) b = (l, b1)" by fastforce
          with r small new full True have "admit cfg now lid q b = AdmitDone (Inr (l, HowSpilled)) b1"
            unfolding admit_def Let_def by simp
          with assms have "res = Inr (l, HowSpilled)" "b' = b1" by auto
          with g r new full True show thesis by (intro spilled) simp_all
        next
          case False
          let ?fb = "u64_add (u64_sum (map ls_bytes (blockers_for (gq_priority q) ?r))) ?free"
          have "admit cfg now lid q b = (if ?fb < n \<or> \<not> gq_preempt q
              then AdmitDone (insufficient cfg ?r n (gq_priority q) (all_blockers_view ?r) []) b
              else AdmitPreempt n e (pick_evict n ?free (blockers_for (gq_priority q) ?r)))"
            unfolding admit_def Let_def r
            by (simp only: option.case prod.case small new full False if_False if_True) simp
          with assms have "res = insufficient cfg ?r n (gq_priority q) (all_blockers_view ?r) []" "b' = b"
            and "gq_preempt q \<longrightarrow> ?fb < n"
            by (auto split: if_splits)
          with r new full False show thesis by (intro insufficient) (simp_all add: not_le, linarith?)
        qed
      qed
    qed
  qed
qed


lemma admit_preemptD:
  assumes "admit cfg now lid q b = AdmitPreempt n e ls"
  shows "resolve_bytes cfg now q b = Some (n, e)" "gq_preempt q"
    "find_by_nonce (gq_nonce q) (bk_reg b) = None" "free_for_grant cfg (bk_reg b) < n"
    "ls = pick_evict n (free_for_grant cfg (bk_reg b)) (blockers_for (gq_priority q) (bk_reg b))"
    "n \<le> u64_add (u64_sum (map ls_bytes (blockers_for (gq_priority q) (bk_reg b))))
            (free_for_grant cfg (bk_reg b))"
  using assms by (auto simp: admit_def Let_def split: option.splits prod.splits if_splits)

section \<open>Choosing the leases to evict\<close>

lemma set_blockers: "set (blockers_for p r) = {l \<in> set (all_leases r). \<not> ls_synthetic l \<and> ls_priority l < p}"
  by (auto simp: blockers_for_def)

lemma sorted_blockers: "sorted (map ls_priority (blockers_for p r))"
  by (simp add: blockers_for_def)

lemma filter_weight_le: "sum_list (map f (filter P xs)) \<le> (sum_list (map f xs) :: nat)"
  by (induction xs) auto

lemma mset_eq_sum_list: "mset xs = mset ys \<Longrightarrow> sum_list xs = (sum_list ys :: nat)"
  by (simp flip: sum_mset_sum_list)

lemma blockers_weight_le: "sum_list (map ls_bytes (blockers_for p r)) \<le> vram_sum r"
proof -
  let ?xs = "filter (\<lambda>l. \<not> ls_synthetic l \<and> ls_priority l < p) (all_leases r)"
  have "mset (map ls_bytes (sort_key ls_priority ?xs)) = mset (map ls_bytes ?xs)"
    by simp
  then have "sum_list (map ls_bytes (sort_key ls_priority ?xs)) = sum_list (map ls_bytes ?xs)"
    by (rule mset_eq_sum_list)
  then show ?thesis
    using filter_weight_le [of ls_bytes _ "all_leases r"]
    by (simp add: blockers_for_def vram_sum_def hm_weight_def all_leases_def)
qed

lemma pick_evict_prefix: "\<exists>k. pick_evict n a ls = take k ls"
proof (induction n a ls rule: pick_evict.induct)
  case (2 n a l ls)
  show ?case
  proof (cases "n \<le> a")
    case True
    then show ?thesis by (intro exI [of _ 0]) simp
  next
    case False
    then obtain k where "pick_evict n (u64_add a (ls_bytes l)) ls = take k ls"
      using "2.IH" by blast
    with False show ?thesis by (intro exI [of _ "Suc k"]) simp
  qed
qed simp

text \<open>When the sums do not wrap, the chosen leases suffice and no shorter prefix does.\<close>

lemma pick_evict_enough:
  assumes "a + sum_list (map ls_bytes ls) < 2 ^ 64" and "n \<le> a + sum_list (map ls_bytes ls)"
  shows "n \<le> a + sum_list (map ls_bytes (pick_evict n a ls))"
  using assms
proof (induction n a ls rule: pick_evict.induct)
  case (2 n a l ls)
  show ?case
  proof (cases "n \<le> a")
    case False
    have "u64_add a (ls_bytes l) = a + ls_bytes l"
      using "2.prems"(1) by (simp add: u64_add_def)
    then show ?thesis using 2 False by (simp add: add.assoc)
  qed simp
qed simp

lemma pick_evict_minimal:
  assumes "a + sum_list (map ls_bytes ls) < 2 ^ 64" and "pick_evict n a ls \<noteq> []"
  shows "a + sum_list (map ls_bytes (butlast (pick_evict n a ls))) < n"
  using assms
proof (induction n a ls rule: pick_evict.induct)
  case (2 n a l ls)
  have add: "u64_add a (ls_bytes l) = a + ls_bytes l"
    using "2.prems"(1) by (simp add: u64_add_def)
  have small: "\<not> n \<le> a" using "2.prems"(2) by (auto split: if_splits)
  show ?case
  proof (cases "pick_evict n (a + ls_bytes l) ls = []")
    case True
    then show ?thesis using small add by simp
  next
    case False
    then show ?thesis using 2 small add by (simp add: add.assoc)
  qed
qed simp

lemma free_plus_blockers:
  assumes "accountable r"
  shows "free_for_grant cfg r + sum_list (map ls_bytes (blockers_for p r)) < 2 ^ 64"
  using assms blockers_weight_le [of p r] free_for_grant_exact [OF assms, of cfg]
  unfolding accountable_def by linarith

section \<open>The polling loops\<close>

text \<open>\<open>keeps P f\<close>: the outside world acts on the state without breaking \<open>P\<close>.\<close>

definition keeps :: "('s \<Rightarrow> bool) \<Rightarrow> ('s \<Rightarrow> 's) \<Rightarrow> bool" where
  "keeps P f \<longleftrightarrow> (\<forall>s. P s \<longrightarrow> P (f s))"

lemma wait_fit_keeps:
  assumes "\<forall>e \<in> set sch. keeps P (snd e)" and "P b"
    and "wait_fit cfg n deadline sch b = Some (fits, now, b', sch')"
  shows "P b' \<and> (fits \<longrightarrow> n \<le> free_for_grant cfg (bk_reg b')) \<and> set sch' \<subseteq> set sch"
  using assms
proof (induction cfg n deadline sch b rule: wait_fit.induct)
  case (2 cfg n deadline now' env sch b)
  then have "P (env b)" by (simp add: keeps_def)
  with 2 show ?case by (auto split: if_splits)
qed simp

lemma fold_keeps: "(\<And>x. x \<in> set xs \<Longrightarrow> keeps P (f x)) \<Longrightarrow> P b \<Longrightarrow> P (fold f xs b)"
  by (induction xs arbitrary: b) (auto simp: keeps_def)

lemma soft_signal_keeps:
  "(\<And>l. keeps P (\<lambda>b. snd (soft l b))) \<Longrightarrow> (\<And>l. keeps P (hard l)) \<Longrightarrow> keeps P (signal_soft_evict soft hard l)"
  by (simp add: keeps_def signal_soft_evict_def split_def)

lemma hard_survivors_keeps:
  "(\<And>l. keeps P (hard l)) \<Longrightarrow> P b \<Longrightarrow> P (hard_evict_survivors hard ls b)"
  unfolding hard_evict_survivors_def by (rule fold_keeps) (auto simp: keeps_def)

text \<open>
  The polling loop ends at the first clock past its deadline, at the latest.
\<close>

lemma wait_fit_ends:
  assumes "(now, env) \<in> set sch" and "deadline \<le> now"
  shows "\<exists>res. wait_fit cfg n deadline sch b = Some res"
  using assms
proof (induction cfg n deadline sch b rule: wait_fit.induct)
  case (2 cfg n deadline now' env' sch b)
  then show ?case by (cases "deadline \<le> now' \<or> n \<le> free_for_grant cfg (bk_reg b)") auto
qed simp

lemma wait_fit_rest:
  assumes "wait_fit cfg n deadline sch b = Some (False, now, b', sch')"
  shows "\<exists>pre env. sch = pre @ (now, env) # sch' \<and> (\<forall>e \<in> set pre. fst e < deadline)"
  using assms
proof (induction cfg n deadline sch b rule: wait_fit.induct)
  case (2 cfg n deadline now' env' sch b)
  show ?case
  proof (cases "deadline \<le> now'")
    case True
    with "2.prems" show ?thesis by (auto intro!: exI [of _ "[]"])
  next
    case False
    with "2.prems" have more: "\<not> n \<le> free_for_grant cfg (bk_reg b)"
      "wait_fit cfg n deadline sch (env' b) = Some (False, now, b', sch')"
      by (auto split: if_splits)
    from "2.IH" [OF False more] obtain pre env where
      pre: "sch = pre @ (now, env) # sch'" "\<forall>e \<in> set pre. fst e < deadline" by blast
    have "(now', env') # sch = ((now', env') # pre) @ (now, env) # sch'
        \<and> (\<forall>e \<in> set ((now', env') # pre). fst e < deadline)"
      using pre False by simp
    then show ?thesis by blast
  qed
qed simp

text \<open>Everything a preemption can return.\<close>

definition preempt_outcome ::
  "vram_config \<Rightarrow> string \<Rightarrow> grant_request \<Rightarrow> nat \<Rightarrow> bool \<Rightarrow> lease list \<Rightarrow> (broker \<Rightarrow> bool)
   \<Rightarrow> grant_result \<Rightarrow> broker \<Rightarrow> bool" where
  "preempt_outcome cfg lid q n e ls P res b' \<longleftrightarrow>
     (\<exists>now b1 l how. P b1 \<and> n \<le> free_for_grant cfg (bk_reg b1) \<and> grant_req now lid q e n 0 b1 = (l, b')
            \<and> res = Inr (l, HowPreempted (map ls_id ls) how))
     \<or> (P b' \<and> res = insufficient cfg (bk_reg b') n (gq_priority q) (all_blockers_view (bk_reg b'))
            (map ls_service (filter (\<lambda>l. reg_get (ls_id l) (bk_reg b') \<noteq> None) ls)))"

lemma preempt_outcomeI:
  "P b1 \<Longrightarrow> n \<le> free_for_grant cfg (bk_reg b1) \<Longrightarrow>
   (case grant_req now lid q e n 0 b1 of (l, b3) \<Rightarrow> Some (Inr (l, HowPreempted (map ls_id ls) how), b3))
     = Some (res, b') \<Longrightarrow> preempt_outcome cfg lid q n e ls P res b'"
  unfolding preempt_outcome_def by (cases "grant_req now lid q e n 0 b1") auto

lemma hard_phase_outcome:
  assumes "hard_phase cfg lid q hard t2 n e ls b sch = Some (res, b')"
    and "\<And>l. keeps P (hard l)" and "\<forall>x \<in> set sch. keeps P (snd x)" and "P b"
  shows "preempt_outcome cfg lid q n e ls P res b'"
proof -
  let ?b = "hard_evict_survivors hard ls b"
  have p: "P ?b" using assms(2,4) by (rule hard_survivors_keeps)
  obtain fits now b2 rest where
    w: "wait_fit cfg n (t2 + vc_evict_timeout cfg) sch ?b = Some (fits, now, b2, rest)"
    using assms(1) by (auto simp: hard_phase_def split: option.splits)
  note k = wait_fit_keeps [OF assms(3) p w]
  show ?thesis
  proof (cases fits)
    case True
    with assms(1) have c: "(case grant_req now lid q e n 0 b2 of
        (l, b3) \<Rightarrow> Some (Inr (l, HowPreempted (map ls_id ls) False), b3)) = Some (res, b')"
      by (simp add: hard_phase_def w)
    show ?thesis using k True by (intro preempt_outcomeI [OF _ _ c]) simp_all
  next
    case False
    with assms(1) have "(insufficient cfg (bk_reg b2) n (gq_priority q) (all_blockers_view (bk_reg b2))
        (map ls_service (filter (\<lambda>l. reg_get (ls_id l) (bk_reg b2) \<noteq> None) ls)), b2) = (res, b')"
      by (simp only: hard_phase_def w Let_def option.case prod.case if_False option.inject)
    then have "P b' \<and> insufficient cfg (bk_reg b') n (gq_priority q) (all_blockers_view (bk_reg b'))
        (map ls_service (filter (\<lambda>l. reg_get (ls_id l) (bk_reg b') \<noteq> None) ls)) = res"
      using k by (metis prod.inject)
    then show ?thesis by (auto simp: preempt_outcome_def)
  qed
qed

lemma preempt_outcome:
  assumes "preempt cfg lid q soft hard t1 t2 sch n e ls b = Some (res, b')"
    and "\<And>l. keeps P (\<lambda>b. snd (soft l b))" and "\<And>l. keeps P (hard l)"
    and "\<forall>x \<in> set sch. keeps P (snd x)" and "P b"
  shows "preempt_outcome cfg lid q n e ls P res b'"
proof (cases "0 < vc_grace_period cfg")
  case False
  with assms(1) have "hard_phase cfg lid q hard t2 n e ls b sch = Some (res, b')"
    by (simp add: preempt_def)
  then show ?thesis using assms(3-5) by (rule hard_phase_outcome)
next
  case grace: True
  let ?b = "fold (signal_soft_evict soft hard) ls b"
  have "keeps P (signal_soft_evict soft hard l)" for l
    using assms(2,3) by (rule soft_signal_keeps)
  then have p: "P ?b" using assms(5) by (rule fold_keeps)
  obtain fits now b2 rest where
    w: "wait_fit cfg n (t1 + vc_grace_period cfg) sch ?b = Some (fits, now, b2, rest)"
    using assms(1) grace by (auto simp: preempt_def split: option.splits)
  note k = wait_fit_keeps [OF assms(4) p w]
  show ?thesis
  proof (cases fits)
    case True
    with assms(1) grace have c: "(case grant_req now lid q e n 0 b2 of
        (l, b3) \<Rightarrow> Some (Inr (l, HowPreempted (map ls_id ls) True), b3)) = Some (res, b')"
      by (simp add: preempt_def w)
    show ?thesis using k True by (intro preempt_outcomeI [OF _ _ c]) simp_all
  next
    case False
    with assms(1) grace have c: "hard_phase cfg lid q hard t2 n e ls b2 rest = Some (res, b')"
      by (simp add: preempt_def w)
    have "\<forall>x \<in> set rest. keeps P (snd x)" using k assms(4) by blast
    then show ?thesis using k by (intro hard_phase_outcome [OF c assms(3)]) simp_all
  qed
qed

end
