(* ===== verification/Vram_Service.thy ===== *)
theory Vram_Service
  imports Vram_Policy
begin

text \<open>
  The pipe actions of the broker (\<open>service.rs\<close>) and its background workers (\<open>workers.rs\<close>):
  each handler from its JSON payload to its reply, the reaper's and the Ollama poller's
  iteration, the per-service totals of the state snapshot, and the broker as a step relation
  over them.
\<close>

section \<open>Wire formats\<close>

definition lease_to_wire :: "lease \<Rightarrow> json" where
  "lease_to_wire l = JObj
     [(''lease_id'', JStr (ls_id l)), (''service'', JStr (ls_service l)), (''model'', JStr (ls_model l)),
      (''bytes'', JInt (int (ls_bytes l))), (''dram_bytes'', JInt (int (ls_dram l))),
      (''priority'', JInt (ls_priority l)), (''granted_at'', JFloat (ls_granted_at l)),
      (''expires_at'', JFloat (ls_expires_at l)), (''heartbeat_at'', JFloat (ls_heartbeat_at l)),
      (''pid'', JInt (int (ls_pid l))), (''synthetic'', JBool (ls_synthetic l)),
      (''estimated'', JBool (ls_estimated l)), (''client_nonce'', JStr (ls_nonce l))]"

definition blocker_to_wire :: "blocker_view \<Rightarrow> json" where
  "blocker_to_wire v = JObj
     [(''lease_id'', JStr (bv_id v)), (''service'', JStr (bv_service v)), (''model'', JStr (bv_model v)),
      (''bytes'', JInt (int (bv_bytes v))), (''priority'', JInt (bv_priority v)),
      (''synthetic'', JBool (bv_synthetic v))]"

text \<open>The \<open>error\<close> object of a refused grant: code, message, details (\<open>policy.rs\<close>, lines 120--136, 344--406).\<close>

fun broker_err :: "vram_config \<Rightarrow> broker_error \<Rightarrow> ipc_error" where
  "broker_err cfg (InvalidRequest msg) =
     \<lparr>ie_code = ''invalid_request'', ie_message = msg, ie_details = None\<rparr>"
| "broker_err cfg (WouldExceedTotal total_vram total_dram nbytes) =
     (let cap = u64_saturating_add (total_vram - vc_safety_margin cfg)
            (if vc_spillover cfg then total_dram - vc_dram_margin cfg else 0)
      in \<lparr>ie_code = ''would_exceed_total'',
          ie_message = ''request '' @ nat_str nbytes @ '' exceeds total addressable memory '' @ nat_str cap
            @ '' (VRAM '' @ nat_str total_vram @ '' + DRAM '' @ nat_str total_dram @ '' minus safety margins)'',
          ie_details = Some (JObj
            [(''total_bytes'', JInt (int total_vram)), (''total_dram_bytes'', JInt (int total_dram)),
             (''requested_bytes'', JInt (int nbytes)), (''safety_margin'', JInt (int (vc_safety_margin cfg))),
             (''dram_safety_margin'', JInt (int (vc_dram_margin cfg))),
             (''enable_spillover'', JBool (vc_spillover cfg))])\<rparr>)"
| "broker_err cfg (InsufficientVram nbytes priority free tot free_dram tot_dram blockers unresponsive) =
     (let details = JObj
            [(''requested_bytes'', JInt (int nbytes)), (''requester_priority'', JInt priority),
             (''free_bytes'', JInt (int free)), (''total_bytes'', JInt (int tot)),
             (''free_dram_bytes'', JInt (int free_dram)), (''total_dram_bytes'', JInt (int tot_dram)),
             (''blockers'', JArr (map blocker_to_wire blockers))]
      in \<lparr>ie_code = ''insufficient_vram'',
          ie_message = ''cannot satisfy '' @ nat_str nbytes @ '' bytes at priority '' @ int_str priority,
          ie_details = Some (if unresponsive = [] then details
            else jput ''unresponsive_services'' (JArr (map JStr unresponsive)) details)\<rparr>)"

text \<open>
  Serde's decoding of a \<open>GrantRequest\<close>: a missing field takes its default, a field of another
  type or range is an error, other fields are ignored; an array lists the fields in order.
\<close>

definition field_or :: "'a \<Rightarrow> (json \<Rightarrow> 'a option) \<Rightarrow> json option \<Rightarrow> 'a option" where
  "field_or d dec v = (case v of None \<Rightarrow> Some d | Some j \<Rightarrow> dec j)"

fun as_int_in :: "int \<Rightarrow> int \<Rightarrow> json \<Rightarrow> int option" where
  "as_int_in lo hi (JInt i) = (if lo \<le> i \<and> i \<le> hi then Some i else None)"
| "as_int_in lo hi _ = None"

definition grant_fields :: "string list" where
  "grant_fields = [''service'', ''model'', ''bytes'', ''priority'', ''ttl'', ''preempt'', ''pid'', ''client_nonce'']"

fun payload_fields :: "json \<Rightarrow> (string \<Rightarrow> json option) option" where
  "payload_fields (JObj m) = Some (map_of m)"
| "payload_fields (JArr js) = (if length js \<le> length grant_fields then Some (map_of (zip grant_fields js)) else None)"
| "payload_fields _ = None"

definition decode_reserve :: "vram_config \<Rightarrow> json \<Rightarrow> grant_request option" where
  "decode_reserve cfg payload =
     (case payload_fields payload of None \<Rightarrow> None | Some f \<Rightarrow>
      case field_or ''unknown'' as_str (f ''service'') of None \<Rightarrow> None | Some service \<Rightarrow>
      case field_or ''unknown'' as_str (f ''model'') of None \<Rightarrow> None | Some model \<Rightarrow>
      case field_or 0 (as_int_in (- (2 ^ 63)) (2 ^ 63 - 1)) (f ''bytes'') of None \<Rightarrow> None | Some nb \<Rightarrow>
      case field_or 40 (as_int_in (- (2 ^ 31)) (2 ^ 31 - 1)) (f ''priority'') of None \<Rightarrow> None | Some pri \<Rightarrow>
      case field_or (vc_default_ttl cfg) as_f64 (f ''ttl'') of None \<Rightarrow> None | Some ttl \<Rightarrow>
      case field_or False as_bool (f ''preempt'') of None \<Rightarrow> None | Some pre \<Rightarrow>
      case field_or 0 (as_int_in 0 (2 ^ 32 - 1)) (f ''pid'') of None \<Rightarrow> None | Some pid \<Rightarrow>
      case field_or [] as_str (f ''client_nonce'') of None \<Rightarrow> None | Some nonce \<Rightarrow>
        Some \<lparr>gq_service = service, gq_model = model, gq_bytes = nb, gq_priority = pri, gq_ttl = ttl,
              gq_preempt = pre, gq_pid = nat pid, gq_nonce = nonce\<rparr>)"

section \<open>Handlers\<close>

text \<open>The reply of \<open>handle_reserve\<close>: the bare lease, with sibling fields for some outcomes.\<close>

fun reserve_reply :: "vram_config \<Rightarrow> grant_result \<Rightarrow> reply" where
  "reserve_reply cfg (Inl e) = Inl (broker_err cfg e)"
| "reserve_reply cfg (Inr (l, HowFast)) = Inr (lease_to_wire l)"
| "reserve_reply cfg (Inr (l, HowSpilled)) = Inr (lease_to_wire l)"
| "reserve_reply cfg (Inr (l, HowPreempted ids soft)) =
     Inr (jput ''soft_eviction'' (JBool soft) (jput ''preempted'' (JArr (map JStr ids)) (lease_to_wire l)))"
| "reserve_reply cfg (Inr (l, HowDedup)) = Inr (jput ''dedup'' (JBool True) (lease_to_wire l))"

text \<open>The text of a decoding error is serde's, a parameter.\<close>

definition handle_reserve ::
  "(json \<Rightarrow> string) \<Rightarrow> vram_config \<Rightarrow> real \<Rightarrow> string \<Rightarrow> (lease \<Rightarrow> broker \<Rightarrow> bool \<times> broker) \<Rightarrow> (lease \<Rightarrow> broker \<Rightarrow> broker)
   \<Rightarrow> real \<Rightarrow> real \<Rightarrow> schedule \<Rightarrow> json \<Rightarrow> broker \<Rightarrow> (reply \<times> broker) option" where
  "handle_reserve serde_msg cfg now lid soft hard soft_start hard_start sch payload b =
     (case decode_reserve cfg payload of
        None \<Rightarrow> Some (ipc_err ''invalid_request'' (''reserve payload decode failed: '' @ serde_msg payload), b)
      | Some q \<Rightarrow>
          map_option (\<lambda>(res, b'). (reserve_reply cfg res, b'))
            (try_grant cfg now lid soft hard soft_start hard_start sch q b))"

definition payload_id :: "json \<Rightarrow> string" where
  "payload_id payload = unwrap_or [] (get_str ''lease_id'' payload)"

definition handle_release :: "json \<Rightarrow> broker \<Rightarrow> reply \<times> broker" where
  "handle_release payload b =
     (case reg_remove (payload_id payload) (bk_reg b) of
        (None, r) \<Rightarrow> (Inr (JObj [(''ok'', JBool True), (''known'', JBool False)]), b\<lparr>bk_reg := r\<rparr>)
      | (Some l, r) \<Rightarrow>
          (Inr (JObj [(''ok'', JBool True), (''known'', JBool True), (''freed_bytes'', JInt (int (ls_bytes l)))]),
           b\<lparr>bk_reg := r\<rparr>))"

definition handle_heartbeat :: "vram_config \<Rightarrow> real \<Rightarrow> json \<Rightarrow> broker \<Rightarrow> reply \<times> broker" where
  "handle_heartbeat cfg now payload b =
     (let ttl = unwrap_or (vc_default_ttl cfg) (Option.bind (jget ''ttl'' payload) as_f64)
      in case reg_touch now (payload_id payload) ttl (bk_reg b) of
           (None, r) \<Rightarrow> (ipc_err ''not_found'' ''lease not found or already reaped'', b\<lparr>bk_reg := r\<rparr>)
         | (Some l, r) \<Rightarrow>
             (Inr (JObj [(''lease_id'', JStr (ls_id l)), (''expires_at'', JFloat (ls_expires_at l))]),
              b\<lparr>bk_reg := r\<rparr>))"

definition handle_leases :: "broker \<Rightarrow> reply" where
  "handle_leases b = Inr (JObj [(''leases'', JArr (map lease_to_wire (all_leases (bk_reg b))))])"

text \<open>The entries, most recently used first; \<open>sort_by\<close> is stable.\<close>

definition cache_sorted :: "real \<Rightarrow> model_cache \<Rightarrow> cache_entry list" where
  "cache_sorted now c = sort_key (\<lambda>e. - ce_last_used e) (cache_all now c)"

definition handle_cache :: "vram_config \<Rightarrow> real \<Rightarrow> real \<Rightarrow> broker \<Rightarrow> reply" where
  "handle_cache cfg t0 now b =
     Inr (JObj [(''ttl_s'', JFloat (vc_cache_ttl cfg)),
       (''entries'', JArr (map (\<lambda>e. JObj
          [(''service'', JStr (ce_service e)), (''model'', JStr (ce_model e)),
           (''bytes'', JInt (int (ce_bytes e))), (''last_used'', JFloat (ce_last_used e)),
           (''warm_for'', JFloat (max (vc_cache_ttl cfg - (now - ce_last_used e)) 0))])
         (cache_sorted t0 (bk_cache b))))])"

definition handle_evict :: "json \<Rightarrow> broker \<Rightarrow> reply \<times> broker" where
  "handle_evict payload b =
     (case reg_remove (payload_id payload) (bk_reg b) of
        (None, r) \<Rightarrow> (ipc_err ''not_found'' ''lease not found'', b\<lparr>bk_reg := r\<rparr>)
      | (Some l, r) \<Rightarrow>
          (Inr (JObj [(''ok'', JBool True), (''freed_bytes'', JInt (int (ls_bytes l)))]), b\<lparr>bk_reg := r\<rparr>))"

section \<open>Background workers\<close>

record ollama_model =
  om_name :: "string option"
  om_model :: "string option"
  om_size_vram :: "nat option"
  om_size :: "nat option"

text \<open>\<open>poll_ollama\<close>, lines 98--144: the synthetic lease of one running model.\<close>

definition synthetic_lease :: "real \<Rightarrow> string \<Rightarrow> ollama_model \<Rightarrow> lease option" where
  "synthetic_lease now uuid m =
     (let name = unwrap_or ''unknown'' (case om_name m of Some n \<Rightarrow> Some n | None \<Rightarrow> om_model m);
          vram_only = (om_size_vram m \<noteq> None \<and> om_size m = None);
          size_vram = unwrap_or 0 (om_size_vram m);
          size_total = unwrap_or size_vram (om_size m)
      in if size_total = 0 \<and> size_vram = 0 then None
         else let (vram, dram) = (if vram_only then (size_vram, 0)
                    else (min size_vram size_total, size_total - min size_vram size_total))
              in Some \<lparr>ls_id = ''ollama:'' @ uuid, ls_service = ''ollama'', ls_model = name, ls_bytes = vram,
                      ls_dram = dram, ls_priority = 100, ls_granted_at = now, ls_expires_at = now + 3600,
                      ls_heartbeat_at = now, ls_pid = 0, ls_synthetic = True, ls_estimated = False,
                      ls_nonce = []\<rparr>)"

definition ollama_leases :: "real \<Rightarrow> (string \<times> ollama_model) list \<Rightarrow> lease list" where
  "ollama_leases now ms = List.map_filter (\<lambda>(uuid, m). synthetic_lease now uuid m) ms"

definition ollama_tick :: "real \<Rightarrow> (string \<times> ollama_model) list \<Rightarrow> broker \<Rightarrow> broker" where
  "ollama_tick now ms b =
     b\<lparr>bk_reg := replace_synthetic ''ollama'' (ollama_leases now ms) (bk_reg b)\<rparr>"

text \<open>
  One round of \<open>reaper_loop\<close>: the probes' readings, when there are any, the expired leases, and
  every \<open>prune_every\<close>-th round the model cache. \<open>tick\<close> counts the rounds.
\<close>

definition reaper_tick ::
  "nat \<Rightarrow> real \<Rightarrow> (nat \<times> nat \<times> string) option \<Rightarrow> (nat \<times> nat) option \<Rightarrow> nat \<Rightarrow> broker \<Rightarrow> nat \<times> broker" where
  "reaper_tick prune_every now gpu dram tick b =
     (let r1 = (case gpu of None \<Rightarrow> bk_reg b | Some (tot, used, name) \<Rightarrow> set_gpu now tot used name (bk_reg b));
          r2 = (case dram of None \<Rightarrow> r1 | Some (tot, used) \<Rightarrow> set_dram now tot used r1);
          r3 = snd (reap_expired now r2);
          tick' = tick + 1;
          c = (if tick' mod prune_every = 0 then snd (cache_prune now (bk_cache b)) else bk_cache b)
      in (tick', b\<lparr>bk_reg := r3, bk_cache := c\<rparr>))"

section \<open>The state snapshot\<close>

record service_row =
  sv_service :: string
  sv_bytes :: nat
  sv_dram :: nat
  sv_count :: nat
  sv_priority :: int
  sv_synthetic :: bool

text \<open>Lines 240--262: one row per service, summed over its leases.\<close>

definition add_to_row :: "lease \<Rightarrow> (string, service_row) hmap \<Rightarrow> (string, service_row) hmap" where
  "add_to_row l m =
     (let row = (case hm_get m (ls_service l) of
                   Some row \<Rightarrow> row
                 | None \<Rightarrow> \<lparr>sv_service = ls_service l, sv_bytes = 0, sv_dram = 0, sv_count = 0,
                            sv_priority = ls_priority l, sv_synthetic = ls_synthetic l\<rparr>)
      in hm_put (ls_service l)
           (row\<lparr>sv_bytes := u64_add (sv_bytes row) (ls_bytes l), sv_dram := u64_add (sv_dram row) (ls_dram l),
                sv_count := u64_add (sv_count row) 1, sv_priority := max (sv_priority row) (ls_priority l)\<rparr>) m)"

definition by_service :: "lease list \<Rightarrow> service_row list" where
  "by_service leases = sort_key (\<lambda>row. - sv_priority row) (hm_values (fold add_to_row leases []))"

definition row_to_wire :: "service_row \<Rightarrow> json" where
  "row_to_wire row = JObj
     [(''service'', JStr (sv_service row)), (''bytes'', JInt (int (sv_bytes row))),
      (''dram_bytes'', JInt (int (sv_dram row))), (''count'', JInt (int (sv_count row))),
      (''priority'', JInt (sv_priority row)), (''synthetic'', JBool (sv_synthetic row))]"

text \<open>The whole snapshot: \<open>t0\<close> is the clock when the cache is read, after \<open>now\<close>.\<close>

definition state_snapshot :: "vram_config \<Rightarrow> real \<Rightarrow> real \<Rightarrow> broker \<Rightarrow> json" where
  "state_snapshot cfg now t0 b =
     (let r = bk_reg b;
          fresh = (\<lambda>ts. if 0 < ts then JFloat (now - ts) else JNull)
      in JObj
       [(''generated_at'', JFloat now),
        (''gpu'', JObj
          [(''total_bytes'', JInt (int (rg_total r))), (''actual_used_bytes'', JInt (int (rg_used r))),
           (''reserved_bytes'', JInt (int (reserved_total r))),
           (''free_for_grant'', JInt (int (free_for_grant cfg r))),
           (''safety_margin'', JInt (int (vc_safety_margin cfg))),
           (''name'', JStr (rg_gpu_name r)), (''nvml_fresh_s'', fresh (rg_nvml_at r))]),
        (''system_memory'', JObj
          [(''total_bytes'', JInt (int (rg_dram_total r))), (''actual_used_bytes'', JInt (int (rg_dram_used r))),
           (''reserved_dram_bytes'', JInt (int (reserved_dram_total r))),
           (''free_for_grant_dram'', JInt (int (free_for_grant_dram cfg r))),
           (''safety_margin'', JInt (int (vc_dram_margin cfg))), (''sysinfo_fresh_s'', fresh (rg_sys_at r))]),
        (''leases'', JArr (map lease_to_wire (all_leases r))),
        (''by_service'', JArr (map row_to_wire (by_service (all_leases r)))),
        (''model_cache'', JObj
          [(''ttl_s'', JFloat (vc_cache_ttl cfg)),
           (''entries'', JArr (map (\<lambda>e. JObj
              [(''service'', JStr (ce_service e)), (''model'', JStr (ce_model e)),
               (''bytes'', JInt (int (ce_bytes e))), (''last_used'', JFloat (ce_last_used e)),
               (''warm_for'', JFloat (max (vc_cache_ttl cfg - (now - ce_last_used e)) 0))])
             (cache_sorted t0 (bk_cache b))))]),
        (''config'', JObj
          [(''safety_margin_bytes'', JInt (int (vc_safety_margin cfg))),
           (''dram_safety_margin_bytes'', JInt (int (vc_dram_margin cfg))),
           (''enable_spillover'', JBool (vc_spillover cfg)), (''default_ttl'', JFloat (vc_default_ttl cfg)),
           (''ollama_poll_s'', JFloat (vc_ollama_poll cfg)), (''grace_period_s'', JFloat (vc_grace_period cfg)),
           (''model_cache_ttl_s'', JFloat (vc_cache_ttl cfg))])])"

section \<open>Lemmas on the handlers\<close>

lemma nat_mod_add_cancel: "(a + c) mod m = (b + c) mod m \<longleftrightarrow> a mod m = (b :: nat) mod m"
proof
  assume "(a + c) mod m = (b + c) mod m"
  then have "int ((a + c) mod m) = int ((b + c) mod m)" by simp
  then have "int (a + c) mod int m = int (b + c) mod int m" by (simp only: zmod_int)
  then have "(int (a + c) - int c) mod int m = (int (b + c) - int c) mod int m"
    by (rule mod_diff_cong) simp
  then have "int (a mod m) = int (b mod m)" by (simp add: zmod_int)
  then show "a mod m = b mod m" by simp
qed (metis mod_add_left_eq)

lemma u64_sum_Cons: "u64_sum (x # xs) = u64_add x (u64_sum xs)"
  by (simp add: u64_sum_eq u64_add_def mod_simps)

lemma hm_ok_add_to_row: "hm_ok m \<Longrightarrow> hm_ok (add_to_row l m)"
  by (simp add: add_to_row_def Let_def)

lemma add_to_row_weight:
  assumes "hm_ok m"
    and "\<And>row. f (row\<lparr>sv_bytes := u64_add (sv_bytes row) (ls_bytes l), sv_dram := u64_add (sv_dram row) (ls_dram l),
                sv_count := u64_add (sv_count row) 1, sv_priority := max (sv_priority row) (ls_priority l)\<rparr>)
              = u64_add (f row) v"
    and "f \<lparr>sv_service = ls_service l, sv_bytes = 0, sv_dram = 0, sv_count = 0,
                            sv_priority = ls_priority l, sv_synthetic = ls_synthetic l\<rparr> = 0"
  shows "hm_weight f (add_to_row l m) mod 2 ^ 64 = (hm_weight f m + v) mod 2 ^ 64"
proof -
  let ?new = "\<lparr>sv_service = ls_service l, sv_bytes = 0, sv_dram = 0, sv_count = 0,
                            sv_priority = ls_priority l, sv_synthetic = ls_synthetic l\<rparr>"
  let ?row = "case hm_get m (ls_service l) of Some row \<Rightarrow> row | None \<Rightarrow> ?new"
  let ?old = "case hm_get m (ls_service l) of None \<Rightarrow> 0 | Some w \<Rightarrow> f w"
  have "hm_weight f (add_to_row l m) + ?old = hm_weight f m + u64_add (f ?row) v"
    using hm_weight_put [OF assms(1), of f "ls_service l"] assms(2)
    by (simp add: add_to_row_def Let_def)
  moreover have "?old = f ?row" using assms(3) by (simp split: option.split)
  ultimately have e: "hm_weight f (add_to_row l m) + f ?row = hm_weight f m + u64_add (f ?row) v"
    by simp
  have "(hm_weight f (add_to_row l m) + f ?row) mod 2 ^ 64 = (hm_weight f m + v + f ?row) mod 2 ^ 64"
    unfolding e by (simp only: u64_add_def mod_add_right_eq ac_simps)
  then show ?thesis
    by (simp only: nat_mod_add_cancel)
qed

end
