(* ===== verification/Vram_Broker.thy ===== *)
theory Vram_Broker
  imports Vram_Service
begin

text \<open>
  The broker as a whole: its steps (every mutex-protected change the handlers and workers
  make), what holds in every reachable state, and the promises of \<open>vram.reserve\<close>.

  A step takes the check and the insertion of one request together. The code locks the
  registry for each of them separately; \<open>overlapping_reserves_overcommit\<close> shows what two
  requests on different threads can do between the locks.
\<close>

section \<open>Steps\<close>

text \<open>
  One step is an action that finishes in one go, or the moment a waiting request finds room
  (\<open>preempted\<close>: the body of a polling loop). Everything else can happen in between. New
  lease ids are UUIDs, not in use.
\<close>

definition new_id :: "broker \<Rightarrow> string \<Rightarrow> bool" where
  "new_id b lid \<longleftrightarrow> hm_get (rg_leases (bk_reg b)) lid = None"

inductive broker_step :: "vram_config \<Rightarrow> broker \<Rightarrow> broker \<Rightarrow> bool" for cfg where
  reserve: "new_id b lid \<Longrightarrow> admit cfg now lid q b = AdmitDone res b' \<Longrightarrow> broker_step cfg b b'"
| preempted: "new_id b lid \<Longrightarrow> n \<le> free_for_grant cfg (bk_reg b) \<Longrightarrow>
    grant_req now lid q e n 0 b = (l, b') \<Longrightarrow> broker_step cfg b b'"
| release: "broker_step cfg b (snd (handle_release payload b))"
| heartbeat: "broker_step cfg b (snd (handle_heartbeat cfg now payload b))"
| evict: "broker_step cfg b (snd (handle_evict payload b))"
| ollama: "distinct (map ls_id (ollama_leases now ms)) \<Longrightarrow>
    \<forall>l \<in> set (ollama_leases now ms). new_id b (ls_id l) \<Longrightarrow> broker_step cfg b (ollama_tick now ms b)"
| reaper: "broker_step cfg b (snd (reaper_tick every now gpu dram tick b))"

inductive_cases broker_stepE: "broker_step cfg b b'"

lemma bk_reg_handlers [simp]:
  "bk_reg (snd (handle_release p b)) = snd (reg_remove (payload_id p) (bk_reg b))"
  "bk_reg (snd (handle_evict p b)) = snd (reg_remove (payload_id p) (bk_reg b))"
  "bk_reg (ollama_tick now ms b) = replace_synthetic ''ollama'' (ollama_leases now ms) (bk_reg b)"
  by (auto simp: handle_release_def handle_evict_def ollama_tick_def split: prod.splits option.splits)

lemma bk_reg_heartbeat:
  "\<exists>ttl. bk_reg (snd (handle_heartbeat cfg now p b)) = snd (reg_touch now (payload_id p) ttl (bk_reg b))"
  by (rule exI [of _ "unwrap_or (vc_default_ttl cfg) (Option.bind (jget ''ttl'' p) as_f64)"])
    (auto simp: handle_heartbeat_def Let_def split: prod.splits option.splits)

lemma bk_reg_reaper:
  "\<exists>r. bk_reg (snd (reaper_tick every now gpu dram tick b)) = snd (reap_expired now r)
     \<and> rg_leases r = rg_leases (bk_reg b) \<and> rg_by_nonce r = rg_by_nonce (bk_reg b)"
  by (auto simp: reaper_tick_def Let_def set_gpu_def set_dram_def split: option.splits)

lemma admit_done_reg:
  assumes "admit cfg now lid q b = AdmitDone res b'" and "new_id b lid" and "reg_ok (bk_reg b)"
  shows "b' = b \<or> (\<exists>e v d l. v \<le> free_for_grant cfg (bk_reg b) \<and> grant_req now lid q e v d b = (l, b')
           \<and> (d = 0 \<or> d \<le> free_for_grant_dram cfg (bk_reg b)))"
  using assms(1)
proof (cases rule: admit_doneE)
  case (fast n e l)
  then show ?thesis by blast
next
  case (spilled n e l)
  then show ?thesis by blast
qed simp_all

lemma grant_req_reg_ok:
  "reg_ok (bk_reg b) \<Longrightarrow> new_id b lid \<Longrightarrow> grant_req now lid q e v d b = (l, b') \<Longrightarrow> reg_ok (bk_reg b')"
  by (auto simp: grant_req_eq new_id_def intro!: reg_ok_add)

lemma broker_step_reg_ok:
  assumes "broker_step cfg b b'" and ok: "reg_ok (bk_reg b)"
  shows "reg_ok (bk_reg b')"
  using assms(1)
proof (cases rule: broker_step.cases)
  case (reserve lid now q res)
  with admit_done_reg [OF reserve(2,1) ok] ok show ?thesis by (blast intro: grant_req_reg_ok)
next
  case (preempted lid n now q e l)
  then show ?thesis using ok by (blast intro: grant_req_reg_ok)
next
  case (heartbeat now payload)
  then show ?thesis using bk_reg_heartbeat [of cfg now payload b] ok by (metis reg_ok_touch)
next
  case (ollama now ms)
  then show ?thesis using ok by (simp add: new_id_def reg_ok_replace)
next
  case (reaper every now gpu dram tick)
  then obtain r where "bk_reg b' = snd (reap_expired now r)" "rg_leases r = rg_leases (bk_reg b)"
    "rg_by_nonce r = rg_by_nonce (bk_reg b)"
    using bk_reg_reaper [of every now gpu dram tick b] by blast
  moreover from this(2,3) have "reg_ok r" using ok by (simp add: reg_ok_def)
  ultimately show ?thesis by (simp add: reg_ok_reap)
qed (use ok in \<open>simp_all add: reg_ok_remove\<close>)

section \<open>Reachable states\<close>

definition broker_init :: "model_cache \<Rightarrow> broker" where
  "broker_init c = \<lparr>bk_reg = reg_new, bk_cache = c\<rparr>"

abbreviation broker_reaches :: "vram_config \<Rightarrow> broker \<Rightarrow> broker \<Rightarrow> bool" where
  "broker_reaches cfg \<equiv> (broker_step cfg)\<^sup>*\<^sup>*"

lemma broker_reaches_reg_ok:
  "broker_reaches cfg b b' \<Longrightarrow> reg_ok (bk_reg b) \<Longrightarrow> reg_ok (bk_reg b')"
  by (induction rule: rtranclp_induct) (auto intro: broker_step_reg_ok)

section \<open>The bytes handed out\<close>

text \<open>What the broker itself has granted: the leases that are not synthetic.\<close>

definition real_bytes :: "lease \<Rightarrow> nat" where
  "real_bytes l = (if ls_synthetic l then 0 else ls_bytes l)"

definition granted_sum :: "registry \<Rightarrow> nat" where
  "granted_sum r = hm_weight real_bytes (rg_leases r)"

lemma granted_le_vram: "granted_sum r \<le> vram_sum r"
  unfolding granted_sum_def vram_sum_def hm_weight_def
  by (rule sum_list_mono) (simp add: real_bytes_def)

lemma granted_sum_add:
  "reg_ok r \<Longrightarrow> hm_get (rg_leases r) (ls_id l) = None \<Longrightarrow> granted_sum (reg_add l r) = granted_sum r + real_bytes l"
  by (simp add: granted_sum_def reg_add_def Let_def hm_weight_put_fresh reg_ok_leases)

lemma granted_sum_remove_le: "reg_ok r \<Longrightarrow> granted_sum (snd (reg_remove lid r)) \<le> granted_sum r"
  by (auto simp: granted_sum_def reg_remove_def Let_def reg_ok_leases hm_weight_del_le split: option.splits)

lemma granted_sum_touch:
  assumes "reg_ok r"
  shows "granted_sum (snd (reg_touch now lid ttl r)) = granted_sum r"
proof (cases "hm_get (rg_leases r) lid")
  case (Some l)
  with hm_weight_put [OF reg_ok_leases [OF assms], of real_bytes lid
      "l\<lparr>ls_heartbeat_at := now, ls_expires_at := now + ttl\<rparr>"]
  show ?thesis by (cases "ls_synthetic l") (simp_all add: granted_sum_def reg_touch_def Let_def real_bytes_def)
qed (simp add: reg_touch_def)

lemma granted_sum_remove_ids_le: "reg_ok r \<Longrightarrow> granted_sum (snd (remove_ids ids r)) \<le> granted_sum r"
proof (induction ids r rule: remove_ids.induct)
  case (2 lid ids r)
  have ok: "reg_ok (snd (reg_remove lid r))" using "2.prems" by (rule reg_ok_remove)
  have "granted_sum (snd (remove_ids ids (snd (reg_remove lid r)))) \<le> granted_sum (snd (reg_remove lid r))"
    using "2.IH" ok by (cases "reg_remove lid r"; cases "fst (reg_remove lid r)") auto
  also have "\<dots> \<le> granted_sum r" using "2.prems" by (rule granted_sum_remove_le)
  finally show ?case by (auto split: prod.splits option.splits)
qed simp

lemma hm_weight_put_zero:
  "hm_ok m \<Longrightarrow> f v = 0 \<Longrightarrow> hm_weight f (hm_put k v m) \<le> hm_weight f m"
  using hm_weight_put [of m f k v] by simp

lemma granted_sum_replace_le:
  assumes "reg_ok r" and "\<forall>l \<in> set ls. ls_synthetic l"
  shows "granted_sum (replace_synthetic svc ls r) \<le> granted_sum r"
proof -
  have put: "hm_ok m \<Longrightarrow> hm_weight real_bytes (fold (\<lambda>l m. hm_put (ls_id l) l m) ls m) \<le> hm_weight real_bytes m"
    for m using assms(2)
  proof (induction ls arbitrary: m)
    case (Cons l ls)
    then have "hm_weight real_bytes (hm_put (ls_id l) l m) \<le> hm_weight real_bytes m"
      by (intro hm_weight_put_zero) (simp_all add: real_bytes_def)
    with Cons.IH [of "hm_put (ls_id l) l m"] Cons.prems show ?case by simp
  qed simp
  let ?ids = "map fst (filter (\<lambda>(_, l). ls_synthetic l \<and> ls_service l = svc) (rg_leases r))"
  have "granted_sum (replace_synthetic svc ls r) \<le> granted_sum (snd (remove_ids ?ids r))"
    using put [OF reg_ok_leases [OF reg_ok_remove_ids [OF assms(1)]], of ?ids]
    by (simp add: replace_synthetic_def Let_def granted_sum_def)
  also have "\<dots> \<le> granted_sum r" using assms(1) by (rule granted_sum_remove_ids_le)
  finally show ?thesis .
qed


text \<open>Every step keeps the broker's own grants below the card's capacity less the margin.\<close>

definition grants_fit :: "vram_config \<Rightarrow> registry \<Rightarrow> bool" where
  "grants_fit cfg r \<longleftrightarrow> granted_sum r = 0 \<or> granted_sum r + vc_safety_margin cfg \<le> rg_total r"

lemma grants_fit_mono:
  "grants_fit cfg r \<Longrightarrow> granted_sum r' \<le> granted_sum r \<Longrightarrow> rg_total r \<le> rg_total r' \<Longrightarrow> grants_fit cfg r'"
  by (auto simp: grants_fit_def)

lemma grant_req_fits:
  assumes "accountable (bk_reg b)" and "grants_fit cfg (bk_reg b)" and "new_id b lid"
    and "v \<le> free_for_grant cfg (bk_reg b)" and "grant_req now lid q e v d b = (l, b')"
  shows "grants_fit cfg (bk_reg b')"
proof -
  let ?l = "req_lease now lid q e v d"
  have "bk_reg b' = reg_add ?l (bk_reg b)" using assms(5) by (auto simp: grant_req_eq)
  moreover have "granted_sum (reg_add ?l (bk_reg b)) = granted_sum (bk_reg b) + v"
    using granted_sum_add [of "bk_reg b" ?l] assms(1,3)
    by (simp add: accountable_def new_id_def real_bytes_def)
  ultimately show ?thesis
    using assms(2,4) free_for_grant_exact [OF assms(1), of cfg] granted_le_vram [of "bk_reg b"]
    by (cases "v = 0") (auto simp: grants_fit_def)
qed

lemma reg_total_simps [simp]:
  "rg_total (snd (reg_remove lid r)) = rg_total r"
  "rg_total (snd (reg_touch now lid ttl r)) = rg_total r"
  by (auto simp: reg_remove_def reg_touch_def Let_def split: option.splits)

lemma reg_total_remove_ids [simp]: "rg_total (snd (remove_ids ids r)) = rg_total r"
proof (induction ids r rule: remove_ids.induct)
  case (2 lid ids r)
  have "rg_total r1 = rg_total r" if "reg_remove lid r = (x, r1)" for x r1
    using reg_total_simps(1) [of lid r] that by simp
  then show ?case using "2.IH" by (auto split: prod.splits option.splits)
qed simp

lemma reg_total_replace [simp]: "rg_total (replace_synthetic svc ls r) = rg_total r"
  by (simp add: replace_synthetic_def Let_def)

lemma ollama_leases_synthetic: "\<forall>l \<in> set (ollama_leases now ms). ls_synthetic l"
  by (auto simp: ollama_leases_def map_filter_def synthetic_lease_def Let_def split: if_splits prod.splits)

lemma broker_step_fits:
  assumes "broker_step cfg b b'" and acc: "accountable (bk_reg b)" and fits: "grants_fit cfg (bk_reg b)"
    and tot: "rg_total (bk_reg b) \<le> rg_total (bk_reg b')"
  shows "grants_fit cfg (bk_reg b')"
proof -
  have ok: "reg_ok (bk_reg b)" using acc by (simp add: accountable_def)
  show ?thesis using assms(1)
  proof (cases rule: broker_step.cases)
    case (reserve lid now q res)
    with admit_done_reg [OF reserve(2,1) ok] acc fits show ?thesis by (blast intro: grant_req_fits)
  next
    case (preempted lid n now q e l)
    with acc fits show ?thesis by (blast intro: grant_req_fits)
  next
    case (release payload)
    with fits tot ok show ?thesis by (intro grants_fit_mono [OF fits]) (simp_all add: granted_sum_remove_le)
  next
    case (evict payload)
    with fits tot ok show ?thesis by (intro grants_fit_mono [OF fits]) (simp_all add: granted_sum_remove_le)
  next
    case (heartbeat now payload)
    then obtain ttl where "bk_reg b' = snd (reg_touch now (payload_id payload) ttl (bk_reg b))"
      using bk_reg_heartbeat by blast
    with tot ok show ?thesis by (intro grants_fit_mono [OF fits]) (simp_all add: granted_sum_touch)
  next
    case (ollama now ms)
    with tot ok ollama_leases_synthetic show ?thesis
      by (intro grants_fit_mono [OF fits]) (simp_all add: granted_sum_replace_le)
  next
    case (reaper every now gpu dram tick)
    then obtain r where r: "bk_reg b' = snd (reap_expired now r)" "rg_leases r = rg_leases (bk_reg b)"
      "rg_by_nonce r = rg_by_nonce (bk_reg b)"
      using bk_reg_reaper [of every now gpu dram tick b] by blast
    then have "reg_ok r" using ok by (simp add: reg_ok_def)
    then have "granted_sum (bk_reg b') \<le> granted_sum r"
      by (simp add: r(1) reap_expired_def Let_def granted_sum_remove_ids_le)
    also have "granted_sum r = granted_sum (bk_reg b)" by (simp add: granted_sum_def r)
    finally show ?thesis using fits tot by (intro grants_fit_mono [OF fits])
  qed
qed

text \<open>
  Runs in which the GPU's size, once known, does not shrink, and the sums of the accounted
  bytes stay below \<open>2 ^ 64\<close>.
\<close>

definition steady_step :: "vram_config \<Rightarrow> broker \<Rightarrow> broker \<Rightarrow> bool" where
  "steady_step cfg b b' \<longleftrightarrow> broker_step cfg b b' \<and> accountable (bk_reg b)
     \<and> rg_total (bk_reg b) \<le> rg_total (bk_reg b')"

lemma steady_run_fits:
  assumes "(steady_step cfg)\<^sup>*\<^sup>* b b'" and "grants_fit cfg (bk_reg b)"
  shows "grants_fit cfg (bk_reg b')"
  using assms by (induction rule: rtranclp_induct) (auto simp: steady_step_def intro: broker_step_fits)

section \<open>The per-service rows\<close>

lemma rows_weight:
  assumes "hm_ok m"
    and step: "\<And>(l :: lease) row. f (row\<lparr>sv_bytes := u64_add (sv_bytes row) (ls_bytes l),
                sv_dram := u64_add (sv_dram row) (ls_dram l),
                sv_count := u64_add (sv_count row) 1, sv_priority := max (sv_priority row) (ls_priority l)\<rparr>)
              = u64_add (f row) (g l)"
    and zero: "\<And>(l :: lease). f \<lparr>sv_service = ls_service l, sv_bytes = 0, sv_dram = 0, sv_count = 0,
                            sv_priority = ls_priority l, sv_synthetic = ls_synthetic l\<rparr> = 0"
  shows "hm_weight f (fold add_to_row ls m) mod 2 ^ 64 = (hm_weight f m + sum_list (map g ls)) mod 2 ^ 64"
  using assms(1)
proof (induction ls arbitrary: m)
  case (Cons l ls)
  have "hm_weight f (fold add_to_row (l # ls) m) mod 2 ^ 64
      = (hm_weight f (add_to_row l m) + sum_list (map g ls)) mod 2 ^ 64"
    using Cons.IH [OF hm_ok_add_to_row [OF Cons.prems]] by simp
  also have "\<dots> = (hm_weight f (add_to_row l m) mod 2 ^ 64 + sum_list (map g ls)) mod 2 ^ 64"
    by (simp only: mod_add_left_eq)
  also have "hm_weight f (add_to_row l m) mod 2 ^ 64 = (hm_weight f m + g l) mod 2 ^ 64"
    using Cons.prems by (rule add_to_row_weight) (simp_all only: step zero)
  finally show ?case by (simp only: mod_add_left_eq list.map sum_list.Cons add.assoc)
qed simp

lemma by_service_weight:
  "u64_sum (map f (by_service ls)) = hm_weight f (fold add_to_row ls []) mod 2 ^ 64"
proof -
  have "mset (map f (by_service ls)) = mset (map f (hm_values (fold add_to_row ls [])))"
    by (simp add: by_service_def)
  then have "sum_list (map f (by_service ls)) = sum_list (map f (hm_values (fold add_to_row ls [])))"
    by (rule mset_eq_sum_list)
  then show ?thesis by (simp add: u64_sum_eq hm_weight_def)
qed

lemma by_service_sum:
  assumes "hm_weight f (fold add_to_row ls []) mod 2 ^ 64 = (hm_weight f [] + sum_list (map g ls)) mod 2 ^ 64"
  shows "u64_sum (map f (by_service ls)) = u64_sum (map g ls)"
  using assms unfolding by_service_weight u64_sum_eq [of "map g ls"]
  by (simp add: hm_weight_def hm_values_def)

section \<open>A small broker for the witnesses\<close>

definition ex_cfg :: vram_config where
  "ex_cfg = \<lparr>vc_safety_margin = 10, vc_dram_margin = 5, vc_spillover = True, vc_est_vram = 40,
     vc_est_dram = 0, vc_default_ttl = 60, vc_grace_period = 10, vc_evict_timeout = 3,
     vc_ollama_poll = 5, vc_cache_ttl = 1800\<rparr>"

definition ex_init :: broker where
  "ex_init = broker_init \<lparr>mc_ttl = 1800, mc_entries = []\<rparr>"

text \<open>A GPU of 100 bytes; system memory not probed yet.\<close>

definition ex_gpu :: broker where
  "ex_gpu = snd (reaper_tick 30 1 (Some (100, 0, ''gpu'')) None 0 ex_init)"

definition ex_req :: "int \<Rightarrow> int \<Rightarrow> string \<Rightarrow> grant_request" where
  "ex_req nb pri nonce = \<lparr>gq_service = ''svc'', gq_model = ''m:7b'', gq_bytes = nb, gq_priority = pri,
     gq_ttl = 60, gq_preempt = True, gq_pid = 7, gq_nonce = nonce\<rparr>"

text \<open>The GPU with one lease of 60 bytes at priority 10.\<close>

definition ex_held :: broker where
  "ex_held = snd (grant_req 2 ''L1'' (ex_req 60 10 ''n1'') False 60 0 ex_gpu)"

lemmas ex_defs = ex_cfg_def ex_init_def ex_gpu_def ex_req_def ex_held_def broker_init_def
  reaper_tick_def set_gpu_def set_dram_def reap_expired_def reg_new_def grant_req_def grant_split_def reg_add_def
  cache_touch_def Let_def

lemmas ex_ops = ex_defs admit_def resolve_bytes_def total_capacity_def u64_saturating_add_def u64_max_def
  find_by_nonce_def free_for_grant_def free_for_grant_dram_def u64_sum_eq hm_get_def hm_put_def hm_del_def
  hm_values_def all_leases_def cache_key_def new_id_def

lemma ex_gpu_reached: "broker_reaches ex_cfg (broker_init \<lparr>mc_ttl = 1800, mc_entries = []\<rparr>) ex_gpu"
  unfolding ex_gpu_def ex_init_def by (intro r_into_rtranclp broker_step.reaper)

lemma ex_held_admit: "admit ex_cfg 2 ''L1'' (ex_req 60 10 ''n1'') ex_gpu
    = AdmitDone (Inr (req_lease 2 ''L1'' (ex_req 60 10 ''n1'') False 60 0, HowFast)) ex_held"
  by (simp add: ex_ops req_lease_def)

lemma ex_gpu_new: "new_id ex_gpu lid"
  by (simp add: ex_ops)

lemma ex_held_step: "broker_step ex_cfg ex_gpu ex_held"
  using ex_gpu_new ex_held_admit by (rule broker_step.reserve)

lemma ex_gpu_accountable: "accountable (bk_reg ex_gpu)"
  by (simp add: accountable_def reg_ok_def ex_ops vram_sum_def dram_sum_def hm_weight_def)

lemma ex_held_accountable: "accountable (bk_reg ex_held)"
  by (simp add: accountable_def reg_ok_def hm_ok_def ex_ops vram_sum_def dram_sum_def hm_weight_def)

section \<open>Properties\<close>

text \<open>C36: In every state the broker can reach, the registry is consistent: lease ids are distinct and
  a lease is stored under its own id, and each entry of the nonce index names a live lease with
  that nonce.\<close>

theorem broker_registry_ok:
  assumes "broker_reaches cfg (broker_init c) b"
  shows "reg_ok (bk_reg b)"
  by (rule broker_reaches_reg_ok [OF assms]) (simp add: broker_init_def reg_ok_new)

theorem broker_registry_ok_witness:
  "reg_ok (bk_reg ex_held) \<and> map fst (rg_leases (bk_reg ex_held)) = [''L1'']"
proof -
  have "broker_reaches ex_cfg (broker_init \<lparr>mc_ttl = 1800, mc_entries = []\<rparr>) ex_held"
    using ex_gpu_reached ex_held_step by (rule rtranclp.rtrancl_into_rtrancl)
  from broker_registry_ok [OF this] show ?thesis by (simp add: ex_ops)
qed




text \<open>The states in which a waiting request may be: consistent, its new id still unused.\<close>

definition admissible :: "string \<Rightarrow> broker \<Rightarrow> bool" where
  "admissible lid b \<longleftrightarrow> accountable (bk_reg b) \<and> new_id b lid"

lemma admissible_within:
  assumes "admissible lid b" and "v \<le> free_for_grant cfg (bk_reg b)"
    and "d \<le> free_for_grant_dram cfg (bk_reg b)" and "grant_req now lid q e v d b = (l, b')"
  shows "within_limits cfg l (bk_reg b') \<and> reg_get (ls_id l) (bk_reg b') = Some l
     \<and> ls_bytes l = v \<and> ls_dram l = d"
  using grant_req_within [of b lid v cfg d now q e l b'] assms by (simp add: admissible_def new_id_def)

text \<open>C16: A request that is granted a new lease, at once, spilled into system memory or after
  preemption, gets exactly the bytes it asked for (or the broker's estimate), split between
  video and system memory, the lease is in the registry, and each portion leaves the
  configured margin of its memory free.\<close>

theorem grant_within_limits:
  assumes "try_grant cfg now lid soft hard t1 t2 sch q b = Some (Inr (l, how), b')"
    and "how \<noteq> HowDedup" and "admissible lid b"
    and "\<And>k. keeps (admissible lid) (\<lambda>s. snd (soft k s))" and "\<And>k. keeps (admissible lid) (hard k)"
    and "\<forall>x \<in> set sch. keeps (admissible lid) (snd x)"
  shows "within_limits cfg l (bk_reg b') \<and> reg_get (ls_id l) (bk_reg b') = Some l
    \<and> (\<exists>e. resolve_bytes cfg now q b = Some (ls_bytes l + ls_dram l, e))"
proof (cases "admit cfg now lid q b")
  case (AdmitDone res b1)
  with assms(1) have a: "admit cfg now lid q b = AdmitDone (Inr (l, how)) b'"
    by (simp add: try_grant_def)
  from a show ?thesis
  proof (cases rule: admit_doneE)
    case (fast n e l0)
    with admissible_within [OF assms(3) fast(3) _ fast(4)] show ?thesis by auto
  next
    case (spilled n e l0)
    with admissible_within [OF assms(3) order_refl spilled(5) spilled(6)] show ?thesis by auto
  qed (use assms(2) in \<open>auto simp: insufficient_def\<close>)
next
  case (AdmitPreempt n e ls)
  note p = admit_preemptD [OF AdmitPreempt]
  from assms(1) AdmitPreempt have "preempt cfg lid q soft hard t1 t2 sch n e ls b = Some (Inr (l, how), b')"
    by (simp add: try_grant_def)
  then have "preempt_outcome cfg lid q n e ls (admissible lid) (Inr (l, how)) b'"
    using assms(4-6,3) by (rule preempt_outcome)
  then obtain now' b1 where g: "admissible lid b1" "n \<le> free_for_grant cfg (bk_reg b1)"
    "grant_req now' lid q e n 0 b1 = (l, b')"
    by (auto simp: preempt_outcome_def insufficient_def)
  with admissible_within [OF g(1,2) _ g(3)] p(1) show ?thesis by auto
qed

text \<open>
  The witness: a request of 50 at priority 40 evicts the lease of 60 at priority 10, whose owner
  releases it while the broker waits.
\<close>

definition ex_evict :: "broker \<Rightarrow> broker" where
  "ex_evict b = snd (handle_release (JObj [(''lease_id'', JStr ''L1'')]) b)"

lemma ex_evict_keeps: "keeps (admissible ''L2'') ex_evict"
  unfolding keeps_def
proof (intro allI impI)
  fix s assume a: "admissible ''L2'' s"
  let ?r = "bk_reg s"
  have ok: "reg_ok ?r" using a by (simp add: admissible_def accountable_def)
  have e: "bk_reg (ex_evict s) = snd (reg_remove ''L1'' ?r)"
    by (simp add: ex_evict_def payload_id_def get_str_def)
  have "vram_sum (snd (reg_remove ''L1'' ?r)) \<le> vram_sum ?r" "dram_sum (snd (reg_remove ''L1'' ?r)) \<le> dram_sum ?r"
    by (auto simp: vram_sum_def dram_sum_def reg_remove_def Let_def hm_weight_del_le reg_ok_leases [OF ok]
        split: option.splits)
  moreover have "hm_get (rg_leases (snd (reg_remove ''L1'' ?r))) ''L2'' = None"
    using a by (auto simp: admissible_def new_id_def reg_remove_def Let_def split: option.splits)
  ultimately show "admissible ''L2'' (ex_evict s)"
    using a reg_ok_remove [OF ok] by (auto simp: admissible_def accountable_def new_id_def e)
qed

lemma ex_preempt_run:
  "try_grant ex_cfg 3 ''L2'' (\<lambda>k s. (True, s)) (\<lambda>k s. s) 3 14 [(4, ex_evict), (5, id)] (ex_req 50 40 ''n2'') ex_held
     = Some (Inr (req_lease 5 ''L2'' (ex_req 50 40 ''n2'') False 50 0, HowPreempted [''L1''] True),
         snd (grant_req 5 ''L2'' (ex_req 50 40 ''n2'') False 50 0 (ex_evict ex_held)))"
  by (simp add: try_grant_def ex_ops preempt_def signal_soft_evict_def ex_evict_def handle_release_def
      payload_id_def get_str_def reg_remove_def blockers_for_def req_lease_def u64_add_def)

theorem grant_within_limits_witness:
  "within_limits ex_cfg (req_lease 5 ''L2'' (ex_req 50 40 ''n2'') False 50 0)
     (bk_reg (snd (grant_req 5 ''L2'' (ex_req 50 40 ''n2'') False 50 0 (ex_evict ex_held))))"
proof -
  have "admissible ''L2'' ex_held"
    using ex_held_accountable by (simp add: admissible_def ex_ops)
  then show ?thesis
    using grant_within_limits [OF ex_preempt_run] ex_evict_keeps by (simp add: keeps_def)
qed

text \<open>The leases that a preempting request asks to be evicted are live, not synthetic, of strictly
  lower priority than the request, taken in order of increasing priority; together with the free
  bytes they cover the request, and without the last of them they would not.\<close>

theorem eviction_victims:
  assumes "admit cfg now lid q b = AdmitPreempt n e ls" and "accountable (bk_reg b)"
  shows "(\<forall>l \<in> set ls. l \<in> set (all_leases (bk_reg b)) \<and> \<not> ls_synthetic l \<and> ls_priority l < gq_priority q)
    \<and> sorted (map ls_priority ls) \<and> ls \<noteq> []
    \<and> n \<le> free_for_grant cfg (bk_reg b) + sum_list (map ls_bytes ls)
    \<and> free_for_grant cfg (bk_reg b) + sum_list (map ls_bytes (butlast ls)) < n"
proof -
  let ?bl = "blockers_for (gq_priority q) (bk_reg b)"
  let ?free = "free_for_grant cfg (bk_reg b)"
  note p = admit_preemptD [OF assms(1)]
  note lt = free_plus_blockers [OF assms(2), of cfg "gq_priority q"]
  from lt p(6) have n: "n \<le> ?free + sum_list (map ls_bytes ?bl)"
    by (simp add: u64_add_def u64_sum_exact add.commute)
  have enough: "n \<le> ?free + sum_list (map ls_bytes ls)"
    using pick_evict_enough [OF lt n] p(5) by simp
  then have ne: "ls \<noteq> []" using p(4) by auto
  obtain k where k: "ls = take k ?bl" using pick_evict_prefix [of n ?free ?bl] p(5) by auto
  have "set ls \<subseteq> set ?bl" unfolding k by (rule set_take_subset)
  moreover have "sorted (map ls_priority ls)"
    unfolding k using sorted_blockers by (simp add: take_map [symmetric] sorted_wrt_take)
  ultimately show ?thesis
    using enough ne pick_evict_minimal [OF lt, of n] p(5) by (auto simp: set_blockers)
qed

theorem eviction_victims_witness:
  "\<exists>ls. admit ex_cfg 3 ''L2'' (ex_req 50 40 ''n2'') ex_held = AdmitPreempt 50 False ls
     \<and> map ls_id ls = [''L1''] \<and> 50 \<le> free_for_grant ex_cfg (bk_reg ex_held) + sum_list (map ls_bytes ls)"
proof -
  let ?ls = "[req_lease 2 ''L1'' (ex_req 60 10 ''n1'') False 60 0]"
  have a: "admit ex_cfg 3 ''L2'' (ex_req 50 40 ''n2'') ex_held = AdmitPreempt 50 False ?ls"
    by (simp add: ex_ops blockers_for_def u64_add_def req_lease_def)
  with eviction_victims [OF a ex_held_accountable] show ?thesis by auto
qed




text \<open>A client that repeats a sized request with the same nonce after a grant, whatever the clock,
  gets the same lease back and the state does not change: nothing is granted twice.\<close>

theorem retry_same_lease:
  assumes "admit cfg now lid q b = AdmitDone (Inr (l, how)) b'"
    and "gq_nonce q \<noteq> []" and "0 < gq_bytes q"
  shows "admit cfg now' lid' q b' = AdmitDone (Inr (l, HowDedup)) b'"
proof -
  have r: "resolve_bytes cfg t q s = Some (nat (gq_bytes q), False)" for t s
    using assms(3) by (simp add: resolve_bytes_def)
  have fits: "\<not> (rg_total (bk_reg b) \<noteq> 0 \<and> total_capacity cfg (bk_reg b) < nat (gq_bytes q))"
    using assms(1) by (auto simp: admit_def Let_def r split: if_splits)
  have "find_by_nonce (gq_nonce q) (bk_reg b') = Some l \<and> rg_total (bk_reg b') = rg_total (bk_reg b)
      \<and> total_capacity cfg (bk_reg b') = total_capacity cfg (bk_reg b)"
    using assms(1)
  proof (cases rule: admit_doneE)
    case (fast n e l0)
    then show ?thesis using assms(2)
      by (auto simp: grant_req_eq find_by_nonce_def reg_add_def Let_def total_capacity_def)
  next
    case (spilled n e l0)
    then show ?thesis using assms(2)
      by (auto simp: grant_req_eq find_by_nonce_def reg_add_def Let_def total_capacity_def)
  qed (simp_all add: insufficient_def)
  with fits show ?thesis unfolding admit_def Let_def r by simp
qed

theorem retry_same_lease_witness:
  "admit ex_cfg 9 ''L9'' (ex_req 60 10 ''n1'') ex_held
     = AdmitDone (Inr (req_lease 2 ''L1'' (ex_req 60 10 ''n1'') False 60 0, HowDedup)) ex_held"
  by (rule retry_same_lease [OF ex_held_admit]) (simp_all add: ex_req_def)

text \<open>C39: A call to vram.reserve always returns: when the clock passes the soft deadline and later the
  hard one, the polling loops have ended and there is a result, granted or refused.\<close>

theorem reserve_returns:
  assumes "sch = pre @ (now1, env1) # mid @ (now2, env2) # post"
    and "t1 + vc_grace_period cfg \<le> now1" and "t2 + vc_evict_timeout cfg \<le> now2"
    and "\<forall>x \<in> set pre. fst x < t1 + vc_grace_period cfg"
  shows "\<exists>res b'. try_grant cfg now lid soft hard t1 t2 sch q b = Some (res, b')"
proof (cases "admit cfg now lid q b")
  case (AdmitPreempt n e ls)
  have hard_ends: "\<exists>res b'. hard_phase cfg lid q hard t2 n e ls b0 sch0 = Some (res, b')"
    if last: "(now2, env2) \<in> set sch0" for b0 sch0
  proof -
    obtain fits t b2 rest where "wait_fit cfg n (t2 + vc_evict_timeout cfg) sch0
        (hard_evict_survivors hard ls b0) = Some (fits, t, b2, rest)"
      using wait_fit_ends [OF last assms(3)] by (metis prod_cases4)
    then show ?thesis by (simp add: hard_phase_def Let_def split: prod.split)
  qed
  have "\<exists>res b'. preempt cfg lid q soft hard t1 t2 sch n e ls b = Some (res, b')"
  proof (cases "0 < vc_grace_period cfg")
    case True
    let ?b = "fold (signal_soft_evict soft hard) ls b"
    have "(now1, env1) \<in> set sch" using assms(1) by simp
    from wait_fit_ends [OF this assms(2)] obtain fits t b2 rest where
      w: "wait_fit cfg n (t1 + vc_grace_period cfg) sch ?b = Some (fits, t, b2, rest)"
      by (metis prod_cases4)
    show ?thesis
    proof (cases fits)
      case False
      obtain p envx where px: "sch = p @ (t, envx) # rest" "\<forall>x \<in> set p. fst x < t1 + vc_grace_period cfg"
        using wait_fit_rest [of cfg n "t1 + vc_grace_period cfg" sch ?b t b2 rest] w False by auto
      have "length p \<le> length pre"
      proof (rule ccontr)
        assume "\<not> length p \<le> length pre"
        then have "(now1, env1) = p ! length pre"
          using px(1) assms(1) by (metis nth_append nth_append_length not_le)
        then have "(now1, env1) \<in> set p" using \<open>\<not> length p \<le> length pre\<close> by simp
        with px(2) assms(2) show False by force
      qed
      then have "drop (Suc (length pre)) sch = drop (length pre - length p) rest"
        using px(1) by (simp add: Suc_diff_le)
      moreover have "drop (Suc (length pre)) sch = mid @ (now2, env2) # post"
        using assms(1) by simp
      ultimately have "(now2, env2) \<in> set (drop (length pre - length p) rest)"
        by (metis in_set_conv_decomp)
      then have "(now2, env2) \<in> set rest" by (rule in_set_dropD)
      with hard_ends [of rest b2] True w False show ?thesis by (simp add: preempt_def)
    qed (use True w in \<open>simp add: preempt_def split: prod.split\<close>)
  next
    case False
    have "(now2, env2) \<in> set sch" using assms(1) by simp
    with hard_ends [of sch b] False show ?thesis by (simp add: preempt_def)
  qed
  with AdmitPreempt show ?thesis by (simp add: try_grant_def)
qed (simp add: try_grant_def)

theorem reserve_returns_witness:
  "\<exists>res b'. try_grant ex_cfg 3 ''L2'' (\<lambda>k s. (True, s)) (\<lambda>k s. s) 3 14 [(13, id), (17, id)]
      (ex_req 50 40 ''n2'') ex_held = Some (res, b')"
  by (rule reserve_returns [where pre = "[]" and mid = "[]" and post = "[]" and ?now1.0 = 13 and ?now2.0 = 17])
    (simp_all add: ex_cfg_def)


text \<open>One round of the reaper removes exactly the real leases whose expiry has passed; a synthetic
  lease, and a lease whose heartbeat is younger than its time to live, stays as it is.\<close>

theorem reaper_exact:
  assumes "reg_ok (bk_reg b)"
  shows "reg_get lid (bk_reg (snd (reaper_tick every now gpu dram tick b))) =
    (case reg_get lid (bk_reg b) of None \<Rightarrow> None
     | Some l \<Rightarrow> if \<not> ls_synthetic l \<and> now > ls_expires_at l then None else Some l)"
proof -
  obtain r where r: "bk_reg (snd (reaper_tick every now gpu dram tick b)) = snd (reap_expired now r)"
    "rg_leases r = rg_leases (bk_reg b)" "rg_by_nonce r = rg_by_nonce (bk_reg b)"
    using bk_reg_reaper by blast
  then have "reg_ok r" using assms by (simp add: reg_ok_def)
  from reap_expired_get [OF this] show ?thesis by (simp add: r reg_get_def)
qed

theorem reaper_exact_witness:
  "reg_get ''L1'' (bk_reg (snd (reaper_tick 30 62 None None 1 ex_held))) \<noteq> None
   \<and> reg_get ''L1'' (bk_reg (snd (reaper_tick 30 63 None None 1 ex_held))) = None"
proof -
  have ok: "reg_ok (bk_reg ex_held)" using ex_held_accountable by (simp add: accountable_def)
  have "reg_get ''L1'' (bk_reg ex_held) = Some (req_lease 2 ''L1'' (ex_req 60 10 ''n1'') False 60 0)"
    by (simp add: ex_ops reg_get_def req_lease_def)
  moreover have "ls_expires_at (req_lease 2 ''L1'' (ex_req 60 10 ''n1'') False 60 0) = 62"
    by (simp add: ex_defs req_lease_def)
  ultimately show ?thesis by (simp add: reaper_exact [OF ok])
qed

text \<open>A heartbeat keeps its lease alive: after a heartbeat at \<open>now\<close> with a time to live, a reaper
  round at any time up to their sum leaves the lease, renewed, in the registry.\<close>

theorem heartbeat_keeps_alive:
  assumes "reg_ok (bk_reg b)" and "reg_get lid (bk_reg b) = Some l"
    and "later \<le> now + ttl"
  shows "reg_get lid (bk_reg (snd (reaper_tick every later gpu dram tick
      (snd (handle_heartbeat cfg now (JObj [(''lease_id'', JStr lid), (''ttl'', JFloat ttl)]) b)))))
    = Some (l\<lparr>ls_heartbeat_at := now, ls_expires_at := now + ttl\<rparr>)"
proof -
  let ?b = "snd (handle_heartbeat cfg now (JObj [(''lease_id'', JStr lid), (''ttl'', JFloat ttl)]) b)"
  have b: "bk_reg ?b = snd (reg_touch now lid ttl (bk_reg b))"
    by (auto simp: handle_heartbeat_def payload_id_def get_str_def split: prod.splits option.splits)
  obtain r where r: "bk_reg (snd (reaper_tick every later gpu dram tick ?b)) = snd (reap_expired later r)"
    "rg_leases r = rg_leases (bk_reg ?b)" "rg_by_nonce r = rg_by_nonce (bk_reg ?b)"
    using bk_reg_reaper by blast
  have "reg_ok (bk_reg ?b)" unfolding b using assms(1) by (rule reg_ok_touch)
  then have "reg_ok r" using r by (simp add: reg_ok_def)
  from reap_expired_get [OF this, of later lid] show ?thesis
    using assms(2,3) by (simp add: r reg_get_def b reg_touch_def Let_def)
qed

theorem heartbeat_keeps_alive_witness:
  "reg_get ''L1'' (bk_reg (snd (reaper_tick 30 100 None None 1
      (snd (handle_heartbeat ex_cfg 50 (JObj [(''lease_id'', JStr ''L1''), (''ttl'', JFloat 60)]) ex_held))))) \<noteq> None"
proof -
  have ok: "reg_ok (bk_reg ex_held)" using ex_held_accountable by (simp add: accountable_def)
  have g: "reg_get ''L1'' (bk_reg ex_held) = Some (req_lease 2 ''L1'' (ex_req 60 10 ''n1'') False 60 0)"
    by (simp add: ex_ops reg_get_def req_lease_def)
  from heartbeat_keeps_alive [OF ok g] show ?thesis by simp
qed

text \<open>The per-service rows of the state snapshot add up to the registry's totals: the bytes over
  all rows are the reserved video memory, the dram bytes the reserved system memory, and the
  counts the number of leases (all modulo \<open>2 ^ 64\<close>).\<close>

theorem by_service_totals:
  "u64_sum (map sv_bytes (by_service (all_leases r))) = reserved_total r
   \<and> u64_sum (map sv_dram (by_service (all_leases r))) = reserved_dram_total r
   \<and> u64_sum (map sv_count (by_service (all_leases r))) = length (all_leases r) mod 2 ^ 64"
proof (intro conjI)
  show "u64_sum (map sv_bytes (by_service (all_leases r))) = reserved_total r"
    unfolding reserved_total_def all_leases_def by (rule by_service_sum, rule rows_weight) simp_all
  show "u64_sum (map sv_dram (by_service (all_leases r))) = reserved_dram_total r"
    unfolding reserved_dram_total_def all_leases_def by (rule by_service_sum, rule rows_weight) simp_all
  have "u64_sum (map sv_count (by_service (all_leases r))) = u64_sum (map (\<lambda>_. 1) (all_leases r))"
    by (rule by_service_sum, rule rows_weight) simp_all
  then show "u64_sum (map sv_count (by_service (all_leases r))) = length (all_leases r) mod 2 ^ 64"
    by (simp add: u64_sum_eq sum_list_triv)
qed

text \<open>Two requests on different threads, each of which checks the free bytes before the other
  inserts its lease, are both granted, and the grants together exceed the GPU's size.\<close>

theorem overlapping_reserves_overcommit:
  "\<exists>cfg b q1 q2 b1 b2 l1 l2.
     accountable (bk_reg b)
     \<and> admit cfg 2 ''A'' q1 b = AdmitDone (Inr (l1, HowFast)) b1
     \<and> admit cfg 2 ''B'' q2 b = AdmitDone (Inr (l2, HowFast)) b2
     \<and> bk_reg b1 = reg_add l1 (bk_reg b)
     \<and> rg_total (bk_reg b) < granted_sum (reg_add l2 (bk_reg b1))"
proof -
  let ?l = "\<lambda>i n. req_lease 2 i (ex_req 60 10 n) False 60 0"
  have "admit ex_cfg 2 ''A'' (ex_req 60 10 ''a'') ex_gpu
      = AdmitDone (Inr (?l ''A'' ''a'', HowFast)) (snd (grant_req 2 ''A'' (ex_req 60 10 ''a'') False 60 0 ex_gpu))"
    and "admit ex_cfg 2 ''B'' (ex_req 60 10 ''b'') ex_gpu
      = AdmitDone (Inr (?l ''B'' ''b'', HowFast)) (snd (grant_req 2 ''B'' (ex_req 60 10 ''b'') False 60 0 ex_gpu))"
    by (simp_all add: ex_ops req_lease_def)
  moreover have "bk_reg (snd (grant_req 2 ''A'' (ex_req 60 10 ''a'') False 60 0 ex_gpu))
      = reg_add (?l ''A'' ''a'') (bk_reg ex_gpu)" by (simp add: grant_req_eq)
  moreover have "rg_total (bk_reg ex_gpu) < granted_sum (reg_add (?l ''B'' ''b'') (reg_add (?l ''A'' ''a'') (bk_reg ex_gpu)))"
    by (simp add: granted_sum_def hm_weight_def real_bytes_def ex_ops req_lease_def)
  ultimately show ?thesis using ex_gpu_accountable by metis
qed


text \<open>The nonce is only looked up before the waits of a preemption: a request whose client repeats
  it while it waits is granted after the repetition has been, and two live leases carry the one
  nonce.\<close>

theorem nonce_granted_twice:
  "\<exists>cfg b q sch l l' how b'.
     try_grant cfg 3 ''L2'' (\<lambda>k s. (True, s)) (\<lambda>k s. s) 3 14 sch q b = Some (Inr (l, HowPreempted how True), b')
     \<and> (\<forall>x \<in> set sch. \<forall>s. new_id s ''L3'' \<longrightarrow> broker_reaches cfg s (snd x s))
     \<and> reg_get ''L2'' (bk_reg b') = Some l \<and> reg_get ''L3'' (bk_reg b') = Some l'
     \<and> ls_nonce l = gq_nonce q \<and> ls_nonce l' = gq_nonce q \<and> gq_nonce q \<noteq> []"
proof -
  let ?q = "ex_req 45 40 ''n2''"
  let ?step = "\<lambda>s. case admit ex_cfg 4 ''L3'' ?q (ex_evict s) of AdmitDone _ s' \<Rightarrow> s' | _ \<Rightarrow> ex_evict s"
  let ?sch = "[(4, ?step), (5, id)]"
  let ?l = "\<lambda>t i. req_lease t i ?q False 45 0"
  let ?b = "snd (grant_req 5 ''L2'' ?q False 45 0 (?step ex_held))"
  have run: "try_grant ex_cfg 3 ''L2'' (\<lambda>k s. (True, s)) (\<lambda>k s. s) 3 14 ?sch ?q ex_held
      = Some (Inr (?l 5 ''L2'', HowPreempted [''L1''] True), ?b)"
    by (simp add: try_grant_def ex_ops preempt_def signal_soft_evict_def ex_evict_def handle_release_def
        payload_id_def get_str_def reg_remove_def blockers_for_def req_lease_def u64_add_def)
  have get: "reg_get ''L2'' (bk_reg ?b) = Some (?l 5 ''L2'')" "reg_get ''L3'' (bk_reg ?b) = Some (?l 4 ''L3'')"
    by (simp_all add: ex_ops ex_evict_def handle_release_def payload_id_def get_str_def reg_remove_def
        reg_get_def req_lease_def)
  have "broker_reaches ex_cfg s (?step s)" if "new_id s ''L3''" for s
  proof -
    have e: "broker_step ex_cfg s (ex_evict s)" unfolding ex_evict_def by (rule broker_step.release)
    have "new_id (ex_evict s) ''L3''"
      using that by (auto simp: new_id_def ex_evict_def reg_remove_def Let_def split: option.splits)
    then have "broker_step ex_cfg (ex_evict s) s'" if "admit ex_cfg 4 ''L3'' ?q (ex_evict s) = AdmitDone r s'" for r s'
      using that by (rule broker_step.reserve)
    with e show ?thesis by (auto split: admission.split intro: rtranclp.rtrancl_into_rtrancl)
  qed
  then have "\<forall>x \<in> set ?sch. \<forall>s. new_id s ''L3'' \<longrightarrow> broker_reaches ex_cfg s (snd x s)" by simp
  moreover have "gq_nonce ?q \<noteq> []" by (simp add: ex_req_def)
  ultimately show ?thesis
    using run get
    by (intro exI [of _ ex_cfg] exI [of _ ex_held] exI [of _ ?q] exI [of _ ?sch] exI [of _ "?l 5 ''L2''"]
        exI [of _ "?l 4 ''L3''"] exI [of _ "[''L1'']"] exI [of _ ?b] conjI) (assumption | simp only: req_lease_sel)+
qed

theorem nonce_granted_twice_witness:
  "\<exists>cfg b q sch l l' how b'.
     try_grant cfg 3 ''L2'' (\<lambda>k s. (True, s)) (\<lambda>k s. s) 3 14 sch q b = Some (Inr (l, HowPreempted how True), b')
     \<and> reg_get ''L2'' (bk_reg b') = Some l \<and> reg_get ''L3'' (bk_reg b') = Some l'
     \<and> ls_nonce l = gq_nonce q \<and> ls_nonce l' = gq_nonce q \<and> gq_nonce q \<noteq> []"
  using nonce_granted_twice by (elim exE conjE) (intro exI conjI)

lemma find_unique:
  assumes "e \<in> set xs" and "P e" and "\<And>x. x \<in> set xs \<Longrightarrow> P x \<Longrightarrow> x = e"
  shows "List.find P xs = Some e"
proof (cases "List.find P xs")
  case None
  with assms(1,2) show ?thesis by (simp add: find_None_iff)
next
  case (Some x)
  then have "x \<in> set xs" "P x" by (auto simp: find_Some_iff)
  with assms(3) Some show ?thesis by simp
qed

text \<open>The cache stores an entry under the key made of its service and model.\<close>

definition cache_ok :: "model_cache \<Rightarrow> bool" where
  "cache_ok c \<longleftrightarrow> hm_ok (mc_entries c)
     \<and> (\<forall>(k, e) \<in> set (mc_entries c). k = cache_key (ce_service e) (ce_model e))"

lemma cache_ok_iff: "cache_ok c \<longleftrightarrow> hm_ok (mc_entries c)
    \<and> (\<forall>k e. hm_get (mc_entries c) k = Some e \<longrightarrow> k = cache_key (ce_service e) (ce_model e))"
  unfolding cache_ok_def by (rule conj_cong [OF refl]) (rule hm_all_entries)

lemma cache_ok_touch: "cache_ok c \<Longrightarrow> cache_ok (cache_touch now svc m n p c)"
  by (auto simp: cache_ok_iff cache_touch_def split: if_splits)

lemma model_cache_bytes_touched:
  assumes "cache_ok c" and "now \<le> now'" and "now' - now < mc_ttl c"
  shows "model_cache_bytes now' (cache_touch now svc m n p c) svc m = Some n"
proof -
  let ?c = "cache_touch now svc m n p c"
  let ?e = "\<lparr>ce_service = svc, ce_model = m, ce_bytes = n, ce_last_used = now, ce_last_priority = p\<rparr>"
  have ok: "cache_ok ?c" using assms(1) by (rule cache_ok_touch)
  have get: "hm_get (mc_entries ?c) (cache_key svc m) = Some ?e" by (simp add: cache_touch_def)
  have all: "set (cache_all now' ?c) = {e. (\<exists>k. hm_get (mc_entries ?c) k = Some e) \<and> now' - mc_ttl ?c \<le> ce_last_used e}"
    using ok by (auto simp: cache_all_def Let_def hm_values_iff cache_ok_def)
  have "List.find (\<lambda>e. ce_service e = svc \<and> ce_model e = m) (cache_all now' ?c) = Some ?e"
  proof (rule find_unique)
    show "?e \<in> set (cache_all now' ?c)"
      using get assms(3) by (auto simp: all) (simp add: cache_touch_def)
    fix x
    assume "x \<in> set (cache_all now' ?c)" and sm: "ce_service x = svc \<and> ce_model x = m"
    then obtain k where k: "hm_get (mc_entries ?c) k = Some x" by (auto simp: all)
    with ok have "k = cache_key (ce_service x) (ce_model x)" unfolding cache_ok_iff by blast
    with k get sm show "x = ?e" by simp
  qed simp
  moreover have "warm_for now' svc m ?c"
    using get assms(3) by (simp add: warm_for_def) (simp add: cache_touch_def)
  ultimately show ?thesis by (simp add: model_cache_bytes_def)
qed

text \<open>A grant whose bytes all went to system memory (the GPU was full) leaves 0 in the keep-warm
  cache, which the estimator takes for the size of the model: until the entry is stale, every
  request for the model that states no size is refused as invalid_request, also the repetition
  of the granted one.\<close>

theorem spilled_grant_blocks_estimates:
  assumes "admit cfg now lid q b = AdmitDone (Inr (l, HowSpilled)) b'" and "ls_bytes l = 0"
    and "cache_ok (bk_cache b)" and "now \<le> now'" and "now' - now < mc_ttl (bk_cache b)"
    and "gq_service q' = gq_service q" and "gq_model q' = gq_model q" and "gq_bytes q' \<le> 0"
  shows "admit cfg now' lid' q' b' = AdmitDone (Inl (InvalidRequest ''bytes must be positive'')) b'"
proof -
  have "bk_cache b' = cache_touch now (gq_service q) (gq_model q) 0 (gq_priority q) (bk_cache b)"
    using assms(1)
  proof (cases rule: admit_doneE)
    case (spilled n e l0)
    then show ?thesis using assms(2) by (auto simp: grant_req_eq)
  qed (simp_all add: insufficient_def)
  then have "resolve_bytes cfg now' q' b' = None"
    using model_cache_bytes_touched [OF assms(3-5)] assms(6-8)
    by (simp add: resolve_bytes_def estimate_for_def)
  then show ?thesis by (simp add: admit_def Let_def)
qed

text \<open>The witness: a GPU of 10 bytes, all of them the margin, and 1000 bytes of system memory.\<close>

definition ex_full :: broker where
  "ex_full = snd (reaper_tick 30 1 (Some (10, 0, ''gpu'')) (Some (1000, 0)) 0 ex_init)"

theorem spilled_grant_blocks_estimates_witness:
  "\<exists>b'. (\<exists>l. admit ex_cfg 2 ''L1'' (ex_req 60 10 ''n1'') ex_full = AdmitDone (Inr (l, HowSpilled)) b')
     \<and> admit ex_cfg 5 ''L2'' (ex_req 0 10 ''n2'') b' = AdmitDone (Inl (InvalidRequest ''bytes must be positive'')) b'"
proof -
  let ?q = "ex_req 60 10 ''n1''"
  have a: "admit ex_cfg 2 ''L1'' ?q ex_full
      = AdmitDone (Inr (req_lease 2 ''L1'' ?q False 0 60, HowSpilled)) (snd (grant_req 2 ''L1'' ?q False 0 60 ex_full))"
    by (simp add: ex_full_def ex_ops req_lease_def)
  have "cache_ok (bk_cache ex_full)" "mc_ttl (bk_cache ex_full) = 1800"
    by (simp_all add: ex_full_def ex_ops cache_ok_def)
  with spilled_grant_blocks_estimates [OF a, of 5 "ex_req 0 10 ''n2''" "''L2''"] a
  show ?thesis by (auto simp: ex_req_def)
qed

end
