(* ===== verification/Gate_Auth.thy ===== *)
theory Gate_Auth
  imports Prelude
begin

text \<open>
  Password checks of the device gate (\<open>wylde-device-gate/src/auth.rs\<close>): the htpasswd look-up,
  the dispatch on the hash scheme, and the APR1 algorithm the crate implements itself. MD5,
  bcrypt and SHA-crypt are the crates' functions, gathered in the record \<open>crypto\<close>. The slice
  of the salt can panic inside a character: a \<open>None\<close> is a panic.
\<close>

record crypto =
  cr_md5 :: "byte list \<Rightarrow> byte list"
  cr_bcrypt :: "string \<Rightarrow> string \<Rightarrow> bool"
  cr_sha_crypt :: "string \<Rightarrow> string \<Rightarrow> bool"

section \<open>The htpasswd file\<close>

text \<open>The file's text, \<open>None\<close> when it is missing or unreadable.\<close>

fun find_user :: "string \<Rightarrow> string list \<Rightarrow> string option" where
  "find_user username [] = None"
| "find_user username (raw # ls) =
     (let line = trim raw in
      if line = [] \<or> starts_with line ''#'' then find_user username ls
      else case split_once (CHR '':'') line of
        None \<Rightarrow> find_user username ls
      | Some (user, hashed) \<Rightarrow>
          if user = username then Some (trim hashed) else find_user username ls)"

definition read_hash :: "string option \<Rightarrow> string \<Rightarrow> string option" where
  "read_hash file username =
     (case file of None \<Rightarrow> None | Some data \<Rightarrow> find_user username (split_lines data))"

section \<open>APR1\<close>

definition APR1_MAGIC :: string where "APR1_MAGIC = ''$apr1$''"

definition APR1_B64 :: string where
  "APR1_B64 = ''./0123456789ABCDEFGHIJKLMNOPQRSTUVWXYZabcdefghijklmnopqrstuvwxyz''"

definition APR1_SALT_MAX :: nat where "APR1_SALT_MAX = 8"

fun apr1_to64 :: "32 word \<Rightarrow> nat \<Rightarrow> string" where
  "apr1_to64 value 0 = []"
| "apr1_to64 value (Suc n) = APR1_B64 ! unat (and value 0x3f) # apr1_to64 (drop_bit 6 value) n"

text \<open>Step 3: as many bytes of the alternate digest as the password has, 16 at a time.\<close>

function apr1_fill :: "byte list \<Rightarrow> nat \<Rightarrow> byte list" where
  "apr1_fill alt remaining =
     (if remaining = 0 then [] else take (min remaining 16) alt @ apr1_fill alt (remaining - 16))"
  by pat_completeness auto
termination
  by (relation "measure snd") auto

text \<open>Step 4: one byte per bit of the password's length.\<close>

function apr1_bits :: "byte list \<Rightarrow> nat \<Rightarrow> byte list" where
  "apr1_bits password j =
     (if j = 0 then [] else (if odd j then [0] else take 1 password) @ apr1_bits password (j div 2))"
  by pat_completeness auto
termination
  by (relation "measure snd") auto

declare apr1_fill.simps [simp del] apr1_bits.simps [simp del]

definition apr1_round :: "(byte list \<Rightarrow> byte list) \<Rightarrow> byte list \<Rightarrow> byte list \<Rightarrow> nat \<Rightarrow> byte list \<Rightarrow> byte list" where
  "apr1_round md5 password salt i final_digest =
     md5 ((if odd i then password else final_digest)
          @ (if i mod 3 \<noteq> 0 then salt else [])
          @ (if i mod 7 \<noteq> 0 then password else [])
          @ (if odd i then final_digest else password))"

definition apr1_word :: "byte list \<Rightarrow> nat \<Rightarrow> nat \<Rightarrow> nat \<Rightarrow> 32 word" where
  "apr1_word d i j k =
     or (or (push_bit 16 (ucast (d ! i))) (push_bit 8 (ucast (d ! j)))) (ucast (d ! k))"

definition compute_apr1 :: "(byte list \<Rightarrow> byte list) \<Rightarrow> byte list \<Rightarrow> byte list \<Rightarrow> string" where
  "compute_apr1 md5 password salt =
     (let alt = md5 (password @ salt @ password);
          first = md5 (password @ bytes_of APR1_MAGIC @ salt
            @ apr1_fill alt (length password) @ apr1_bits password (length password));
          d = fold (apr1_round md5 password salt) [0..<1000] first
      in apr1_to64 (apr1_word d 0 6 12) 4 @ apr1_to64 (apr1_word d 1 7 13) 4
         @ apr1_to64 (apr1_word d 2 8 14) 4 @ apr1_to64 (apr1_word d 3 9 15) 4
         @ apr1_to64 (apr1_word d 4 10 5) 4 @ apr1_to64 (ucast (d ! 11)) 2)"

definition verify_apr1 :: "crypto \<Rightarrow> string \<Rightarrow> string \<Rightarrow> bool option" where
  "verify_apr1 cr password stored =
     (case strip_prefix APR1_MAGIC stored of
        None \<Rightarrow> Some False
      | Some body \<Rightarrow>
          (case split_once (CHR ''$'') body of
             None \<Rightarrow> Some False
           | Some (salt, expected) \<Rightarrow>
               (case str_slice salt 0 (min (length salt) APR1_SALT_MAX) of
                  None \<Rightarrow> None
                | Some s \<Rightarrow>
                    Some (compute_apr1 (cr_md5 cr) (bytes_of password) (bytes_of s) = expected))))"

section \<open>Verification\<close>

definition verify_hash :: "crypto \<Rightarrow> string \<Rightarrow> string \<Rightarrow> bool option" where
  "verify_hash cr stored_hash password =
     (if stored_hash = [] then Some False
      else if (case strip_prefix ''$2'' stored_hash of
                 Some (c # _) \<Rightarrow> c \<in> {CHR ''a'', CHR ''b'', CHR ''x'', CHR ''y''}
               | _ \<Rightarrow> False)
        then Some (cr_bcrypt cr password stored_hash)
      else if starts_with stored_hash APR1_MAGIC then verify_apr1 cr password stored_hash
      else if starts_with stored_hash ''$6$'' \<or> starts_with stored_hash ''$5$''
        then Some (cr_sha_crypt cr password stored_hash)
      else Some False)"

definition DUMMY_HASH :: string where
  "DUMMY_HASH = ''$apr1$xxxxxxxx$0000000000000000000000''"

text \<open>The dummy hash is computed for its time only; it cannot panic, its salt being ASCII.\<close>

definition verify_credentials :: "crypto \<Rightarrow> string option \<Rightarrow> string \<Rightarrow> string \<Rightarrow> bool option" where
  "verify_credentials cr file username password =
     (if username = [] then map_option (\<lambda>_. False) (verify_hash cr DUMMY_HASH password)
      else if password = [] then Some False
      else case read_hash file username of
        None \<Rightarrow> map_option (\<lambda>_. False) (verify_hash cr DUMMY_HASH password)
      | Some stored \<Rightarrow> verify_hash cr stored password)"

section \<open>Lemmas\<close>

lemma str_slice_ascii:
  assumes "\<forall>c \<in> set s. \<not> utf8_cont c" and "i \<le> j" and "j \<le> length s"
  shows "str_slice s i j = Some (take (j - i) (drop i s))"
  using assms by (auto simp: str_slice_def is_char_boundary_def)

lemma verify_dummy: "\<exists>r. verify_hash cr DUMMY_HASH password = Some r"
  by (simp add: verify_hash_def verify_apr1_def DUMMY_HASH_def APR1_MAGIC_def APR1_SALT_MAX_def
      strip_prefix_def starts_with_def split_once_def str_slice_def is_char_boundary_def)

lemma apr1_to64_alphabet: "set (apr1_to64 v n) \<subseteq> set APR1_B64"
proof (induction v n rule: apr1_to64.induct)
  case (2 v n)
  have "and v 0x3f \<le> (0x3f :: 32 word)" by (rule word_and_le1)
  then have "unat (and v 0x3f) \<le> unat (0x3f :: 32 word)" by (simp add: word_le_nat_alt)
  then have "unat (and v 0x3f) < length APR1_B64" by (simp add: APR1_B64_def)
  then show ?case using "2.IH" by simp
qed simp

lemma apr1_to64_length [simp]: "length (apr1_to64 v n) = n"
  by (induction v n rule: apr1_to64.induct) auto

lemma compute_apr1_shape:
  "length (compute_apr1 md5 p s) = 22 \<and> set (compute_apr1 md5 p s) \<subseteq> set APR1_B64"
  unfolding compute_apr1_def Let_def by (simp add: apr1_to64_alphabet)

lemma apr1_fill_length: "length alt = 16 \<Longrightarrow> length (apr1_fill alt n) = n"
proof (induction alt n rule: apr1_fill.induct)
  case (1 alt n)
  then show ?case by (subst apr1_fill.simps) (cases "n < 16"; auto)
qed

end
