(* ===== verification/Gate_Store.thy ===== *)
theory Gate_Store
  imports Keyed_Store
begin

text \<open>
  The device store and the action log of the device gate (\<open>wylde-device-gate/src/store.rs\<close>).
  The only state is the file: each operation reads it, changes the list and writes it back,
  under one mutex. Reading and writing can fail at each operation (\<open>io\<close>); a failed read is
  an empty list, a failed write leaves the old file, and what the code does with either is
  part of the model. A file that is read back has the records it was written with (serde's
  round trip).
\<close>

section \<open>Tiers\<close>

definition TIER_READ_ONLY :: string where "TIER_READ_ONLY = ''read_only''"
definition TIER_TOOL_USE :: string where "TIER_TOOL_USE = ''tool_use''"
definition TIER_DESTRUCTIVE :: string where "TIER_DESTRUCTIVE = ''destructive_tool_access''"

definition ALL_TIERS :: "string list" where
  "ALL_TIERS = [TIER_READ_ONLY, TIER_TOOL_USE, TIER_DESTRUCTIVE]"

definition tier_rank :: "string \<Rightarrow> int" where
  "tier_rank tier = (if tier = TIER_READ_ONLY then 0 else if tier = TIER_TOOL_USE then 1
     else if tier = TIER_DESTRUCTIVE then 2 else - 1)"

definition is_valid_tier :: "string \<Rightarrow> bool" where
  "is_valid_tier tier = (tier \<in> set ALL_TIERS)"

section \<open>Devices\<close>

record device =
  dv_id :: string
  dv_name :: string
  dv_token :: string
  dv_tier :: string
  dv_paired_at :: real
  dv_last_seen :: real
  dv_metadata :: "(string \<times> json) list"

definition to_public_value :: "device \<Rightarrow> json" where
  "to_public_value d = JObj
     [(''device_id'', JStr (dv_id d)), (''name'', JStr (dv_name d)), (''tier'', JStr (dv_tier d)),
      (''paired_at'', JFloat (dv_paired_at d)), (''last_seen'', JFloat (dv_last_seen d)),
      (''metadata'', JObj (dv_metadata d))]"

section \<open>The store\<close>

type_synonym disk = "device list"

record io =
  io_read :: bool
  io_write :: bool

definition io_good :: io where
  "io_good = \<lparr>io_read = True, io_write = True\<rparr>"

datatype store_error = Duplicate string | StoreIo

definition dev_load :: "io \<Rightarrow> disk \<Rightarrow> device list" where
  "dev_load io disk = (if io_read io then disk else [])"

definition dev_save :: "io \<Rightarrow> device list \<Rightarrow> disk \<Rightarrow> bool \<times> disk" where
  "dev_save io devices disk = (if io_write io then (True, devices) else (False, disk))"

definition dev_get :: "io \<Rightarrow> string \<Rightarrow> disk \<Rightarrow> device option" where
  "dev_get io device_id disk = List.find (\<lambda>d. dv_id d = device_id) (dev_load io disk)"

definition find_by_token :: "io \<Rightarrow> string \<Rightarrow> disk \<Rightarrow> device option" where
  "find_by_token io token disk =
     (if token = [] then None else List.find (\<lambda>d. dv_token d = token) (dev_load io disk))"

definition dev_add :: "io \<Rightarrow> device \<Rightarrow> disk \<Rightarrow> (store_error, device) rust_res \<times> disk" where
  "dev_add io device disk =
     (let devices = dev_load io disk in
      if \<exists>d \<in> set devices. dv_id d = dv_id device then (Inl (Duplicate (dv_id device)), disk)
      else case dev_save io (devices @ [device]) disk of
             (True, disk') \<Rightarrow> (Inr device, disk')
           | (False, disk') \<Rightarrow> (Inl StoreIo, disk'))"

fun update_first :: "('a \<Rightarrow> bool) \<Rightarrow> ('a \<Rightarrow> 'a) \<Rightarrow> 'a list \<Rightarrow> 'a list" where
  "update_first p f [] = []"
| "update_first p f (x # xs) = (if p x then f x # xs else x # update_first p f xs)"

text \<open>The result of the write is ignored, as the code's \<open>let _ =\<close> does.\<close>

definition dev_update :: "io \<Rightarrow> string \<Rightarrow> (device \<Rightarrow> device) \<Rightarrow> disk \<Rightarrow> device option \<times> disk" where
  "dev_update io device_id updater disk =
     (let devices = dev_load io disk in
      case List.find (\<lambda>d. dv_id d = device_id) devices of
        None \<Rightarrow> (None, disk)
      | Some target \<Rightarrow>
          (Some (updater target),
           snd (dev_save io (update_first (\<lambda>d. dv_id d = device_id) updater devices) disk)))"

definition dev_remove :: "io \<Rightarrow> string \<Rightarrow> disk \<Rightarrow> bool \<times> disk" where
  "dev_remove io device_id disk =
     (let devices = dev_load io disk; kept = filter (\<lambda>d. dv_id d \<noteq> device_id) devices in
      if length kept = length devices then (False, disk)
      else (True, snd (dev_save io kept disk)))"

definition dev_touch :: "io \<Rightarrow> string \<Rightarrow> real \<Rightarrow> disk \<Rightarrow> disk" where
  "dev_touch io device_id w disk =
     (let devices = dev_load io disk in
      if \<exists>d \<in> set devices. dv_id d = device_id
      then snd (dev_save io (update_first (\<lambda>d. dv_id d = device_id) (\<lambda>d. d\<lparr>dv_last_seen := w\<rparr>) devices) disk)
      else disk)"

section \<open>The action log\<close>

record action_entry =
  ac_action :: string
  ac_timestamp :: string
  ac_status :: string

type_synonym action_log = "(string, action_entry list) hmap"

definition ACTION_LOG_CAP :: nat where "ACTION_LOG_CAP = 50"

definition log_load :: "io \<Rightarrow> action_log \<Rightarrow> action_log" where
  "log_load io l = (if io_read io then l else [])"

definition log_record_at :: "io \<Rightarrow> string \<Rightarrow> string \<Rightarrow> string \<Rightarrow> string \<Rightarrow> action_log \<Rightarrow> action_entry \<times> action_log" where
  "log_record_at io device_id action status timestamp l =
     (let entry = \<lparr>ac_action = action, ac_timestamp = timestamp, ac_status = status\<rparr>;
          data = log_load io l;
          entries = unwrap_or [] (hm_get data device_id) @ [entry];
          trimmed = (if ACTION_LOG_CAP < length entries then drop (length entries - ACTION_LOG_CAP) entries
                     else entries);
          data' = hm_put device_id trimmed data
      in (entry, if io_write io then data' else l))"

definition log_recent :: "io \<Rightarrow> string \<Rightarrow> nat \<Rightarrow> action_log \<Rightarrow> action_entry list" where
  "log_recent io device_id limit l =
     (case hm_get (log_load io l) device_id of None \<Rightarrow> [] | Some entries \<Rightarrow> take limit (rev entries))"

section \<open>Invariants\<close>

text \<open>Device ids are distinct and every tier is one of the three.\<close>

definition disk_ok :: "disk \<Rightarrow> bool" where
  "disk_ok disk \<longleftrightarrow> distinct (map dv_id disk) \<and> (\<forall>d \<in> set disk. is_valid_tier (dv_tier d))"

definition log_ok :: "action_log \<Rightarrow> bool" where
  "log_ok l \<longleftrightarrow> hm_ok l \<and> (\<forall>(k, es) \<in> set l. length es \<le> ACTION_LOG_CAP)"

lemma disk_ok_Nil [simp]: "disk_ok []"
  by (simp add: disk_ok_def)

lemma disk_ok_load: "disk_ok disk \<Longrightarrow> disk_ok (dev_load io disk)"
  by (simp add: dev_load_def)

lemma disk_ok_save: "disk_ok disk \<Longrightarrow> disk_ok ds \<Longrightarrow> disk_ok (snd (dev_save io ds disk))"
  by (simp add: dev_save_def)

lemma disk_ok_add [wf_intros]:
  assumes "disk_ok disk" and "is_valid_tier (dv_tier d)"
  shows "disk_ok (snd (dev_add io d disk))"
proof -
  have "disk_ok (dev_load io disk @ [d])" if "\<not> (\<exists>k \<in> set (dev_load io disk). dv_id k = dv_id d)"
    using disk_ok_load [OF assms(1), of io] assms(2) that by (auto simp: disk_ok_def)
  then show ?thesis using assms(1) by (auto simp: dev_add_def dev_save_def Let_def)
qed

lemma map_update_first: "(\<And>x. g (f x) = g x) \<Longrightarrow> map g (update_first p f xs) = map g xs"
  by (induction xs) auto

lemma set_update_first: "set (update_first p f xs) \<subseteq> set xs \<union> {f x |x. x \<in> set xs \<and> p x}"
  by (induction xs) auto

lemma disk_ok_update_first:
  assumes "disk_ok ds" and "\<And>d. dv_id (f d) = dv_id d"
    and "\<And>d. is_valid_tier (dv_tier d) \<Longrightarrow> is_valid_tier (dv_tier (f d))"
  shows "disk_ok (update_first p f ds)"
  unfolding disk_ok_def
proof
  show "distinct (map dv_id (update_first p f ds))"
    using assms(1) map_update_first [of dv_id f p ds] assms(2) by (simp add: disk_ok_def)
  show "\<forall>d \<in> set (update_first p f ds). is_valid_tier (dv_tier d)"
    using assms(1,3) set_update_first [of p f ds] by (auto simp: disk_ok_def)
qed

lemma disk_ok_update [wf_intros]:
  assumes "disk_ok disk" and "\<And>d. dv_id (f d) = dv_id d"
    and "\<And>d. is_valid_tier (dv_tier d) \<Longrightarrow> is_valid_tier (dv_tier (f d))"
  shows "disk_ok (snd (dev_update io i f disk))"
  using disk_ok_update_first [OF disk_ok_load [OF assms(1)] assms(2,3)] assms(1)
  by (auto simp: dev_update_def Let_def dev_save_def split: option.splits)

lemma disk_ok_filter: "disk_ok ds \<Longrightarrow> disk_ok (filter p ds)"
  by (auto simp: disk_ok_def distinct_map_filter)

lemma disk_ok_remove [wf_intros]: "disk_ok disk \<Longrightarrow> disk_ok (snd (dev_remove io i disk))"
  using disk_ok_filter [OF disk_ok_load]
  by (auto simp: dev_remove_def Let_def dev_save_def)

lemma disk_ok_touch [wf_intros]: "disk_ok disk \<Longrightarrow> disk_ok (dev_touch io i w disk)"
  using disk_ok_update_first [OF disk_ok_load, of disk "\<lambda>d. d\<lparr>dv_last_seen := w\<rparr>" _ io]
  by (auto simp: dev_touch_def Let_def dev_save_def)

lemma log_ok_iff: "log_ok l \<longleftrightarrow> hm_ok l \<and> (\<forall>k es. hm_get l k = Some es \<longrightarrow> length es \<le> ACTION_LOG_CAP)"
  unfolding log_ok_def by (rule conj_cong [OF refl]) (rule hm_all_entries)

lemma log_ok_record [wf_intros]: "log_ok l \<Longrightarrow> log_ok (snd (log_record_at io i a s t l))"
  by (auto simp: log_ok_iff log_record_at_def Let_def log_load_def split: if_splits)

text \<open>Look-ups in a well-formed store.\<close>

lemma disk_id_unique: "disk_ok ds \<Longrightarrow> d \<in> set ds \<Longrightarrow> e \<in> set ds \<Longrightarrow> dv_id d = dv_id e \<Longrightarrow> d = e"
  unfolding disk_ok_def by (metis inj_on_contraD distinct_map)

lemma in_update_first:
  assumes "disk_ok ds" and "d \<in> set ds"
  shows "set (update_first (\<lambda>x. dv_id x = dv_id d) f ds) = insert (f d) (set ds - {d})"
  using assms
proof (induction ds)
  case (Cons x ds)
  have ds: "disk_ok ds" and x: "x \<notin> set ds" "\<forall>y \<in> set ds. dv_id y \<noteq> dv_id x"
    using Cons.prems(1) by (force simp: disk_ok_def image_iff)+
  show ?case
  proof (cases "x = d")
    case True
    then show ?thesis using x by auto
  next
    case False
    with Cons.prems x have "d \<in> set ds" "dv_id x \<noteq> dv_id d" by auto
    with Cons.IH [OF ds] False show ?thesis by auto
  qed
qed simp

end
