(* ===== verification/Gate_Service.thy ===== *)
theory Gate_Service
  imports Gate_Auth Gate_Store
begin

text \<open>
  The device gate's service (\<open>wylde-device-gate/src/core.rs\<close>) and its pipe handlers
  (\<open>pipe.rs\<close>). The state is the pairing window, the store's file, the action log's file and
  the queued events. What a call takes from outside (the clock, the minted code, ids and
  tokens, the outcome of each file access, the htpasswd file) is the record \<open>gate_env\<close>. A
  panic under the pairing mutex poisons it; every later use of it panics too (\<open>None\<close>).
\<close>

section \<open>State\<close>

record pairing =
  pr_code :: string
  pr_expires_at :: real
  pr_started_at :: real

definition pairing_off :: pairing where
  "pairing_off = \<lparr>pr_code = [], pr_expires_at = 0, pr_started_at = 0\<rparr>"

definition pairing_active :: "real \<Rightarrow> pairing \<Rightarrow> bool" where
  "pairing_active now p = (pr_code p \<noteq> [] \<and> now < pr_expires_at p)"

definition pairing_status :: "real \<Rightarrow> pairing \<Rightarrow> json" where
  "pairing_status now p =
     (if pairing_active now p
      then JObj [(''pairing_active'', JBool True), (''code'', JStr (pr_code p)),
                 (''expires_at'', JFloat (pr_expires_at p))]
      else JObj [(''pairing_active'', JBool False)])"

record gate =
  gt_pairing :: pairing
  gt_poisoned :: bool
  gt_disk :: disk
  gt_log :: action_log
  gt_events :: "(string, json list) hmap"

definition gate_new :: "disk \<Rightarrow> action_log \<Rightarrow> gate" where
  "gate_new disk l = \<lparr>gt_pairing = pairing_off, gt_poisoned = False, gt_disk = disk, gt_log = l, gt_events = []\<rparr>"

text \<open>
  \<open>ge_io1\<close> is the file access of a call's first store operation, \<open>ge_io2\<close> of its second, \<open>ge_log\<close>
  of the action log; \<open>ge_debug\<close> is Rust's \<open>{:?}\<close> of a string.
\<close>

record gate_env =
  ge_now :: real
  ge_code :: string
  ge_device_id :: string
  ge_token :: string
  ge_iso :: string
  ge_io1 :: io
  ge_io2 :: io
  ge_log :: io
  ge_htpasswd :: "string option"
  ge_crypto :: crypto
  ge_debug :: "string \<Rightarrow> string"
  ge_io_message :: string

definition PAIRING_CODE_TTL_SECONDS :: real where "PAIRING_CODE_TTL_SECONDS = 5 * 60"

section \<open>Pairing\<close>

definition start_pairing :: "gate_env \<Rightarrow> gate \<Rightarrow> json option \<times> gate" where
  "start_pairing e g =
     (if gt_poisoned g then (None, g)
      else let p = \<lparr>pr_code = ge_code e, pr_expires_at = ge_now e + PAIRING_CODE_TTL_SECONDS,
                    pr_started_at = ge_now e\<rparr>
           in (Some (JObj [(''code'', JStr (pr_code p)), (''expires_at'', JFloat (pr_expires_at p))]),
               g\<lparr>gt_pairing := p\<rparr>))"

definition cancel_pairing :: "gate_env \<Rightarrow> gate \<Rightarrow> json option \<times> gate" where
  "cancel_pairing e g =
     (if gt_poisoned g then (None, g)
      else let was_active = pairing_active (ge_now e) (gt_pairing g)
           in (Some (JObj [(''ok'', JBool True), (''cancelled'', JBool was_active)]),
               g\<lparr>gt_pairing := pairing_off\<rparr>))"

definition get_pairing_status :: "gate_env \<Rightarrow> gate \<Rightarrow> json option \<times> gate" where
  "get_pairing_status e g =
     (if gt_poisoned g then (None, g)
      else let p = gt_pairing g; now = ge_now e;
               p' = (if pr_code p \<noteq> [] \<and> \<not> pairing_active now p then pairing_off else p)
           in (Some (pairing_status now p'), g\<lparr>gt_pairing := p'\<rparr>))"

definition device_name_from_metadata :: "(string \<times> json) list \<Rightarrow> string option" where
  "device_name_from_metadata meta =
     (case List.map_filter (\<lambda>key. case map_of meta key of
            Some (JStr s) \<Rightarrow> (if trim s \<noteq> [] then Some (take_chars 64 (trim s)) else None)
          | _ \<Rightarrow> None) [''name'', ''device_name'', ''hostname''] of
        [] \<Rightarrow> None
      | n # _ \<Rightarrow> Some n)"

definition gate_log :: "gate_env \<Rightarrow> string \<Rightarrow> string \<Rightarrow> gate \<Rightarrow> gate" where
  "gate_log e device_id action g =
     g\<lparr>gt_log := snd (log_record_at (ge_log e) device_id action ''ok'' (ge_iso e) (gt_log g))\<rparr>"

fun store_error_msg :: "gate_env \<Rightarrow> store_error \<Rightarrow> string" where
  "store_error_msg e (Duplicate i) = ''device_id '' @ ge_debug e i @ '' already exists''"
| "store_error_msg e StoreIo = ''device store IO: '' @ ge_io_message e"

definition complete_pairing ::
  "gate_env \<Rightarrow> string \<Rightarrow> string \<Rightarrow> string \<Rightarrow> (string \<times> json) list \<Rightarrow> gate \<Rightarrow> reply option \<times> gate" where
  "complete_pairing e code username password metadata g =
     (if gt_poisoned g then (None, g)
      else case verify_credentials (ge_crypto e) (ge_htpasswd e) username password of
        None \<Rightarrow> (None, g\<lparr>gt_poisoned := True\<rparr>)
      | Some creds_ok \<Rightarrow>
      if \<not> pairing_active (ge_now e) (gt_pairing g)
      then (Some (ipc_err ''pairing_inactive''
              (''no pairing window is open '' @ [CHR 0xE2, CHR 0x80, CHR 0x94]
                @ '' start one from the desktop GUI first'')), g)
      else if code \<noteq> pr_code (gt_pairing g)
      then (Some (ipc_err ''code_mismatch'' ''pairing code is wrong or expired''), g)
      else if \<not> creds_ok
      then (Some (ipc_err ''credential_mismatch'' ''username or password is incorrect''), g)
      else
        let device_id = ge_device_id e;
            name = unwrap_or (take_chars 8 device_id) (device_name_from_metadata metadata);
            device = \<lparr>dv_id = device_id, dv_name = name, dv_token = ge_token e, dv_tier = TIER_READ_ONLY,
                      dv_paired_at = ge_now e, dv_last_seen = ge_now e, dv_metadata = metadata\<rparr>
        in case dev_add (ge_io1 e) device (gt_disk g) of
             (Inl err, disk) \<Rightarrow>
               (Some (ipc_err ''store_error'' (store_error_msg e err)), g\<lparr>gt_disk := disk\<rparr>)
           | (Inr _, disk) \<Rightarrow>
               (Some (Inr (JObj [(''device_id'', JStr device_id), (''token'', JStr (ge_token e)),
                                 (''tier'', JStr (dv_tier device))])),
                gate_log e device_id ''paired'' (g\<lparr>gt_disk := disk, gt_pairing := pairing_off\<rparr>)))"

section \<open>Tokens and tiers\<close>

definition gate_verify :: "gate_env \<Rightarrow> string \<Rightarrow> gate \<Rightarrow> reply \<times> gate" where
  "gate_verify e token g =
     (if token = [] then (ipc_err ''invalid_token'' ''token is required'', g)
      else case find_by_token (ge_io1 e) token (gt_disk g) of
        None \<Rightarrow> (ipc_err ''invalid_token'' ''token does not match any device'', g)
      | Some d \<Rightarrow>
          (Inr (JObj [(''device_id'', JStr (dv_id d)), (''tier'', JStr (dv_tier d))]),
           g\<lparr>gt_disk := dev_touch (ge_io2 e) (dv_id d) (ge_now e) (gt_disk g)\<rparr>))"

definition enqueue_event :: "gate_env \<Rightarrow> string \<Rightarrow> string \<Rightarrow> (string \<times> json) list \<Rightarrow> gate \<Rightarrow> gate" where
  "enqueue_event e device_id kind data g =
     (let ev = fold (\<lambda>(k, v) j. jput k v j) data
            (JObj [(''type'', JStr kind), (''device_id'', JStr device_id), (''at'', JFloat (ge_now e))])
      in g\<lparr>gt_events := hm_put device_id (unwrap_or [] (hm_get (gt_events g) device_id) @ [ev]) (gt_events g)\<rparr>)"

definition not_found_err :: "gate_env \<Rightarrow> string \<Rightarrow> reply" where
  "not_found_err e device_id = ipc_err ''not_found'' (''device '' @ ge_debug e device_id @ '' not found'')"

definition set_tier :: "gate_env \<Rightarrow> string \<Rightarrow> string \<Rightarrow> gate \<Rightarrow> reply \<times> gate" where
  "set_tier e device_id tier g =
     (if \<not> is_valid_tier tier
      then (ipc_err ''bad_request'' (''tier must be one of ['' @ ge_debug e (ALL_TIERS ! 0) @ '', ''
              @ ge_debug e (ALL_TIERS ! 1) @ '', '' @ ge_debug e (ALL_TIERS ! 2) @ '']''), g)
      else case dev_update (ge_io1 e) device_id (\<lambda>d. d\<lparr>dv_tier := tier\<rparr>) (gt_disk g) of
        (None, disk) \<Rightarrow> (not_found_err e device_id, g\<lparr>gt_disk := disk\<rparr>)
      | (Some _, disk) \<Rightarrow>
          (Inr (JObj [(''device_id'', JStr device_id), (''tier'', JStr tier)]),
           gate_log e device_id (''tier '' @ [CHR 0xE2, CHR 0x86, CHR 0x92] @ '' '' @ tier)
             (enqueue_event e device_id ''tier_changed'' [(''tier'', JStr tier)] (g\<lparr>gt_disk := disk\<rparr>))))"

definition rotate_token :: "gate_env \<Rightarrow> string \<Rightarrow> gate \<Rightarrow> reply \<times> gate" where
  "rotate_token e device_id g =
     (if dev_get (ge_io1 e) device_id (gt_disk g) = None then (not_found_err e device_id, g)
      else let new_token = ge_token e in
        case dev_update (ge_io2 e) device_id (\<lambda>d. d\<lparr>dv_token := new_token\<rparr>) (gt_disk g) of
          (None, disk) \<Rightarrow> (not_found_err e device_id, g\<lparr>gt_disk := disk\<rparr>)
        | (Some _, disk) \<Rightarrow>
            (Inr (JObj [(''device_id'', JStr device_id), (''new_token'', JStr new_token)]),
             gate_log e device_id ''token rotated''
               (enqueue_event e device_id ''token_rotated'' [(''new_token'', JStr new_token)]
                 (g\<lparr>gt_disk := disk\<rparr>))))"

definition revoke :: "gate_env \<Rightarrow> string \<Rightarrow> gate \<Rightarrow> reply \<times> gate" where
  "revoke e device_id g =
     (if dev_get (ge_io1 e) device_id (gt_disk g) = None then (not_found_err e device_id, g)
      else case dev_remove (ge_io2 e) device_id (gt_disk g) of
          (False, disk) \<Rightarrow> (not_found_err e device_id, g\<lparr>gt_disk := disk\<rparr>)
        | (True, disk) \<Rightarrow>
            (Inr (JObj [(''device_id'', JStr device_id)]),
             gate_log e device_id ''revoked'' (enqueue_event e device_id ''revoked'' [] (g\<lparr>gt_disk := disk\<rparr>))))"

section \<open>Events, listings\<close>

definition consume_pending_events :: "string \<Rightarrow> gate \<Rightarrow> json list \<times> gate" where
  "consume_pending_events device_id g =
     (unwrap_or [] (hm_get (gt_events g) device_id), g\<lparr>gt_events := hm_del device_id (gt_events g)\<rparr>)"

definition has_pending_events :: "string \<Rightarrow> gate \<Rightarrow> bool" where
  "has_pending_events device_id g =
     (case hm_get (gt_events g) device_id of None \<Rightarrow> False | Some v \<Rightarrow> v \<noteq> [])"

definition list_devices :: "gate_env \<Rightarrow> real \<Rightarrow> gate \<Rightarrow> json list" where
  "list_devices e threshold g =
     map (\<lambda>d. jput ''is_active'' (JBool (0 < dv_last_seen d \<and> ge_now e - dv_last_seen d \<le> threshold))
            (to_public_value d)) (dev_load (ge_io1 e) (gt_disk g))"

definition recent_actions :: "gate_env \<Rightarrow> string \<Rightarrow> nat \<Rightarrow> gate \<Rightarrow> json list" where
  "recent_actions e device_id limit g =
     map (\<lambda>a. JObj [(''action'', JStr (ac_action a)), (''timestamp'', JStr (ac_timestamp a)),
                    (''status'', JStr (ac_status a))])
       (log_recent (ge_log e) device_id limit (gt_log g))"

end
