(* ===== verification/Gate_Pipe.thy ===== *)
theory Gate_Pipe
  imports Gate_Service
begin

text \<open>
  The pipe handlers of the device gate (\<open>wylde-device-gate/src/pipe.rs\<close>), from a payload to a
  reply, the gate as a step relation over them, and the properties of pairing, tokens, tiers
  and events.
\<close>

section \<open>Payloads\<close>

fun payload_dict :: "json \<Rightarrow> (ipc_error, (string \<times> json) list) rust_res" where
  "payload_dict JNull = Inr []"
| "payload_dict (JObj m) = Inr m"
| "payload_dict _ = Inl \<lparr>ie_code = ''bad_request'', ie_message = ''payload must be a map'', ie_details = None\<rparr>"

definition require_str :: "(string \<times> json) list \<Rightarrow> string \<Rightarrow> (ipc_error, string) rust_res" where
  "require_str m key =
     (case map_of m key of
        Some (JStr s) \<Rightarrow> (if s \<noteq> [] then Inr s
          else Inl \<lparr>ie_code = ''bad_request'', ie_message = key @ '' is required'', ie_details = None\<rparr>)
      | _ \<Rightarrow> Inl \<lparr>ie_code = ''bad_request'', ie_message = key @ '' is required'', ie_details = None\<rparr>)"

text \<open>The required strings of a payload, in order; the first that is missing is the error.\<close>

fun require_all :: "(string \<times> json) list \<Rightarrow> string list \<Rightarrow> (ipc_error, string list) rust_res" where
  "require_all m [] = Inr []"
| "require_all m (k # ks) =
     (case require_str m k of Inl err \<Rightarrow> Inl err
      | Inr v \<Rightarrow> (case require_all m ks of Inl err \<Rightarrow> Inl err | Inr vs \<Rightarrow> Inr (v # vs)))"

section \<open>Handlers\<close>

type_synonym gate_handler = "gate_env \<Rightarrow> json \<Rightarrow> gate \<Rightarrow> reply option \<times> gate"

definition handle_list_devices :: gate_handler where
  "handle_list_devices e payload g =
     (let devices = list_devices e 60 g
      in (Some (Inr (JObj [(''devices'', JArr devices), (''count'', JInt (int (length devices)))])), g))"

definition handle_start_pairing :: gate_handler where
  "handle_start_pairing e payload g = map_prod (map_option Inr) id (start_pairing e g)"

definition handle_cancel_pairing :: gate_handler where
  "handle_cancel_pairing e payload g = map_prod (map_option Inr) id (cancel_pairing e g)"

definition handle_get_pairing_status :: gate_handler where
  "handle_get_pairing_status e payload g = map_prod (map_option Inr) id (get_pairing_status e g)"

definition handle_complete_pairing :: gate_handler where
  "handle_complete_pairing e payload g =
     (case payload_dict payload of Inl err \<Rightarrow> (Some (Inl err), g) | Inr m \<Rightarrow>
      case require_all m [''code'', ''username'', ''password''] of Inl err \<Rightarrow> (Some (Inl err), g) | Inr vs \<Rightarrow>
      case map_of m ''device_metadata'' of
        None \<Rightarrow> complete_pairing e (vs ! 0) (vs ! 1) (vs ! 2) [] g
      | Some JNull \<Rightarrow> complete_pairing e (vs ! 0) (vs ! 1) (vs ! 2) [] g
      | Some (JObj meta) \<Rightarrow> complete_pairing e (vs ! 0) (vs ! 1) (vs ! 2) meta g
      | Some _ \<Rightarrow> (Some (ipc_err ''bad_request'' ''device_metadata must be a map''), g))"

definition handle_verify :: gate_handler where
  "handle_verify e payload g =
     (case payload_dict payload of Inl err \<Rightarrow> (Some (Inl err), g) | Inr m \<Rightarrow>
      case require_str m ''token'' of Inl err \<Rightarrow> (Some (Inl err), g) | Inr token \<Rightarrow>
        map_prod Some id (gate_verify e token g))"

definition handle_set_tier :: gate_handler where
  "handle_set_tier e payload g =
     (case payload_dict payload of Inl err \<Rightarrow> (Some (Inl err), g) | Inr m \<Rightarrow>
      case require_all m [''device_id'', ''tier''] of Inl err \<Rightarrow> (Some (Inl err), g) | Inr vs \<Rightarrow>
        map_prod Some id (set_tier e (vs ! 0) (vs ! 1) g))"

definition handle_rotate_token :: gate_handler where
  "handle_rotate_token e payload g =
     (case payload_dict payload of Inl err \<Rightarrow> (Some (Inl err), g) | Inr m \<Rightarrow>
      case require_str m ''device_id'' of Inl err \<Rightarrow> (Some (Inl err), g) | Inr i \<Rightarrow>
        map_prod Some id (rotate_token e i g))"

definition handle_revoke :: gate_handler where
  "handle_revoke e payload g =
     (case payload_dict payload of Inl err \<Rightarrow> (Some (Inl err), g) | Inr m \<Rightarrow>
      case require_str m ''device_id'' of Inl err \<Rightarrow> (Some (Inl err), g) | Inr i \<Rightarrow>
        map_prod Some id (revoke e i g))"

text \<open>\<open>as usize\<close> of the limit keeps a 64-bit number.\<close>

definition handle_recent_actions :: gate_handler where
  "handle_recent_actions e payload g =
     (case payload_dict payload of Inl err \<Rightarrow> (Some (Inl err), g) | Inr m \<Rightarrow>
      case require_str m ''device_id'' of Inl err \<Rightarrow> (Some (Inl err), g) | Inr i \<Rightarrow>
      case (case map_of m ''limit'' of None \<Rightarrow> Some 20 | Some JNull \<Rightarrow> Some 20 | Some v \<Rightarrow> as_u64 v) of
        None \<Rightarrow> (Some (ipc_err ''bad_request'' ''limit must be a non-negative integer''), g)
      | Some limit \<Rightarrow>
          let actions = recent_actions e i limit g
          in (Some (Inr (JObj [(''device_id'', JStr i), (''actions'', JArr actions),
                               (''count'', JInt (int (length actions)))])), g))"

definition handle_consume_pending_events :: gate_handler where
  "handle_consume_pending_events e payload g =
     (case payload_dict payload of Inl err \<Rightarrow> (Some (Inl err), g) | Inr m \<Rightarrow>
      case require_str m ''device_id'' of Inl err \<Rightarrow> (Some (Inl err), g) | Inr i \<Rightarrow>
      case consume_pending_events i g of (events, g') \<Rightarrow>
        (Some (Inr (JObj [(''events'', JArr events), (''count'', JInt (int (length events)))])), g'))"

text \<open>The registered actions.\<close>

definition gate_actions :: "(string \<times> gate_handler) list" where
  "gate_actions =
     [(''device_gate.list_devices'', handle_list_devices),
      (''device_gate.start_pairing'', handle_start_pairing),
      (''device_gate.cancel_pairing'', handle_cancel_pairing),
      (''device_gate.get_pairing_status'', handle_get_pairing_status),
      (''device_gate.complete_pairing'', handle_complete_pairing),
      (''device_gate.verify'', handle_verify),
      (''device_gate.set_tier'', handle_set_tier),
      (''device_gate.rotate_token'', handle_rotate_token),
      (''device_gate.revoke'', handle_revoke),
      (''device_gate.recent_actions'', handle_recent_actions),
      (''device_gate.consume_pending_events'', handle_consume_pending_events)]"

section \<open>Steps and the invariant\<close>

inductive gate_step :: "gate \<Rightarrow> gate \<Rightarrow> bool" where
  call: "(name, h) \<in> set gate_actions \<Longrightarrow> h e payload g = (r, g') \<Longrightarrow> gate_step g g'"

definition gate_ok :: "gate \<Rightarrow> bool" where
  "gate_ok g \<longleftrightarrow> disk_ok (gt_disk g) \<and> log_ok (gt_log g) \<and> hm_ok (gt_events g)"

lemma valid_tiers [simp]: "is_valid_tier TIER_READ_ONLY"
  by (simp add: is_valid_tier_def ALL_TIERS_def)

lemma gate_log_sel [simp]:
  "gt_disk (gate_log e i a g) = gt_disk g" "gt_events (gate_log e i a g) = gt_events g"
  "gt_pairing (gate_log e i a g) = gt_pairing g" "gt_poisoned (gate_log e i a g) = gt_poisoned g"
  "gt_log (gate_log e i a g) = snd (log_record_at (ge_log e) i a ''ok'' (ge_iso e) (gt_log g))"
  by (simp_all add: gate_log_def)

lemma enqueue_event_sel [simp]:
  "gt_disk (enqueue_event e i k d g) = gt_disk g" "gt_log (enqueue_event e i k d g) = gt_log g"
  "gt_pairing (enqueue_event e i k d g) = gt_pairing g"
  "gt_poisoned (enqueue_event e i k d g) = gt_poisoned g"
  by (simp_all add: enqueue_event_def Let_def)

lemma enqueue_event_ok: "hm_ok (gt_events g) \<Longrightarrow> hm_ok (gt_events (enqueue_event e i k d g))"
  by (simp add: enqueue_event_def Let_def)

lemma gate_ok_complete:
  assumes "gate_ok g" and "complete_pairing e code user pw meta g = (r, g')"
  shows "gate_ok g'"
proof -
  have d: "disk_ok disk'" if "dev_add io d (gt_disk g) = (x, disk')" "dv_tier d = TIER_READ_ONLY" for io d x disk'
    using disk_ok_add [of "gt_disk g" d io] assms(1) that by (simp add: gate_ok_def)
  show ?thesis
    using assms(2) assms(1)
    by (auto simp: complete_pairing_def Let_def gate_ok_def log_ok_record dest: d
        split: if_splits option.splits prod.splits sum.splits)
qed

lemma gate_ok_verify: "gate_ok g \<Longrightarrow> gate_ok (snd (gate_verify e t g))"
  by (auto simp: gate_verify_def gate_ok_def disk_ok_touch split: option.splits)

lemma gate_ok_set_tier:
  assumes "gate_ok g"
  shows "gate_ok (snd (set_tier e i t g))"
proof (cases "is_valid_tier t")
  case True
  have "disk_ok (snd (dev_update (ge_io1 e) i (\<lambda>d. d\<lparr>dv_tier := t\<rparr>) (gt_disk g)))"
    using assms True by (intro disk_ok_update) (simp_all add: gate_ok_def)
  then show ?thesis
    using assms True
    by (auto simp: set_tier_def gate_ok_def log_ok_record enqueue_event_ok split: option.splits prod.splits)
qed (use assms in \<open>simp add: set_tier_def\<close>)

lemma gate_ok_rotate:
  assumes "gate_ok g"
  shows "gate_ok (snd (rotate_token e i g))"
proof -
  have "disk_ok (snd (dev_update (ge_io2 e) i (\<lambda>d. d\<lparr>dv_token := ge_token e\<rparr>) (gt_disk g)))"
    using assms by (intro disk_ok_update) (simp_all add: gate_ok_def)
  then show ?thesis
    using assms
    by (auto simp: rotate_token_def Let_def gate_ok_def log_ok_record enqueue_event_ok
        split: option.splits prod.splits)
qed

lemma gate_ok_revoke:
  assumes "gate_ok g"
  shows "gate_ok (snd (revoke e i g))"
proof -
  have "disk_ok (snd (dev_remove (ge_io2 e) i (gt_disk g)))"
    using assms by (intro disk_ok_remove) (simp add: gate_ok_def)
  then show ?thesis
    using assms
    by (auto simp: revoke_def gate_ok_def log_ok_record enqueue_event_ok split: prod.splits bool.splits)
qed

lemma gate_step_ok:
  assumes "gate_step g g'" and ok: "gate_ok g"
  shows "gate_ok g'"
  using assms(1)
proof cases
  case (call name h e payload r)
  have snd_eq: "gate_ok (snd x) \<Longrightarrow> map_prod Some id x = (a, b) \<Longrightarrow> gate_ok b" for x and a :: "reply option" and b
    by (cases x) auto
  from call(1) have "h \<in> {handle_list_devices, handle_start_pairing, handle_cancel_pairing,
      handle_get_pairing_status, handle_complete_pairing, handle_verify, handle_set_tier,
      handle_rotate_token, handle_revoke, handle_recent_actions, handle_consume_pending_events}"
    by (auto simp: gate_actions_def)
  then show ?thesis
    using call(2) ok
    apply (elim insertE emptyE)
    subgoal by (auto simp: handle_list_devices_def Let_def)
    subgoal by (auto simp: handle_start_pairing_def start_pairing_def Let_def gate_ok_def split: if_splits)
    subgoal by (auto simp: handle_cancel_pairing_def cancel_pairing_def Let_def gate_ok_def split: if_splits)
    subgoal by (auto simp: handle_get_pairing_status_def get_pairing_status_def Let_def gate_ok_def
          split: if_splits)
    subgoal by (auto simp: handle_complete_pairing_def
          split: sum.splits option.splits json.splits intro: gate_ok_complete)
    subgoal by (auto simp: handle_verify_def split: sum.splits intro: snd_eq [OF gate_ok_verify])
    subgoal by (auto simp: handle_set_tier_def split: sum.splits intro: snd_eq [OF gate_ok_set_tier])
    subgoal by (auto simp: handle_rotate_token_def split: sum.splits intro: snd_eq [OF gate_ok_rotate])
    subgoal by (auto simp: handle_revoke_def split: sum.splits intro: snd_eq [OF gate_ok_revoke])
    subgoal by (auto simp: handle_recent_actions_def Let_def split: sum.splits option.splits json.splits)
    subgoal by (auto simp: handle_consume_pending_events_def consume_pending_events_def gate_ok_def
          split: sum.splits)
    done
qed

section \<open>Look-ups after an operation\<close>

lemma find_by_token_iff:
  assumes "token \<noteq> []" and "io_read io"
  shows "(\<exists>d. find_by_token io token disk = Some d) \<longleftrightarrow> (\<exists>d \<in> set disk. dv_token d = token)"
proof (cases "List.find (\<lambda>d. dv_token d = token) disk")
  case None
  with assms find_NoneD [of "\<lambda>d. dv_token d = token" disk] show ?thesis
    by (simp add: find_by_token_def dev_load_def)
next
  case (Some d)
  with assms find_SomeD [OF Some] show ?thesis by (auto simp: find_by_token_def dev_load_def)
qed

lemma gate_verify_ok_iff:
  "(\<exists>v. fst (gate_verify e token g) = Inr v) \<longleftrightarrow> (\<exists>d. find_by_token (ge_io1 e) token (gt_disk g) = Some d)"
  by (auto simp: gate_verify_def ipc_err_def find_by_token_def split: option.splits)

definition disk_tokens :: "disk \<Rightarrow> string set" where
  "disk_tokens disk = dv_token ` set disk"

lemma tokens_update:
  assumes "disk_ok disk" and "dev_get io_good i disk = Some d"
  shows "dev_update io_good i f disk = (Some (f d), update_first (\<lambda>x. dv_id x = i) f disk)
    \<and> set (update_first (\<lambda>x. dv_id x = i) f disk) = insert (f d) (set disk - {d})
    \<and> d \<in> set disk \<and> dv_id d = i"
proof -
  have f: "List.find (\<lambda>x. dv_id x = i) disk = Some d"
    using assms(2) by (simp add: dev_get_def dev_load_def io_good_def)
  then have d: "dv_id d = i" "d \<in> set disk" using find_SomeD by fastforce+
  with in_update_first [OF assms(1) d(2), of f] f show ?thesis
    by (simp add: dev_update_def dev_load_def dev_save_def io_good_def)
qed

lemma dev_remove_good:
  assumes "d \<in> set disk"
  shows "dev_remove io_good (dv_id d) disk = (True, filter (\<lambda>x. dv_id x \<noteq> dv_id d) disk)"
proof -
  have "length (filter (\<lambda>x. dv_id x \<noteq> dv_id d) disk) < length disk"
    using length_filter_less [OF assms, of "\<lambda>x. dv_id x \<noteq> dv_id d"] by simp
  then show ?thesis by (simp add: dev_remove_def dev_load_def dev_save_def io_good_def Let_def)
qed

lemma token_verified_iff:
  assumes "io_read (ge_io1 e)"
  shows "(\<exists>v. fst (gate_verify e token g) = Inr v) \<longleftrightarrow> token \<noteq> [] \<and> token \<in> disk_tokens (gt_disk g)"
proof (cases "token = []")
  case True
  then show ?thesis by (simp add: gate_verify_def ipc_err_def)
next
  case False
  then show ?thesis
    unfolding gate_verify_ok_iff find_by_token_iff [OF False assms] by (auto simp: disk_tokens_def)
qed

section \<open>A gate for the witnesses\<close>

definition ex_crypto :: crypto where
  "ex_crypto = \<lparr>cr_md5 = (\<lambda>_. replicate 16 0), cr_bcrypt = (\<lambda>p h. p = ''pw''), cr_sha_crypt = (\<lambda>_ _. False)\<rparr>"

definition ex_env :: "real \<Rightarrow> gate_env" where
  "ex_env now = \<lparr>ge_now = now, ge_code = ''123456'', ge_device_id = ''dev_1_abc'', ge_token = ''tok2'',
     ge_iso = ''t'', ge_io1 = io_good, ge_io2 = io_good, ge_log = io_good,
     ge_htpasswd = Some ''me:$2b$x'', ge_crypto = ex_crypto, ge_debug = id, ge_io_message = []\<rparr>"

definition ex_device :: device where
  "ex_device = \<lparr>dv_id = ''d1'', dv_name = ''phone'', dv_token = ''tok1'', dv_tier = ''tool_use'',
     dv_paired_at = 1, dv_last_seen = 1, dv_metadata = []\<rparr>"

definition ex_gate :: gate where
  "ex_gate = gate_new [ex_device] []"

definition ex_open :: gate where
  "ex_open = snd (start_pairing (ex_env 10) ex_gate)"

lemmas ex_gate_defs = ex_crypto_def ex_env_def ex_device_def ex_gate_def ex_open_def gate_new_def
  pairing_off_def start_pairing_def PAIRING_CODE_TTL_SECONDS_def io_good_def Let_def

lemma ex_trim: "trim ''me:$2b$x'' = ''me:$2b$x''" "trim ''$2b$x'' = ''$2b$x''"
  by (simp_all add: trim_def trim_start.simps trim_end.simps ws_len_end_def ws_len_def numeral_3_eq_3)

lemma ex_verify: "verify_credentials ex_crypto (Some ''me:$2b$x'') ''me'' ''pw'' = Some True"
  by (simp add: verify_credentials_def read_hash_def starts_with_def split_once_def ex_trim
      verify_hash_def strip_prefix_def ex_crypto_def)

section \<open>Properties\<close>

text \<open>C8: Whatever requests arrive, in whatever order, and whichever file accesses fail, the device
  file keeps distinct device ids and only the three known tiers, and no device's audit list
  grows beyond 50 entries.\<close>

theorem gate_invariant:
  assumes "gate_step\<^sup>*\<^sup>* (gate_new disk l) g" and "disk_ok disk" and "log_ok l"
  shows "disk_ok (gt_disk g) \<and> log_ok (gt_log g)"
proof -
  have "gate_ok (gate_new disk l)" using assms(2,3) by (simp add: gate_ok_def gate_new_def)
  with assms(1) have "gate_ok g" by (induction rule: rtranclp_induct) (auto intro: gate_step_ok)
  then show ?thesis by (simp add: gate_ok_def)
qed

theorem gate_invariant_witness:
  "disk_ok (gt_disk ex_open) \<and> log_ok (gt_log ex_open)"
proof -
  have "gate_step ex_gate ex_open"
    unfolding ex_open_def
    by (rule gate_step.call [of "''device_gate.start_pairing''" handle_start_pairing "ex_env 10" JNull _
          "map_option Inr (fst (start_pairing (ex_env 10) ex_gate))"])
      (simp_all add: gate_actions_def handle_start_pairing_def prod_eq_iff)
  then have "gate_step\<^sup>*\<^sup>* (gate_new [ex_device] []) ex_open" by (simp add: ex_gate_def)
  then show ?thesis
    by (rule gate_invariant)
      (simp_all add: disk_ok_def log_ok_def ex_device_def is_valid_tier_def ALL_TIERS_def TIER_TOOL_USE_def
        TIER_READ_ONLY_def TIER_DESTRUCTIVE_def)
qed




text \<open>A token verifies exactly when a stored device has it (the store being readable), and the reply
  names such a device and its tier; an empty token never does.\<close>

theorem token_verifies_iff:
  assumes "io_read (ge_io1 e)"
  shows "((\<exists>v. fst (gate_verify e token g) = Inr v) \<longleftrightarrow> token \<noteq> [] \<and> token \<in> disk_tokens (gt_disk g))
    \<and> (\<forall>v. fst (gate_verify e token g) = Inr v \<longrightarrow> (\<exists>d \<in> set (gt_disk g). dv_token d = token
         \<and> v = JObj [(''device_id'', JStr (dv_id d)), (''tier'', JStr (dv_tier d))]))"
proof (rule conjI [OF token_verified_iff [OF assms]], intro allI impI)
  fix v assume "fst (gate_verify e token g) = Inr v"
  then show "\<exists>d \<in> set (gt_disk g). dv_token d = token
      \<and> v = JObj [(''device_id'', JStr (dv_id d)), (''tier'', JStr (dv_tier d))]"
    using assms by (auto simp: gate_verify_def ipc_err_def find_by_token_def dev_load_def
        split: if_splits option.splits dest!: find_SomeD)
qed

theorem token_verifies_iff_witness:
  "(\<exists>v. fst (gate_verify (ex_env 5) ''tok1'' ex_gate) = Inr v) \<and> \<not> (\<exists>v. fst (gate_verify (ex_env 5) ''tok9'' ex_gate) = Inr v)"
  using token_verifies_iff [of "ex_env 5" "''tok1''" ex_gate] token_verifies_iff [of "ex_env 5" "''tok9''" ex_gate]
  by (simp add: ex_gate_defs disk_tokens_def)

text \<open>After a rotation or a revocation whose file accesses succeed, the device's old token verifies
  no more (when no other device has it), while a rotated device's new token does.\<close>

theorem old_token_dead:
  assumes "disk_ok (gt_disk g)" and "ge_io1 e = io_good" and "ge_io2 e = io_good"
    and "d \<in> set (gt_disk g)" and "\<forall>k \<in> set (gt_disk g). dv_token k = dv_token d \<longrightarrow> k = d"
    and "ge_token e \<noteq> dv_token d" and "ge_token e \<noteq> []" and "io_read (ge_io1 e2)"
  shows "\<not> (\<exists>v. fst (gate_verify e2 (dv_token d) (snd (rotate_token e (dv_id d) g))) = Inr v)
    \<and> (\<exists>v. fst (gate_verify e2 (ge_token e) (snd (rotate_token e (dv_id d) g))) = Inr v)
    \<and> \<not> (\<exists>v. fst (gate_verify e2 (dv_token d) (snd (revoke e (dv_id d) g))) = Inr v)"
proof -
  have find: "List.find (\<lambda>x. dv_id x = dv_id d) (gt_disk g) = Some d"
    using assms(1,4) disk_id_unique by (cases "List.find (\<lambda>x. dv_id x = dv_id d) (gt_disk g)")
      (auto simp: find_NoneD dest!: find_SomeD)
  then have get: "dev_get io_good (dv_id d) (gt_disk g) = Some d"
    by (simp add: dev_get_def dev_load_def io_good_def)
  note up = tokens_update [OF assms(1) get, of "\<lambda>x. x\<lparr>dv_token := ge_token e\<rparr>"]
  have rot: "disk_tokens (gt_disk (snd (rotate_token e (dv_id d) g)))
      = insert (ge_token e) (dv_token ` (set (gt_disk g) - {d}))"
    using up get assms(2,3) by (simp add: rotate_token_def Let_def disk_tokens_def)
  have rev: "disk_tokens (gt_disk (snd (revoke e (dv_id d) g))) \<subseteq> dv_token ` (set (gt_disk g) - {d})"
    using dev_remove_good [OF assms(4)] get assms(2,3) by (auto simp: revoke_def disk_tokens_def)
  have old: "dv_token d \<notin> dv_token ` (set (gt_disk g) - {d})" using assms(5) by auto
  show ?thesis
    unfolding token_verified_iff [OF assms(8)] rot using old rev assms(6,7) by auto
qed

theorem old_token_dead_witness:
  "\<not> (\<exists>v. fst (gate_verify (ex_env 7) ''tok1'' (snd (rotate_token (ex_env 6) ''d1'' ex_gate))) = Inr v)
   \<and> (\<exists>v. fst (gate_verify (ex_env 7) ''tok2'' (snd (rotate_token (ex_env 6) ''d1'' ex_gate))) = Inr v)
   \<and> \<not> (\<exists>v. fst (gate_verify (ex_env 7) ''tok1'' (snd (revoke (ex_env 6) ''d1'' ex_gate))) = Inr v)"
  using old_token_dead [of ex_gate "ex_env 6" ex_device "ex_env 7"]
  by (simp add: ex_gate_defs disk_ok_def is_valid_tier_def ALL_TIERS_def TIER_TOOL_USE_def
      TIER_READ_ONLY_def TIER_DESTRUCTIVE_def)

text \<open>When the write fails, a revocation reports success, logs it and queues the revoked event all the
  same, and the revoked token keeps verifying; so does the old token after a rotation.\<close>

theorem failed_write_keeps_token:
  assumes "dev_get (ge_io1 e) i (gt_disk g) = Some d" and "ge_io2 e = \<lparr>io_read = True, io_write = False\<rparr>"
    and "io_read (ge_io1 e)" and "io_read (ge_io1 e2)" and "dv_token d \<noteq> []"
  shows "fst (revoke e i g) = Inr (JObj [(''device_id'', JStr i)])
    \<and> has_pending_events i (snd (revoke e i g))
    \<and> (\<exists>v. fst (gate_verify e2 (dv_token d) (snd (revoke e i g))) = Inr v)
    \<and> (\<exists>v. fst (rotate_token e i g) = Inr v)
    \<and> (\<exists>v. fst (gate_verify e2 (dv_token d) (snd (rotate_token e i g))) = Inr v)"
proof -
  have f: "List.find (\<lambda>x. dv_id x = i) (gt_disk g) = Some d"
    using assms(1,3) by (simp add: dev_get_def dev_load_def)
  then have d: "dv_id d = i" "d \<in> set (gt_disk g)" using find_SomeD by fastforce+
  have "length (filter (\<lambda>x. dv_id x \<noteq> i) (gt_disk g)) < length (gt_disk g)"
    using length_filter_less [OF d(2), of "\<lambda>x. dv_id x \<noteq> i"] d(1) by simp
  then have rm: "dev_remove (ge_io2 e) i (gt_disk g) = (True, gt_disk g)"
    using assms(2) by (simp add: dev_remove_def dev_load_def dev_save_def Let_def)
  have up: "\<exists>x. dev_update (ge_io2 e) i h (gt_disk g) = (Some x, gt_disk g)" for h
    using assms(2) f by (simp add: dev_update_def dev_load_def dev_save_def)
  then obtain x where up: "dev_update (ge_io2 e) i (\<lambda>d. d\<lparr>dv_token := ge_token e\<rparr>) (gt_disk g) = (Some x, gt_disk g)"
    by blast
  have tok: "dv_token d \<in> disk_tokens (gt_disk g)" using d by (simp add: disk_tokens_def)
  show ?thesis
    unfolding token_verified_iff [OF assms(4)]
    using assms(1,5) rm up tok
    by (simp add: revoke_def rotate_token_def Let_def)
      (simp add: has_pending_events_def gate_log_def enqueue_event_def Let_def)
qed

definition ex_env_ro :: gate_env where
  "ex_env_ro = (ex_env 6)\<lparr>ge_io2 := \<lparr>io_read = True, io_write = False\<rparr>\<rparr>"

theorem failed_write_keeps_token_witness:
  "fst (revoke ex_env_ro ''d1'' ex_gate) = Inr (JObj [(''device_id'', JStr ''d1'')])
   \<and> (\<exists>v. fst (gate_verify (ex_env 7) ''tok1'' (snd (revoke ex_env_ro ''d1'' ex_gate))) = Inr v)"
  using failed_write_keeps_token [of ex_env_ro "''d1''" ex_gate ex_device "ex_env 7"]
  by (simp add: ex_env_ro_def ex_gate_defs dev_get_def dev_load_def)

text \<open>Events queue up per device in order and are handed over exactly once: consuming returns what
  was queued for the device since the last time, oldest first, leaves nothing pending for it,
  and does not touch the other devices' queues.\<close>

theorem events_drained_once:
  "fst (consume_pending_events i (enqueue_event e i kind data g))
      = fst (consume_pending_events i g) @ [fold (\<lambda>(k, v) j. jput k v j) data
            (JObj [(''type'', JStr kind), (''device_id'', JStr i), (''at'', JFloat (ge_now e))])]
    \<and> \<not> has_pending_events i (snd (consume_pending_events i g))
    \<and> fst (consume_pending_events i (snd (consume_pending_events i g))) = []
    \<and> (k \<noteq> i \<longrightarrow> fst (consume_pending_events k (snd (consume_pending_events i g))) = fst (consume_pending_events k g)
        \<and> fst (consume_pending_events k (enqueue_event e i kind data g)) = fst (consume_pending_events k g))"
  by (simp add: consume_pending_events_def enqueue_event_def has_pending_events_def)

theorem events_drained_once_witness:
  "length (fst (consume_pending_events ''d1'' (enqueue_event (ex_env 5) ''d1'' ''revoked'' [] ex_gate))) = 1"
  using events_drained_once [where g = ex_gate and i = "''d1''" and k = "''d2''" and e = "ex_env 5"
      and kind = "''revoked''" and data = "[]"]
  by (simp add: ex_gate_defs consume_pending_events_def)

text \<open>An htpasswd entry whose APR1 salt is cut inside a character makes any pairing request for its
  user panic, window open or not, code right or wrong, and the poisoned lock then takes down every
  pairing call that follows.\<close>

theorem bad_salt_poisons_pairing:
  assumes "\<not> gt_poisoned g" and "user \<noteq> []" and "pw \<noteq> []"
    and "read_hash (ge_htpasswd e) user = Some (APR1_MAGIC @ salt @ ''$'' @ rest)"
    and "CHR ''$'' \<notin> set salt" and "8 < length salt" and "utf8_cont (salt ! 8)"
  shows "complete_pairing e code user pw meta g = (None, g\<lparr>gt_poisoned := True\<rparr>)
    \<and> fst (start_pairing e2 (g\<lparr>gt_poisoned := True\<rparr>)) = None
    \<and> fst (get_pairing_status e2 (g\<lparr>gt_poisoned := True\<rparr>)) = None"
proof -
  have slice: "str_slice salt 0 8 = None"
    using assms(6,7) by (auto simp: str_slice_def is_char_boundary_def)
  have tw: "takeWhile (\<lambda>x. x \<noteq> CHR ''$'') (salt @ CHR ''$'' # rest) = salt"
    using assms(5) by (subst takeWhile_append2) auto
  have "verify_apr1 (ge_crypto e) pw (APR1_MAGIC @ salt @ ''$'' @ rest) = None"
    using slice assms(6) tw
    by (simp add: verify_apr1_def strip_prefix_def split_once_def APR1_SALT_MAX_def)
  then have "verify_hash (ge_crypto e) (APR1_MAGIC @ salt @ ''$'' @ rest) pw = None"
    by (simp add: verify_hash_def strip_prefix_def starts_with_def APR1_MAGIC_def)
  then show ?thesis
    using assms(1-4)
    by (simp add: complete_pairing_def verify_credentials_def start_pairing_def get_pairing_status_def)
qed

definition ex_bad_salt :: string where
  "ex_bad_salt = ''abcdefg'' @ [CHR 0xC3, CHR 0xA9]"

definition ex_env_bad :: gate_env where
  "ex_env_bad = (ex_env 5)\<lparr>ge_htpasswd := Some (''me:'' @ APR1_MAGIC @ ex_bad_salt @ ''$x'')\<rparr>"

theorem bad_salt_poisons_pairing_witness:
  "fst (complete_pairing ex_env_bad ''0'' ''me'' ''no'' [] ex_gate) = None"
proof -
  have "read_hash (Some (''me:'' @ APR1_MAGIC @ ex_bad_salt @ ''$x'')) ''me''
      = Some (APR1_MAGIC @ ex_bad_salt @ ''$'' @ ''x'')"
    by code_simp
  then have "read_hash (ge_htpasswd ex_env_bad) ''me'' = Some (APR1_MAGIC @ ex_bad_salt @ ''$'' @ ''x'')"
    by (simp add: ex_env_bad_def)
  from bad_salt_poisons_pairing [OF _ _ _ this, of ex_gate "''no''" "''0''" "[]"] show ?thesis
    by (simp add: ex_bad_salt_def utf8_cont_def ex_gate_defs)
qed

end
