(* ===== verification/Egress_Destinations.thy ===== *)
theory Egress_Destinations
  imports Keyed_Store "HOL-Library.Multiset" "HOL-Library.List_Lexorder" "HOL-Library.Char_ord"
begin

text \<open>
  The gateway's registry of outbound destinations
  (\<open>wylde-gateway/src/egress/destinations.rs\<close>): decoding a manifest's entries, the registry
  scoped by declaring component, path validation and the upstream URL. Finding the manifest
  files is left out; \<open>reload\<close> starts from their contents.
\<close>

section \<open>Destinations\<close>

record destination =
  ds_key :: string
  ds_component :: string
  ds_url_prefix :: string
  ds_auth_header_env :: string
  ds_verify_tls :: bool
  ds_purpose :: string
  ds_path_allowlist :: "string list"
  ds_host_allowlist :: "string list"
  ds_allow_private :: bool

definition is_ascii_alphanumeric :: "char \<Rightarrow> bool" where
  "is_ascii_alphanumeric c =
     (let n = of_char c :: nat in 48 \<le> n \<and> n \<le> 57 \<or> 65 \<le> n \<and> n \<le> 90 \<or> 97 \<le> n \<and> n \<le> 122)"

definition split_scheme :: "string \<Rightarrow> (string \<times> string) option" where
  "split_scheme s =
     (case find_sub ''://'' s of
        None \<Rightarrow> None
      | Some idx \<Rightarrow>
          let scheme = take idx s in
          if scheme = [] \<or> \<not> list_all (\<lambda>c. is_ascii_alphanumeric c \<or> c = CHR ''+'' \<or> c = CHR ''-'' \<or> c = CHR ''.'') scheme
          then None else Some (scheme, drop (idx + 3) s))"

definition is_wildcard :: "destination \<Rightarrow> bool" where
  "is_wildcard d = (case split_scheme (ds_url_prefix d) of None \<Rightarrow> False | Some (_, rest) \<Rightarrow> rest = [])"

definition dest_scheme :: "destination \<Rightarrow> string option" where
  "dest_scheme d = map_option fst (split_scheme (ds_url_prefix d))"

section \<open>Manifests\<close>

definition str_field :: "string \<Rightarrow> (string \<times> json) list \<Rightarrow> string" where
  "str_field k m = trim (unwrap_or [] (Option.bind (map_of m k) as_str))"

definition str_list :: "json option \<Rightarrow> string list" where
  "str_list v = (case v of Some (JArr a) \<Rightarrow> List.map_filter as_str a | _ \<Rightarrow> [])"

fun entry_to_destination :: "string \<Rightarrow> json \<Rightarrow> destination option" where
  "entry_to_destination component (JObj m) =
     (let key = str_field ''key'' m; url_prefix = str_field ''url_prefix'' m in
      if key = [] then None
      else if url_prefix = [] then None
      else
        let verify_tls = unwrap_or True (Option.bind (map_of m ''verify_tls'') as_bool);
            path_allowlist = str_list (map_of m ''path_allowlist'');
            host_allowlist = filter (\<lambda>s. s \<noteq> []) (map trim (str_list (map_of m ''host_allowlist'')));
            allow_private = unwrap_or False (Option.bind (map_of m ''allow_private'') as_bool);
            wildcard = (case split_scheme url_prefix of None \<Rightarrow> False | Some (_, r) \<Rightarrow> r = [])
        in Some \<lparr>ds_key = key, ds_component = component, ds_url_prefix = url_prefix,
                 ds_auth_header_env = str_field ''auth_env'' m, ds_verify_tls = verify_tls,
                 ds_purpose = str_field ''purpose'' m, ds_path_allowlist = path_allowlist,
                 ds_host_allowlist = host_allowlist,
                 ds_allow_private = (if allow_private \<and> wildcard then False else allow_private)\<rparr>)"
| "entry_to_destination component _ = None"

type_synonym dest_registry = "(string, (string, destination) hmap) hmap"

text \<open>The first entry with a key wins within a component; a later manifest replaces a component.\<close>

fun add_entry :: "string \<Rightarrow> json \<Rightarrow> (string, destination) hmap \<Rightarrow> (string, destination) hmap" where
  "add_entry component raw per_comp =
     (case entry_to_destination component raw of
        None \<Rightarrow> per_comp
      | Some d \<Rightarrow> if hm_get per_comp (ds_key d) \<noteq> None then per_comp else hm_put (ds_key d) d per_comp)"

definition add_manifest :: "string \<times> json \<Rightarrow> dest_registry \<Rightarrow> dest_registry" where
  "add_manifest mf reg =
     (case mf of (dir, data) \<Rightarrow>
        let component = unwrap_or dir (get_str ''name'' data) in
        case jget ''egress'' data of
          Some (JArr entries) \<Rightarrow>
            let per_comp = fold (add_entry component) entries [] in
            if entries = [] \<or> per_comp = [] then reg else hm_put component per_comp reg
        | _ \<Rightarrow> reg)"

text \<open>A manifest comes with its directory's name; \<open>reload\<close> replaces the whole registry.\<close>

definition dest_reload :: "(string \<times> json) list \<Rightarrow> dest_registry" where
  "dest_reload manifests = fold add_manifest manifests []"

section \<open>Resolution and paths\<close>

datatype dest_error = KeyRequired | CallerRequired | NoDestinations string | NotDeclared string string
  | PathRequired | NeedsFullUrl string | SchemeOnly string string | PathStart | AbsoluteUrl
  | NotInAllowlist string string

definition dest_resolve :: "dest_registry \<Rightarrow> string \<Rightarrow> string \<Rightarrow> (dest_error, destination) rust_res" where
  "dest_resolve reg caller key =
     (if key = [] then Inl KeyRequired
      else if caller = [] then Inl CallerRequired
      else case hm_get reg caller of
        None \<Rightarrow> Inl (NoDestinations caller)
      | Some dests \<Rightarrow> (case hm_get dests key of None \<Rightarrow> Inl (NotDeclared caller key) | Some d \<Rightarrow> Inr d))"

definition validate_path :: "destination \<Rightarrow> string \<Rightarrow> (dest_error, string) rust_res" where
  "validate_path d path =
     (if path = [] then Inl PathRequired
      else if is_wildcard d then
        (case split_scheme path of
           None \<Rightarrow> Inl (NeedsFullUrl (ds_key d))
         | Some (scheme, rest) \<Rightarrow>
             if before_char (CHR ''/'') rest = [] then Inl (NeedsFullUrl (ds_key d))
             else case dest_scheme d of
               Some want \<Rightarrow> if want \<noteq> [] \<and> scheme \<noteq> want then Inl (SchemeOnly (ds_key d) want) else Inr path
             | None \<Rightarrow> Inr path)
      else if \<not> starts_with path ''/'' then Inl PathStart
      else if contains_sub path ''://'' then Inl AbsoluteUrl
      else if ds_path_allowlist d \<noteq> [] \<and>
        \<not> (\<exists>allowed \<in> set (ds_path_allowlist d).
             before_char (CHR ''?'') path = allowed \<or> starts_with (before_char (CHR ''?'') path) (allowed @ ''/''))
      then Inl (NotInAllowlist (before_char (CHR ''?'') path) (ds_key d))
      else Inr path)"

definition build_target_url :: "destination \<Rightarrow> string \<Rightarrow> string" where
  "build_target_url d path =
     (if is_wildcard d then path else trim_end_char (CHR ''/'') (ds_url_prefix d) @ path)"

definition list_destinations :: "dest_registry \<Rightarrow> json" where
  "list_destinations reg =
     JObj (map (\<lambda>(component, dests). (component, JArr (map (\<lambda>d. JObj
        [(''key'', JStr (ds_key d)), (''url_prefix'', JStr (ds_url_prefix d)),
         (''wildcard'', JBool (is_wildcard d)), (''auth_env'', JStr (ds_auth_header_env d)),
         (''verify_tls'', JBool (ds_verify_tls d)), (''purpose'', JStr (ds_purpose d)),
         (''path_allowlist'', JArr (map JStr (ds_path_allowlist d))),
         (''host_allowlist'', JArr (map JStr (ds_host_allowlist d))),
         (''allow_private'', JBool (ds_allow_private d))])
       (sort_key ds_key (hm_values dests))))) reg)"

section \<open>What the registry guarantees\<close>

definition dest_ok :: "string \<Rightarrow> string \<Rightarrow> destination \<Rightarrow> bool" where
  "dest_ok component key d \<longleftrightarrow> ds_component d = component \<and> ds_key d = key \<and> key \<noteq> []
     \<and> (is_wildcard d \<longrightarrow> \<not> ds_allow_private d)"

definition registry_ok :: "dest_registry \<Rightarrow> bool" where
  "registry_ok reg \<longleftrightarrow> (\<forall>component dests key d. hm_get reg component = Some dests \<longrightarrow> hm_get dests key = Some d
     \<longrightarrow> dest_ok component key d)"

lemma entry_ok: "entry_to_destination component raw = Some d \<Longrightarrow> dest_ok component (ds_key d) d"
  by (cases raw) (auto simp: dest_ok_def is_wildcard_def Let_def split: if_splits option.splits)

lemma entries_ok:
  assumes "\<forall>key d. hm_get m key = Some d \<longrightarrow> dest_ok component key d"
  shows "\<forall>key d. hm_get (fold (add_entry component) raws m) key = Some d \<longrightarrow> dest_ok component key d"
  using assms
proof (induction raws arbitrary: m)
  case (Cons raw raws)
  have "\<forall>key d. hm_get (add_entry component raw m) key = Some d \<longrightarrow> dest_ok component key d"
    using Cons.prems entry_ok [of component raw] by (auto split: option.splits)
  with Cons.IH show ?case by simp
qed simp

lemma registry_ok_add: "registry_ok reg \<Longrightarrow> registry_ok (add_manifest mf reg)"
proof -
  assume ok: "registry_ok reg"
  have fresh: "\<forall>key d. hm_get (fold (add_entry c) entries []) key = Some d \<longrightarrow> dest_ok c key d" for c entries
    by (rule entries_ok) simp
  show ?thesis
    using ok fresh unfolding registry_ok_def
    by (auto simp: add_manifest_def Let_def split: prod.splits option.splits json.splits if_splits)
qed

lemma registry_ok_reload: "registry_ok (dest_reload manifests)"
proof -
  have "registry_ok reg \<Longrightarrow> registry_ok (fold add_manifest ms reg)" for ms reg
    by (induction ms arbitrary: reg) (auto intro: registry_ok_add)
  from this [of "[]" manifests] show ?thesis by (simp add: dest_reload_def registry_ok_def)
qed

lemma dest_resolve_ok:
  "registry_ok reg \<Longrightarrow> dest_resolve reg caller key = Inr d \<Longrightarrow> dest_ok caller key d"
  by (auto simp: dest_resolve_def registry_ok_def split: if_splits option.splits)

end
