(* ===== verification/Egress_Ssrf.thy ===== *)
theory Egress_Ssrf
  imports Prelude
begin

text \<open>
  The SSRF guard (\<open>wylde-gateway/src/egress/ssrf.rs\<close>): the host allowlist, internal names, the
  classification of IPv4 and IPv6 addresses and \<open>guard_target\<close>, which resolves the host and
  pins the addresses it approved. An address is its 32- or 128-bit word; the predicates of
  \<open>std::net\<close> are written out on the octets and segments. The URL parser and the resolver are
  parameters.
\<close>

section \<open>Addresses\<close>

datatype ip_addr = V4 "32 word" | V6 "128 word"

definition octet :: "32 word \<Rightarrow> nat \<Rightarrow> nat" where
  "octet a i = unat a div 2 ^ (8 * (3 - i)) mod 256"

definition segment :: "128 word \<Rightarrow> nat \<Rightarrow> 16 word" where
  "segment a i = ucast (drop_bit (16 * (7 - i)) a)"

definition blocked_v4_reason :: "32 word \<Rightarrow> string option" where
  "blocked_v4_reason a =
     (let o0 = octet a 0; o1 = octet a 1; o2 = octet a 2 in
      if o0 = 127 then Some ''loopback''
      else if o0 = 10 \<or> o0 = 172 \<and> 16 \<le> o1 \<and> o1 \<le> 31 \<or> o0 = 192 \<and> o1 = 168 then Some ''private''
      else if o0 = 169 \<and> o1 = 254 then Some ''link-local''
      else if a = 0 then Some ''unspecified''
      else if a = 0xffffffff then Some ''broadcast''
      else if 224 \<le> o0 \<and> o0 \<le> 239 then Some ''multicast''
      else if o0 = 192 \<and> o1 = 0 \<and> o2 = 2 \<or> o0 = 198 \<and> o1 = 51 \<and> o2 = 100
        \<or> o0 = 203 \<and> o1 = 0 \<and> o2 = 113 then Some ''documentation''
      else if o0 = 0 then Some ''this-network''
      else if o0 = 100 \<and> 64 \<le> o1 \<and> o1 \<le> 127 then Some ''cgnat''
      else if o0 = 192 \<and> o1 = 0 \<and> o2 = 0 then Some ''ietf-protocol''
      else if o0 = 198 \<and> (o1 = 18 \<or> o1 = 19) then Some ''benchmarking''
      else if 240 \<le> o0 then Some ''reserved''
      else None)"

text \<open>\<open>to_ipv4_mapped\<close>: the last four bytes of \<open>::ffff:a.b.c.d\<close>; \<open>to_ipv4\<close> also takes \<open>::a.b.c.d\<close>.\<close>

definition to_ipv4_mapped :: "128 word \<Rightarrow> (32 word) option" where
  "to_ipv4_mapped a = (if drop_bit 32 a = 0xffff then Some (ucast a) else None)"

definition to_ipv4 :: "128 word \<Rightarrow> (32 word) option" where
  "to_ipv4 a = (if drop_bit 32 a = 0xffff \<or> drop_bit 32 a = 0 then Some (ucast a) else None)"

definition blocked_v6_reason :: "128 word \<Rightarrow> string option" where
  "blocked_v6_reason a =
     (if a = 1 then Some ''loopback''
      else if a = 0 then Some ''unspecified''
      else if and (segment a 0) 0xff00 = 0xff00 then Some ''multicast''
      else case Option.bind (to_ipv4_mapped a) blocked_v4_reason of Some r \<Rightarrow> Some r | None \<Rightarrow>
      case Option.bind (to_ipv4 a) blocked_v4_reason of Some r \<Rightarrow> Some r | None \<Rightarrow>
      if and (segment a 0) 0xfe00 = 0xfc00 then Some ''unique-local''
      else if and (segment a 0) 0xffc0 = 0xfe80 then Some ''link-local''
      else None)"

fun blocked_ip_reason :: "ip_addr \<Rightarrow> string option" where
  "blocked_ip_reason (V4 a) = blocked_v4_reason a"
| "blocked_ip_reason (V6 a) = blocked_v6_reason a"

section \<open>Hosts\<close>

definition host_matches_allowlist :: "string \<Rightarrow> string list \<Rightarrow> bool" where
  "host_matches_allowlist host allowlist =
     (let h = to_ascii_lowercase (trim_end_char (CHR ''.'') host) in
      \<exists>raw \<in> set allowlist.
        let entry = to_ascii_lowercase (trim raw) in
        entry \<noteq> [] \<and>
        (case (case strip_prefix ''*.'' entry of Some s \<Rightarrow> Some s | None \<Rightarrow> strip_prefix ''.'' entry) of
           Some suffix \<Rightarrow> h = suffix \<or> ends_with h (''.'' @ suffix)
         | None \<Rightarrow> h = entry))"

definition internal_hostname_reason :: "string \<Rightarrow> string option" where
  "internal_hostname_reason host =
     (let h = to_ascii_lowercase (trim_end_char (CHR ''.'') host) in
      if h = [] then Some ''empty''
      else if h = ''localhost'' \<or> ends_with h ''.localhost'' then Some ''localhost''
      else if ends_with h ''.local'' \<or> ends_with h ''.internal'' \<or> ends_with h ''.lan''
        then Some ''internal-suffix''
      else None)"

text \<open>The environment variable \<open>WYLDE_EGRESS_SSRF_BLOCK_PRIVATE\<close>, when it is set.\<close>

definition block_private_enabled :: "string option \<Rightarrow> bool" where
  "block_private_enabled v =
     (case v of None \<Rightarrow> True
      | Some s \<Rightarrow> \<not> (eq_ignore_ascii_case (trim s) ''0'' \<or> eq_ignore_ascii_case (trim s) ''false''
            \<or> eq_ignore_ascii_case (trim s) ''off'' \<or> eq_ignore_ascii_case (trim s) ''no''))"

section \<open>The guard\<close>

text \<open>
  \<open>parse\<close> is \<open>reqwest::Url::parse\<close> followed by \<open>host_str\<close> and \<open>port_or_known_default\<close>; \<open>dns\<close> is
  \<open>tokio::net::lookup_host\<close>, its addresses without their ports.
\<close>

record url_info =
  ui_host :: "string option"
  ui_port :: "nat option"

datatype ssrf_error = InvalidUrl string | NoHost string | HostNotAllowed string
  | InternalName string string | ResolveFailed string | NoAddresses string | BlockedAddress string string ip_addr

record pinned_host =
  ph_host :: string
  ph_addrs :: "ip_addr list"

fun first_blocked :: "ip_addr list \<Rightarrow> (ip_addr \<times> string) option" where
  "first_blocked [] = None"
| "first_blocked (a # addrs) =
     (case blocked_ip_reason a of Some r \<Rightarrow> Some (a, r) | None \<Rightarrow> first_blocked addrs)"

definition guard_target ::
  "(string \<Rightarrow> url_info option) \<Rightarrow> (string \<Rightarrow> nat \<Rightarrow> ip_addr list option) \<Rightarrow> string option
   \<Rightarrow> string \<Rightarrow> string list \<Rightarrow> bool \<Rightarrow> (ssrf_error, pinned_host) rust_res" where
  "guard_target parse dns block_env url host_allowlist allow_private =
     (case parse url of
        None \<Rightarrow> Inl (InvalidUrl url)
      | Some u \<Rightarrow>
     (case ui_host u of
        None \<Rightarrow> Inl (NoHost url)
      | Some host \<Rightarrow>
          let port = unwrap_or 0 (ui_port u);
              enforce = block_private_enabled block_env \<and> \<not> allow_private in
          if host_allowlist \<noteq> [] \<and> \<not> host_matches_allowlist host host_allowlist
          then Inl (HostNotAllowed host)
          else case (if enforce then internal_hostname_reason host else None) of
            Some reason \<Rightarrow> Inl (InternalName host reason)
          | None \<Rightarrow>
          (case dns host port of
             None \<Rightarrow> Inl (ResolveFailed host)
           | Some addrs \<Rightarrow>
               if addrs = [] then Inl (NoAddresses host)
               else case (if enforce then first_blocked addrs else None) of
                 Some (a, reason) \<Rightarrow> Inl (BlockedAddress host reason a)
               | None \<Rightarrow> Inr \<lparr>ph_host = host, ph_addrs = addrs\<rparr>)))"

section \<open>Lemmas\<close>

lemma first_blocked_None: "first_blocked addrs = None \<longleftrightarrow> (\<forall>a \<in> set addrs. blocked_ip_reason a = None)"
  by (induction addrs) (auto split: option.splits)

text \<open>A passed guard: the pinned addresses are the resolver's, and all public when enforced.\<close>

lemma guard_target_pass:
  assumes "guard_target parse dns env url al ap = Inr p"
  shows "(\<exists>u port. parse url = Some u \<and> ui_host u = Some (ph_host p) \<and> dns (ph_host p) port = Some (ph_addrs p))
    \<and> ph_addrs p \<noteq> []
    \<and> (al \<noteq> [] \<longrightarrow> host_matches_allowlist (ph_host p) al)
    \<and> (block_private_enabled env \<and> \<not> ap \<longrightarrow>
         internal_hostname_reason (ph_host p) = None \<and> (\<forall>a \<in> set (ph_addrs p). blocked_ip_reason a = None))"
  using assms
  by (auto simp: guard_target_def Let_def first_blocked_None split: option.splits if_splits prod.splits)

text \<open>The classes as ranges of addresses.\<close>

definition in_cidr :: "32 word \<Rightarrow> nat \<times> nat \<times> nat \<times> nat \<Rightarrow> nat \<Rightarrow> bool" where
  "in_cidr a base len =
     (case base of (b0, b1, b2, b3) \<Rightarrow>
        unat a div 2 ^ (32 - len) = (((b0 * 256 + b1) * 256 + b2) * 256 + b3) div 2 ^ (32 - len))"

definition internal_ranges :: "((nat \<times> nat \<times> nat \<times> nat) \<times> nat) list" where
  "internal_ranges =
     [((0, 0, 0, 0), 8), ((10, 0, 0, 0), 8), ((100, 64, 0, 0), 10), ((127, 0, 0, 0), 8),
      ((169, 254, 0, 0), 16), ((172, 16, 0, 0), 12), ((192, 0, 0, 0), 24), ((192, 0, 2, 0), 24),
      ((192, 168, 0, 0), 16), ((198, 18, 0, 0), 15), ((198, 51, 100, 0), 24), ((203, 0, 113, 0), 24),
      ((224, 0, 0, 0), 4), ((240, 0, 0, 0), 4)]"

lemma unat_bound32: "unat (a :: 32 word) < 4294967296"
proof -
  have "unat a < 2 ^ LENGTH(32)" by (rule unsigned_less)
  then show ?thesis by simp
qed

lemma octet_0: "octet a 0 = unat a div 16777216"
proof -
  have "unat a < 4294967296" by (rule unat_bound32)
  then have "unat a div 16777216 < 256" by (simp add: div_less_iff_less_mult)
  then show ?thesis by (simp add: octet_def)
qed

lemma octet_1: "octet a 1 = unat a div 65536 mod 256"
  by (simp add: octet_def)

lemma octet_2: "octet a 2 = unat a div 256 mod 256"
  by (simp add: octet_def)

lemma if_Some_None: "((if c then Some r else e) = None) = (\<not> c \<and> e = None)"
  by simp

lemma div_range:
  fixes v :: nat
  assumes "v div k = q" and "0 < k"
  shows "q * k \<le> v \<and> v < q * k + k"
proof -
  have "q * k + v mod k = v" using assms(1) div_mult_mod_eq [of v k] by simp
  moreover have "v mod k < k" using assms(2) by (rule mod_less_divisor)
  ultimately show ?thesis by linarith
qed

lemma base256: "x * 256 + y = (k :: nat) \<Longrightarrow> y < 256 \<Longrightarrow> x = k div 256 \<and> y = k mod 256"
  by auto

lemma v4_unblocked_outside:
  assumes "blocked_v4_reason a = None"
  shows "\<forall>(base, len) \<in> set internal_ranges. \<not> in_cidr a base len"
proof -
  obtain n where n: "n = unat a" by blast
  have lt: "n < 4294967296" using unat_bound32 [of a] by (simp add: n)
  obtain x y z where xyz: "n div 16777216 = x" "n div 65536 mod 256 = y" "n div 256 mod 256 = z" by blast
  have "x \<noteq> 127 \<and> \<not> (x = 10 \<or> x = 172 \<and> 16 \<le> y \<and> y \<le> 31 \<or> x = 192 \<and> y = 168)
      \<and> \<not> (x = 169 \<and> y = 254) \<and> \<not> (224 \<le> x \<and> x \<le> 239)
      \<and> \<not> (x = 192 \<and> y = 0 \<and> z = 2 \<or> x = 198 \<and> y = 51 \<and> z = 100 \<or> x = 203 \<and> y = 0 \<and> z = 113)
      \<and> x \<noteq> 0 \<and> \<not> (x = 100 \<and> 64 \<le> y \<and> y \<le> 127) \<and> \<not> (x = 192 \<and> y = 0 \<and> z = 0)
      \<and> \<not> (x = 198 \<and> (y = 18 \<or> y = 19)) \<and> \<not> 240 \<le> x"
    using assms unfolding blocked_v4_reason_def Let_def octet_0 octet_1 octet_2 n [symmetric] xyz if_Some_None
    by (elim conjE, intro conjI) assumption+
  then have c: "x \<noteq> 127" "\<not> (x = 10 \<or> x = 172 \<and> 16 \<le> y \<and> y \<le> 31 \<or> x = 192 \<and> y = 168)"
    "\<not> (x = 169 \<and> y = 254)" "\<not> (224 \<le> x \<and> x \<le> 239)"
    "\<not> (x = 192 \<and> y = 0 \<and> z = 2 \<or> x = 198 \<and> y = 51 \<and> z = 100 \<or> x = 203 \<and> y = 0 \<and> z = 113)"
    "x \<noteq> 0" "\<not> (x = 100 \<and> 64 \<le> y \<and> y \<le> 127)" "\<not> (x = 192 \<and> y = 0 \<and> z = 0)"
    "\<not> (x = 198 \<and> (y = 18 \<or> y = 19))" "\<not> 240 \<le> x"
    by - (elim conjE, assumption)+
  have "x < 224" using c(4,10) by linarith
  have p: "x \<noteq> 10" "\<not> (x = 172 \<and> 16 \<le> y \<and> y \<le> 31)" "\<not> (x = 192 \<and> y = 168)"
    using c(2) by blast+
  have q: "\<not> (x = 192 \<and> y = 0 \<and> z = 2)" "\<not> (x = 198 \<and> y = 51 \<and> z = 100)" "\<not> (x = 203 \<and> y = 0 \<and> z = 113)"
    using c(5) by blast+
  have yz: "y < 256" "z < 256" by (simp_all flip: xyz)
  have "n div 65536 div 256 = x" using xyz(1) by (simp add: div_mult2_eq [symmetric])
  then have xy: "n div 65536 = x * 256 + y"
    using xyz(2) mult_div_mod_eq [of 256 "n div 65536"] by (simp add: mult.commute)
  have "n div 256 div 256 = x * 256 + y" using xy by (simp add: div_mult2_eq [symmetric])
  then have xyz': "n div 256 = (x * 256 + y) * 256 + z"
    using xyz(3) mult_div_mod_eq [of 256 "n div 256"] by (simp add: mult.commute)
  have d: "n div 1048576 = (x * 256 + y) div 16" "n div 4194304 = (x * 256 + y) div 64"
    "n div 131072 = (x * 256 + y) div 2"
    unfolding xy [symmetric] by (simp_all add: div_mult2_eq [symmetric])
  have d4: "n div 268435456 = x div 16"
    unfolding xyz(1) [symmetric] by (simp add: div_mult2_eq [symmetric])
  have "n div 1048576 \<noteq> 2753"
  proof
    assume "n div 1048576 = 2753"
    then have "44048 \<le> x * 256 + y" "x * 256 + y < 44064" using div_range [of "x * 256 + y"] unfolding d by fastforce+
    note b = this
    have x: "x = 172" using b yz by linarith
    have "16 \<le> y" "y \<le> 31" using b x by simp_all
    with x p(2) show False by blast
  qed
  moreover have "n div 65536 \<noteq> 49320"
  proof
    assume "n div 65536 = 49320"
    then have "x = 192" "y = 168" using base256 [OF _ yz(1), of x] unfolding xy by fastforce+
    with p(3) show False by blast
  qed
  moreover have "n div 65536 \<noteq> 43518"
  proof
    assume "n div 65536 = 43518"
    then have "x = 169" "y = 254" using base256 [OF _ yz(1), of x] unfolding xy by fastforce+
    with c(3) show False by blast
  qed
  moreover have "n div 256 \<noteq> 12582914"
  proof
    assume "n div 256 = 12582914"
    then have "x * 256 + y = 192 * 256 + 0" "z = 2" using base256 [OF _ yz(2), of "x * 256 + y"] unfolding xyz' by fastforce+
    then have "x = 192" "y = 0" "z = 2" using base256 [OF _ yz(1), of x] by fastforce+
    with q(1) show False by blast
  qed
  moreover have "n div 256 \<noteq> 12582912"
  proof
    assume "n div 256 = 12582912"
    then have "x * 256 + y = 192 * 256 + 0" "z = 0" using base256 [OF _ yz(2), of "x * 256 + y"] unfolding xyz' by fastforce+
    then have "x = 192" "y = 0" "z = 0" using base256 [OF _ yz(1), of x] by fastforce+
    with c(8) show False by blast
  qed
  moreover have "n div 256 \<noteq> 12989284"
  proof
    assume "n div 256 = 12989284"
    then have "x * 256 + y = 198 * 256 + 51" "z = 100" using base256 [OF _ yz(2), of "x * 256 + y"] unfolding xyz' by fastforce+
    then have "x = 198" "y = 51" "z = 100" using base256 [OF _ yz(1), of x] by fastforce+
    with q(2) show False by blast
  qed
  moreover have "n div 256 \<noteq> 13303921"
  proof
    assume "n div 256 = 13303921"
    then have "x * 256 + y = 203 * 256 + 0" "z = 113" using base256 [OF _ yz(2), of "x * 256 + y"] unfolding xyz' by fastforce+
    then have "x = 203" "y = 0" "z = 113" using base256 [OF _ yz(1), of x] by fastforce+
    with q(3) show False by blast
  qed
  moreover have "n div 4194304 \<noteq> 401"
  proof
    assume "n div 4194304 = 401"
    then have "25664 \<le> x * 256 + y" "x * 256 + y < 25728" using div_range [of "x * 256 + y"] unfolding d by fastforce+
    note b = this
    have x: "x = 100" using b yz by linarith
    have "64 \<le> y" "y \<le> 127" using b x by simp_all
    with x c(7) show False by blast
  qed
  moreover have "n div 131072 \<noteq> 25353"
  proof
    assume "n div 131072 = 25353"
    then have "50706 \<le> x * 256 + y" "x * 256 + y < 50708" using div_range [of "x * 256 + y"] unfolding d by fastforce+
    note b = this
    have x: "x = 198" using b yz by linarith
    have "y = 18 \<or> y = 19" using b x by auto
    with x c(9) show False by blast
  qed
  moreover have "n div 268435456 \<noteq> 14" "n div 268435456 \<noteq> 15" unfolding d4 using \<open>x < 224\<close> by simp_all
  moreover have "n div 16777216 \<noteq> 127" "n div 16777216 \<noteq> 10" "n div 16777216 \<noteq> 0"
    unfolding xyz(1) by (fact c(1), fact p(1), fact c(6))
  moreover have "(\<forall>(base, len) \<in> set internal_ranges. \<not> in_cidr a base len)
      \<longleftrightarrow> n div 16777216 \<noteq> 0 \<and> n div 16777216 \<noteq> 10 \<and> n div 4194304 \<noteq> 401 \<and> n div 16777216 \<noteq> 127
        \<and> n div 65536 \<noteq> 43518 \<and> n div 1048576 \<noteq> 2753 \<and> n div 256 \<noteq> 12582912 \<and> n div 256 \<noteq> 12582914
        \<and> n div 65536 \<noteq> 49320 \<and> n div 131072 \<noteq> 25353 \<and> n div 256 \<noteq> 12989284 \<and> n div 256 \<noteq> 13303921
        \<and> n div 268435456 \<noteq> 14 \<and> n div 268435456 \<noteq> 15"
    by (simp add: internal_ranges_def in_cidr_def n [symmetric])
  ultimately show ?thesis by iprover
qed

text \<open>The IPv4-mapped and IPv4-compatible forms of a blocked address are blocked too.\<close>

lemma v6_embedded_blocked:
  assumes "to_ipv4_mapped b = Some a \<or> to_ipv4 b = Some a" and "blocked_v4_reason a = Some r"
  shows "blocked_v6_reason b \<noteq> None"
  using assms by (auto simp: blocked_v6_reason_def split: option.split)

lemma v6_forms_blocked:
  assumes "blocked_v4_reason a = Some r"
  shows "blocked_v6_reason (or (push_bit 32 0xffff) (ucast a)) \<noteq> None \<and> blocked_v6_reason (ucast a) \<noteq> None"
proof -
  have d0: "drop_bit 32 (ucast a :: 128 word) = 0"
    by (rule bit_word_eqI) (auto simp: bit_simps dest: bit_imp_le_length)
  have d1: "drop_bit 32 (or (push_bit 32 0xffff) (ucast a) :: 128 word) = 0xffff"
  proof -
    have "drop_bit 32 (or (push_bit 32 0xffff) (ucast a) :: 128 word)
        = or (drop_bit 32 (push_bit 32 0xffff)) (drop_bit 32 (ucast a))" by (simp add: drop_bit_or)
    moreover have "drop_bit 32 (push_bit 32 0xffff :: 128 word) = 0xffff" by simp
    ultimately show ?thesis using d0 by simp
  qed
  have u0: "ucast (ucast a :: 128 word) = a" by (rule bit_word_eqI) (auto simp: bit_simps)
  have low: "\<not> bit (281470681743360 :: int) n" if "n < 32" for n
  proof -
    have "(281470681743360 :: int) = push_bit 32 0xffff" by simp
    then show ?thesis using that by (simp only: bit_push_bit_iff) simp
  qed
  have u1: "ucast (or (push_bit 32 0xffff) (ucast a) :: 128 word) = a"
    by (rule bit_word_eqI) (auto simp: bit_simps low)
  have "to_ipv4_mapped (or (push_bit 32 0xffff) (ucast a)) = Some a"
    unfolding to_ipv4_mapped_def d1 u1 by simp
  moreover have "to_ipv4 (ucast a) = Some a"
    unfolding to_ipv4_def d0 u0 by simp
  ultimately show ?thesis using v6_embedded_blocked assms by blast
qed

end
