(* ===== verification/Egress_Client.thy ===== *)
theory Egress_Client
  imports Egress_Destinations Egress_Ssrf
begin

text \<open>
  The outbound client (\<open>wylde-gateway/src/egress/client.rs\<close>) and its kill switch
  (\<open>kill_switch.rs\<close>): \<open>forward\<close> and \<open>forward_stream\<close> from the checks to the reply, with their
  audit lines. \<open>forward_request\<close> is everything up to the send: either an error or the request
  that goes out, with the addresses the connection is pinned to. The HTTP exchange, the
  resolver, the URL parser and JSON's text form are parameters (\<open>egress_env\<close>).
\<close>

section \<open>Kill switch\<close>

definition apply_env_bootstrap :: "string option \<Rightarrow> bool \<Rightarrow> bool" where
  "apply_env_bootstrap var flag =
     (let raw = to_ascii_lowercase (unwrap_or [] var)
      in if raw \<in> {''1'', ''true'', ''yes'', ''on''} then True else flag)"

definition set_blocked :: "bool \<Rightarrow> bool \<Rightarrow> bool \<times> bool" where
  "set_blocked enabled flag = (enabled, enabled)"

section \<open>Requests and results\<close>

definition FORBIDDEN_HEADERS :: "string list" where
  "FORBIDDEN_HEADERS = [''authorization'', ''cookie'', ''x-wylde-egress-caller'']"

definition SAFE_METHODS :: "string list" where
  "SAFE_METHODS = [''GET'', ''POST'', ''PUT'', ''DELETE'', ''PATCH'', ''HEAD'']"

datatype egress_error = EgBlocked | EgDenied dest_error | EgPolicy string | EgUpstream string | EgSsrf ssrf_error

record http_request =
  hr_method :: string
  hr_url :: string
  hr_headers :: "(string, string) hmap"
  hr_query :: "(string \<times> string) list option"
  hr_json :: "json option"
  hr_verify_tls :: bool
  hr_pin :: pinned_host

record http_response =
  rs_status :: nat
  rs_headers :: "(string \<times> string option) list"
  rs_body :: "(string, string) rust_res"

record egress_result =
  er_status :: nat
  er_headers :: "(string, string) hmap"
  er_body :: json
  er_bytes_in :: nat
  er_bytes_out :: nat

datatype audit_line = AuditKillSwitch string string string string | AuditSsrf string string string ssrf_error
  | AuditSendFailed string string string | AuditReadFailed string string string
  | AuditDone string string string nat

record egress_env =
  ee_blocked :: bool
  ee_registry :: dest_registry
  ee_var :: "string \<Rightarrow> string option"
  ee_secret :: "string \<Rightarrow> string option"
  ee_block_private :: "string option"
  ee_parse :: "string \<Rightarrow> url_info option"
  ee_dns :: "string \<Rightarrow> nat \<Rightarrow> ip_addr list option"
  ee_client_error :: "string option"
  ee_http :: "http_request \<Rightarrow> (string, http_response) rust_res"
  ee_json_text :: "json \<Rightarrow> string"
  ee_json_parse :: "string \<Rightarrow> json option"
  ee_lossy :: "string \<Rightarrow> string"

section \<open>Headers and bodies\<close>

definition resolve_secret :: "egress_env \<Rightarrow> destination \<Rightarrow> string option" where
  "resolve_secret e d =
     (if ds_auth_header_env d = [] then None
      else case ee_var e (ds_auth_header_env d) of
        Some v \<Rightarrow> if v \<noteq> [] then Some v else ee_secret e (ds_auth_header_env d)
      | None \<Rightarrow> ee_secret e (ds_auth_header_env d))"

definition forbidden_header :: "string \<Rightarrow> bool" where
  "forbidden_header k = (\<exists>f \<in> set FORBIDDEN_HEADERS. eq_ignore_ascii_case k f)"

definition compose_headers :: "egress_env \<Rightarrow> destination \<Rightarrow> (string, string) hmap option \<Rightarrow> (string, string) hmap" where
  "compose_headers e d caller_headers =
     (let out = fold (\<lambda>(k, v) m. if forbidden_header k then m else hm_put k v m) (unwrap_or [] caller_headers) []
      in if ds_auth_header_env d \<noteq> []
         then case resolve_secret e d of
           Some token \<Rightarrow> hm_put ''Authorization'' (''Bearer '' @ token) out
         | None \<Rightarrow> out
         else out)"

definition coerce_body_size :: "egress_env \<Rightarrow> json option \<Rightarrow> nat" where
  "coerce_body_size e body =
     (case body of None \<Rightarrow> 0 | Some JNull \<Rightarrow> 0 | Some v \<Rightarrow> length (ee_json_text e v))"

definition decode_body :: "egress_env \<Rightarrow> string \<Rightarrow> string \<Rightarrow> json" where
  "decode_body e raw content_type =
     (if raw = [] then JNull
      else case (if contains_sub content_type ''application/json'' then ee_json_parse e raw else None) of
        Some v \<Rightarrow> v
      | None \<Rightarrow> JStr (ee_lossy e raw))"

fun value_to_string :: "egress_env \<Rightarrow> json \<Rightarrow> string" where
  "value_to_string e (JStr s) = s"
| "value_to_string e JNull = []"
| "value_to_string e v = ee_json_text e v"

section \<open>Forwarding\<close>

text \<open>
  The checks that both entry points make, in order: kill switch, method, destination, path, SSRF
  guard (lines 87--129 and 270--311).
\<close>

definition egress_checks ::
  "egress_env \<Rightarrow> string \<Rightarrow> string \<Rightarrow> string \<Rightarrow> string \<Rightarrow> (egress_error \<times> audit_line list, destination \<times> string \<times> pinned_host) rust_res" where
  "egress_checks e caller dest_key method_name path =
     (if ee_blocked e then Inl (EgBlocked, [AuditKillSwitch caller dest_key method_name path])
      else if to_ascii_uppercase method_name \<notin> set SAFE_METHODS then Inl (EgPolicy method_name, [])
      else case dest_resolve (ee_registry e) caller dest_key of
        Inl err \<Rightarrow> Inl (EgDenied err, [])
      | Inr d \<Rightarrow>
     (case validate_path d path of
        Inl err \<Rightarrow> Inl (EgDenied err, [])
      | Inr safe_path \<Rightarrow>
     (case guard_target (ee_parse e) (ee_dns e) (ee_block_private e) (build_target_url d safe_path)
             (ds_host_allowlist d) (ds_allow_private d) of
        Inl err \<Rightarrow> Inl (EgSsrf err, [AuditSsrf caller (ds_key d) safe_path err])
      | Inr pin \<Rightarrow> Inr (d, safe_path, pin))))"

definition forward_request ::
  "egress_env \<Rightarrow> string \<Rightarrow> string \<Rightarrow> string \<Rightarrow> string \<Rightarrow> json option \<Rightarrow> (string, string) hmap option
   \<Rightarrow> (egress_error \<times> audit_line list, destination \<times> string \<times> http_request) rust_res" where
  "forward_request e caller dest_key method_name path body headers =
     (case egress_checks e caller dest_key method_name path of
        Inl err \<Rightarrow> Inl err
      | Inr (d, safe_path, pin) \<Rightarrow>
     (case ee_client_error e of
        Some msg \<Rightarrow> Inl (EgUpstream (''client build failed: '' @ msg), [])
      | None \<Rightarrow>
          let m = to_ascii_uppercase method_name in
          Inr (d, safe_path,
            \<lparr>hr_method = m, hr_url = build_target_url d safe_path,
             hr_headers = compose_headers e d headers,
             hr_query = (if m = ''GET'' then (case body of
                  Some (JObj kvs) \<Rightarrow> Some (map (\<lambda>(k, v). (k, value_to_string e v)) kvs) | _ \<Rightarrow> None) else None),
             hr_json = (if m \<noteq> ''GET'' then body else None),
             hr_verify_tls = ds_verify_tls d, hr_pin = pin\<rparr>)))"

definition visible_headers :: "(string \<times> string option) list \<Rightarrow> (string, string) hmap" where
  "visible_headers hs = fold (\<lambda>(k, v) m. case v of Some s \<Rightarrow> hm_put k s m | None \<Rightarrow> m) hs []"

definition content_type_of :: "(string, string) hmap \<Rightarrow> string" where
  "content_type_of hs =
     to_ascii_lowercase (unwrap_or [] (case hm_get hs ''content-type'' of
        Some v \<Rightarrow> Some v | None \<Rightarrow> hm_get hs ''Content-Type''))"

definition forward ::
  "egress_env \<Rightarrow> string \<Rightarrow> string \<Rightarrow> string \<Rightarrow> string \<Rightarrow> json option \<Rightarrow> (string, string) hmap option
   \<Rightarrow> (egress_error, egress_result) rust_res \<times> audit_line list" where
  "forward e caller dest_key method_name path body headers =
     (case forward_request e caller dest_key method_name path body headers of
        Inl (err, audit) \<Rightarrow> (Inl err, audit)
      | Inr (d, safe_path, req) \<Rightarrow>
     (case ee_http e req of
        Inl msg \<Rightarrow> (Inl (EgUpstream (''upstream '' @ ds_key d @ '' unreachable: '' @ msg)),
                    [AuditSendFailed caller (ds_key d) safe_path])
      | Inr resp \<Rightarrow>
          let hs = visible_headers (rs_headers resp) in
          (case rs_body resp of
             Inl msg \<Rightarrow> (Inl (EgUpstream (''upstream '' @ ds_key d @ '' read failed: '' @ msg)),
                         [AuditReadFailed caller (ds_key d) safe_path])
           | Inr raw \<Rightarrow>
               (Inr \<lparr>er_status = rs_status resp, er_headers = hs, er_body = decode_body e raw (content_type_of hs),
                     er_bytes_in = coerce_body_size e body, er_bytes_out = length raw\<rparr>,
                [AuditDone caller (ds_key d) safe_path (rs_status resp)]))))"

text \<open>
  The streaming variant: no query parameters, the body's chunks as they come, and one audit line
  when the consumer has read to the end (\<open>drained\<close>).
\<close>

definition stream_request ::
  "egress_env \<Rightarrow> string \<Rightarrow> string \<Rightarrow> string \<Rightarrow> string \<Rightarrow> json option \<Rightarrow> (string, string) hmap option
   \<Rightarrow> (egress_error \<times> audit_line list, destination \<times> string \<times> http_request) rust_res" where
  "stream_request e caller dest_key method_name path body headers =
     (case egress_checks e caller dest_key method_name path of
        Inl err \<Rightarrow> Inl err
      | Inr (d, safe_path, pin) \<Rightarrow>
     (case ee_client_error e of
        Some msg \<Rightarrow> Inl (EgUpstream (''client build failed: '' @ msg), [])
      | None \<Rightarrow>
          let m = to_ascii_uppercase method_name in
          Inr (d, safe_path,
            \<lparr>hr_method = m, hr_url = build_target_url d safe_path,
             hr_headers = compose_headers e d headers, hr_query = None,
             hr_json = (if m \<noteq> ''GET'' then body else None),
             hr_verify_tls = ds_verify_tls d, hr_pin = pin\<rparr>)))"

definition forward_stream ::
  "egress_env \<Rightarrow> bool \<Rightarrow> string \<Rightarrow> string \<Rightarrow> string \<Rightarrow> string \<Rightarrow> json option \<Rightarrow> (string, string) hmap option
   \<Rightarrow> (egress_error, nat \<times> (string, string) hmap) rust_res \<times> audit_line list" where
  "forward_stream e drained caller dest_key method_name path body headers =
     (case stream_request e caller dest_key method_name path body headers of
        Inl (err, audit) \<Rightarrow> (Inl err, audit)
      | Inr (d, safe_path, req) \<Rightarrow>
     (case ee_http e req of
        Inl msg \<Rightarrow> (Inl (EgUpstream (''upstream '' @ ds_key d @ '' unreachable: '' @ msg)),
                    [AuditSendFailed caller (ds_key d) safe_path])
      | Inr resp \<Rightarrow>
          (Inr (rs_status resp, visible_headers (rs_headers resp)),
           if drained then [AuditDone caller (ds_key d) safe_path (rs_status resp)] else [])))"

section \<open>Lemmas\<close>

lemma egress_checksD:
  assumes "egress_checks e caller key m path = Inr (d, p, pin)"
  shows "\<not> ee_blocked e" "to_ascii_uppercase m \<in> set SAFE_METHODS"
    "dest_resolve (ee_registry e) caller key = Inr d" "validate_path d path = Inr p"
    "guard_target (ee_parse e) (ee_dns e) (ee_block_private e) (build_target_url d p)
       (ds_host_allowlist d) (ds_allow_private d) = Inr pin"
  using assms by (auto simp: egress_checks_def split: if_splits sum.splits)

lemma caller_headers_get:
  "hm_get (fold (\<lambda>(k, v) m. if forbidden_header k then m else hm_put k v m) hs m0) k = Some v
   \<Longrightarrow> hm_get m0 k = Some v \<or> (\<not> forbidden_header k \<and> (k, v) \<in> set hs)"
proof (induction hs arbitrary: m0)
  case (Cons h hs)
  then show ?case by (cases h) (fastforce split: if_splits)
qed simp

text \<open>A header in the request is the caller's and allowed, or the destination's token.\<close>

lemma compose_headers_get:
  assumes "hm_get (compose_headers e d hs) k = Some v"
  shows "(\<not> forbidden_header k \<and> (k, v) \<in> set (unwrap_or [] hs))
    \<or> (k = ''Authorization'' \<and> (\<exists>token. resolve_secret e d = Some token \<and> v = ''Bearer '' @ token))"
proof -
  let ?out = "fold (\<lambda>(k, v) m. if forbidden_header k then m else hm_put k v m) (unwrap_or [] hs) []"
  have out: "hm_get ?out k = Some v \<Longrightarrow> \<not> forbidden_header k \<and> (k, v) \<in> set (unwrap_or [] hs)"
    using caller_headers_get [of _ "[]" k v] by fastforce
  show ?thesis
  proof (cases "ds_auth_header_env d \<noteq> [] \<and> resolve_secret e d \<noteq> None \<and> k = ''Authorization''")
    case True
    then show ?thesis using assms by (auto simp: compose_headers_def)
  next
    case False
    then have "hm_get ?out k = Some v"
      using assms by (auto simp: compose_headers_def Let_def split: if_splits option.splits)
    with out show ?thesis by blast
  qed
qed

lemma validate_pinned:
  assumes "validate_path d path = Inr p" and "\<not> is_wildcard d"
  shows "p = path \<and> starts_with path ''/'' \<and> \<not> contains_sub path ''://''"
  using assms by (auto simp: validate_path_def split: if_splits)

section \<open>An environment for the witnesses\<close>

text \<open>
  Two components: \<open>web\<close> with a wildcard, \<open>api\<close> with a pinned URL and a path allowlist. The
  resolver knows one public and one private host.
\<close>

definition ex_manifests :: "(string \<times> json) list" where
  "ex_manifests =
     [(''web'', JObj [(''egress'', JArr [JObj [(''key'', JStr ''any''), (''url_prefix'', JStr ''https://''),
         (''allow_private'', JBool True)]])]),
      (''api'', JObj [(''egress'', JArr [JObj [(''key'', JStr ''v1''), (''url_prefix'', JStr ''https://a.io/''),
         (''auth_env'', JStr ''TOK''), (''path_allowlist'', JArr [JStr ''/ok''])]])])]"

definition ex_egress :: egress_env where
  "ex_egress = \<lparr>ee_blocked = False, ee_registry = dest_reload ex_manifests,
     ee_var = (\<lambda>v. if v = ''TOK'' then Some ''s3cret'' else None), ee_secret = (\<lambda>_. None),
     ee_block_private = None,
     ee_parse = (\<lambda>u. Some \<lparr>ui_host = Some (if starts_with u ''https://a.io'' then ''a.io'' else ''lan.io''),
                            ui_port = Some 443\<rparr>),
     ee_dns = (\<lambda>h _. Some (if h = ''a.io'' then [V4 0x08080808] else [V4 0x0A000001])),
     ee_client_error = None,
     ee_http = (\<lambda>_. Inr \<lparr>rs_status = 200, rs_headers = [], rs_body = Inr []\<rparr>),
     ee_json_text = (\<lambda>_. []), ee_json_parse = (\<lambda>_. None), ee_lossy = (\<lambda>s. s)\<rparr>"

definition ex_any :: destination where
  "ex_any = \<lparr>ds_key = ''any'', ds_component = ''web'', ds_url_prefix = ''https://'', ds_auth_header_env = [],
     ds_verify_tls = True, ds_purpose = [], ds_path_allowlist = [], ds_host_allowlist = [], ds_allow_private = False\<rparr>"

definition ex_v1 :: destination where
  "ex_v1 = \<lparr>ds_key = ''v1'', ds_component = ''api'', ds_url_prefix = ''https://a.io/'', ds_auth_header_env = ''TOK'',
     ds_verify_tls = True, ds_purpose = [], ds_path_allowlist = [''/ok''], ds_host_allowlist = [],
     ds_allow_private = False\<rparr>"

lemma ex_registry: "dest_reload ex_manifests = [(''web'', [(''any'', ex_any)]), (''api'', [(''v1'', ex_v1)])]"
  by code_simp

definition ex_pin :: pinned_host where
  "ex_pin = \<lparr>ph_host = ''a.io'', ph_addrs = [V4 0x08080808]\<rparr>"

lemma ex_egress_sel:
  "ee_blocked ex_egress = False" "ee_registry ex_egress = [(''web'', [(''any'', ex_any)]), (''api'', [(''v1'', ex_v1)])]"
  "ee_var ex_egress = (\<lambda>v. if v = ''TOK'' then Some ''s3cret'' else None)"
  "ee_block_private ex_egress = None" "ee_client_error ex_egress = None"
  "ee_parse ex_egress u = Some \<lparr>ui_host = Some (if starts_with u ''https://a.io'' then ''a.io'' else ''lan.io''),
     ui_port = Some 443\<rparr>"
  "ee_dns ex_egress h n = Some (if h = ''a.io'' then [V4 0x08080808] else [V4 0x0A000001])"
  by (simp_all add: ex_egress_def ex_registry)

lemma ex_public: "blocked_v4_reason 0x08080808 = None" "internal_hostname_reason ''a.io'' = None"
  by (simp add: blocked_v4_reason_def octet_def) code_simp

lemma ex_guard: "guard_target (ee_parse ex_egress) (ee_dns ex_egress) None ''https://a.io/ok?q=1'' [] False = Inr ex_pin"
  by (simp add: guard_target_def ex_egress_sel ex_public ex_pin_def starts_with_def Let_def
      block_private_enabled_def)

lemma ex_v1_path: "validate_path ex_v1 ''/ok?q=1'' = Inr ''/ok?q=1''" "build_target_url ex_v1 ''/ok?q=1'' = ''https://a.io/ok?q=1''"
  "\<not> is_wildcard ex_v1" "trim_end_char (CHR ''/'') (ds_url_prefix ex_v1) = ''https://a.io''"
  by code_simp+

lemma ex_get: "to_ascii_uppercase ''get'' = ''GET''"
  by code_simp

lemma ex_checks: "egress_checks ex_egress ''api'' ''v1'' ''get'' ''/ok?q=1'' = Inr (ex_v1, ''/ok?q=1'', ex_pin)"
  using ex_guard
  by (simp add: egress_checks_def ex_egress_sel(1,2,4) ex_get ex_v1_path SAFE_METHODS_def dest_resolve_def hm_get_def)
    (simp add: ex_v1_def)

definition ex_http :: "(string, string) hmap option \<Rightarrow> http_request" where
  "ex_http hs = \<lparr>hr_method = ''GET'', hr_url = ''https://a.io/ok?q=1'', hr_headers = compose_headers ex_egress ex_v1 hs,
     hr_query = None, hr_json = None, hr_verify_tls = True, hr_pin = ex_pin\<rparr>"

lemma ex_forward: "forward_request ex_egress ''api'' ''v1'' ''get'' ''/ok?q=1'' None hs = Inr (ex_v1, ''/ok?q=1'', ex_http hs)"
  by (simp add: forward_request_def ex_checks ex_egress_sel(5) ex_get Let_def ex_http_def ex_v1_path)
    (simp add: ex_v1_def)

section \<open>Properties\<close>



text \<open>The manifests of any set of components give a registry in which a wildcard destination never
  reaches private hosts, whatever its manifest says, and each component finds only what it
  declared itself.\<close>

theorem registry_scoped:
  assumes "dest_resolve (dest_reload manifests) caller key = Inr d"
  shows "ds_component d = caller \<and> ds_key d = key \<and> (is_wildcard d \<longrightarrow> \<not> ds_allow_private d)"
  using dest_resolve_ok [OF registry_ok_reload assms] by (simp add: dest_ok_def)

theorem registry_scoped_witness:
  "dest_resolve (dest_reload ex_manifests) ''web'' ''any'' = Inr ex_any \<and> is_wildcard ex_any \<and> \<not> ds_allow_private ex_any"
proof -
  have r: "dest_resolve (dest_reload ex_manifests) ''web'' ''any'' = Inr ex_any"
    by (simp add: ex_registry dest_resolve_def hm_get_def)
  moreover have "is_wildcard ex_any" by code_simp
  ultimately show ?thesis using registry_scoped [OF r] by blast
qed

text \<open>With the kill switch on, neither entry point sends anything; every call is refused as blocked.\<close>

theorem kill_switch_blocks:
  assumes "ee_blocked e"
  shows "fst (forward e caller key m path body hs) = Inl EgBlocked
    \<and> fst (forward_stream e drained caller key m path body hs) = Inl EgBlocked
    \<and> (\<forall>h. forward (e\<lparr>ee_http := h\<rparr>) caller key m path body hs = forward e caller key m path body hs)"
  using assms
  by (simp add: forward_def forward_request_def forward_stream_def stream_request_def egress_checks_def)

theorem kill_switch_blocks_witness:
  "fst (forward (ex_egress\<lparr>ee_blocked := True\<rparr>) ''api'' ''v1'' ''GET'' ''/ok'' None None) = Inl EgBlocked"
  using kill_switch_blocks [of "ex_egress\<lparr>ee_blocked := True\<rparr>"] by simp

text \<open>A caller cannot supply credentials: a header of the outgoing request whose name is authorization,
  cookie or the egress caller's, in any case, is the bearer token of the destination's own
  secret, and only that.\<close>

theorem caller_cannot_authenticate:
  assumes "forward_request e caller key m path body hs = Inr (d, p, req)"
    and "hm_get (hr_headers req) k = Some v" and "forbidden_header k"
  shows "k = ''Authorization'' \<and> (\<exists>token. resolve_secret e d = Some token \<and> v = ''Bearer '' @ token)"
proof -
  have "hr_headers req = compose_headers e d hs"
    using assms(1) by (auto simp: forward_request_def Let_def split: sum.splits option.splits)
  with compose_headers_get [of e d hs k v] assms(2,3) show ?thesis by simp
qed

theorem caller_cannot_authenticate_witness:
  "\<exists>req. forward_request ex_egress ''api'' ''v1'' ''get'' ''/ok?q=1'' None (Some [(''AUTHORIZATION'', ''mine'')])
       = Inr (ex_v1, ''/ok?q=1'', req)
     \<and> (\<exists>v. hm_get (hr_headers req) ''Authorization'' = Some v
          \<and> (\<exists>token. resolve_secret ex_egress ex_v1 = Some token \<and> v = ''Bearer '' @ token))"
proof -
  let ?hs = "Some [(''AUTHORIZATION'', ''mine'')]"
  have f: "forbidden_header ''AUTHORIZATION''" "forbidden_header ''Authorization''" by code_simp+
  have "resolve_secret ex_egress ex_v1 = Some ''s3cret''"
    by (simp add: resolve_secret_def ex_egress_sel) (simp add: ex_v1_def)
  with f(1) have v: "hm_get (hr_headers (ex_http ?hs)) ''Authorization'' = Some ''Bearer s3cret''"
    by (simp add: ex_http_def compose_headers_def) (simp add: ex_v1_def)
  from caller_cannot_authenticate [OF ex_forward v f(2)] ex_forward [of ?hs] v show ?thesis by blast
qed

text \<open>The URL of a pinned destination stays on the declared base: it is the declared prefix without
  trailing slashes followed by a path that starts with a slash, so the path cannot extend the
  authority.\<close>

theorem pinned_url_keeps_base:
  assumes "forward_request e caller key m path body hs = Inr (d, p, req)" and "\<not> is_wildcard d"
  shows "\<exists>rest. hr_url req = trim_end_char (CHR ''/'') (ds_url_prefix d) @ ''/'' @ rest
    \<and> path = ''/'' @ rest \<and> \<not> contains_sub path ''://''"
proof -
  obtain pin where c: "egress_checks e caller key m path = Inr (d, p, pin)"
    and url: "hr_url req = build_target_url d p"
    using assms(1) by (auto simp: forward_request_def Let_def split: sum.splits option.splits)
  from validate_pinned [OF egress_checksD(4) [OF c] assms(2)]
  have v: "p = path" "starts_with path ''/''" "\<not> contains_sub path ''://''" by auto
  obtain rest where "path = ''/'' @ rest" using starts_withE [OF v(2)] by blast
  with v url assms(2) show ?thesis by (simp add: build_target_url_def)
qed

theorem pinned_url_keeps_base_witness:
  "\<exists>rest. hr_url (ex_http None) = ''https://a.io'' @ ''/'' @ rest"
  using pinned_url_keeps_base [OF ex_forward ex_v1_path(3), of None] unfolding ex_v1_path(4) by blast

text \<open>The path allowlist does not hold for the URL that is fetched: a path that starts with an allowed
  one is accepted and sent even when it then climbs out of it with dot segments, which URL
  parsing removes.\<close>

theorem allowlist_ignores_dot_segments:
  assumes "allowed \<in> set (ds_path_allowlist d)" and "\<not> is_wildcard d"
    and "starts_with allowed ''/''" and "\<not> contains_sub (allowed @ ''/../'' @ rest) ''://''"
    and "CHR ''?'' \<notin> set (allowed @ rest)"
  shows "validate_path d (allowed @ ''/../'' @ rest) = Inr (allowed @ ''/../'' @ rest)
    \<and> build_target_url d (allowed @ ''/../'' @ rest)
        = trim_end_char (CHR ''/'') (ds_url_prefix d) @ allowed @ ''/../'' @ rest"
proof -
  obtain t where t: "allowed = ''/'' @ t" using starts_withE [OF assms(3)] by blast
  let ?p = "allowed @ ''/../'' @ rest"
  have "before_char (CHR ''?'') ?p = ?p"
    using assms(5) by (auto simp: before_char_def intro!: takeWhile_eq_all_conv [THEN iffD2])
  moreover have "starts_with ?p (allowed @ ''/'')" by (simp add: starts_with_def)
  then have "\<exists>al \<in> set (ds_path_allowlist d). ?p = al \<or> starts_with ?p (al @ ''/'')"
    using assms(1) by blast
  moreover have "starts_with ?p ''/''" by (simp add: t starts_with_def)
  moreover have "?p \<noteq> []" by simp
  ultimately have "validate_path d ?p = Inr ?p"
    unfolding validate_path_def using assms(2,4) by (simp only: if_False if_True simp_thms)
  with assms(2) show ?thesis by (simp add: build_target_url_def)
qed

theorem allowlist_ignores_dot_segments_witness:
  "validate_path ex_v1 ''/ok/../admin'' = Inr ''/ok/../admin''
   \<and> build_target_url ex_v1 ''/ok/../admin'' = ''https://a.io/ok/../admin''"
proof -
  have "\<not> contains_sub ''/ok/../admin'' ''://''" by code_simp
  with ex_v1_path(3,4) allowlist_ignores_dot_segments [of "''/ok''" ex_v1 "''admin''"] show ?thesis
    by (simp add: ex_v1_def starts_with_def)
qed

end
