(* ===== verification/Admission_Window.thy ===== *)
theory Admission_Window
  imports Keyed_Store
begin

text \<open>
  The interface of a request limiter: a check per key at a time that grants or refuses and
  counts what it granted. The locale's laws say what a grant means for the count; the lemma
  proved from them bounds the grants in every window of every run. The gateway's
  fixed-minute limiter and the pairing table's sliding window both implement it.
\<close>

text \<open>The grants of a run, in order, and the final state.\<close>

fun limiter_run :: "('k \<Rightarrow> 't \<Rightarrow> 's \<Rightarrow> bool \<times> 's) \<Rightarrow> ('k \<times> 't) list \<Rightarrow> 's \<Rightarrow> ('k \<times> 't) list \<times> 's" where
  "limiter_run check [] s = ([], s)"
| "limiter_run check ((k, t) # xs) s =
     (case check k t s of
        (granted, s1) \<Rightarrow> (case limiter_run check xs s1 of
            (gs, s2) \<Rightarrow> (if granted then (k, t) # gs else gs, s2)))"

text \<open>The grants for \<open>k\<close> that count at time \<open>u\<close>.\<close>

definition grants_in :: "('t \<Rightarrow> 't \<Rightarrow> bool) \<Rightarrow> ('k \<times> 't :: linorder) list \<Rightarrow> 'k \<Rightarrow> 't \<Rightarrow> nat" where
  "grants_in in_window gs k u = length (filter (\<lambda>(k', v). k' = k \<and> v \<le> u \<and> in_window v u) gs)"

locale admission_window =
  fixes check :: "'k \<Rightarrow> 't :: linorder \<Rightarrow> 's \<Rightarrow> bool \<times> 's"
    and used :: "'s \<Rightarrow> 'k \<Rightarrow> 't \<Rightarrow> nat"
    and in_window :: "'t \<Rightarrow> 't \<Rightarrow> bool"
    and limit :: nat
    and ok :: "'t \<Rightarrow> 's \<Rightarrow> bool"
  assumes window_anti: "v \<le> t \<Longrightarrow> t \<le> u \<Longrightarrow> in_window v u \<Longrightarrow> in_window v t"
    and check_ok: "ok now s \<Longrightarrow> now \<le> t \<Longrightarrow> check k t s = (b, s') \<Longrightarrow> ok t s'"
    and check_granted: "ok now s \<Longrightarrow> now \<le> t \<Longrightarrow> check k t s = (True, s') \<Longrightarrow> used s k t < limit"
    and used_mono: "ok now s \<Longrightarrow> now \<le> t \<Longrightarrow> check k t s = (b, s') \<Longrightarrow> t \<le> u \<Longrightarrow> used s k' u \<le> used s' k' u"
    and used_granted: "ok now s \<Longrightarrow> now \<le> t \<Longrightarrow> check k t s = (True, s') \<Longrightarrow> t \<le> u \<Longrightarrow> in_window t u
      \<Longrightarrow> Suc (used s k u) \<le> used s' k u"
begin

text \<open>\<open>H\<close> are the grants so far: the state accounts for them, and they respect the limit.\<close>

definition tracks :: "'t \<Rightarrow> 's \<Rightarrow> ('k \<times> 't) list \<Rightarrow> bool" where
  "tracks now s H \<longleftrightarrow> ok now s \<and> (\<forall>(k, v) \<in> set H. v \<le> now)
     \<and> (\<forall>k u. now \<le> u \<longrightarrow> grants_in in_window H k u \<le> used s k u)
     \<and> (\<forall>k u. grants_in in_window H k u \<le> limit)"

lemma grants_in_append: "grants_in in_window (H @ G) k u = grants_in in_window H k u + grants_in in_window G k u"
  by (simp add: grants_in_def)

lemma grants_in_one: "grants_in in_window [(k', t)] k u = (if k' = k \<and> t \<le> u \<and> in_window t u then 1 else 0)"
  by (simp add: grants_in_def)

lemma grants_in_later:
  assumes "\<forall>(k, v) \<in> set H. v \<le> t" and "t \<le> u"
  shows "grants_in in_window H k u \<le> grants_in in_window H k t"
proof -
  have "length (filter P H) \<le> length (filter Q H)" if "\<forall>x \<in> set H. P x \<longrightarrow> Q x" for P Q
    using that by (induction H) auto
  then show ?thesis
    unfolding grants_in_def using assms window_anti by (fastforce split: prod.splits)
qed

lemma tracks_step:
  assumes "tracks now s H" and "now \<le> t" and "check k t s = (granted, s')"
  shows "tracks t s' (if granted then H @ [(k, t)] else H)"
proof -
  have ok: "ok now s" and old: "\<forall>(k, v) \<in> set H. v \<le> now"
    and cnt: "\<And>k u. now \<le> u \<Longrightarrow> grants_in in_window H k u \<le> used s k u"
    and lim: "\<And>k u. grants_in in_window H k u \<le> limit"
    using assms(1) by (auto simp: tracks_def)
  note mono = used_mono [OF ok assms(2,3)]
  have cnt': "grants_in in_window H k' u \<le> used s' k' u" if "t \<le> u" for k' u
    using cnt [of u k'] mono [OF that, of k'] assms(2) that by force
  have before: "\<forall>(k, v) \<in> set H. v \<le> t" using old assms(2) by force
  show ?thesis
  proof (cases granted)
    case False
    with cnt' lim before check_ok [OF ok assms(2,3)] show ?thesis by (simp add: tracks_def)
  next
    case True
    have chk: "check k t s = (True, s')" using assms(3) True by simp
    have now_lt: "grants_in in_window H k t < limit"
      using cnt [OF assms(2), of k] check_granted [OF ok assms(2) chk] by simp
    have a: "grants_in in_window (H @ [(k, t)]) k' u \<le> used s' k' u" if "t \<le> u" for k' u
      using used_granted [OF ok assms(2) chk that] cnt' [OF that, of k'] cnt [of u k] assms(2) that
      by (auto simp: grants_in_append grants_in_one) force
    have b: "grants_in in_window (H @ [(k, t)]) k' u \<le> limit" for k' u
      using lim [of k' u] now_lt grants_in_later [OF before, of u k]
      by (auto simp: grants_in_append grants_in_one)
    show ?thesis
      using a b before check_ok [OF ok assms(2,3)] True by (auto simp: tracks_def)
  qed
qed

lemma run_tracks:
  assumes "tracks now s H" and "sorted (map snd xs)" and "\<forall>(k, t) \<in> set xs. now \<le> t"
  shows "\<exists>now'. tracks now' (snd (limiter_run check xs s)) (H @ fst (limiter_run check xs s))"
  using assms
proof (induction xs arbitrary: now s H)
  case Nil
  then show ?case by auto
next
  case (Cons x xs)
  obtain k t where x: "x = (k, t)" by (cases x)
  obtain granted s1 where c: "check k t s = (granted, s1)" by (cases "check k t s")
  have t: "now \<le> t" using Cons.prems(3) by (simp add: x)
  have later: "sorted (map snd xs)" "\<forall>(k, v) \<in> set xs. t \<le> v"
    using Cons.prems(2) by (auto simp: x)
  from Cons.IH [OF tracks_step [OF Cons.prems(1) t c] later]
  show ?case by (cases "limiter_run check xs s1") (auto simp: x c split: if_splits)
qed

text \<open>In every run, the grants of a key inside any window number at most the limit.\<close>

lemma window_bound:
  assumes "ok now s" and "sorted (map snd xs)" and "\<forall>(k, t) \<in> set xs. now \<le> t"
  shows "grants_in in_window (fst (limiter_run check xs s)) k u \<le> limit"
proof -
  have "tracks now s []" using assms(1) by (simp add: tracks_def grants_in_def)
  from run_tracks [OF this assms(2,3)] show ?thesis by (auto simp: tracks_def)
qed

end

end
