(* ===== verification/Rate_Limit.thy ===== *)
theory Rate_Limit
  imports Admission_Window
begin

text \<open>
  The gateway's rate limiter (\<open>wylde-gateway/src/middleware/rate_limit.rs\<close>): one counter per
  key and calendar minute, compacted when the map grows, and the two middleware layers that
  use it. Minutes are the \<open>i64\<close>s of the code, counts saturate at \<open>u32::MAX\<close>.
\<close>

record bucket =
  bu_count :: nat
  bu_minute :: int

type_synonym buckets = "(string, bucket) hmap"

definition COMPACT_THRESHOLD :: nat where "COMPACT_THRESHOLD = 4096"

definition u32_max :: nat where "u32_max = 2 ^ 32 - 1"

definition bucket_new :: bucket where
  "bucket_new = \<lparr>bu_count = 0, bu_minute = - 1\<rparr>"

text \<open>\<open>RateLimiter::new\<close> floors the limit to 1.\<close>

definition limiter_limit :: "nat \<Rightarrow> nat" where
  "limiter_limit per_minute = max per_minute 1"

definition count_request :: "int \<Rightarrow> bucket \<Rightarrow> bucket" where
  "count_request now_min b0 =
     (let b1 = (if bu_minute b0 \<noteq> now_min then \<lparr>bu_count = 0, bu_minute = now_min\<rparr> else b0)
      in b1\<lparr>bu_count := min (bu_count b1 + 1) u32_max\<rparr>)"

definition rate_check :: "nat \<Rightarrow> string \<Rightarrow> int \<Rightarrow> buckets \<Rightarrow> bool \<times> buckets" where
  "rate_check limit key now_min bs =
     (let b = count_request now_min (unwrap_or bucket_new (hm_get bs key));
          bs1 = hm_put key b bs;
          allowed = (bu_count b \<le> limit);
          bs2 = (if COMPACT_THRESHOLD < length bs1 then hm_retain (\<lambda>_ b. now_min - bu_minute b \<le> 1) bs1 else bs1)
      in (allowed, bs2))"

section \<open>The middleware layers\<close>

text \<open>A request as the layers see it: its path, a verified device, the client's address.\<close>

record gateway_request =
  gr_path :: string
  gr_device :: "string option"
  gr_client_ip :: "string option"

definition EXEMPT_PATHS :: "string list" where "EXEMPT_PATHS = [''/health'']"

definition bucket_key :: "gateway_request \<Rightarrow> string" where
  "bucket_key q =
     (case gr_device q of Some d \<Rightarrow> ''dev:'' @ d
      | None \<Rightarrow> (case gr_client_ip q of Some ip \<Rightarrow> ''ip:'' @ ip | None \<Rightarrow> ''ip:unknown''))"

definition current_minute :: "nat \<Rightarrow> int" where
  "current_minute unix_secs = int (unix_secs div 60)"

definition seconds_until_window_reset :: "nat \<Rightarrow> nat" where
  "seconds_until_window_reset unix_secs = 60 - unix_secs mod 60"

text \<open>\<open>Inr ()\<close>: the request goes on; \<open>Inl\<close>: the 429 with this message.\<close>

definition rate_limit :: "nat \<Rightarrow> nat \<Rightarrow> gateway_request \<Rightarrow> buckets \<Rightarrow> (string, unit) rust_res \<times> buckets" where
  "rate_limit limit unix_secs q bs =
     (if gr_path q \<in> set EXEMPT_PATHS then (Inr (), bs)
      else let key = bucket_key q in
        case rate_check limit key (current_minute unix_secs) bs of
          (True, bs') \<Rightarrow> (Inr (), bs')
        | (False, bs') \<Rightarrow>
            (Inl (''more than '' @ nat_str limit @ '' requests/min for key '' @ [CHR 0x27] @ key @ [CHR 0x27]), bs'))"

definition per_device_rate_limit ::
  "nat \<Rightarrow> nat \<Rightarrow> gateway_request \<Rightarrow> buckets \<Rightarrow> (string, unit) rust_res \<times> buckets" where
  "per_device_rate_limit limit unix_secs q bs =
     (case gr_device q of
        None \<Rightarrow> (Inr (), bs)
      | Some d \<Rightarrow>
          let key = ''dev:'' @ d in
          case rate_check limit key (current_minute unix_secs) bs of
            (True, bs') \<Rightarrow> (Inr (), bs')
          | (False, bs') \<Rightarrow>
              (Inl (''more than '' @ nat_str limit @ '' requests/min for key '' @ [CHR 0x27] @ key @ [CHR 0x27]), bs'))"

section \<open>The limiter's laws\<close>

text \<open>No bucket is ahead of the clock, and every count is a \<open>u32\<close>.\<close>

definition buckets_ok :: "int \<Rightarrow> buckets \<Rightarrow> bool" where
  "buckets_ok now bs \<longleftrightarrow> hm_ok bs
     \<and> (\<forall>k b. hm_get bs k = Some b \<longrightarrow> bu_minute b \<le> now \<and> bu_count b \<le> u32_max)"

definition minute_used :: "buckets \<Rightarrow> string \<Rightarrow> int \<Rightarrow> nat" where
  "minute_used bs k m =
     (case hm_get bs k of None \<Rightarrow> 0 | Some b \<Rightarrow> if bu_minute b = m then bu_count b else 0)"

definition same_minute :: "int \<Rightarrow> int \<Rightarrow> bool" where
  "same_minute v u \<longleftrightarrow> v = u"

lemma rate_check_get:
  assumes "hm_ok bs" and "rate_check limit key t bs = (b, bs')"
  shows "\<exists>nb. nb = count_request t (unwrap_or bucket_new (hm_get bs key)) \<and> b = (bu_count nb \<le> limit)
    \<and> hm_get bs' key = Some nb
    \<and> (\<forall>k. k \<noteq> key \<longrightarrow> hm_get bs' k = hm_get bs k \<or>
          (\<exists>ob. hm_get bs k = Some ob \<and> 1 < t - bu_minute ob \<and> hm_get bs' k = None)) \<and> hm_ok bs'"
proof -
  let ?nb = "count_request t (unwrap_or bucket_new (hm_get bs key))"
  let ?bs1 = "hm_put key ?nb bs"
  have m: "bu_minute ?nb = t" by (simp add: count_request_def Let_def)
  have r: "bs' = (if COMPACT_THRESHOLD < length ?bs1 then hm_retain (\<lambda>_ b. t - bu_minute b \<le> 1) ?bs1 else ?bs1)"
    and b: "b = (bu_count ?nb \<le> limit)" using assms(2) by (auto simp: rate_check_def Let_def)
  have ok: "hm_ok ?bs1" using assms(1) by simp
  show ?thesis
    using ok m by (intro exI [of _ ?nb]) (auto simp: r b hm_get_retain split: option.splits)
qed

lemma count_request_used:
  assumes "bu_count (count_request t (unwrap_or bucket_new (hm_get bs k))) \<le> limit" and "limit < u32_max"
  shows "bu_count (count_request t (unwrap_or bucket_new (hm_get bs k))) = Suc (minute_used bs k t)"
  using assms
  by (auto simp: count_request_def Let_def minute_used_def bucket_new_def split: option.splits if_splits)

lemma minute_used_mono:
  assumes "buckets_ok now bs" and "now \<le> t" and "rate_check limit key t bs = (b, bs')" and "t \<le> u"
  shows "minute_used bs k u \<le> minute_used bs' k u"
proof -
  have ok: "hm_ok bs" and past: "\<And>k b. hm_get bs k = Some b \<Longrightarrow> bu_minute b \<le> now \<and> bu_count b \<le> u32_max"
    using assms(1) by (auto simp: buckets_ok_def)
  obtain nb where nb: "nb = count_request t (unwrap_or bucket_new (hm_get bs key))" "hm_get bs' key = Some nb"
    and others: "\<forall>k. k \<noteq> key \<longrightarrow> hm_get bs' k = hm_get bs k \<or>
          (\<exists>ob. hm_get bs k = Some ob \<and> 1 < t - bu_minute ob \<and> hm_get bs' k = None)"
    using rate_check_get [OF ok assms(3)] by blast
  show ?thesis
  proof (cases "k = key")
    case True
    show ?thesis
    proof (cases "hm_get bs key")
      case None
      then show ?thesis by (simp add: True minute_used_def)
    next
      case (Some ob)
      then have "bu_minute ob \<le> now \<and> bu_count ob \<le> u32_max" by (rule past)
      with Some assms(2,4) nb show ?thesis
        by (auto simp: True minute_used_def count_request_def Let_def min_def)
    qed
  next
    case False
    with others have "hm_get bs' k = hm_get bs k \<or>
          (\<exists>ob. hm_get bs k = Some ob \<and> 1 < t - bu_minute ob \<and> hm_get bs' k = None)" by blast
    with assms(4) show ?thesis by (auto simp: minute_used_def)
  qed
qed

lemma count_request_fields:
  "bu_minute (count_request t b) = t" "bu_count (count_request t b) \<le> u32_max"
  by (simp_all add: count_request_def Let_def)

lemma buckets_ok_check:
  assumes "buckets_ok now bs" and "now \<le> t" and "rate_check limit key t bs = (b, bs')"
  shows "buckets_ok t bs'"
proof -
  have ok: "hm_ok bs" and old: "\<And>k b. hm_get bs k = Some b \<Longrightarrow> bu_minute b \<le> now \<and> bu_count b \<le> u32_max"
    using assms(1) by (auto simp: buckets_ok_def)
  obtain nb where nb: "nb = count_request t (unwrap_or bucket_new (hm_get bs key))" "hm_get bs' key = Some nb"
    and others: "\<forall>k. k \<noteq> key \<longrightarrow> hm_get bs' k = hm_get bs k \<or>
          (\<exists>ob. hm_get bs k = Some ob \<and> 1 < t - bu_minute ob \<and> hm_get bs' k = None)"
    and ok': "hm_ok bs'"
    using rate_check_get [OF ok assms(3)] by blast
  have "bu_minute x \<le> t \<and> bu_count x \<le> u32_max" if "hm_get bs' k = Some x" for k x
  proof (cases "k = key")
    case True
    with that nb have "x = nb" by simp
    then show ?thesis using nb(1) by (simp add: count_request_fields)
  next
    case False
    with others that have "hm_get bs k = Some x" by fastforce
    with old [OF this] assms(2) show ?thesis by auto
  qed
  with ok' show ?thesis by (simp add: buckets_ok_def)
qed

lemma rate_check_true:
  assumes "hm_ok bs" and "rate_check limit key t bs = (True, bs')" and "limit < u32_max"
  shows "minute_used bs key t < limit" and "minute_used bs' key t = Suc (minute_used bs key t)"
proof -
  let ?nb = "count_request t (unwrap_or bucket_new (hm_get bs key))"
  have g: "bu_count ?nb \<le> limit" "hm_get bs' key = Some ?nb"
    using rate_check_get [OF assms(1,2)] by auto
  note used = count_request_used [OF g(1) assms(3)]
  with g(1) show "minute_used bs key t < limit" by simp
  have "bu_minute ?nb = t" by (simp add: count_request_def Let_def)
  with used g(2) show "minute_used bs' key t = Suc (minute_used bs key t)"
    by (simp add: minute_used_def)
qed

text \<open>At \<open>u32::MAX\<close> the saturating count never exceeds the limit, so the laws ask for less.\<close>

interpretation minute_window: admission_window "rate_check limit" minute_used same_minute limit
  "\<lambda>now bs. buckets_ok now bs \<and> limit < u32_max" for limit
proof (unfold_locales, goal_cases)
  case (1 v t u)
  then show ?case by (simp add: same_minute_def)
next
  case (2 now s t k b s')
  then show ?case using buckets_ok_check by blast
next
  case (3 now s t k s')
  then show ?case using rate_check_true(1) by (simp add: buckets_ok_def)
next
  case (4 now s t k b s' u k')
  then show ?case using minute_used_mono by blast
next
  case (5 now s t k s' u)
  then show ?case using rate_check_true(2) [of s limit k t s'] by (simp add: same_minute_def buckets_ok_def)
qed

section \<open>The properties\<close>

text \<open>Over any sequence of requests with a clock that does not run backwards, starting from
  an empty map, the limiter grants a key at most \<open>limiter_limit per_minute\<close> requests inside one calendar
  minute: compacting the map when it passes \<open>COMPACT_THRESHOLD\<close> forgets no count that matters.\<close>

theorem minute_limit:
  assumes "per_minute < u32_max" and "sorted (map snd requests)"
    and "\<forall>(k, t) \<in> set requests. 0 \<le> t"
  shows "length (filter (\<lambda>(k, t). k = key \<and> t = m)
           (fst (limiter_run (rate_check (limiter_limit per_minute)) requests []))) \<le> limiter_limit per_minute"
proof -
  have limit: "limiter_limit per_minute < u32_max"
    using assms(1) by (simp add: limiter_limit_def u32_max_def)
  have "buckets_ok 0 []" by (simp add: buckets_ok_def)
  then have "grants_in same_minute (fst (limiter_run (rate_check (limiter_limit per_minute)) requests [])) key m \<le> limiter_limit per_minute"
    using minute_window.window_bound assms limit by blast
  moreover have "(\<lambda>(k', v). k' = key \<and> v \<le> m \<and> same_minute v m) = (\<lambda>(k, t). k = key \<and> t = m)"
    by (auto simp: same_minute_def)
  ultimately show ?thesis by (simp add: grants_in_def)
qed

lemma minute_limit_witness:
  "length (filter (\<lambda>(k, t). k = ''dev:a'' \<and> t = (7 :: int))
     (fst (limiter_run (rate_check (limiter_limit 0)) [(''dev:a'', 7), (''dev:a'', 7), (''dev:a'', 8)] []))) \<le> limiter_limit 0
   \<and> fst (limiter_run (rate_check (limiter_limit 0)) [(''dev:a'', 7), (''dev:a'', 7), (''dev:a'', 8)] [])
     = [(''dev:a'', 7), (''dev:a'', 8)]"
proof
  show "length (filter (\<lambda>(k, t). k = ''dev:a'' \<and> t = (7 :: int))
     (fst (limiter_run (rate_check (limiter_limit 0)) [(''dev:a'', 7), (''dev:a'', 7), (''dev:a'', 8)] []))) \<le> limiter_limit 0"
    by (rule minute_limit) (simp_all add: u32_max_def)
  show "fst (limiter_run (rate_check (limiter_limit 0)) [(''dev:a'', 7), (''dev:a'', 7), (''dev:a'', 8)] [])
     = [(''dev:a'', 7), (''dev:a'', 8)]"
    by (simp add: rate_check_def limiter_limit_def count_request_def bucket_new_def u32_max_def COMPACT_THRESHOLD_def
        unwrap_or_def hm_put_def hm_get_def Let_def)
qed

end
