(* ===== verification/Link_Peers.thy ===== *)
theory Link_Peers
  imports Keyed_Store
begin

text \<open>
  The persistent peer registry of WyldeLink (\<open>wylde-vpn/src/peers/mod.rs\<close>): a JSON file from
  public keys to peer records that every operation reads, changes and rewrites under one
  mutex. A file is missing, holds text that does not read as a peer map, or holds a map;
  a map that was written is read back as it was (serde's round trip). Whether a write
  succeeds is an argument of the operations that write.
\<close>

record peer_record =
  pr_public_key :: string
  pr_label :: string
  pr_tunnel_ip :: string
  pr_registered_at :: string
  pr_last_seen :: "string option"
  pr_allowed_services :: "string list"
  pr_extra :: "(string \<times> json) list"

type_synonym peer_map = "(string, peer_record) hmap"

datatype peers_file = PFMissing | PFUnreadable string | PFPeers peer_map

definition peers_load :: "peers_file \<Rightarrow> (string, peer_map) rust_res" where
  "peers_load f = (case f of PFMissing \<Rightarrow> Inr [] | PFUnreadable e \<Rightarrow> Inl e | PFPeers m \<Rightarrow> Inr m)"

definition peers_save :: "string option \<Rightarrow> peer_map \<Rightarrow> peers_file \<Rightarrow> (string, unit) rust_res \<times> peers_file" where
  "peers_save wr m f = (case wr of None \<Rightarrow> (Inr (), PFPeers m) | Some e \<Rightarrow> (Inl e, f))"

text \<open>\<open>load(..).unwrap_or_default()\<close>.\<close>

definition load_or_empty :: "peers_file \<Rightarrow> peer_map" where
  "load_or_empty f = (case peers_load f of Inl _ \<Rightarrow> [] | Inr m \<Rightarrow> m)"

definition peers_list :: "peers_file \<Rightarrow> peer_record list" where
  "peers_list f = hm_values (load_or_empty f)"

definition peers_get :: "peers_file \<Rightarrow> string \<Rightarrow> peer_record option" where
  "peers_get f pk = (case peers_load f of Inl _ \<Rightarrow> None | Inr m \<Rightarrow> hm_get m pk)"

definition peers_upsert :: "string option \<Rightarrow> peer_record \<Rightarrow> peers_file \<Rightarrow> (string, unit) rust_res \<times> peers_file" where
  "peers_upsert wr peer f = peers_save wr (hm_put (pr_public_key peer) peer (load_or_empty f)) f"

definition peers_remove :: "string option \<Rightarrow> string \<Rightarrow> peers_file \<Rightarrow> (string, bool) rust_res \<times> peers_file" where
  "peers_remove wr pk f =
     (let m = load_or_empty f in
      if hm_get m pk = None then (Inr False, f)
      else case peers_save wr (hm_del pk m) f of
             (Inl e, f') \<Rightarrow> (Inl e, f')
           | (Inr _, f') \<Rightarrow> (Inr True, f'))"

definition tunnel_ip :: "nat \<Rightarrow> string" where
  "tunnel_ip i = ''192.0.2.'' @ nat_str i"

text \<open>The candidates \<open>(2..254u8)\<close>, in order.\<close>

definition tunnel_pool :: "string list" where
  "tunnel_pool = map tunnel_ip [2..<254]"

definition next_tunnel_ip :: "peers_file \<Rightarrow> string option" where
  "next_tunnel_ip f =
     (let used = set (map pr_tunnel_ip (hm_values (load_or_empty f))) in
      List.find (\<lambda>ip. ip \<notin> used) tunnel_pool)"

section \<open>Facts\<close>

text \<open>Keys are the records' own keys, and no two peers share a tunnel address.\<close>

definition peer_map_ok :: "peer_map \<Rightarrow> bool" where
  "peer_map_ok m \<longleftrightarrow> hm_ok m \<and> (\<forall>k p. hm_get m k = Some p \<longrightarrow> pr_public_key p = k)
     \<and> (\<forall>k p k' p'. hm_get m k = Some p \<longrightarrow> hm_get m k' = Some p' \<longrightarrow> pr_tunnel_ip p = pr_tunnel_ip p' \<longrightarrow> k = k')"

definition peers_ok :: "peers_file \<Rightarrow> bool" where
  "peers_ok f \<longleftrightarrow> (case f of PFMissing \<Rightarrow> True | PFUnreadable _ \<Rightarrow> False | PFPeers m \<Rightarrow> peer_map_ok m)"

lemma peers_ok_map: "peers_ok f \<Longrightarrow> peer_map_ok (load_or_empty f)"
  by (cases f) (auto simp: peers_ok_def load_or_empty_def peers_load_def peer_map_ok_def)

lemma peers_ok_get: "peers_ok f \<Longrightarrow> peers_get f pk = hm_get (load_or_empty f) pk"
  by (cases f) (auto simp: peers_ok_def load_or_empty_def peers_load_def peers_get_def)

lemma peers_save_ok: "peers_ok f \<Longrightarrow> peer_map_ok m \<Longrightarrow> peers_ok (snd (peers_save wr m f))"
  by (simp add: peers_save_def peers_ok_def split: option.splits)

lemma tunnel_pool_iff: "ip \<in> set tunnel_pool \<longleftrightarrow> (\<exists>i. 2 \<le> i \<and> i < 254 \<and> ip = tunnel_ip i)"
proof -
  have "set tunnel_pool = tunnel_ip ` {2..<254}"
    unfolding tunnel_pool_def by (simp only: set_map set_upt)
  then show ?thesis by (auto simp del: atLeastLessThan_iff) (auto simp: image_iff Bex_def)
qed

lemma next_tunnel_ip_Some:
  assumes "next_tunnel_ip f = Some ip"
  shows "ip \<in> set tunnel_pool \<and> ip \<notin> set (map pr_tunnel_ip (hm_values (load_or_empty f)))"
  using assms unfolding next_tunnel_ip_def Let_def find_Some_iff by auto

lemma next_tunnel_ip_None:
  "next_tunnel_ip f = None \<longleftrightarrow> set tunnel_pool \<subseteq> set (map pr_tunnel_ip (hm_values (load_or_empty f)))"
  unfolding next_tunnel_ip_def Let_def find_None_iff by auto

lemma peer_map_ok_put:
  assumes "peer_map_ok m"
    and fresh: "pr_tunnel_ip p \<notin> set (map pr_tunnel_ip (hm_values m))"
  shows "peer_map_ok (hm_put (pr_public_key p) p m)"
proof -
  have ok: "hm_ok m" using assms(1) by (simp add: peer_map_ok_def)
  have other: "pr_tunnel_ip p' \<noteq> pr_tunnel_ip p" if "hm_get m k = Some p'" for k p'
  proof -
    have "p' \<in> set (hm_values m)" using that hm_values_iff [OF ok, of p'] by blast
    with fresh show ?thesis by (metis image_eqI set_map)
  qed
  show ?thesis
    using assms(1) other other [symmetric] unfolding peer_map_ok_def by (auto split: if_splits)
qed

lemma peer_map_ok_del: "peer_map_ok m \<Longrightarrow> peer_map_ok (hm_del k m)"
  unfolding peer_map_ok_def by (auto split: if_splits)

lemma peers_remove_ok: "peers_ok f \<Longrightarrow> peers_ok (snd (peers_remove wr pk f))"
  using peers_save_ok [OF _ peer_map_ok_del [OF peers_ok_map], of f f wr pk]
  by (auto simp: peers_remove_def Let_def split: prod.splits sum.splits)

lemma peers_upsert_ok:
  assumes "peers_ok f" and "pr_tunnel_ip p \<notin> set (map pr_tunnel_ip (hm_values (load_or_empty f)))"
  shows "peers_ok (snd (peers_upsert wr p f))"
  unfolding peers_upsert_def
  by (rule peers_save_ok [OF assms(1) peer_map_ok_put [OF peers_ok_map [OF assms(1)] assms(2)]])

end
