(* ===== verification/Tunnel_Backend.thy ===== *)
theory Tunnel_Backend
  imports Prelude
begin

text \<open>
  The backend interface of the tunnel manager (\<open>wylde-vpn/src/tunnel/backend.rs\<close>) as a locale,
  with the code's two implementations as interpretations: \<open>RealBackend\<close> over the data plane
  (\<open>datapath.rs\<close>, whose start is an argument: it loads a driver and opens sockets) and
  \<open>StubBackend\<close>, which logs its calls. Session ids are unbounded here (a \<open>u64\<close> that counts
  starts).
\<close>

record tunnel_params =
  tp_iface_name :: string
  tp_static_private :: "byte list"
  tp_peer_public_key :: "byte list"
  tp_endpoint :: string
  tp_tunnel_addr :: string
  tp_allowed_ips :: "string list"
  tp_keepalive_secs :: "nat option"

text \<open>\<open>sh_inner\<close>: the handle carries a running tunnel of the data plane.\<close>

record session_handle =
  sh_id :: nat
  sh_inner :: bool

text \<open>
  What the manager relies on: a start that succeeds runs a session that was not running, a
  start that fails leaves the sessions as they were, and a stop ends exactly its session,
  whatever it returns. \<open>handle\<close> holds of the handles that \<open>start\<close> makes.
\<close>

locale tunnel_backend =
  fixes start :: "tunnel_params \<Rightarrow> 'b \<Rightarrow> (string, session_handle) rust_res \<times> 'b"
    and stop :: "session_handle \<Rightarrow> 'b \<Rightarrow> (string, unit) rust_res \<times> 'b"
    and running :: "'b \<Rightarrow> nat set"
    and inv :: "'b \<Rightarrow> bool"
    and handle :: "session_handle \<Rightarrow> bool"
  assumes start_inv: "inv b \<Longrightarrow> inv (snd (start p b))"
    and start_ok: "inv b \<Longrightarrow> start p b = (Inr h, b') \<Longrightarrow>
      handle h \<and> sh_id h \<notin> running b \<and> running b' = insert (sh_id h) (running b)"
    and start_err: "inv b \<Longrightarrow> start p b = (Inl e, b') \<Longrightarrow> running b' = running b"
    and stop_inv: "inv b \<Longrightarrow> handle h \<Longrightarrow> sh_id h \<in> running b \<Longrightarrow> inv (snd (stop h b))"
    and stop_running: "inv b \<Longrightarrow> handle h \<Longrightarrow> sh_id h \<in> running b \<Longrightarrow>
      running (snd (stop h b)) = running b - {sh_id h}"

section \<open>The production backend\<close>

record real_backend =
  rb_next_id :: nat
  rb_running :: "nat list"

definition real_new :: real_backend where
  "real_new = \<lparr>rb_next_id = 1, rb_running = []\<rparr>"

text \<open>
  The id is drawn before the data plane starts. \<open>dp\<close> is \<open>datapath::start\<close>: the error it
  returns for these parameters, or none; the tunnel it returns lives until it is stopped.
\<close>

definition real_start ::
  "(tunnel_params \<Rightarrow> string option) \<Rightarrow> tunnel_params \<Rightarrow> real_backend
   \<Rightarrow> (string, session_handle) rust_res \<times> real_backend" where
  "real_start dp params b =
     (let v = rb_next_id b; b1 = b\<lparr>rb_next_id := v + 1\<rparr> in
      case dp params of
        Some e \<Rightarrow> (Inl e, b1)
      | None \<Rightarrow> (Inr \<lparr>sh_id = v, sh_inner = True\<rparr>, b1\<lparr>rb_running := v # rb_running b1\<rparr>))"

definition real_stop :: "session_handle \<Rightarrow> real_backend \<Rightarrow> (string, unit) rust_res \<times> real_backend" where
  "real_stop session b =
     (if sh_inner session then (Inr (), b\<lparr>rb_running := removeAll (sh_id session) (rb_running b)\<rparr>)
      else (Inr (), b))"

definition real_inv :: "real_backend \<Rightarrow> bool" where
  "real_inv b \<longleftrightarrow> (\<forall>i \<in> set (rb_running b). i < rb_next_id b)"

interpretation real_backend: tunnel_backend "real_start dp"
  real_stop "\<lambda>b. set (rb_running b)" real_inv sh_inner for dp
  by unfold_locales
    (auto simp: real_start_def real_stop_def real_inv_def Let_def split: option.splits if_splits)

section \<open>The recording backend\<close>

datatype backend_op =
    StartTunnel string string string
  | StopTunnel nat

record stub_backend =
  sb_ops :: "backend_op list"
  sb_fail_start :: "string option"
  sb_next_id :: nat

definition stub_new :: stub_backend where
  "stub_new = \<lparr>sb_ops = [], sb_fail_start = None, sb_next_id = 1\<rparr>"

definition arm_start_failure :: "string \<Rightarrow> stub_backend \<Rightarrow> stub_backend" where
  "arm_start_failure msg b = b\<lparr>sb_fail_start := Some msg\<rparr>"

definition stub_start :: "tunnel_params \<Rightarrow> stub_backend \<Rightarrow> (string, session_handle) rust_res \<times> stub_backend" where
  "stub_start params b =
     (case sb_fail_start b of
        Some msg \<Rightarrow> (Inl msg, b\<lparr>sb_fail_start := None\<rparr>)
      | None \<Rightarrow>
          (let v = sb_next_id b;
               op = StartTunnel (tp_iface_name params) (tp_endpoint params) (tp_tunnel_addr params)
           in (Inr \<lparr>sh_id = v, sh_inner = False\<rparr>,
               b\<lparr>sb_next_id := v + 1, sb_ops := sb_ops b @ [op]\<rparr>)))"

definition stub_stop :: "session_handle \<Rightarrow> stub_backend \<Rightarrow> (string, unit) rust_res \<times> stub_backend" where
  "stub_stop session b = (Inr (), b\<lparr>sb_ops := sb_ops b @ [StopTunnel (sh_id session)]\<rparr>)"

text \<open>The sessions a log leaves running: the ids are counted off by the starts.\<close>

fun log_running :: "nat \<Rightarrow> backend_op list \<Rightarrow> nat set" where
  "log_running n [] = {}"
| "log_running n (StartTunnel a b c # ops) =
     (if StopTunnel n \<in> set ops then {} else {n}) \<union> log_running (Suc n) ops"
| "log_running n (StopTunnel i # ops) = log_running n ops"

fun log_starts :: "backend_op list \<Rightarrow> nat" where
  "log_starts [] = 0"
| "log_starts (StartTunnel a b c # ops) = Suc (log_starts ops)"
| "log_starts (StopTunnel i # ops) = log_starts ops"

definition stub_inv :: "stub_backend \<Rightarrow> bool" where
  "stub_inv b \<longleftrightarrow> sb_next_id b = 1 + log_starts (sb_ops b)
     \<and> (\<forall>i. StopTunnel i \<in> set (sb_ops b) \<longrightarrow> i < sb_next_id b)"

lemma log_starts_append [simp]: "log_starts (a @ b) = log_starts a + log_starts b"
  by (induction a rule: log_starts.induct) auto

lemma log_running_start: 
  "(\<And>i. StopTunnel i \<in> set ops \<Longrightarrow> i < n + log_starts ops) \<Longrightarrow>
     log_running n (ops @ [StartTunnel a b c]) = insert (n + log_starts ops) (log_running n ops)"
proof (induction n ops rule: log_running.induct)
  case (2 n a b c ops)
  then show ?case by (auto simp: insert_commute)
qed auto

lemma log_running_stop: "log_running n (ops @ [StopTunnel i]) = log_running n ops - {i}"
  by (induction n ops rule: log_running.induct) auto

lemma log_running_bound: "i \<in> log_running n ops \<Longrightarrow> i < n + log_starts ops"
  by (induction n ops rule: log_running.induct) (auto split: if_splits)

interpretation stub_backend: tunnel_backend stub_start stub_stop
  "\<lambda>b. log_running 1 (sb_ops b)" stub_inv "\<lambda>_. True"
proof (unfold_locales, goal_cases)
  case (1 b p)
  then show ?case
    by (auto simp: stub_start_def stub_inv_def Let_def less_Suc_eq split: option.splits)
next
  case (2 b p h b')
  then show ?case
    using log_running_bound [of "sb_next_id b" 1 "sb_ops b"] log_running_start [of "sb_ops b" 1]
    by (auto simp: stub_start_def stub_inv_def Let_def split: option.splits)
next
  case (3 b p e b')
  then show ?case by (auto simp: stub_start_def Let_def split: option.splits)
next
  case (4 b h)
  then show ?case
    using log_running_bound [of "sh_id h" 1 "sb_ops b"] by (auto simp: stub_stop_def stub_inv_def)
next
  case (5 b h)
  then show ?case by (simp add: stub_stop_def log_running_stop)
qed

end
