(* ===== verification/Tunnel_Manager.thy ===== *)
theory Tunnel_Manager
  imports Tunnel_Backend
begin

text \<open>
  The tunnel manager (\<open>wylde-vpn/src/tunnel/state.rs\<close>): at most one outbound session (wg0)
  and one inbound session (wg1), brought up and torn down through a backend. The base64 and
  x25519 crates are the functions of \<open>key_lib\<close>; the clock and the data plane's counters are
  arguments.
\<close>

record key_lib =
  kl_decode :: "string \<Rightarrow> (string, byte list) rust_res"
  kl_encode :: "byte list \<Rightarrow> string"
  kl_public :: "byte list \<Rightarrow> byte list"

record link_config =
  lc_vpn_enabled :: bool
  lc_link_enabled :: bool
  lc_private_key :: string
  lc_tunnel_addr :: string
  lc_peer_subnet :: string
  lc_public_host :: string
  lc_listen_port :: nat
  lc_token_ttl :: nat
  lc_pair_rate_max :: nat
  lc_pair_rate_win :: nat
  lc_stun_servers :: "string list"

section \<open>Keys\<close>

definition decode_key :: "key_lib \<Rightarrow> string \<Rightarrow> (string, byte list option) rust_res" where
  "decode_key kl b64 =
     (let trimmed = trim b64 in
      if trimmed = [] then Inr None
      else case kl_decode kl trimmed of
             Inl e \<Rightarrow> Inl (''invalid base64 key: '' @ e)
           | Inr bs \<Rightarrow>
               if length bs \<noteq> 32 then Inl (''expected 32-byte key, got '' @ nat_str (length bs))
               else Inr (Some bs))"

definition public_from_private :: "key_lib \<Rightarrow> string \<Rightarrow> string option" where
  "public_from_private kl b64 =
     (case decode_key kl b64 of
        Inr (Some bs) \<Rightarrow> Some (kl_encode kl (kl_public kl bs))
      | _ \<Rightarrow> None)"

section \<open>The manager's state\<close>

record active_tunnel =
  at_session :: session_handle
  at_endpoint :: string
  at_public_key :: string
  at_peer_pubkey :: string
  at_tunnel_ip :: string
  at_connected_at :: nat

record manager_state =
  ms_vpn :: "active_tunnel option"
  ms_link :: "active_tunnel option"

definition manager_init :: manager_state where
  "manager_init = \<lparr>ms_vpn = None, ms_link = None\<rparr>"

record enable_request =
  en_endpoint :: string
  en_peer_pubkey :: string
  en_private_key :: string
  en_tunnel_addr :: string
  en_allowed_ips :: "string list"

datatype enable_outcome =
    EnableConnected (eo_endpoint: string) (eo_public_key: string) (eo_tunnel_ip: string)
  | EnableAlreadyConnected string

datatype disable_outcome = Disconnected | NotConnected

record link_connect_request =
  lk_peer_public_key :: string
  lk_endpoint :: string
  lk_tunnel_ip :: string

datatype link_connect_outcome =
    LinkConnected string string string
  | LinkAlreadyConnected string

section \<open>Operations\<close>

text \<open>
  \<open>start\<close> and \<open>stop\<close> are the backend's operations on its state; \<open>fresh_key\<close> is the key drawn
  when the request has none. Each operation runs under the manager's lock.
\<close>

definition enable_vpn ::
  "(tunnel_params \<Rightarrow> 'b \<Rightarrow> (string, session_handle) rust_res \<times> 'b) \<Rightarrow> key_lib \<Rightarrow> byte list \<Rightarrow> nat
   \<Rightarrow> enable_request \<Rightarrow> manager_state \<Rightarrow> 'b \<Rightarrow> (string, enable_outcome) rust_res \<times> manager_state \<times> 'b" where
  "enable_vpn start kl fresh_key now req ms b =
     (case ms_vpn ms of
        Some active \<Rightarrow> (Inr (EnableAlreadyConnected (at_endpoint active)), ms, b)
      | None \<Rightarrow>
          (case decode_key kl (en_private_key req) of
             Inl e \<Rightarrow> (Inl e, ms, b)
           | Inr given \<Rightarrow>
               let private_key = unwrap_or fresh_key given in
               case decode_key kl (en_peer_pubkey req) of
                 Inl e \<Rightarrow> (Inl e, ms, b)
               | Inr None \<Rightarrow> (Inl ''endpoint and peer_pubkey are required'', ms, b)
               | Inr (Some peer_public) \<Rightarrow>
                   if trim (en_endpoint req) = [] then (Inl ''endpoint and peer_pubkey are required'', ms, b)
                   else
                     let pub_b64 = kl_encode kl (kl_public kl private_key);
                         params = \<lparr>tp_iface_name = ''wg0'', tp_static_private = private_key,
                           tp_peer_public_key = peer_public, tp_endpoint = en_endpoint req,
                           tp_tunnel_addr = en_tunnel_addr req, tp_allowed_ips = en_allowed_ips req,
                           tp_keepalive_secs = Some 25\<rparr>
                     in case start params b of
                          (Inl e, b') \<Rightarrow> (Inl (''start_tunnel failed: '' @ e), ms, b')
                        | (Inr session, b') \<Rightarrow>
                            let tunnel_ip = before_char CHR ''/'' (en_tunnel_addr req);
                                active = \<lparr>at_session = session, at_endpoint = en_endpoint req,
                                  at_public_key = pub_b64, at_peer_pubkey = en_peer_pubkey req,
                                  at_tunnel_ip = tunnel_ip, at_connected_at = now\<rparr>
                            in (Inr (EnableConnected (en_endpoint req) pub_b64 tunnel_ip),
                                ms\<lparr>ms_vpn := Some active\<rparr>, b')))"

text \<open>The result of the backend's stop is ignored.\<close>

definition disable_vpn ::
  "(session_handle \<Rightarrow> 'b \<Rightarrow> (string, unit) rust_res \<times> 'b) \<Rightarrow> manager_state \<Rightarrow> 'b
   \<Rightarrow> (string, disable_outcome) rust_res \<times> manager_state \<times> 'b" where
  "disable_vpn stop ms b =
     (case ms_vpn ms of
        None \<Rightarrow> (Inr NotConnected, ms, b)
      | Some active \<Rightarrow> (Inr Disconnected, ms\<lparr>ms_vpn := None\<rparr>, snd (stop (at_session active) b)))"

definition connect_link ::
  "(tunnel_params \<Rightarrow> 'b \<Rightarrow> (string, session_handle) rust_res \<times> 'b) \<Rightarrow> key_lib \<Rightarrow> link_config \<Rightarrow> nat
   \<Rightarrow> link_connect_request \<Rightarrow> manager_state \<Rightarrow> 'b
   \<Rightarrow> (string, link_connect_outcome) rust_res \<times> manager_state \<times> 'b" where
  "connect_link start kl cfg now req ms b =
     (case ms_link ms of
        Some _ \<Rightarrow> (Inr (LinkAlreadyConnected (lk_tunnel_ip req)), ms, b)
      | None \<Rightarrow>
          (case decode_key kl (lc_private_key cfg) of
             Inl e \<Rightarrow> (Inl e, ms, b)
           | Inr None \<Rightarrow> (Inl ''link_private_key not configured (run vpn.keygen first)'', ms, b)
           | Inr (Some private_key) \<Rightarrow>
               case decode_key kl (lk_peer_public_key req) of
                 Inl e \<Rightarrow> (Inl e, ms, b)
               | Inr None \<Rightarrow> (Inl ''peer_public_key required'', ms, b)
               | Inr (Some peer_public) \<Rightarrow>
                   if trim (lk_endpoint req) = [] then (Inl ''endpoint required'', ms, b)
                   else
                     let params = \<lparr>tp_iface_name = ''wg1'', tp_static_private = private_key,
                           tp_peer_public_key = peer_public, tp_endpoint = lk_endpoint req,
                           tp_tunnel_addr = lc_tunnel_addr cfg,
                           tp_allowed_ips = [lk_tunnel_ip req @ ''/32''],
                           tp_keepalive_secs = Some 25\<rparr>
                     in case start params b of
                          (Inl e, b') \<Rightarrow> (Inl (''start_tunnel failed: '' @ e), ms, b')
                        | (Inr session, b') \<Rightarrow>
                            let pub_b64 = kl_encode kl (kl_public kl private_key);
                                active = \<lparr>at_session = session, at_endpoint = lk_endpoint req,
                                  at_public_key = pub_b64, at_peer_pubkey = lk_peer_public_key req,
                                  at_tunnel_ip = lk_tunnel_ip req, at_connected_at = now\<rparr>
                            in (Inr (LinkConnected (lk_endpoint req) (lk_tunnel_ip req)
                                  (unwrap_or [] (public_from_private kl (lc_private_key cfg)))),
                                ms\<lparr>ms_link := Some active\<rparr>, b')))"

definition shutdown_all ::
  "(session_handle \<Rightarrow> 'b \<Rightarrow> (string, unit) rust_res \<times> 'b) \<Rightarrow> manager_state \<Rightarrow> 'b \<Rightarrow> manager_state \<times> 'b" where
  "shutdown_all stop ms b =
     (case disable_vpn stop ms b of (_, ms1, b1) \<Rightarrow>
        (case ms_link ms1 of
           None \<Rightarrow> (ms1, b1)
         | Some active \<Rightarrow> (ms1\<lparr>ms_link := None\<rparr>, snd (stop (at_session active) b1))))"

section \<open>Snapshots\<close>

record tunnel_stats =
  ts_tx_bytes :: nat
  ts_rx_bytes :: nat
  ts_uptime_s :: real
  ts_last_rx_age_s :: "real option"

text \<open>A stats handle exists when the session carries a running tunnel.\<close>

definition session_stats :: "(nat \<Rightarrow> tunnel_stats) \<Rightarrow> session_handle \<Rightarrow> tunnel_stats option" where
  "session_stats snapshot h = (if sh_inner h then Some (snapshot (sh_id h)) else None)"

record vpn_runtime =
  vr_enabled :: bool
  vr_connected :: bool
  vr_connected_at :: "nat option"
  vr_endpoint :: "string option"
  vr_tunnel_ip :: "string option"
  vr_public_key :: "string option"
  vr_error :: "string option"
  vr_stats :: "tunnel_stats option"

definition vpn_runtime_of :: "(nat \<Rightarrow> tunnel_stats) \<Rightarrow> link_config \<Rightarrow> manager_state \<Rightarrow> vpn_runtime" where
  "vpn_runtime_of snapshot cfg ms =
     (case ms_vpn ms of
        None \<Rightarrow> \<lparr>vr_enabled = lc_vpn_enabled cfg, vr_connected = False, vr_connected_at = None,
                 vr_endpoint = None, vr_tunnel_ip = None, vr_public_key = None, vr_error = None, vr_stats = None\<rparr>
      | Some a \<Rightarrow> \<lparr>vr_enabled = True, vr_connected = True, vr_connected_at = Some (at_connected_at a),
                 vr_endpoint = Some (at_endpoint a), vr_tunnel_ip = Some (at_tunnel_ip a),
                 vr_public_key = Some (at_public_key a), vr_error = None,
                 vr_stats = session_stats snapshot (at_session a)\<rparr>)"

record link_runtime =
  lr_enabled :: bool
  lr_interface_up :: bool
  lr_listen_port :: nat
  lr_server_pubkey :: "string option"
  lr_stats :: "tunnel_stats option"

definition link_runtime_of ::
  "(nat \<Rightarrow> tunnel_stats) \<Rightarrow> key_lib \<Rightarrow> link_config \<Rightarrow> manager_state \<Rightarrow> link_runtime" where
  "link_runtime_of snapshot kl cfg ms =
     (let server_pubkey = public_from_private kl (lc_private_key cfg) in
      case ms_link ms of
        None \<Rightarrow> \<lparr>lr_enabled = lc_link_enabled cfg, lr_interface_up = False, lr_listen_port = lc_listen_port cfg,
                 lr_server_pubkey = server_pubkey, lr_stats = None\<rparr>
      | Some a \<Rightarrow> \<lparr>lr_enabled = True, lr_interface_up = True, lr_listen_port = lc_listen_port cfg,
                 lr_server_pubkey = server_pubkey, lr_stats = session_stats snapshot (at_session a)\<rparr>)"

definition link_active_handshake ::
  "(nat \<Rightarrow> tunnel_stats) \<Rightarrow> manager_state \<Rightarrow> (string \<times> real option) option" where
  "link_active_handshake snapshot ms =
     (case ms_link ms of
        None \<Rightarrow> None
      | Some a \<Rightarrow> Some (at_peer_pubkey a,
          case session_stats snapshot (at_session a) of None \<Rightarrow> None | Some s \<Rightarrow> ts_last_rx_age_s s))"

section \<open>Sequences of operations\<close>

datatype manager_op =
    OpEnable "byte list" nat enable_request
  | OpDisable
  | OpConnect nat link_connect_request
  | OpShutdown

fun manager_step ::
  "(tunnel_params \<Rightarrow> 'b \<Rightarrow> (string, session_handle) rust_res \<times> 'b)
   \<Rightarrow> (session_handle \<Rightarrow> 'b \<Rightarrow> (string, unit) rust_res \<times> 'b) \<Rightarrow> key_lib \<Rightarrow> link_config
   \<Rightarrow> manager_op \<Rightarrow> manager_state \<times> 'b \<Rightarrow> manager_state \<times> 'b" where
  "manager_step start stop kl cfg (OpEnable key now req) (ms, b) = snd (enable_vpn start kl key now req ms b)"
| "manager_step start stop kl cfg OpDisable (ms, b) = snd (disable_vpn stop ms b)"
| "manager_step start stop kl cfg (OpConnect now req) (ms, b) = snd (connect_link start kl cfg now req ms b)"
| "manager_step start stop kl cfg OpShutdown (ms, b) = shutdown_all stop ms b"

definition manager_run where
  "manager_run start stop kl cfg ops s = foldl (\<lambda>s op. manager_step start stop kl cfg op s) s ops"

text \<open>The sessions the manager holds.\<close>

definition held :: "manager_state \<Rightarrow> nat set" where
  "held ms = (sh_id \<circ> at_session) ` (set_option (ms_vpn ms) \<union> set_option (ms_link ms))"

context tunnel_backend
begin

definition held_ok :: "manager_state \<times> 'b \<Rightarrow> bool" where
  "held_ok s \<longleftrightarrow> inv (snd s) \<and> running (snd s) = held (fst s)
     \<and> (\<forall>a \<in> set_option (ms_vpn (fst s)) \<union> set_option (ms_link (fst s)). handle (at_session a))
     \<and> (\<forall>a l. ms_vpn (fst s) = Some a \<longrightarrow> ms_link (fst s) = Some l \<longrightarrow> sh_id (at_session a) \<noteq> sh_id (at_session l))"

lemma held_ok_start:
  assumes "held_ok (ms, b)" and "start p b = (Inr h, b')"
  shows "ms_vpn ms = None \<Longrightarrow> at_session a = h \<Longrightarrow> held_ok (ms\<lparr>ms_vpn := Some a\<rparr>, b')"
    and "ms_link ms = None \<Longrightarrow> at_session a = h \<Longrightarrow> held_ok (ms\<lparr>ms_link := Some a\<rparr>, b')"
  using assms start_ok [OF _ assms(2)] start_inv [of b p] by (auto simp: held_ok_def held_def)

lemma held_ok_refused: "held_ok (ms, b) \<Longrightarrow> start p b = (Inl e, b') \<Longrightarrow> held_ok (ms, b')"
  using start_err [of b p e b'] start_inv [of b p] by (simp add: held_ok_def)

lemma held_ok_stop:
  assumes "held_ok (ms, b)"
  shows "ms_vpn ms = Some a \<Longrightarrow> held_ok (ms\<lparr>ms_vpn := None\<rparr>, snd (stop (at_session a) b))"
    and "ms_link ms = Some a \<Longrightarrow> held_ok (ms\<lparr>ms_link := None\<rparr>, snd (stop (at_session a) b))"
  using assms stop_inv [of b "at_session a"] stop_running [of b "at_session a"]
  by (auto simp: held_ok_def held_def split: option.splits)

lemma held_ok_enable: "held_ok (ms, b) \<Longrightarrow> held_ok (snd (enable_vpn start kl key now req ms b))"
  by (auto simp: enable_vpn_def Let_def held_ok_refused held_ok_start(1) split: option.splits sum.splits prod.splits)

lemma held_ok_connect: "held_ok (ms, b) \<Longrightarrow> held_ok (snd (connect_link start kl cfg now req ms b))"
  by (auto simp: connect_link_def Let_def held_ok_refused held_ok_start(2) split: option.splits sum.splits prod.splits)

lemma held_ok_disable: "held_ok (ms, b) \<Longrightarrow> held_ok (snd (disable_vpn stop ms b))"
  by (auto simp: disable_vpn_def held_ok_stop(1) split: option.splits)

lemma held_ok_shutdown: "held_ok (ms, b) \<Longrightarrow> held_ok (shutdown_all stop ms b)"
proof -
  assume *: "held_ok (ms, b)"
  obtain r ms1 b1 where d: "disable_vpn stop ms b = (r, ms1, b1)" by (cases "disable_vpn stop ms b")
  then have "held_ok (ms1, b1)" using held_ok_disable [OF *] by simp
  then show ?thesis by (auto simp: shutdown_all_def d held_ok_stop(2) split: option.splits)
qed

lemma shutdown_empty: "fst (shutdown_all stop ms b) = manager_init"
  by (auto simp: shutdown_all_def disable_vpn_def manager_init_def split: option.splits)

lemma held_ok_step: "held_ok s \<Longrightarrow> held_ok (manager_step start stop kl cfg op s)"
  by (cases s; cases op) (auto simp: held_ok_enable held_ok_connect held_ok_disable held_ok_shutdown)

lemma held_ok_run: "held_ok s \<Longrightarrow> held_ok (manager_run start stop kl cfg ops s)"
  unfolding manager_run_def by (induction ops arbitrary: s) (auto simp: held_ok_step)

text \<open>No session outlives the manager's record of it, and a shutdown leaves none.\<close>

lemma no_leak:
  assumes "inv b0" and "running b0 = {}" and "manager_run start stop kl cfg ops (manager_init, b0) = (ms, b)"
  shows "running b = held ms \<and> running (snd (shutdown_all stop ms b)) = {}"
proof -
  have "held_ok (manager_init, b0)" using assms by (simp add: held_ok_def held_def manager_init_def)
  from held_ok_run [OF this, of kl cfg ops] have ok: "held_ok (ms, b)" by (simp add: assms(3))
  have "held_ok (shutdown_all stop ms b)" by (rule held_ok_shutdown [OF ok])
  then show ?thesis using ok shutdown_empty [of ms b] by (simp add: held_ok_def held_def manager_init_def)
qed

end

section \<open>The properties\<close>

text \<open>C21: After any sequence of \<open>vpn.enable\<close>, \<open>vpn.disable\<close>, \<open>link.connect\<close> and shutdown
  calls, whatever the data plane refuses and whatever keys the requests carry, the tunnels
  that run are exactly those the manager holds: at most one wg0 and one wg1, no tunnel is
  orphaned by a failed start or a repeated enable, and a shutdown leaves none running.\<close>

theorem tunnels_never_leak:
  "case manager_run (real_start dp) real_stop kl cfg ops (manager_init, real_new) of
     (ms, b) \<Rightarrow> set (rb_running b) = held ms \<and> card (set (rb_running b)) \<le> 2
       \<and> (case shutdown_all real_stop ms b of (ms', b') \<Rightarrow> ms' = manager_init \<and> rb_running b' = [])"
proof -
  obtain ms b where r: "manager_run (real_start dp) real_stop kl cfg ops (manager_init, real_new) = (ms, b)"
    by (cases "manager_run (real_start dp) real_stop kl cfg ops (manager_init, real_new)")
  have "real_inv real_new" "set (rb_running real_new) = {}" by (simp_all add: real_inv_def real_new_def)
  from real_backend.no_leak [OF this r]
  have "set (rb_running b) = held ms" "rb_running (snd (shutdown_all real_stop ms b)) = []" by auto
  moreover have "card (held ms) \<le> 2"
    unfolding held_def by (cases "ms_vpn ms"; cases "ms_link ms") (auto simp: card_insert_if)
  ultimately show ?thesis
    using real_backend.shutdown_empty [of ms b] by (cases "shutdown_all real_stop ms b") (auto simp: r)
qed

text \<open>\<open>link.connect\<close> answers for the peer it was asked for, not for the peer that is
  connected: once the wg1 tunnel to one peer is up, a connect for any other peer is answered
  \<open>already_connected\<close> with that other peer's address, although nothing was started and the
  handshake monitor still names the first peer.\<close>

theorem second_peer_told_connected:
  assumes "connect_link start kl cfg now req ms b = (Inr (LinkConnected ep ip pk), ms1, b1)"
    and "lk_peer_public_key other \<noteq> lk_peer_public_key req"
  shows "connect_link start kl cfg now' other ms1 b1 = (Inr (LinkAlreadyConnected (lk_tunnel_ip other)), ms1, b1)
    \<and> map_option fst (link_active_handshake snapshot ms1) = Some (lk_peer_public_key req)
    \<and> map_option fst (link_active_handshake snapshot ms1) \<noteq> Some (lk_peer_public_key other)"
proof -
  have "\<exists>a. ms_link ms1 = Some a \<and> at_peer_pubkey a = lk_peer_public_key req"
    using assms(1) by (auto simp: connect_link_def Let_def split: option.splits sum.splits prod.splits if_splits)
  then show ?thesis using assms(2) by (auto simp: connect_link_def link_active_handshake_def)
qed

definition sample_keys :: key_lib where
  "sample_keys = \<lparr>kl_decode = (\<lambda>s. Inr (replicate 32 1)), kl_encode = (\<lambda>b. ''pub''), kl_public = (\<lambda>k. k)\<rparr>"

definition sample_config :: link_config where
  "sample_config = \<lparr>lc_vpn_enabled = False, lc_link_enabled = True, lc_private_key = ''k'',
     lc_tunnel_addr = ''192.0.2.1/24'', lc_peer_subnet = ''192.0.2.0/24'', lc_public_host = [],
     lc_listen_port = 51821, lc_token_ttl = 300, lc_pair_rate_max = 2, lc_pair_rate_win = 60,
     lc_stun_servers = []\<rparr>"

lemma trim_sample: "trim ''k'' = ''k''" "trim ''A'' = ''A''" "trim ''1.2.3.4:1'' = ''1.2.3.4:1''"
  by code_simp+

lemma second_peer_told_connected_witness:
  "connect_link stub_start sample_keys sample_config 0
      \<lparr>lk_peer_public_key = ''B'', lk_endpoint = [], lk_tunnel_ip = ''192.0.2.9''\<rparr>
      (fst (snd (connect_link stub_start sample_keys sample_config 0
        \<lparr>lk_peer_public_key = ''A'', lk_endpoint = ''1.2.3.4:1'', lk_tunnel_ip = ''192.0.2.2''\<rparr> manager_init stub_new)))
      (snd (snd (connect_link stub_start sample_keys sample_config 0
        \<lparr>lk_peer_public_key = ''A'', lk_endpoint = ''1.2.3.4:1'', lk_tunnel_ip = ''192.0.2.2''\<rparr> manager_init stub_new)))
   = (Inr (LinkAlreadyConnected ''192.0.2.9''),
      snd (connect_link stub_start sample_keys sample_config 0
        \<lparr>lk_peer_public_key = ''A'', lk_endpoint = ''1.2.3.4:1'', lk_tunnel_ip = ''192.0.2.2''\<rparr> manager_init stub_new))"
proof -
  let ?A = "\<lparr>lk_peer_public_key = ''A'', lk_endpoint = ''1.2.3.4:1'', lk_tunnel_ip = ''192.0.2.2''\<rparr>"
  let ?B = "\<lparr>lk_peer_public_key = ''B'', lk_endpoint = [], lk_tunnel_ip = ''192.0.2.9''\<rparr>"
  let ?r = "connect_link stub_start sample_keys sample_config 0 ?A manager_init stub_new"
  have "fst ?r = Inr (LinkConnected ''1.2.3.4:1'' ''192.0.2.2'' ''pub'')"
    by (simp add: connect_link_def manager_init_def sample_config_def sample_keys_def decode_key_def
        trim_sample public_from_private_def stub_start_def stub_new_def Let_def)
  then have c: "?r = (Inr (LinkConnected ''1.2.3.4:1'' ''192.0.2.2'' ''pub''), fst (snd ?r), snd (snd ?r))"
    by (simp add: prod_eq_iff)
  show ?thesis
    using second_peer_told_connected [OF c, of ?B 0] by simp
qed

end
