(* ===== verification/Link_Pairing.thy ===== *)
theory Link_Pairing
  imports Admission_Window Link_Peers Tunnel_Manager
begin

text \<open>
  The WyldeLink pairing protocol (\<open>wylde-vpn/src/pairing.rs\<close>): single-use tokens with an
  expiry, a sliding-window limit on how many an address is issued, and the registration that
  consumes a token and writes the peer. Instants are nanoseconds of one monotonic clock; the
  token, the wall-clock stamps and the instants an operation reads are its arguments.
\<close>

type_synonym instant = nat

definition from_secs :: "nat \<Rightarrow> nat" where
  "from_secs s = s * 1000000000"

record pairing_entry =
  pe_label :: string
  pe_created_at :: string
  pe_expires_at :: instant
  pe_ip :: string
  pe_uri :: string

record pair_outcome =
  po_token :: string
  po_label :: string
  po_uri :: string
  po_expires_in_s :: nat
  po_endpoint :: string
  po_server_pubkey :: string
  po_stun_servers :: "string list"

datatype register_status = RegisterOk | AlreadyRegistered

record connection_params =
  cn_server_pubkey :: string
  cn_server_addr :: string
  cn_endpoint :: string
  cn_listen_port :: nat
  cn_peer_subnet :: string

record register_outcome =
  ro_status :: register_status
  ro_peer :: peer_record
  ro_connection :: connection_params

datatype pairing_error = RateLimited | InvalidOrExpired | PeerSpaceExhausted | BadPairing string

fun pairing_error_str :: "pairing_error \<Rightarrow> string" where
  "pairing_error_str RateLimited = ''too many pairing attempts, try again shortly''"
| "pairing_error_str InvalidOrExpired = ''invalid or expired pairing token''"
| "pairing_error_str PeerSpaceExhausted = ''peer address space exhausted''"
| "pairing_error_str (BadPairing s) = s"

type_synonym rate_buckets = "(string, instant list) hmap"

record pairing_table =
  pt_tokens :: "(string, pairing_entry) hmap"
  pt_rate_buckets :: rate_buckets

definition pairing_table_new :: pairing_table where
  "pairing_table_new = \<lparr>pt_tokens = [], pt_rate_buckets = []\<rparr>"

section \<open>Helpers\<close>

definition reap_expired :: "instant \<Rightarrow> pairing_table \<Rightarrow> pairing_table" where
  "reap_expired now t = t\<lparr>pt_tokens := hm_retain (\<lambda>_ e. now < pe_expires_at e) (pt_tokens t)\<rparr>"

text \<open>\<open>duration_since\<close> saturates at zero.\<close>

definition rate_ok :: "link_config \<Rightarrow> string \<Rightarrow> instant \<Rightarrow> rate_buckets \<Rightarrow> bool \<times> rate_buckets" where
  "rate_ok cfg ip now rb =
     (let window = from_secs (lc_pair_rate_win cfg);
          bucket = filter (\<lambda>ts. now - ts < window) (unwrap_or [] (hm_get rb ip))
      in if lc_pair_rate_max cfg \<le> length bucket then (False, hm_put ip bucket rb)
         else (True, hm_put ip (bucket @ [now]) rb))"

definition cached_endpoint :: "link_config \<Rightarrow> string" where
  "cached_endpoint cfg =
     (if lc_public_host cfg \<noteq> [] then lc_public_host cfg @ '':'' @ nat_str (lc_listen_port cfg)
      else ''<host>:'' @ nat_str (lc_listen_port cfg))"

definition connection_params_of :: "key_lib \<Rightarrow> link_config \<Rightarrow> connection_params" where
  "connection_params_of kl cfg =
     \<lparr>cn_server_pubkey = unwrap_or [] (public_from_private kl (lc_private_key cfg)),
      cn_server_addr = before_char CHR ''/'' (lc_tunnel_addr cfg),
      cn_endpoint = cached_endpoint cfg, cn_listen_port = lc_listen_port cfg,
      cn_peer_subnet = lc_peer_subnet cfg\<rparr>"

definition short_label :: "string \<Rightarrow> string" where
  "short_label public_key = take_chars 16 public_key"

section \<open>Issuing a token\<close>

text \<open>
  One call of \<open>pair\<close>: what it is asked and what it reads on the way. \<open>pq_rate_at\<close>,
  \<open>pq_stamp_at\<close> and \<open>pq_reap_at\<close> are the instants of the rate check, of the expiry stamp and
  of the reaping.
\<close>

record pair_request =
  pq_label :: "string option"
  pq_remote_ip :: string
  pq_token :: string
  pq_created_at :: string
  pq_rate_at :: instant
  pq_stamp_at :: instant
  pq_reap_at :: instant

definition pair_token ::
  "key_lib \<Rightarrow> link_config \<Rightarrow> pair_request \<Rightarrow> pairing_table
   \<Rightarrow> (pairing_error, pair_outcome) rust_res \<times> pairing_table" where
  "pair_token kl cfg q t =
     (let (ok, t1) =
        (if pq_remote_ip q \<noteq> [] then
           (case rate_ok cfg (pq_remote_ip q) (pq_rate_at q) (pt_rate_buckets t) of
              (ok, rb) \<Rightarrow> (ok, t\<lparr>pt_rate_buckets := rb\<rparr>))
         else (True, t))
      in if \<not> ok then (Inl RateLimited, t1)
         else
           let label = unwrap_or ''unnamed'' (pq_label q);
               token = pq_token q;
               endpoint = cached_endpoint cfg;
               server_pubkey = unwrap_or [] (public_from_private kl (lc_private_key cfg));
               uri = ''wylde://link/pair?token='' @ token @ ''&endpoint='' @ endpoint
                 @ ''&server_pubkey='' @ server_pubkey @ ''&version=2'';
               entry = \<lparr>pe_label = label, pe_created_at = pq_created_at q,
                 pe_expires_at = pq_stamp_at q + from_secs (lc_token_ttl cfg),
                 pe_ip = pq_remote_ip q, pe_uri = uri\<rparr>;
               t2 = reap_expired (pq_reap_at q) t1
           in (Inr \<lparr>po_token = token, po_label = label, po_uri = uri, po_expires_in_s = lc_token_ttl cfg,
                 po_endpoint = endpoint, po_server_pubkey = server_pubkey,
                 po_stun_servers = lc_stun_servers cfg\<rparr>,
               t2\<lparr>pt_tokens := hm_put token entry (pt_tokens t2)\<rparr>))"

section \<open>Registering a peer\<close>

text \<open>
  \<open>register\<close> takes the table's lock once and the store's lock up to three times, one after
  the other; each phase is a definition of its own.
\<close>

record register_request =
  rr_token :: string
  rr_public_key :: string
  rr_label :: "string option"
  rr_allowed_services :: "string list"
  rr_now :: instant
  rr_registered_at :: string
  rr_write :: "string option"

definition register_consume ::
  "register_request \<Rightarrow> pairing_table \<Rightarrow> (pairing_error, pairing_entry) rust_res \<times> pairing_table" where
  "register_consume r t =
     (if trim (rr_public_key r) = [] then (Inl (BadPairing ''public_key required''), t)
      else if trim (rr_token r) = [] then (Inl (BadPairing ''pairing token required''), t)
      else
        let t1 = reap_expired (rr_now r) t in
        case hm_get (pt_tokens t1) (trim (rr_token r)) of
          Some e \<Rightarrow> (Inr e, t1\<lparr>pt_tokens := hm_del (trim (rr_token r)) (pt_tokens t1)\<rparr>)
        | None \<Rightarrow> (Inl InvalidOrExpired, t1))"

definition register_existing ::
  "key_lib \<Rightarrow> link_config \<Rightarrow> register_request \<Rightarrow> peers_file \<Rightarrow> register_outcome option" where
  "register_existing kl cfg r f =
     map_option (\<lambda>existing. \<lparr>ro_status = AlreadyRegistered, ro_peer = existing,
                   ro_connection = connection_params_of kl cfg\<rparr>)
       (peers_get f (trim (rr_public_key r)))"

definition register_alloc :: "peers_file \<Rightarrow> (pairing_error, string) rust_res" where
  "register_alloc f = (case next_tunnel_ip f of None \<Rightarrow> Inl PeerSpaceExhausted | Some ip \<Rightarrow> Inr ip)"

definition register_store ::
  "key_lib \<Rightarrow> link_config \<Rightarrow> register_request \<Rightarrow> string \<Rightarrow> peers_file
   \<Rightarrow> (pairing_error, register_outcome) rust_res \<times> peers_file" where
  "register_store kl cfg r ip f =
     (let public_key = trim (rr_public_key r);
          peer = \<lparr>pr_public_key = public_key,
            pr_label = unwrap_or (short_label public_key) (rr_label r), pr_tunnel_ip = ip,
            pr_registered_at = rr_registered_at r, pr_last_seen = None,
            pr_allowed_services = rr_allowed_services r, pr_extra = []\<rparr>
      in case peers_upsert (rr_write r) peer f of
           (Inl e, f') \<Rightarrow> (Inl (BadPairing (''peer store: '' @ e)), f')
         | (Inr _, f') \<Rightarrow> (Inr \<lparr>ro_status = RegisterOk, ro_peer = peer,
                              ro_connection = connection_params_of kl cfg\<rparr>, f'))"

definition register_peer ::
  "key_lib \<Rightarrow> link_config \<Rightarrow> register_request \<Rightarrow> pairing_table \<Rightarrow> peers_file
   \<Rightarrow> (pairing_error, register_outcome) rust_res \<times> pairing_table \<times> peers_file" where
  "register_peer kl cfg r t f =
     (case register_consume r t of
        (Inl e, t') \<Rightarrow> (Inl e, t', f)
      | (Inr _, t') \<Rightarrow>
          (case register_existing kl cfg r f of
             Some out \<Rightarrow> (Inr out, t', f)
           | None \<Rightarrow>
               (case register_alloc f of
                  Inl e \<Rightarrow> (Inl e, t', f)
                | Inr ip \<Rightarrow> (case register_store kl cfg r ip f of (res, f') \<Rightarrow> (res, t', f')))))"

definition lookup_uri :: "string \<Rightarrow> instant \<Rightarrow> pairing_table \<Rightarrow> string option \<times> pairing_table" where
  "lookup_uri token now t =
     (let t1 = reap_expired now t in (map_option pe_uri (hm_get (pt_tokens t1) token), t1))"

section \<open>The sliding window\<close>

text \<open>The issuances of an address that count at \<open>u\<close>.\<close>

definition window_used :: "link_config \<Rightarrow> rate_buckets \<Rightarrow> string \<Rightarrow> instant \<Rightarrow> nat" where
  "window_used cfg rb ip u =
     length (filter (\<lambda>ts. u - ts < from_secs (lc_pair_rate_win cfg)) (unwrap_or [] (hm_get rb ip)))"

definition in_pair_window :: "link_config \<Rightarrow> instant \<Rightarrow> instant \<Rightarrow> bool" where
  "in_pair_window cfg v u \<longleftrightarrow> u - v < from_secs (lc_pair_rate_win cfg)"

lemma window_used_other:
  "rate_ok cfg ip t rb = (b, rb') \<Longrightarrow> ip' \<noteq> ip \<Longrightarrow> window_used cfg rb' ip' u = window_used cfg rb ip' u"
  by (auto simp: rate_ok_def window_used_def Let_def split: if_splits)

lemma window_used_same:
  assumes "rate_ok cfg ip t rb = (b, rb')" and "t \<le> u"
  shows "window_used cfg rb' ip u = window_used cfg rb ip u + (if b \<and> in_pair_window cfg t u then 1 else 0)"
proof -
  let ?w = "from_secs (lc_pair_rate_win cfg)"
  have "filter (\<lambda>ts. u - ts < ?w) (filter (\<lambda>ts. t - ts < ?w) xs) = filter (\<lambda>ts. u - ts < ?w) xs" for xs
    using assms(2) by (induction xs) auto
  then show ?thesis
    using assms(1) by (auto simp: rate_ok_def window_used_def in_pair_window_def Let_def split: if_splits)
qed

interpretation pair_window: admission_window "rate_ok cfg" "window_used cfg" "in_pair_window cfg"
  "lc_pair_rate_max cfg" "\<lambda>_ _. True" for cfg
proof (unfold_locales, goal_cases)
  case (1 v t u)
  then show ?case by (simp add: in_pair_window_def)
next
  case (3 now s t k s')
  then show ?case by (auto simp: rate_ok_def window_used_def Let_def split: if_splits)
next
  case (4 now s t k b s' u k')
  then show ?case using window_used_same [of cfg k t s b s' u] window_used_other [of cfg k t s b s' k' u]
    by (cases "k' = k") auto
next
  case (5 now s t k s' u)
  then show ?case using window_used_same [of cfg k t s True s' u] by simp
qed simp

section \<open>Sequences of operations\<close>

datatype link_op =
    LinkPair pair_request
  | LinkRegister register_request
  | LinkLookup string instant
  | LinkRemove string "string option"

datatype link_event =
    Issued string
  | Consumed string
  | NoEvent

text \<open>The token an operation issued or used up, by the reply it got.\<close>

definition consumed_by :: "register_request \<Rightarrow> (pairing_error, pairing_entry) rust_res \<Rightarrow> link_event" where
  "consumed_by r res = (case res of Inr _ \<Rightarrow> Consumed (trim (rr_token r)) | Inl _ \<Rightarrow> NoEvent)"

fun link_step ::
  "key_lib \<Rightarrow> link_config \<Rightarrow> link_op \<Rightarrow> pairing_table \<times> peers_file \<Rightarrow> link_event \<times> pairing_table \<times> peers_file" where
  "link_step kl cfg (LinkPair q) (t, f) =
     (case pair_token kl cfg q t of
        (Inl _, t') \<Rightarrow> (NoEvent, t', f)
      | (Inr out, t') \<Rightarrow> (Issued (po_token out), t', f))"
| "link_step kl cfg (LinkRegister r) (t, f) =
     (consumed_by r (fst (register_consume r t)), snd (register_peer kl cfg r t f))"
| "link_step kl cfg (LinkLookup token now) (t, f) = (NoEvent, snd (lookup_uri token now t), f)"
| "link_step kl cfg (LinkRemove pk wr) (t, f) = (NoEvent, t, snd (peers_remove wr pk f))"

fun link_run ::
  "key_lib \<Rightarrow> link_config \<Rightarrow> link_op list \<Rightarrow> pairing_table \<times> peers_file
   \<Rightarrow> link_event list \<times> pairing_table \<times> peers_file" where
  "link_run kl cfg [] s = ([], s)"
| "link_run kl cfg (op # ops) s =
     (case link_step kl cfg op s of
        (ev, s1) \<Rightarrow> (case link_run kl cfg ops s1 of (evs, s2) \<Rightarrow> (ev # evs, s2)))"

text \<open>A table is well formed, and \<open>live\<close> is 1 when it holds the token.\<close>

definition table_ok :: "pairing_table \<Rightarrow> bool" where
  "table_ok t \<longleftrightarrow> hm_ok (pt_tokens t)"

definition live :: "string \<Rightarrow> pairing_table \<Rightarrow> nat" where
  "live T t = (if hm_get (pt_tokens t) T = None then 0 else 1)"

lemma reap_expired_table:
  assumes "table_ok t"
  shows "table_ok (reap_expired now t)" and "live T (reap_expired now t) \<le> live T t"
    and "hm_get (pt_tokens (reap_expired now t)) T = Some e \<longleftrightarrow>
      hm_get (pt_tokens t) T = Some e \<and> now < pe_expires_at e"
  using assms by (auto simp: table_ok_def reap_expired_def live_def hm_get_retain split: option.splits)

lemma pair_token_table:
  assumes "table_ok t" and "pair_token kl cfg q t = (res, t')"
  shows "table_ok t'"
    and "live T t' \<le> live T t + (case res of Inr out \<Rightarrow> if po_token out = T then 1 else 0 | Inl _ \<Rightarrow> 0)"
proof -
  define t1 where "t1 = (if pq_remote_ip q \<noteq> [] then t\<lparr>pt_rate_buckets :=
    snd (rate_ok cfg (pq_remote_ip q) (pq_rate_at q) (pt_rate_buckets t))\<rparr> else t)"
  have t1: "table_ok t1" "\<And>T. live T t1 = live T t" using assms(1) by (auto simp: t1_def table_ok_def live_def)
  have cases: "(\<exists>e. res = Inl e \<and> t' = t1) \<or> (\<exists>out e. res = Inr out \<and> po_token out = pq_token q
      \<and> t' = (reap_expired (pq_reap_at q) t1)\<lparr>pt_tokens := hm_put (pq_token q) e (pt_tokens (reap_expired (pq_reap_at q) t1))\<rparr>)"
    using assms(2) by (auto simp: pair_token_def t1_def Let_def split: prod.splits if_splits)
  note r = reap_expired_table [OF t1(1)]
  from cases t1 r(1) show "table_ok t'" by (auto simp: table_ok_def)
  show "live T t' \<le> live T t + (case res of Inr out \<Rightarrow> if po_token out = T then 1 else 0 | Inl _ \<Rightarrow> 0)"
    using cases t1(2) [of T] r(2) [of T "pq_reap_at q"] by (auto simp: live_def split: if_splits)
qed

lemma register_consume_table:
  assumes "table_ok t" and "register_consume r t = (res, t')"
  shows "table_ok t'"
    and "live T t' + (case res of Inr _ \<Rightarrow> if trim (rr_token r) = T then 1 else 0 | Inl _ \<Rightarrow> 0) \<le> live T t"
  using assms reap_expired_table [OF assms(1), where now = "rr_now r"]
  by (auto simp: register_consume_def table_ok_def live_def Let_def split: if_splits option.splits)

lemma register_peer_table: "fst (snd (register_peer kl cfg r t f)) = snd (register_consume r t)"
  by (simp add: register_peer_def split: prod.splits sum.splits option.splits)

definition count_ev :: "link_event \<Rightarrow> link_event list \<Rightarrow> nat" where
  "count_ev e evs = length (filter (\<lambda>x. x = e) evs)"

lemma link_step_live:
  assumes "table_ok t" and "link_step kl cfg op (t, f) = (ev, t', f')"
  shows "table_ok t' \<and> live T t' + (if ev = Consumed T then 1 else 0) \<le> live T t + (if ev = Issued T then 1 else 0)"
proof (cases op)
  case (LinkPair q)
  obtain res t1 where p: "pair_token kl cfg q t = (res, t1)" by (cases "pair_token kl cfg q t")
  from assms(2) pair_token_table(1) [OF assms(1) p] pair_token_table(2) [OF assms(1) p, of T] show ?thesis
    by (auto simp: LinkPair p split: sum.splits if_splits)
next
  case (LinkRegister r)
  obtain res t1 where c: "register_consume r t = (res, t1)" by (cases "register_consume r t")
  from assms(2) have "t' = t1" "ev = consumed_by r res"
    using register_peer_table [of kl cfg r t f] by (auto simp: LinkRegister c)
  with register_consume_table(1) [OF assms(1) c] register_consume_table(2) [OF assms(1) c, of T] show ?thesis
    by (auto simp: consumed_by_def split: sum.splits)
next
  case (LinkLookup token now)
  with assms reap_expired_table [OF assms(1), where now = now] show ?thesis by (auto simp: lookup_uri_def Let_def)
next
  case (LinkRemove pk wr)
  with assms show ?thesis by auto
qed

lemma link_run_live:
  assumes "table_ok t" and "link_run kl cfg ops (t, f) = (evs, t', f')"
  shows "live T t' + count_ev (Consumed T) evs \<le> live T t + count_ev (Issued T) evs"
  using assms
proof (induction ops arbitrary: t f evs)
  case Nil
  then show ?case by (simp add: count_ev_def)
next
  case (Cons op ops)
  obtain ev t1 f1 where s: "link_step kl cfg op (t, f) = (ev, t1, f1)" by (cases "link_step kl cfg op (t, f)") auto
  obtain evs1 where r: "link_run kl cfg ops (t1, f1) = (evs1, t', f')" and evs: "evs = ev # evs1"
    using Cons.prems(2) by (auto simp: s split: prod.splits)
  have "table_ok t1 \<and> live T t1 + (if ev = Consumed T then 1 else 0) \<le> live T t + (if ev = Issued T then 1 else 0)"
    by (rule link_step_live [OF Cons.prems(1) s])
  with Cons.IH [OF _ r] show ?case by (auto simp: evs count_ev_def split: if_splits)
qed

section \<open>The properties\<close>

text \<open>C7: A pairing token is single-use: over any sequence of issues, registrations, lookups
  and peer removals from an empty table, the registrations that get past the token check
  with a token number at most the times that token was issued.\<close>

theorem link_token_single_use:
  "case link_run kl cfg ops (pairing_table_new, f) of (evs, _) \<Rightarrow>
     count_ev (Consumed T) evs \<le> count_ev (Issued T) evs"
proof -
  obtain evs t' f' where r: "link_run kl cfg ops (pairing_table_new, f) = (evs, t', f')"
    by (cases "link_run kl cfg ops (pairing_table_new, f)") auto
  have "table_ok pairing_table_new" "live T pairing_table_new = 0"
    by (simp_all add: table_ok_def pairing_table_new_def live_def)
  with link_run_live [OF _ r, of T] show ?thesis by (simp add: r)
qed

text \<open>The rate limit is that of the whole operation: a call issues when the bucket admits it.\<close>

fun issue_run :: "key_lib \<Rightarrow> link_config \<Rightarrow> pair_request list \<Rightarrow> pairing_table \<Rightarrow> (string \<times> instant) list" where
  "issue_run kl cfg [] t = []"
| "issue_run kl cfg (q # qs) t =
     (case pair_token kl cfg q t of
        (res, t') \<Rightarrow> (case res of Inl _ \<Rightarrow> issue_run kl cfg qs t'
                      | Inr _ \<Rightarrow> (pq_remote_ip q, pq_rate_at q) # issue_run kl cfg qs t'))"

lemma pair_token_rate:
  assumes "pq_remote_ip q \<noteq> []" and "rate_ok cfg (pq_remote_ip q) (pq_rate_at q) (pt_rate_buckets t) = (ok, rb)"
  shows "\<exists>res t'. pair_token kl cfg q t = (res, t') \<and> pt_rate_buckets t' = rb \<and> (ok \<longleftrightarrow> (\<exists>out. res = Inr out))"
  using assms by (auto simp: pair_token_def reap_expired_def Let_def)

lemma issue_run_limiter:
  assumes "\<forall>q \<in> set qs. pq_remote_ip q \<noteq> []"
  shows "issue_run kl cfg qs t =
    fst (limiter_run (rate_ok cfg) (map (\<lambda>q. (pq_remote_ip q, pq_rate_at q)) qs) (pt_rate_buckets t))"
  using assms
proof (induction qs arbitrary: t)
  case (Cons q qs)
  obtain ok rb where r: "rate_ok cfg (pq_remote_ip q) (pq_rate_at q) (pt_rate_buckets t) = (ok, rb)"
    by (cases "rate_ok cfg (pq_remote_ip q) (pq_rate_at q) (pt_rate_buckets t)")
  from pair_token_rate [OF _ r, of kl] Cons.prems obtain res t' where
    p: "pair_token kl cfg q t = (res, t')" "pt_rate_buckets t' = rb" "ok \<longleftrightarrow> (\<exists>out. res = Inr out)" by auto
  show ?case
    using Cons.IH [of t'] Cons.prems p by (cases res) (auto simp: r split: prod.splits)
qed simp

text \<open>Over any sequence of \<open>link.pair\<close> calls of remote clients on a clock that does not
  run backwards, an address is issued at most \<open>LINK_PAIR_RATE_MAX\<close> tokens in any window of
  \<open>LINK_PAIR_RATE_WIN\<close> seconds, wherever the window ends.\<close>

theorem pair_rate_limit:
  assumes "\<forall>q \<in> set qs. pq_remote_ip q \<noteq> []" and "sorted (map pq_rate_at qs)"
  shows "length (filter (\<lambda>(ip', t). ip' = ip \<and> t \<le> u \<and> u - t < from_secs (lc_pair_rate_win cfg))
           (issue_run kl cfg qs pairing_table_new)) \<le> lc_pair_rate_max cfg"
proof -
  let ?xs = "map (\<lambda>q. (pq_remote_ip q, pq_rate_at q)) qs"
  have "sorted (map snd ?xs)" using assms(2) by (simp add: comp_def)
  from pair_window.window_bound [OF TrueI this, of 0 cfg _ ip u]
  show ?thesis
    by (simp add: issue_run_limiter [OF assms(1)] grants_in_def in_pair_window_def)
qed

text \<open>C23: Registering a peer, on a readable store: an unknown key gets an address of the pool
  that no stored peer has, is stored under its key and leaves every other peer as it was; a
  known key gets its stored record back and writes nothing; and either way keys and
  addresses stay unique.\<close>

theorem register_keeps_addresses_unique:
  assumes "peers_ok f" and "register_peer kl cfg r t f = (Inr out, t', f')"
  shows "peers_ok f' \<and> peers_get f' (trim (rr_public_key r)) = Some (ro_peer out)
    \<and> (\<forall>pk. pk \<noteq> trim (rr_public_key r) \<longrightarrow> peers_get f' pk = peers_get f pk)
    \<and> (case ro_status out of
         AlreadyRegistered \<Rightarrow> f' = f \<and> peers_get f (trim (rr_public_key r)) = Some (ro_peer out)
       | RegisterOk \<Rightarrow> peers_get f (trim (rr_public_key r)) = None
           \<and> pr_tunnel_ip (ro_peer out) \<in> set tunnel_pool
           \<and> pr_tunnel_ip (ro_peer out) \<notin> set (map pr_tunnel_ip (peers_list f)))"
proof -
  let ?pk = "trim (rr_public_key r)"
  note get = peers_ok_get [OF assms(1)]
  have "(\<exists>p. peers_get f ?pk = Some p \<and> ro_peer out = p \<and> ro_status out = AlreadyRegistered \<and> f' = f)
    \<or> (\<exists>ip. peers_get f ?pk = None \<and> next_tunnel_ip f = Some ip \<and> pr_tunnel_ip (ro_peer out) = ip
          \<and> pr_public_key (ro_peer out) = ?pk \<and> ro_status out = RegisterOk
          \<and> f' = PFPeers (hm_put ?pk (ro_peer out) (load_or_empty f))
          \<and> f' = snd (peers_upsert (rr_write r) (ro_peer out) f))"
    using assms(2)
    by (auto simp: register_peer_def register_existing_def register_alloc_def register_store_def
        peers_upsert_def peers_save_def Let_def split: prod.splits sum.splits option.splits)
  then show ?thesis
  proof (elim disjE exE conjE)
    fix ip
    assume new: "peers_get f ?pk = None" "next_tunnel_ip f = Some ip" "pr_tunnel_ip (ro_peer out) = ip"
      "pr_public_key (ro_peer out) = ?pk" "ro_status out = RegisterOk"
      and f': "f' = PFPeers (hm_put ?pk (ro_peer out) (load_or_empty f))"
      and up: "f' = snd (peers_upsert (rr_write r) (ro_peer out) f)"
    have ip: "ip \<in> set tunnel_pool \<and> ip \<notin> set (map pr_tunnel_ip (hm_values (load_or_empty f)))"
      by (rule next_tunnel_ip_Some [OF new(2)])
    then have "peers_ok f'" unfolding up by (intro peers_upsert_ok assms(1)) (simp add: new(3))
    with ip new get show ?thesis by (simp add: f' peers_get_def peers_load_def peers_list_def)
  qed (use assms(1) in simp)
qed

text \<open>A registration that the store refuses still uses its token up: with every address of
  the pool taken, or with the write failing, the client gets an error and the same token is
  invalid on the next try.\<close>

theorem failed_register_burns_token:
  assumes "peers_get f (trim (rr_public_key r)) = None"
    and "next_tunnel_ip f = None \<or> rr_write r \<noteq> None"
    and "table_ok t" and "trim (rr_public_key r) \<noteq> []" and "trim (rr_token r) \<noteq> []"
    and "hm_get (pt_tokens t) (trim (rr_token r)) = Some e" and "rr_now r < pe_expires_at e"
  shows "\<exists>err t'. register_peer kl cfg r t f = (Inl err, t', f) \<and> err \<noteq> InvalidOrExpired
    \<and> fst (register_peer kl cfg r t' f) = Inl InvalidOrExpired"
proof -
  let ?t1 = "reap_expired (rr_now r) t"
  define t' where "t' = ?t1\<lparr>pt_tokens := hm_del (trim (rr_token r)) (pt_tokens ?t1)\<rparr>"
  note r = reap_expired_table [OF assms(3), where now = "rr_now r"]
  have c: "register_consume r t = (Inr e, t')"
    using assms(4-7) r(3) [of "trim (rr_token r)" e] by (simp add: register_consume_def t'_def Let_def)
  have tab: "table_ok t'" "hm_get (pt_tokens t') (trim (rr_token r)) = None"
    using r(1) by (simp_all add: t'_def table_ok_def)
  have again: "fst (register_consume r t') = Inl InvalidOrExpired"
    using assms(4,5) tab by (auto simp: register_consume_def table_ok_def reap_expired_def Let_def
        hm_get_retain split: option.splits)
  have "register_existing kl cfg r f = None" using assms(1) by (simp add: register_existing_def)
  then have "\<exists>err. register_peer kl cfg r t f = (Inl err, t', f) \<and> err \<noteq> InvalidOrExpired"
    using assms(2) by (auto simp: register_peer_def c register_alloc_def register_store_def
        peers_upsert_def peers_save_def Let_def split: option.splits)
  moreover have "fst (register_peer kl cfg r t' f) = Inl InvalidOrExpired"
    using again by (cases "register_consume r t'") (simp add: register_peer_def)
  ultimately show ?thesis by blast
qed

lemma nat_str_2: "nat_str 2 = ''2''"
  by code_simp

text \<open>A registration rebuilds an unreadable store from nothing: it reports success, and
  the file then holds the new peer alone, whatever peers the unreadable text still had.\<close>

theorem unreadable_store_is_overwritten:
  assumes "register_consume r t = (Inr e, t')" and "rr_write r = None"
  shows "\<exists>out. register_peer kl cfg r t (PFUnreadable text) =
      (Inr out, t', PFPeers [(trim (rr_public_key r), ro_peer out)])
    \<and> ro_status out = RegisterOk \<and> pr_tunnel_ip (ro_peer out) = ''192.0.2.2''"
proof -
  have "next_tunnel_ip (PFUnreadable text) = Some ''192.0.2.2''"
    by (simp add: next_tunnel_ip_def load_or_empty_def peers_load_def hm_values_def
        tunnel_pool_def tunnel_ip_def upt_rec [of 2] nat_str_2)
  then show ?thesis
    using assms by (simp add: register_peer_def register_existing_def peers_get_def peers_load_def
        register_alloc_def register_store_def peers_upsert_def peers_save_def load_or_empty_def
        hm_put_def Let_def)
qed

text \<open>The address is chosen and stored under two separate locks: when two registrations of
  new keys both choose before either stores, both succeed with the same tunnel address.\<close>

theorem racing_registers_share_address:
  assumes "register_alloc f = Inr ip" and "register_store kl cfg r1 ip f = (Inr out1, f1)"
    and "rr_write r2 = None" and "trim (rr_public_key r1) \<noteq> trim (rr_public_key r2)"
  shows "\<exists>out2 f2. register_store kl cfg r2 ip f1 = (Inr out2, f2)
    \<and> peers_get f2 (trim (rr_public_key r1)) = Some (ro_peer out1)
    \<and> peers_get f2 (trim (rr_public_key r2)) = Some (ro_peer out2)
    \<and> pr_tunnel_ip (ro_peer out1) = pr_tunnel_ip (ro_peer out2)"
  using assms
  by (auto simp: register_store_def peers_upsert_def peers_save_def peers_get_def peers_load_def
      load_or_empty_def Let_def split: option.splits)

section \<open>Witnesses\<close>

definition ex_pair :: "instant \<Rightarrow> pair_request" where
  "ex_pair t = \<lparr>pq_label = None, pq_remote_ip = ''10.0.0.7'', pq_token = ''tok'', pq_created_at = [],
     pq_rate_at = t, pq_stamp_at = t, pq_reap_at = t\<rparr>"

definition ex_entry :: pairing_entry where
  "ex_entry = \<lparr>pe_label = [], pe_created_at = [], pe_expires_at = 10, pe_ip = [], pe_uri = []\<rparr>"

definition ex_table :: pairing_table where
  "ex_table = \<lparr>pt_tokens = [(''tok'', ex_entry)], pt_rate_buckets = []\<rparr>"

definition ex_register :: "string \<Rightarrow> string option \<Rightarrow> register_request" where
  "ex_register pk wr = \<lparr>rr_token = ''tok'', rr_public_key = pk, rr_label = None, rr_allowed_services = [],
     rr_now = 5, rr_registered_at = [], rr_write = wr\<rparr>"

lemma ex_link_trim: "trim ''tok'' = ''tok''" "trim ''A'' = ''A''" "trim ''B'' = ''B''"
  by code_simp+

lemma ex_consume: "pk = ''A'' \<or> pk = ''B'' \<Longrightarrow> register_consume (ex_register pk wr) ex_table = (Inr ex_entry, pairing_table_new)"
  by (auto simp: register_consume_def ex_register_def ex_link_trim ex_table_def ex_entry_def reap_expired_def
      hm_retain_def hm_get_def hm_del_def pairing_table_new_def Let_def)

lemma ex_register_sel: "rr_write (ex_register pk wr) = wr" "rr_public_key (ex_register pk wr) = pk"
  by (simp_all add: ex_register_def)

lemma ex_next_ip: "next_tunnel_ip PFMissing = Some ''192.0.2.2''"
  by (simp add: next_tunnel_ip_def load_or_empty_def peers_load_def hm_values_def
      tunnel_pool_def tunnel_ip_def upt_rec [of 2] nat_str_2)

lemma pair_rate_limit_witness:
  "length (filter (\<lambda>(ip', t). ip' = ''10.0.0.7'' \<and> t \<le> 3 \<and> 3 - t < from_secs (lc_pair_rate_win sample_config))
      (issue_run sample_keys sample_config [ex_pair 1, ex_pair 2, ex_pair 3] pairing_table_new))
    \<le> lc_pair_rate_max sample_config"
  by (rule pair_rate_limit) (simp_all add: ex_pair_def)

lemma register_keeps_addresses_unique_witness:
  "peers_ok (snd (snd (register_peer sample_keys sample_config (ex_register ''A'' None) ex_table PFMissing)))"
proof -
  let ?x = "register_peer sample_keys sample_config (ex_register ''A'' None) ex_table PFMissing"
  have "\<exists>out. fst ?x = Inr out"
    by (simp add: register_peer_def ex_consume register_existing_def peers_get_def peers_load_def
        register_alloc_def ex_next_ip register_store_def peers_upsert_def peers_save_def ex_register_sel Let_def)
  then obtain out where "?x = (Inr out, fst (snd ?x), snd (snd ?x))" by (cases ?x) auto
  moreover have "peers_ok PFMissing" by (simp add: peers_ok_def)
  ultimately show ?thesis using register_keeps_addresses_unique by blast
qed

lemma failed_register_burns_token_witness:
  "\<exists>err t'. register_peer sample_keys sample_config (ex_register ''A'' (Some ''disk full'')) ex_table PFMissing
      = (Inl err, t', PFMissing) \<and> err \<noteq> InvalidOrExpired
    \<and> fst (register_peer sample_keys sample_config (ex_register ''A'' (Some ''disk full'')) t' PFMissing) = Inl InvalidOrExpired"
  by (rule failed_register_burns_token [where e = ex_entry])
    (simp_all add: ex_register_def ex_link_trim ex_table_def ex_entry_def table_ok_def hm_ok_def hm_get_def
      peers_get_def peers_load_def)

lemma unreadable_store_is_overwritten_witness:
  "\<exists>out. register_peer sample_keys sample_config (ex_register ''A'' None) ex_table (PFUnreadable ''{'') =
      (Inr out, pairing_table_new, PFPeers [(trim (rr_public_key (ex_register ''A'' None)), ro_peer out)])
    \<and> ro_status out = RegisterOk \<and> pr_tunnel_ip (ro_peer out) = ''192.0.2.2''"
  by (rule unreadable_store_is_overwritten [OF ex_consume]) (simp_all add: ex_register_def)

lemma racing_registers_share_address_witness:
  "\<exists>out2 f2. register_store sample_keys sample_config (ex_register ''B'' None) ''192.0.2.2''
      (snd (register_store sample_keys sample_config (ex_register ''A'' None) ''192.0.2.2'' PFMissing)) = (Inr out2, f2)
    \<and> (\<exists>p. peers_get f2 ''A'' = Some p \<and> pr_tunnel_ip p = pr_tunnel_ip (ro_peer out2))"
proof -
  let ?s = "register_store sample_keys sample_config (ex_register ''A'' None) ''192.0.2.2'' PFMissing"
  have "\<exists>out. fst ?s = Inr out"
    by (simp add: register_store_def peers_upsert_def peers_save_def ex_register_def Let_def)
  then obtain out1 where s: "?s = (Inr out1, snd ?s)" by (cases ?s) auto
  have alloc: "register_alloc PFMissing = Inr ''192.0.2.2''" by (simp add: register_alloc_def ex_next_ip)
  show ?thesis
    using racing_registers_share_address [OF alloc s, of "ex_register ''B'' None"]
    by (auto simp: ex_register_def ex_link_trim)
qed

end
