(* ===== verification/Wire.thy ===== *)
theory Wire
  imports Prelude "HOL-Library.Monad_Syntax"
begin

unbundle bit_operations_syntax

text \<open>
  What the STUN and TURN codecs share: big-endian words, checked indexing and slicing, and
  the type-length-value attributes with padding to four bytes. An index or a range outside
  its slice panics in the code; the reads below give \<open>None\<close> for it.
\<close>

section \<open>Checked reads\<close>

definition byte_at :: "byte list \<Rightarrow> nat \<Rightarrow> byte option" where
  "byte_at xs i = (if i < length xs then Some (xs ! i) else None)"

definition slice_of :: "byte list \<Rightarrow> nat \<Rightarrow> nat \<Rightarrow> byte list option" where
  "slice_of xs a b = (if a \<le> b \<and> b \<le> length xs then Some (take (b - a) (drop a xs)) else None)"

definition from_be16 :: "byte \<Rightarrow> byte \<Rightarrow> 16 word" where
  "from_be16 a b = push_bit 8 (ucast a) OR ucast b"

definition from_be32 :: "byte \<Rightarrow> byte \<Rightarrow> byte \<Rightarrow> byte \<Rightarrow> 32 word" where
  "from_be32 a b c d = push_bit 24 (ucast a) OR push_bit 16 (ucast b) OR push_bit 8 (ucast c) OR ucast d"

definition be16_at :: "byte list \<Rightarrow> nat \<Rightarrow> (16 word) option" where
  "be16_at xs i = do { a \<leftarrow> byte_at xs i; b \<leftarrow> byte_at xs (i + 1); Some (from_be16 a b) }"

definition be32_at :: "byte list \<Rightarrow> nat \<Rightarrow> (32 word) option" where
  "be32_at xs i = do {
     a \<leftarrow> byte_at xs i; b \<leftarrow> byte_at xs (i + 1); c \<leftarrow> byte_at xs (i + 2); d \<leftarrow> byte_at xs (i + 3);
     Some (from_be32 a b c d) }"

section \<open>Writing\<close>

definition to_be16 :: "16 word \<Rightarrow> byte list" where
  "to_be16 w = [ucast (drop_bit 8 w), ucast w]"

definition to_be32 :: "32 word \<Rightarrow> byte list" where
  "to_be32 w = [ucast (drop_bit 24 w), ucast (drop_bit 16 w), ucast (drop_bit 8 w), ucast w]"

definition padding :: "nat \<Rightarrow> nat" where
  "padding n = (4 - n mod 4) mod 4"

text \<open>A length is cast to \<open>u16\<close>, which cuts it off.\<close>

definition len16 :: "nat \<Rightarrow> 16 word" where
  "len16 n = of_nat n"

definition attr_bytes :: "16 word \<Rightarrow> byte list \<Rightarrow> byte list" where
  "attr_bytes t v = to_be16 t @ to_be16 (len16 (length v)) @ v @ replicate (padding (length v)) 0"

text \<open>The dotted decimal form of an IPv4 address, from its bytes.\<close>

definition ipv4_str :: "byte \<Rightarrow> byte \<Rightarrow> byte \<Rightarrow> byte \<Rightarrow> string" where
  "ipv4_str a b c d = nat_str (unat a) @ ''.'' @ nat_str (unat b) @ ''.'' @ nat_str (unat c) @ ''.'' @ nat_str (unat d)"

definition ipv4_str_of :: "32 word \<Rightarrow> string" where
  "ipv4_str_of w = ipv4_str (ucast (drop_bit 24 w)) (ucast (drop_bit 16 w)) (ucast (drop_bit 8 w)) (ucast w)"

text \<open>\<open>str::parse::<u16>\<close>: an optional plus sign and digits, in range.\<close>

definition parse_u16 :: "string \<Rightarrow> (16 word) option" where
  "parse_u16 s =
     (let ds = (case s of c # cs \<Rightarrow> if c = CHR ''+'' then cs else s | [] \<Rightarrow> s);
          n = foldl (\<lambda>n c. 10 * n + (of_char c - 48)) (0 :: nat) ds
      in if ds \<noteq> [] \<and> list_all (\<lambda>c. 48 \<le> (of_char c :: nat) \<and> (of_char c :: nat) \<le> 57) ds \<and> n < 65536
         then Some (of_nat n) else None)"

section \<open>Facts\<close>

lemma byte_at_Some [simp]: "i < length xs \<Longrightarrow> byte_at xs i = Some (xs ! i)"
  by (simp add: byte_at_def)

lemma slice_of_Some [simp]: "a \<le> b \<Longrightarrow> b \<le> length xs \<Longrightarrow> slice_of xs a b = Some (take (b - a) (drop a xs))"
  by (simp add: slice_of_def)

lemma be16_at_Some: "i + 1 < length xs \<Longrightarrow> be16_at xs i = Some (from_be16 (xs ! i) (xs ! (i + 1)))"
  by (simp add: be16_at_def)

lemma be32_at_Some:
  "i + 3 < length xs \<Longrightarrow> be32_at xs i = Some (from_be32 (xs ! i) (xs ! (i + 1)) (xs ! (i + 2)) (xs ! (i + 3)))"
  by (simp add: be32_at_def)

lemma to_be_length [simp]: "length (to_be16 w) = 2" "length (to_be32 v) = 4"
  by (simp_all add: to_be16_def to_be32_def)

lemma from_to_be16: "from_be16 (ucast (drop_bit 8 w)) (ucast w) = w"
  unfolding from_be16_def
  by (rule bit_word_eqI) (auto simp: bit_or_iff bit_push_bit_iff bit_ucast_iff bit_drop_bit_eq)

lemma from_to_be32:
  "from_be32 (ucast (drop_bit 24 w)) (ucast (drop_bit 16 w)) (ucast (drop_bit 8 w)) (ucast w) = w"
proof (rule bit_word_eqI)
  fix n
  assume "n < LENGTH(32)"
  then consider "n < 8" | "8 \<le> n" "n < 16" | "16 \<le> n" "n < 24" | "24 \<le> n" "n < 32" by force
  then show "bit (from_be32 (ucast (drop_bit 24 w)) (ucast (drop_bit 16 w)) (ucast (drop_bit 8 w)) (ucast w)) n = bit w n"
    by cases (auto simp: from_be32_def bit_or_iff bit_push_bit_iff bit_ucast_iff bit_drop_bit_eq)
qed

lemma be16_at_mid: "be16_at (a @ to_be16 w @ b) (length a) = Some w"
  by (simp add: be16_at_def byte_at_def to_be16_def nth_append from_to_be16)

lemma be32_at_mid: "be32_at (a @ to_be32 w @ b) (length a) = Some w"
  by (simp add: be32_at_def byte_at_def to_be32_def nth_append from_to_be32)

lemma slice_of_mid: "slice_of (a @ v @ b) (length a) (length a + length v) = Some v"
  by simp

lemma padding_lt: "padding n < 4"
  by (simp add: padding_def)

lemma padding_cases: "n mod 4 = 0 \<and> padding n = 0 \<or> (n mod 4 = 1 \<or> n mod 4 = 2 \<or> n mod 4 = 3) \<and> n mod 4 + padding n = 4"
proof -
  have "n mod 4 = 0 \<or> n mod 4 = 1 \<or> n mod 4 = 2 \<or> n mod 4 = 3" by auto
  then show ?thesis by (auto simp: padding_def)
qed

lemma padding_round_up: "n + padding n = 4 * ((n + 3) div 4)"
  using padding_cases [of n] by presburger

lemma unat_len16: "n < 65536 \<Longrightarrow> unat (len16 n) = n"
  by (simp add: len16_def unat_of_nat)

lemma attr_bytes_length: "length (attr_bytes t v) = 4 + length v + padding (length v)"
  by (simp add: attr_bytes_def)

section \<open>UTF-8\<close>

text \<open>
  \<open>String::from_utf8_lossy\<close>: the length of the next character, or the number of bytes that one
  replacement character stands for.
\<close>

definition is_cont :: "nat \<Rightarrow> bool" where
  "is_cont b = (0x80 \<le> b \<and> b \<le> 0xBF)"

definition second_ok :: "nat \<Rightarrow> nat \<Rightarrow> bool" where
  "second_ok b0 b1 =
     (if b0 = 0xE0 then 0xA0 \<le> b1 \<and> b1 \<le> 0xBF else if b0 = 0xED then 0x80 \<le> b1 \<and> b1 \<le> 0x9F
      else if b0 = 0xF0 then 0x90 \<le> b1 \<and> b1 \<le> 0xBF else if b0 = 0xF4 then 0x80 \<le> b1 \<and> b1 \<le> 0x8F
      else is_cont b1)"

definition utf8_width :: "nat \<Rightarrow> nat" where
  "utf8_width b = (if b < 0x80 then 1 else if 0xC2 \<le> b \<and> b \<le> 0xDF then 2
     else if 0xE0 \<le> b \<and> b \<le> 0xEF then 3 else if 0xF0 \<le> b \<and> b \<le> 0xF4 then 4 else 0)"

fun utf8_step :: "byte list \<Rightarrow> bool \<times> nat" where
  "utf8_step [] = (False, 0)"
| "utf8_step (b0 # bs) =
     (let w = utf8_width (unat b0) in
      if w = 0 then (False, 1)
      else if w = 1 then (True, 1)
      else if bs = [] \<or> \<not> second_ok (unat b0) (unat (bs ! 0)) then (False, 1)
      else if w = 2 then (True, 2)
      else if length bs < 2 \<or> \<not> is_cont (unat (bs ! 1)) then (False, 2)
      else if w = 3 then (True, 3)
      else if length bs < 3 \<or> \<not> is_cont (unat (bs ! 2)) then (False, 3)
      else (True, 4))"

lemma utf8_step_pos: "bs \<noteq> [] \<Longrightarrow> 0 < snd (utf8_step bs)"
  by (cases bs) (auto simp: Let_def)

definition char_of_byte :: "byte \<Rightarrow> char" where
  "char_of_byte b = char_of (unat b)"

function from_utf8_lossy :: "byte list \<Rightarrow> string" where
  "from_utf8_lossy bs =
     (if bs = [] then []
      else case utf8_step bs of (ok, n) \<Rightarrow>
        (if ok then map char_of_byte (take n bs) else [CHR 0xEF, CHR 0xBF, CHR 0xBD]) @ from_utf8_lossy (drop n bs))"
  by auto
termination
  by (relation "measure length") (use utf8_step_pos in \<open>auto simp: prod_eq_iff dest!: arg_cong [of _ _ snd]\<close>)

declare from_utf8_lossy.simps [simp del]

text \<open>ASCII text is unchanged.\<close>

lemma from_utf8_lossy_ascii:
  "\<forall>c \<in> set s. (of_char c :: nat) < 0x80 \<Longrightarrow> from_utf8_lossy (bytes_of s) = s"
proof (induction s)
  case Nil
  then show ?case by (simp add: bytes_of_def from_utf8_lossy.simps)
next
  case (Cons c s)
  have "unat (word_of_nat (of_char c) :: byte) = of_char c" 
    using Cons.prems by (simp add: unat_of_nat)
  with Cons show ?case
    by (simp add: bytes_of_def from_utf8_lossy.simps [of "_ # _"] utf8_width_def char_of_byte_def)
qed

end
