(* ===== verification/Stun.thy ===== *)
theory Stun
  imports Wire
begin

text \<open>
  The STUN client (\<open>wylde-vpn/src/nat/stun.rs\<close>): the binding request, the response parser and
  the NAT classification over an abstract transport. Outer \<open>None\<close> of a parser is a panic (an
  index or slice out of range); the parsers' theorems show that none happens.
\<close>

section \<open>Constants\<close>

definition MAGIC :: "32 word" where "MAGIC = 0x2112A442"
definition BIND_REQUEST :: "16 word" where "BIND_REQUEST = 0x0001"
definition BIND_RESPONSE :: "16 word" where "BIND_RESPONSE = 0x0101"
definition ATTR_MAPPED :: "16 word" where "ATTR_MAPPED = 0x0001"
definition ATTR_XOR_MAPPED :: "16 word" where "ATTR_XOR_MAPPED = 0x0020"
definition ATTR_CHANGE_REQUEST :: "16 word" where "ATTR_CHANGE_REQUEST = 0x0003"
definition ATTR_OTHER_ADDRESS :: "16 word" where "ATTR_OTHER_ADDRESS = 0x802C"
definition FAMILY_IPV4 :: byte where "FAMILY_IPV4 = 0x01"

lemmas stun_attr_codes = ATTR_MAPPED_def ATTR_XOR_MAPPED_def ATTR_CHANGE_REQUEST_def ATTR_OTHER_ADDRESS_def

section \<open>The codec\<close>

record stun_result =
  sr_server :: string
  sr_mapped_ip :: string
  sr_mapped_port :: "16 word"
  sr_other :: "(string \<times> 16 word) option"
  sr_rtt_ms :: real

definition encode_request :: "byte list \<Rightarrow> 32 word \<Rightarrow> byte list" where
  "encode_request txid change_flags =
     (let attrs = (if change_flags \<noteq> 0
            then to_be16 ATTR_CHANGE_REQUEST @ to_be16 4 @ to_be32 change_flags else [])
      in to_be16 BIND_REQUEST @ to_be16 (len16 (length attrs)) @ to_be32 MAGIC @ txid @ attrs)"

text \<open>What the attribute loop has found so far: the mapped address and the other address.\<close>

record stun_found =
  sf_ip :: string
  sf_port :: "16 word"
  sf_other :: "(string \<times> 16 word) option"

definition stun_none :: stun_found where
  "stun_none = \<lparr>sf_ip = [], sf_port = 0, sf_other = None\<rparr>"

text \<open>One attribute (lines 381--407).\<close>

definition stun_attr :: "16 word \<Rightarrow> byte list \<Rightarrow> stun_found \<Rightarrow> stun_found option" where
  "stun_attr t val st =
     (if t = ATTR_MAPPED \<or> t = ATTR_XOR_MAPPED then
        if 8 \<le> length val then do {
          family \<leftarrow> byte_at val 1;
          port \<leftarrow> be16_at val 2;
          addr \<leftarrow> be32_at val 4;
          let (port, addr) = (if t = ATTR_XOR_MAPPED
                then (port XOR ucast (drop_bit 16 MAGIC AND 0xFFFF), addr XOR MAGIC) else (port, addr))
          in Some (if family = FAMILY_IPV4 then st\<lparr>sf_ip := ipv4_str_of addr, sf_port := port\<rparr> else st) }
        else Some st
      else if t = ATTR_OTHER_ADDRESS \<and> 8 \<le> length val then do {
        port \<leftarrow> be16_at val 2;
        a \<leftarrow> byte_at val 4; b \<leftarrow> byte_at val 5; c \<leftarrow> byte_at val 6; d \<leftarrow> byte_at val 7;
        Some (st\<lparr>sf_other := Some (ipv4_str a b c d, port)\<rparr>) }
      else Some st)"

text \<open>The loop: \<open>(attr_len + 3) & !3\<close> rounds up to a multiple of four.\<close>

function stun_loop :: "byte list \<Rightarrow> nat \<Rightarrow> stun_found \<Rightarrow> stun_found option" where
  "stun_loop body pos st =
     (if length body < pos + 4 then Some st
      else do {
        t \<leftarrow> be16_at body pos;
        l \<leftarrow> be16_at body (pos + 2);
        let attr_len = unat l; val_start = pos + 4; val_end = min (val_start + attr_len) (length body)
        in do {
          val \<leftarrow> slice_of body val_start val_end;
          st' \<leftarrow> stun_attr t val st;
          stun_loop body (pos + (4 + 4 * ((attr_len + 3) div 4))) st' } })"
  by auto
termination
  by (relation "measure (\<lambda>(body, pos, st). length body - pos)") auto

declare stun_loop.simps [simp del]

definition decode_response :: "byte list \<Rightarrow> byte list \<Rightarrow> stun_result option option" where
  "decode_response data txid =
     (if length data < 20 then Some None
      else do {
        msg_type \<leftarrow> be16_at data 0;
        msg_len \<leftarrow> be16_at data 2;
        magic \<leftarrow> be32_at data 4;
        tx \<leftarrow> slice_of data 8 20;
        if msg_type \<noteq> BIND_RESPONSE \<or> magic \<noteq> MAGIC \<or> tx \<noteq> txid then Some None
        else do {
          body \<leftarrow> slice_of data 20 (min (20 + unat msg_len) (length data));
          st \<leftarrow> stun_loop body 0 stun_none;
          Some (if sf_ip st = [] then None
                else Some \<lparr>sr_server = [], sr_mapped_ip = sf_ip st, sr_mapped_port = sf_port st,
                           sr_other = sf_other st, sr_rtt_ms = 0\<rparr>) } })"

definition parse_endpoint :: "string \<Rightarrow> (string \<times> 16 word) option" where
  "parse_endpoint server =
     (case rsplit_once CHR '':'' server of None \<Rightarrow> None
      | Some (h, p) \<Rightarrow> map_option (\<lambda>port. (h, port)) (parse_u16 p))"

definition parse_endpoint_with_default :: "string \<Rightarrow> 16 word \<Rightarrow> (string \<times> 16 word) option" where
  "parse_endpoint_with_default server default_port =
     (case rsplit_once CHR '':'' server of
        Some (h, p) \<Rightarrow> map_option (\<lambda>port. (h, port)) (parse_u16 p)
      | None \<Rightarrow> Some (server, default_port))"

text \<open>
  \<open>udp_probe\<close> over a socket: \<open>exchange local_port host port payload\<close> sends and returns the
  datagram that comes back, from whatever address, with the measured round trip. \<open>None\<close> is a panic.
\<close>

definition udp_probe ::
  "(16 word \<Rightarrow> string \<Rightarrow> 16 word \<Rightarrow> byte list \<Rightarrow> (byte list \<times> real) option) \<Rightarrow> byte list \<Rightarrow> string
   \<Rightarrow> 32 word \<Rightarrow> 16 word \<Rightarrow> stun_result option option" where
  "udp_probe exchange txid server change_flags local_port =
     (case parse_endpoint_with_default server 3478 of
        None \<Rightarrow> Some None
      | Some (host, port) \<Rightarrow>
          (case exchange local_port host port (encode_request txid change_flags) of
             None \<Rightarrow> Some None
           | Some (buf, rtt) \<Rightarrow>
               map_option (map_option (\<lambda>r. r\<lparr>sr_server := server, sr_rtt_ms := rtt\<rparr>))
                 (decode_response (take 2048 buf) txid)))"

section \<open>Classification\<close>

datatype nat_type = NatOpen | FullCone | RestrictedCone | PortRestricted | Symmetric | NatBlocked | NatUnknown

fun nat_type_str :: "nat_type \<Rightarrow> string" where
  "nat_type_str NatOpen = ''open''"
| "nat_type_str FullCone = ''full-cone''"
| "nat_type_str RestrictedCone = ''restricted-cone''"
| "nat_type_str PortRestricted = ''port-restricted''"
| "nat_type_str Symmetric = ''symmetric''"
| "nat_type_str NatBlocked = ''blocked''"
| "nat_type_str NatUnknown = ''unknown''"

datatype recommend = Direct | HolePunch | Relay

fun recommend_str :: "recommend \<Rightarrow> string" where
  "recommend_str Direct = ''direct''"
| "recommend_str HolePunch = ''hole-punch''"
| "recommend_str Relay = ''relay''"

record mapping_entry =
  mp_server :: string
  mp_ip :: string
  mp_port :: "16 word"
  mp_rtt_ms :: real

record classification =
  cl_nat_type :: nat_type
  cl_mappings :: "mapping_entry list"
  cl_recommend :: recommend
  cl_public_endpoint :: "string option"

definition mapping_json :: "mapping_entry \<Rightarrow> json" where
  "mapping_json m = JObj [(''server'', JStr (mp_server m)), (''ip'', JStr (mp_ip m)),
     (''port'', JInt (uint (mp_port m))), (''rtt_ms'', JFloat (mp_rtt_ms m))]"

definition classification_json :: "classification \<Rightarrow> json" where
  "classification_json c =
     (let obj = JObj [(''nat_type'', JStr (nat_type_str (cl_nat_type c))),
        (''mappings'', JArr (map mapping_json (cl_mappings c))),
        (''recommend'', JStr (recommend_str (cl_recommend c)))]
      in case cl_public_endpoint c of None \<Rightarrow> obj | Some ep \<Rightarrow> jput ''public_endpoint'' (JStr ep) obj)"

text \<open>
  The transport: a probe of a server with change flags from a local port, and the local
  address. The network can answer the same probe differently each time, so a probe has the
  number of the call (for the discovery) or of the test (for the classification) as well.
\<close>

record transport =
  tr_probe :: "nat \<Rightarrow> string \<Rightarrow> 32 word \<Rightarrow> 16 word \<Rightarrow> stun_result option"
  tr_local_ip :: "string option"

fun discover_from :: "nat \<Rightarrow> transport \<Rightarrow> string list \<Rightarrow> 16 word \<Rightarrow> json option" where
  "discover_from n tr [] local_port = None"
| "discover_from n tr (server # servers) local_port =
     (case tr_probe tr n server 0 local_port of
        Some r \<Rightarrow> Some (JObj [(''ip'', JStr (sr_mapped_ip r)), (''port'', JInt (uint (sr_mapped_port r))),
          (''server'', JStr server), (''rtt_ms'', JFloat (sr_rtt_ms r)), (''via'', JStr server),
          (''type'', JStr ''xor-mapped'')])
      | None \<Rightarrow> discover_from (n + 1) tr servers local_port)"

definition discover_endpoint_with :: "transport \<Rightarrow> string list \<Rightarrow> 16 word \<Rightarrow> json option" where
  "discover_endpoint_with tr servers local_port = discover_from 1 tr servers local_port"

definition mapping_of :: "string \<Rightarrow> stun_result \<Rightarrow> mapping_entry" where
  "mapping_of server r =
     \<lparr>mp_server = server, mp_ip = sr_mapped_ip r, mp_port = sr_mapped_port r, mp_rtt_ms = sr_rtt_ms r\<rparr>"

definition port_str :: "16 word \<Rightarrow> string" where
  "port_str p = nat_str (unat p)"

definition classify_with :: "transport \<Rightarrow> string list \<Rightarrow> 16 word \<Rightarrow> classification" where
  "classify_with tr servers local_port =
     (case servers of
        [] \<Rightarrow> \<lparr>cl_nat_type = NatUnknown, cl_mappings = [], cl_recommend = Relay, cl_public_endpoint = None\<rparr>
      | primary # rest \<Rightarrow>
          let secondary = (case rest of [] \<Rightarrow> primary | s # _ \<Rightarrow> s) in
          (case tr_probe tr 1 primary 0 local_port of
             None \<Rightarrow> \<lparr>cl_nat_type = NatBlocked, cl_mappings = [], cl_recommend = Relay, cl_public_endpoint = None\<rparr>
           | Some test_i \<Rightarrow>
               let mappings = [mapping_of primary test_i];
                   public_ep = sr_mapped_ip test_i @ '':'' @ port_str (sr_mapped_port test_i)
               in if tr_local_ip tr = Some (sr_mapped_ip test_i)
                  then \<lparr>cl_nat_type = NatOpen, cl_mappings = mappings, cl_recommend = Direct,
                        cl_public_endpoint = Some public_ep\<rparr>
                  else
                    let test_ii_local = (if local_port \<noteq> 0 then sr_mapped_port test_i else 0) in
                    if tr_probe tr 2 primary 0x06 test_ii_local \<noteq> None
                    then \<lparr>cl_nat_type = FullCone, cl_mappings = mappings, cl_recommend = Direct,
                          cl_public_endpoint = Some public_ep\<rparr>
                    else
                      let (mappings2, differs) =
                        (case tr_probe tr 3 secondary 0 local_port of
                           None \<Rightarrow> (mappings, False)
                         | Some test_iii \<Rightarrow>
                             (mappings @ [mapping_of secondary test_iii],
                              (sr_mapped_ip test_iii, sr_mapped_port test_iii) \<noteq> (sr_mapped_ip test_i, sr_mapped_port test_i)))
                      in if differs
                         then \<lparr>cl_nat_type = Symmetric, cl_mappings = mappings2, cl_recommend = Relay,
                               cl_public_endpoint = Some public_ep\<rparr>
                         else if tr_probe tr 4 primary 0x02 local_port \<noteq> None
                         then \<lparr>cl_nat_type = RestrictedCone, cl_mappings = mappings2, cl_recommend = HolePunch,
                               cl_public_endpoint = Some public_ep\<rparr>
                         else \<lparr>cl_nat_type = PortRestricted, cl_mappings = mappings2, cl_recommend = HolePunch,
                               cl_public_endpoint = Some public_ep\<rparr>))"

section \<open>The parser does not panic\<close>

lemma stun_attr_total: "\<exists>st'. stun_attr t val st = Some st'"
  by (auto simp: stun_attr_def be16_at_Some be32_at_Some Let_def split: prod.splits)

lemma stun_loop_total: "\<exists>st'. stun_loop body pos st = Some st'"
proof (induction body pos st rule: stun_loop.induct)
  case (1 body pos st)
  show ?case
  proof (cases "length body < pos + 4")
    case True
    then show ?thesis by (simp add: stun_loop.simps)
  next
    case False
    then obtain t l where tl: "be16_at body pos = Some t" "be16_at body (pos + 2) = Some l"
      by (simp add: be16_at_Some)
    obtain val where val: "slice_of body (pos + 4) (min (pos + 4 + unat l) (length body)) = Some val"
      using False by simp
    obtain st' where st': "stun_attr t val st = Some st'" using stun_attr_total by blast
    from 1 [OF False tl refl refl refl val st'] show ?thesis
      using False by (subst stun_loop.simps) (simp add: tl val st' Let_def del: slice_of_Some add_2_eq_Suc')
  qed
qed

lemma decode_response_total: "decode_response data txid \<noteq> None"
proof (cases "length data < 20")
  case False
  let ?body = "take (min (20 + unat (from_be16 (data ! 2) (data ! 3))) (length data) - 20) (drop 20 data)"
  obtain st where "stun_loop ?body 0 stun_none = Some st" using stun_loop_total by blast
  with False show ?thesis
    by (simp add: decode_response_def be16_at_Some be32_at_Some numeral_3_eq_3 eval_nat_numeral)
qed (simp add: decode_response_def)

section \<open>What a well-formed response decodes to\<close>

fun stun_attrs :: "(16 word \<times> byte list) list \<Rightarrow> stun_found \<Rightarrow> stun_found option" where
  "stun_attrs [] st = Some st"
| "stun_attrs ((t, v) # as) st = do { st' \<leftarrow> stun_attr t v st; stun_attrs as st' }"

definition attrs_bytes :: "(16 word \<times> byte list) list \<Rightarrow> byte list" where
  "attrs_bytes as = concat (map (\<lambda>(t, v). attr_bytes t v) as)"

definition attrs_fit :: "(16 word \<times> byte list) list \<Rightarrow> bool" where
  "attrs_fit as = (length (attrs_bytes as) < 65536)"

lemma attrs_fit_Cons:
  assumes "attrs_fit ((t, v) # as)"
  shows "length v < 65536" and "attrs_fit as"
  using assms by (auto simp: attrs_fit_def attrs_bytes_def attr_bytes_length)

text \<open>The header of an attribute inside a buffer, and its value.\<close>

lemma attr_reads:
  assumes "length v < 65536"
  shows "be16_at (pre @ attr_bytes t v @ post) (length pre) = Some t"
    and "be16_at (pre @ attr_bytes t v @ post) (length pre + 2) = Some (len16 (length v))"
    and "slice_of (pre @ attr_bytes t v @ post) (length pre + 4) (length pre + 4 + length v) = Some v"
proof -
  show "be16_at (pre @ attr_bytes t v @ post) (length pre) = Some t"
    by (simp add: attr_bytes_def be16_at_mid)
  show "be16_at (pre @ attr_bytes t v @ post) (length pre + 2) = Some (len16 (length v))"
    using be16_at_mid [of "pre @ to_be16 t"] by (simp add: attr_bytes_def)
  show "slice_of (pre @ attr_bytes t v @ post) (length pre + 4) (length pre + 4 + length v) = Some v"
    using slice_of_mid [of "pre @ to_be16 t @ to_be16 (len16 (length v))" v]
    by (simp add: attr_bytes_def add.commute)
qed

lemma stun_loop_attrs:
  "attrs_fit as \<Longrightarrow> stun_loop (pre @ attrs_bytes as) (length pre) st = stun_attrs as st"
proof (induction as arbitrary: pre st)
  case Nil
  then show ?case by (simp add: attrs_bytes_def stun_loop.simps)
next
  case (Cons a as)
  obtain t v where a: "a = (t, v)" by (cases a)
  have v: "length v < 65536" and fit: "attrs_fit as" using attrs_fit_Cons Cons.prems by (auto simp: a)
  let ?body = "pre @ attr_bytes t v @ attrs_bytes as"
  have body: "pre @ attrs_bytes (a # as) = ?body" by (simp add: attrs_bytes_def a)
  have long: "\<not> length ?body < length pre + 4" by (simp add: attr_bytes_length)
  have ve: "min (length pre + 4 + length v) (length ?body) = length pre + 4 + length v"
    by (simp add: attr_bytes_length)
  have next_pos: "length pre + (4 + 4 * ((length v + 3) div 4)) = length (pre @ attr_bytes t v)"
    using padding_round_up [of "length v"] by (simp add: attr_bytes_length)
  obtain st' where st': "stun_attr t v st = Some st'" using stun_attr_total by blast
  have "stun_loop ?body (length pre) st = stun_loop ?body (length (pre @ attr_bytes t v)) st'"
    using long by (subst stun_loop.simps)
      (simp add: attr_reads [OF v] unat_len16 [OF v] ve st' next_pos Let_def
        del: slice_of_Some add_2_eq_Suc' length_append)
  also have "\<dots> = stun_attrs as st'" using Cons.IH [OF fit, of "pre @ attr_bytes t v"] by simp
  finally show ?case unfolding body by (simp add: a st')
qed

definition binding_response :: "byte list \<Rightarrow> (16 word \<times> byte list) list \<Rightarrow> byte list" where
  "binding_response txid as =
     to_be16 BIND_RESPONSE @ to_be16 (len16 (length (attrs_bytes as))) @ to_be32 MAGIC @ txid @ attrs_bytes as"

lemma decode_binding_response:
  assumes "attrs_fit as" and "length txid = 12"
  shows "decode_response (binding_response txid as) txid =
    map_option (\<lambda>st. if sf_ip st = [] then None
      else Some \<lparr>sr_server = [], sr_mapped_ip = sf_ip st, sr_mapped_port = sf_port st,
                 sr_other = sf_other st, sr_rtt_ms = 0\<rparr>) (stun_attrs as stun_none)"
proof -
  let ?b = "attrs_bytes as" and ?h = "to_be16 BIND_RESPONSE"
  let ?n = "to_be16 (len16 (length ?b))" and ?m = "to_be32 MAGIC"
  let ?d = "binding_response txid as"
  have reads: "be16_at ?d 0 = Some BIND_RESPONSE" "be16_at ?d 2 = Some (len16 (length ?b))" "be32_at ?d 4 = Some MAGIC"
    "slice_of ?d 8 20 = Some txid" "slice_of ?d 20 (20 + length ?b) = Some ?b"
    using be16_at_mid [of "[]" BIND_RESPONSE "?n @ ?m @ txid @ ?b"] be16_at_mid [of ?h "len16 (length ?b)" "?m @ txid @ ?b"]
      be32_at_mid [of "?h @ ?n" MAGIC "txid @ ?b"] slice_of_mid [of "?h @ ?n @ ?m" txid ?b]
      slice_of_mid [of "?h @ ?n @ ?m @ txid" ?b "[]"] assms(2)
    by (simp_all add: binding_response_def)
  have len: "length ?d = 20 + length ?b" by (simp add: binding_response_def assms(2))
  have n: "unat (len16 (length ?b)) = length ?b" using assms(1) by (simp add: attrs_fit_def unat_len16)
  have loop: "stun_loop ?b 0 stun_none = stun_attrs as stun_none"
    using stun_loop_attrs [OF assms(1), of "[]"] by simp
  show ?thesis
    by (cases "stun_attrs as stun_none") (simp_all add: decode_response_def reads len n loop del: slice_of_Some)
qed

section \<open>The mapped address\<close>

text \<open>RFC 5389's XOR-MAPPED-ADDRESS of an IPv4 address and port.\<close>

definition xor_mapped_value :: "32 word \<Rightarrow> 16 word \<Rightarrow> byte list" where
  "xor_mapped_value ip port = [0, FAMILY_IPV4] @ to_be16 (port XOR 0x2112) @ to_be32 (ip XOR MAGIC)"

lemma magic_port: "(ucast (drop_bit 16 MAGIC AND 0xFFFF) :: 16 word) = 0x2112"
  by (simp add: MAGIC_def)

lemma stun_attr_xor_mapped:
  "stun_attr ATTR_XOR_MAPPED (xor_mapped_value ip port) st = Some (st\<lparr>sf_ip := ipv4_str_of ip, sf_port := port\<rparr>)"
proof -
  let ?v = "xor_mapped_value ip port"
  have "be16_at ?v 2 = Some (port XOR 0x2112)" "be32_at ?v 4 = Some (ip XOR MAGIC)"
    using be16_at_mid [of "[0, FAMILY_IPV4]" "port XOR 0x2112" "to_be32 (ip XOR MAGIC)"]
      be32_at_mid [of "[0, FAMILY_IPV4] @ to_be16 (port XOR 0x2112)" "ip XOR MAGIC" "[]"]
    by (simp_all add: xor_mapped_value_def eval_nat_numeral)
  moreover have "byte_at ?v 1 = Some FAMILY_IPV4" "8 \<le> length ?v" by (simp_all add: xor_mapped_value_def)
  moreover have "(port XOR 0x2112) XOR 0x2112 = port" "(ip XOR MAGIC) XOR MAGIC = ip"
    by (simp_all add: xor.assoc)
  ultimately show ?thesis
    by (simp add: stun_attr_def magic_port Let_def)
qed

lemma stun_attrs_total: "\<exists>st'. stun_attrs as st = Some st'"
proof (induction as arbitrary: st)
  case (Cons a as)
  then show ?case using stun_attr_total by (cases a) (metis bind.bind_lunit stun_attrs.simps(2))
qed simp

lemma stun_attrs_append: "stun_attrs (as @ bs) st = do { st' \<leftarrow> stun_attrs as st; stun_attrs bs st' }"
  by (induction as st rule: stun_attrs.induct) (auto split: bind_splits)

definition maps_address :: "16 word \<times> byte list \<Rightarrow> bool" where
  "maps_address a = (fst a = ATTR_MAPPED \<or> fst a = ATTR_XOR_MAPPED)"

lemma stun_attr_other:
  "t \<noteq> ATTR_MAPPED \<Longrightarrow> t \<noteq> ATTR_XOR_MAPPED \<Longrightarrow> stun_attr t v st = Some st' \<Longrightarrow>
     sf_ip st' = sf_ip st \<and> sf_port st' = sf_port st"
  by (auto simp: stun_attr_def split: if_splits bind_splits)

lemma stun_attrs_other:
  "\<forall>a \<in> set as. \<not> maps_address a \<Longrightarrow> stun_attrs as st = Some st' \<Longrightarrow>
     sf_ip st' = sf_ip st \<and> sf_port st' = sf_port st"
proof (induction as arbitrary: st)
  case (Cons a as)
  obtain t v where a: "a = (t, v)" by (cases a)
  obtain st1 where 1: "stun_attr t v st = Some st1" "stun_attrs as st1 = Some st'"
    using Cons.prems(2) by (auto simp: a split: bind_splits)
  with Cons stun_attr_other [OF _ _ 1(1)] show ?case by (auto simp: a maps_address_def)
qed simp

text \<open>The STUN parser recovers the address the server saw: in any well-formed response to
  the request, whatever other attributes it has, the result is the IPv4 address and port of
  the last (XOR-)MAPPED-ADDRESS, un-XORed.\<close>

theorem stun_decodes_mapped_address:
  assumes "length txid = 12"
    and "attrs_fit (before @ (ATTR_XOR_MAPPED, xor_mapped_value ip port) # after)"
    and "\<forall>a \<in> set after. \<not> maps_address a"
  shows "\<exists>r. decode_response (binding_response txid
            (before @ (ATTR_XOR_MAPPED, xor_mapped_value ip port) # after)) txid = Some (Some r)
    \<and> sr_mapped_ip r = ipv4_str_of ip \<and> sr_mapped_port r = port"
proof -
  obtain st1 where 1: "stun_attrs before stun_none = Some st1" using stun_attrs_total by blast
  let ?st2 = "st1\<lparr>sf_ip := ipv4_str_of ip, sf_port := port\<rparr>"
  obtain st3 where 3: "stun_attrs after ?st2 = Some st3" using stun_attrs_total by blast
  have "stun_attrs (before @ (ATTR_XOR_MAPPED, xor_mapped_value ip port) # after) stun_none = Some st3"
    by (simp add: stun_attrs_append 1 stun_attr_xor_mapped 3)
  moreover have "sf_ip st3 = ipv4_str_of ip" "sf_port st3 = port"
    using stun_attrs_other [OF assms(3) 3] by simp_all
  moreover have "ipv4_str_of ip \<noteq> []" by (simp add: ipv4_str_of_def ipv4_str_def)
  ultimately show ?thesis by (simp add: decode_binding_response [OF assms(2,1)])
qed

lemma stun_decodes_mapped_address_witness:
  "\<exists>r. decode_response (binding_response (replicate 12 7)
        ([(0x8022, [1, 2, 3])] @ (ATTR_XOR_MAPPED, xor_mapped_value 0xCB007105 54321) # [(ATTR_OTHER_ADDRESS, [])]))
      (replicate 12 7) = Some (Some r)
    \<and> sr_mapped_ip r = ipv4_str_of 0xCB007105 \<and> sr_mapped_port r = 54321"
  by (rule stun_decodes_mapped_address)
    (simp_all add: attrs_fit_def attrs_bytes_def attr_bytes_length xor_mapped_value_def
      maps_address_def stun_attr_codes padding_def)

section \<open>Classification\<close>

text \<open>The four observations, as predicates on the transport.\<close>

definition answered :: "transport \<Rightarrow> string \<Rightarrow> 16 word \<Rightarrow> bool" where
  "answered tr primary port = (tr_probe tr 1 primary 0 port \<noteq> None)"

definition mapped_is_local :: "transport \<Rightarrow> string \<Rightarrow> 16 word \<Rightarrow> bool" where
  "mapped_is_local tr primary port = (tr_local_ip tr = map_option sr_mapped_ip (tr_probe tr 1 primary 0 port))"

definition change_answered :: "transport \<Rightarrow> string \<Rightarrow> 16 word \<Rightarrow> bool" where
  "change_answered tr primary port =
     (tr_probe tr 2 primary 6 (case tr_probe tr 1 primary 0 port of
        Some r \<Rightarrow> if port \<noteq> 0 then sr_mapped_port r else 0 | None \<Rightarrow> 0) \<noteq> None)"

definition mapping_of_result :: "stun_result \<Rightarrow> string \<times> 16 word" where
  "mapping_of_result r = (sr_mapped_ip r, sr_mapped_port r)"

definition mapping_moved :: "transport \<Rightarrow> string \<Rightarrow> string \<Rightarrow> 16 word \<Rightarrow> bool" where
  "mapping_moved tr primary secondary port =
     (tr_probe tr 3 secondary 0 port \<noteq> None \<and>
      map_option mapping_of_result (tr_probe tr 3 secondary 0 port)
        \<noteq> map_option mapping_of_result (tr_probe tr 1 primary 0 port))"

definition nat_spec :: "transport \<Rightarrow> string \<Rightarrow> string \<Rightarrow> 16 word \<Rightarrow> nat_type" where
  "nat_spec tr primary secondary port =
     (if \<not> answered tr primary port then NatBlocked
      else if mapped_is_local tr primary port then NatOpen
      else if change_answered tr primary port then FullCone
      else if mapping_moved tr primary secondary port then Symmetric
      else if tr_probe tr 4 primary 2 port \<noteq> None then RestrictedCone else PortRestricted)"

definition strategy :: "nat_type \<Rightarrow> recommend" where
  "strategy n = (case n of NatOpen \<Rightarrow> Direct | FullCone \<Rightarrow> Direct | RestrictedCone \<Rightarrow> HolePunch
     | PortRestricted \<Rightarrow> HolePunch | Symmetric \<Rightarrow> Relay | NatBlocked \<Rightarrow> Relay | NatUnknown \<Rightarrow> Relay)"

lemma classify_blocked:
  "tr_probe tr 1 primary 0 port = None \<Longrightarrow> classify_with tr (primary # rest) port =
     \<lparr>cl_nat_type = NatBlocked, cl_mappings = [], cl_recommend = Relay, cl_public_endpoint = None\<rparr>"
  by (simp add: classify_with_def Let_def)

lemma classify_answered:
  assumes "tr_probe tr 1 primary 0 port = Some r"
  shows "cl_nat_type (classify_with tr (primary # rest) port) =
      nat_spec tr primary (case rest of [] \<Rightarrow> primary | s # _ \<Rightarrow> s) port
    \<and> cl_recommend (classify_with tr (primary # rest) port) = strategy (cl_nat_type (classify_with tr (primary # rest) port))
    \<and> cl_public_endpoint (classify_with tr (primary # rest) port) =
        Some (sr_mapped_ip r @ '':'' @ port_str (sr_mapped_port r))"
proof (cases "tr_probe tr 3 (case rest of [] \<Rightarrow> primary | s # _ \<Rightarrow> s) 0 port")
  case None
  with assms show ?thesis
    by (simp add: classify_with_def Let_def nat_spec_def answered_def mapped_is_local_def change_answered_def
        mapping_moved_def strategy_def)
next
  case (Some r3)
  with assms show ?thesis
    by (simp add: classify_with_def Let_def nat_spec_def answered_def mapped_is_local_def change_answered_def
        mapping_moved_def mapping_of_result_def strategy_def)
qed

text \<open>The classification is the decision table of its four observations: blocked when the
  first probe gets no answer, open when the mapped address is the local one, full cone when a
  changed-address reply came, symmetric when another server sees another mapping, restricted
  or port-restricted by the last test; the recommendation is a function of the kind, and there
  is a public endpoint, the one the first probe saw, exactly when that probe was answered.\<close>

theorem classification_is_decision_table:
  "cl_nat_type (classify_with tr (primary # rest) port) =
      nat_spec tr primary (case rest of [] \<Rightarrow> primary | s # _ \<Rightarrow> s) port
   \<and> cl_recommend (classify_with tr (primary # rest) port) = strategy (cl_nat_type (classify_with tr (primary # rest) port))
   \<and> cl_public_endpoint (classify_with tr (primary # rest) port) =
       map_option (\<lambda>r. sr_mapped_ip r @ '':'' @ port_str (sr_mapped_port r)) (tr_probe tr 1 primary 0 port)"
proof (cases "tr_probe tr 1 primary 0 port")
  case None
  then show ?thesis by (simp add: classify_blocked nat_spec_def answered_def strategy_def)
next
  case (Some r)
  then show ?thesis using classify_answered [OF Some] by simp
qed

text \<open>Behind a server that answers a CHANGE-REQUEST like any other request, from its own
  address, which the probe does not look at, every NAT that is not open is taken for a full
  cone and a direct connection is recommended, however the mappings differ between servers.\<close>

theorem ignored_change_request_looks_full_cone:
  assumes "\<And>n flags p. tr_probe tr n primary flags p = tr_probe tr 1 primary 0 p"
    and "tr_probe tr 1 primary 0 0 = Some r" and "tr_local_ip tr \<noteq> Some (sr_mapped_ip r)"
  shows "cl_nat_type (classify_with tr (primary # rest) 0) = FullCone
    \<and> cl_recommend (classify_with tr (primary # rest) 0) = Direct"
proof -
  have "tr_probe tr 2 primary 6 0 = Some r" using assms(1) [of 2 6 0] assms(2) by simp
  then show ?thesis using assms(2,3) by (simp add: classify_with_def Let_def)
qed

definition deaf_server :: transport where
  "deaf_server = \<lparr>tr_probe = (\<lambda>n s f p. Some \<lparr>sr_server = s, sr_mapped_ip = ''203.0.113.5'',
     sr_mapped_port = of_nat (length s), sr_other = None, sr_rtt_ms = 1\<rparr>), tr_local_ip = Some ''10.0.0.2''\<rparr>"

lemma ignored_change_request_looks_full_cone_witness:
  "cl_nat_type (classify_with deaf_server [''a:1'', ''bb:1''] 0) = FullCone
    \<and> cl_recommend (classify_with deaf_server [''a:1'', ''bb:1''] 0) = Direct
    \<and> mapping_moved deaf_server ''a:1'' ''bb:1'' 0"
proof -
  have "tr_probe deaf_server 1 ''a:1'' 0 0 = Some \<lparr>sr_server = ''a:1'', sr_mapped_ip = ''203.0.113.5'',
      sr_mapped_port = of_nat (length ''a:1''), sr_other = None, sr_rtt_ms = 1\<rparr>"
    by (simp add: deaf_server_def)
  from ignored_change_request_looks_full_cone [OF _ this, of "[''bb:1'']"]
  show ?thesis by (simp add: deaf_server_def mapping_moved_def mapping_of_result_def)
qed

end
