(* ===== verification/Turn.thy ===== *)
theory Turn
  imports Stun
begin

text \<open>
  The TURN client (\<open>wylde-vpn/src/nat/turn.rs\<close>): building and parsing Allocate messages and the
  two-step allocation over an abstract exchange. MD5 and HMAC-SHA1 come from crates and are
  functions of the model; the transaction ids are its arguments. Outer \<open>None\<close> of the parser is
  a panic.
\<close>

section \<open>Constants\<close>

definition METHOD_ALLOCATE :: "16 word" where "METHOD_ALLOCATE = 0x0003"
definition CLASS_REQUEST :: "16 word" where "CLASS_REQUEST = 0x0000"
definition CLASS_SUCCESS :: "16 word" where "CLASS_SUCCESS = 0x0100"
definition CLASS_ERROR :: "16 word" where "CLASS_ERROR = 0x0110"
definition MAGIC_COOKIE :: "32 word" where "MAGIC_COOKIE = 0x2112A442"
definition ATTR_USERNAME :: "16 word" where "ATTR_USERNAME = 0x0006"
definition ATTR_MESSAGE_INTEGRITY :: "16 word" where "ATTR_MESSAGE_INTEGRITY = 0x0008"
definition ATTR_ERROR_CODE :: "16 word" where "ATTR_ERROR_CODE = 0x0009"
definition ATTR_REALM :: "16 word" where "ATTR_REALM = 0x0014"
definition ATTR_NONCE :: "16 word" where "ATTR_NONCE = 0x0015"
definition TURN_XOR_MAPPED :: "16 word" where "TURN_XOR_MAPPED = 0x0020"
definition ATTR_REQUESTED_TRANSPORT :: "16 word" where "ATTR_REQUESTED_TRANSPORT = 0x0019"
definition ATTR_LIFETIME :: "16 word" where "ATTR_LIFETIME = 0x000D"
definition ATTR_XOR_RELAYED :: "16 word" where "ATTR_XOR_RELAYED = 0x0016"
definition REQUESTED_TRANSPORT_UDP :: byte where "REQUESTED_TRANSPORT_UDP = 17"

lemmas turn_attr_codes = ATTR_USERNAME_def ATTR_MESSAGE_INTEGRITY_def ATTR_ERROR_CODE_def ATTR_REALM_def
  ATTR_NONCE_def TURN_XOR_MAPPED_def ATTR_REQUESTED_TRANSPORT_def ATTR_LIFETIME_def ATTR_XOR_RELAYED_def

section \<open>Building\<close>

record turn_allocation =
  ta_relay_ip :: string
  ta_relay_port :: "16 word"
  ta_mapped_ip :: "string option"
  ta_mapped_port :: "(16 word) option"
  ta_lifetime :: "32 word"

record auth_attrs =
  aa_username :: string
  aa_realm :: string
  aa_nonce :: "byte list"
  aa_key :: "byte list"

record turn_crypto =
  tc_md5 :: "byte list \<Rightarrow> byte list"
  tc_hmac_sha1 :: "byte list \<Rightarrow> byte list \<Rightarrow> byte list"

definition ltc_key :: "turn_crypto \<Rightarrow> string \<Rightarrow> string \<Rightarrow> string \<Rightarrow> byte list" where
  "ltc_key tc username realm password =
     tc_md5 tc (bytes_of (username @ '':'' @ realm @ '':'' @ password))"

definition build_header :: "byte list \<Rightarrow> 16 word \<Rightarrow> nat \<Rightarrow> byte list" where
  "build_header txn msg_type msg_len =
     to_be16 msg_type @ to_be16 (len16 msg_len) @ to_be32 MAGIC_COOKIE @ txn"

definition encode_attr :: "byte list \<Rightarrow> 16 word \<Rightarrow> byte list \<Rightarrow> byte list" where
  "encode_attr out attr_type value =
     out @ to_be16 attr_type @ to_be16 (len16 (length value)) @ value
       @ replicate ((4 - length value mod 4) mod 4) 0"

definition build_allocate :: "turn_crypto \<Rightarrow> byte list \<Rightarrow> 32 word \<Rightarrow> auth_attrs option \<Rightarrow> byte list" where
  "build_allocate tc txn lifetime auth =
     (let attrs0 = to_be16 ATTR_REQUESTED_TRANSPORT @ to_be16 4 @ [REQUESTED_TRANSPORT_UDP, 0, 0, 0]
            @ to_be16 ATTR_LIFETIME @ to_be16 4 @ to_be32 lifetime;
          attrs = (case auth of
              None \<Rightarrow> attrs0
            | Some a \<Rightarrow>
                let attrs1 = encode_attr (encode_attr (encode_attr attrs0
                      ATTR_USERNAME (bytes_of (aa_username a)))
                      ATTR_REALM (bytes_of (aa_realm a)))
                      ATTR_NONCE (aa_nonce a);
                    header = build_header txn (METHOD_ALLOCATE OR CLASS_REQUEST) (length attrs1 + 24);
                    tag = tc_hmac_sha1 tc (aa_key a) (header @ attrs1)
                in encode_attr attrs1 ATTR_MESSAGE_INTEGRITY tag)
      in build_header txn (METHOD_ALLOCATE OR CLASS_REQUEST) (length attrs) @ attrs)"

section \<open>Parsing\<close>

record parsed_turn =
  pu_class :: "16 word"
  pu_realm :: "string option"
  pu_nonce :: "byte list option"
  pu_error_code :: "(16 word) option"
  pu_xor_relayed :: "(string \<times> 16 word) option"
  pu_xor_mapped :: "(string \<times> 16 word) option"

text \<open>The outer option is a panic.\<close>

definition decode_xor_addr :: "byte list \<Rightarrow> (string \<times> 16 word) option option" where
  "decode_xor_addr value = do {
     family \<leftarrow> byte_at value 1;
     if family \<noteq> 0x01 then Some None
     else do {
       port \<leftarrow> be16_at value 2;
       addr \<leftarrow> be32_at value 4;
       Some (Some (ipv4_str_of (addr XOR MAGIC_COOKIE), port XOR ucast (drop_bit 16 MAGIC_COOKIE AND 0xFFFF))) } }"

definition turn_attr :: "16 word \<Rightarrow> byte list \<Rightarrow> parsed_turn \<Rightarrow> parsed_turn option" where
  "turn_attr t val out =
     (if t = ATTR_REALM then Some (out\<lparr>pu_realm := Some (from_utf8_lossy val)\<rparr>)
      else if t = ATTR_NONCE then Some (out\<lparr>pu_nonce := Some val\<rparr>)
      else if t = ATTR_ERROR_CODE \<and> 4 \<le> length val then do {
        hundreds \<leftarrow> byte_at val 2;
        rest \<leftarrow> byte_at val 3;
        Some (out\<lparr>pu_error_code := Some (ucast (hundreds AND 0x07) * 100 + ucast rest)\<rparr>) }
      else if t = ATTR_XOR_RELAYED \<and> 8 \<le> length val
      then map_option (\<lambda>a. out\<lparr>pu_xor_relayed := a\<rparr>) (decode_xor_addr val)
      else if t = TURN_XOR_MAPPED \<and> 8 \<le> length val
      then map_option (\<lambda>a. out\<lparr>pu_xor_mapped := a\<rparr>) (decode_xor_addr val)
      else Some out)"

text \<open>
  The loop runs to \<open>end\<close>, the declared length cut to the datagram; a value that reaches past
  the datagram ends it.
\<close>

function turn_loop :: "byte list \<Rightarrow> nat \<Rightarrow> nat \<Rightarrow> parsed_turn \<Rightarrow> parsed_turn option" where
  "turn_loop data stop_at offset out =
     (if stop_at < offset + 4 then Some out
      else do {
        t \<leftarrow> be16_at data offset;
        l \<leftarrow> be16_at data (offset + 2);
        let attr_len = unat l; val_start = offset + 4
        in if length data < val_start + attr_len then Some out
           else do {
             val \<leftarrow> slice_of data val_start (val_start + attr_len);
             out' \<leftarrow> turn_attr t val out;
             turn_loop data stop_at (val_start + (attr_len + (4 - attr_len mod 4) mod 4)) out' } })"
  by auto
termination
  by (relation "measure (\<lambda>(data, stop_at, offset, out). stop_at - offset)") auto

declare turn_loop.simps [simp del]

definition turn_blank :: "16 word \<Rightarrow> parsed_turn" where
  "turn_blank cls = \<lparr>pu_class = cls, pu_realm = None, pu_nonce = None, pu_error_code = None,
     pu_xor_relayed = None, pu_xor_mapped = None\<rparr>"

definition turn_parse :: "byte list \<Rightarrow> byte list \<Rightarrow> parsed_turn option option" where
  "turn_parse data txn =
     (if length data < 20 then Some None
      else do {
        msg_type \<leftarrow> be16_at data 0;
        msg_len \<leftarrow> be16_at data 2;
        magic \<leftarrow> be32_at data 4;
        tx \<leftarrow> slice_of data 8 20;
        if magic \<noteq> MAGIC_COOKIE \<or> tx \<noteq> txn then Some None
        else map_option Some
               (turn_loop data (min (20 + unat msg_len) (length data)) 20 (turn_blank (msg_type AND 0x0110))) })"

section \<open>Allocation\<close>

text \<open>The exchange of a datagram for the reply, numbered; \<open>None\<close> of the result is a panic.\<close>

definition allocate_with ::
  "turn_crypto \<Rightarrow> (nat \<Rightarrow> byte list \<Rightarrow> byte list option) \<Rightarrow> byte list \<Rightarrow> byte list
   \<Rightarrow> string \<Rightarrow> string \<Rightarrow> string \<Rightarrow> string \<Rightarrow> 32 word \<Rightarrow> turn_allocation option option" where
  "allocate_with tc exchange txn1 txn2 host username password realm lifetime =
     (if host = [] \<or> password = [] then Some None
      else case exchange 1 (build_allocate tc txn1 lifetime None) of
        None \<Rightarrow> Some None
      | Some resp1 \<Rightarrow>
     (case turn_parse resp1 txn1 of
        None \<Rightarrow> None
      | Some None \<Rightarrow> Some None
      | Some (Some parsed1) \<Rightarrow>
          let finish = (\<lambda>parsed. case pu_xor_relayed parsed of
                 None \<Rightarrow> None
               | Some relay \<Rightarrow> Some \<lparr>ta_relay_ip = fst relay, ta_relay_port = snd relay,
                   ta_mapped_ip = map_option fst (pu_xor_mapped parsed),
                   ta_mapped_port = map_option snd (pu_xor_mapped parsed), ta_lifetime = lifetime\<rparr>)
          in if pu_class parsed1 = CLASS_ERROR then
               (case pu_nonce parsed1 of
                  None \<Rightarrow> Some None
                | Some nonce \<Rightarrow>
                    let srv_realm = unwrap_or realm (pu_realm parsed1);
                        key = ltc_key tc username srv_realm password
                    in case exchange 2 (build_allocate tc txn2 lifetime
                             (Some \<lparr>aa_username = username, aa_realm = srv_realm, aa_nonce = nonce, aa_key = key\<rparr>)) of
                         None \<Rightarrow> Some None
                       | Some resp2 \<Rightarrow>
                           (case turn_parse resp2 txn2 of
                              None \<Rightarrow> None
                            | Some None \<Rightarrow> Some None
                            | Some (Some parsed2) \<Rightarrow>
                                Some (if pu_class parsed2 \<noteq> CLASS_SUCCESS then None else finish parsed2)))
             else if pu_class parsed1 = CLASS_SUCCESS then Some (finish parsed1)
             else Some None))"

text \<open>\<open>renew_after\<close>, in seconds.\<close>

definition renew_after :: "nat \<Rightarrow> nat" where
  "renew_after lifetime = max lifetime 3 div 3"

section \<open>The parser does not panic\<close>

lemma decode_xor_addr_total: "8 \<le> length v \<Longrightarrow> \<exists>a. decode_xor_addr v = Some a"
  by (simp add: decode_xor_addr_def be16_at_Some be32_at_Some)

lemma turn_attr_total: "\<exists>out'. turn_attr t val out = Some out'"
  using decode_xor_addr_total [of val] by (auto simp: turn_attr_def)

lemma turn_loop_total: "stop_at \<le> length data \<Longrightarrow> \<exists>out'. turn_loop data stop_at offset out = Some out'"
proof (induction data stop_at offset out rule: turn_loop.induct)
  case (1 data stop_at offset out)
  show ?case
  proof (cases "stop_at < offset + 4")
    case True
    then show ?thesis by (simp add: turn_loop.simps)
  next
    case False
    then obtain t l where tl: "be16_at data offset = Some t" "be16_at data (offset + 2) = Some l"
      using 1(2) by (simp add: be16_at_Some)
    show ?thesis
    proof (cases "length data < offset + 4 + unat l")
      case True
      with False show ?thesis
        by (subst turn_loop.simps) (simp add: tl Let_def del: add_2_eq_Suc')
    next
      case fits: False
      then obtain val where val: "slice_of data (offset + 4) (offset + 4 + unat l) = Some val" by simp
      obtain out' where out': "turn_attr t val out = Some out'" using turn_attr_total by blast
      from 1(1) [OF False tl refl refl fits val out' 1(2)] show ?thesis
        using False fits by (subst turn_loop.simps) (simp add: tl val out' Let_def del: slice_of_Some add_2_eq_Suc')
    qed
  qed
qed

lemma turn_parse_total: "turn_parse data txn \<noteq> None"
proof (cases "length data < 20")
  case False
  obtain out where "turn_loop data (min (20 + unat (from_be16 (data ! 2) (data ! 3))) (length data)) 20
      (turn_blank (from_be16 (data ! 0) (data ! 1) AND 0x0110)) = Some out"
    using turn_loop_total [of "min (20 + unat (from_be16 (data ! 2) (data ! 3))) (length data)" data] by auto
  with False show ?thesis
    by (simp add: turn_parse_def be16_at_Some be32_at_Some eval_nat_numeral)
qed (simp add: turn_parse_def)

section \<open>What a built message parses to\<close>

fun turn_attrs :: "(16 word \<times> byte list) list \<Rightarrow> parsed_turn \<Rightarrow> parsed_turn option" where
  "turn_attrs [] out = Some out"
| "turn_attrs ((t, v) # as) out = do { out' \<leftarrow> turn_attr t v out; turn_attrs as out' }"

lemma encode_attr_eq: "encode_attr out t v = out @ attr_bytes t v"
  by (simp add: encode_attr_def attr_bytes_def padding_def)

lemma turn_loop_attrs:
  "attrs_fit as \<Longrightarrow> turn_loop (pre @ attrs_bytes as) (length (pre @ attrs_bytes as)) (length pre) out = turn_attrs as out"
proof (induction as arbitrary: pre out)
  case Nil
  then show ?case by (simp add: attrs_bytes_def turn_loop.simps)
next
  case (Cons a as)
  obtain t v where a: "a = (t, v)" by (cases a)
  have v: "length v < 65536" and fit: "attrs_fit as" using attrs_fit_Cons Cons.prems by (auto simp: a)
  let ?data = "pre @ attr_bytes t v @ attrs_bytes as"
  have data: "pre @ attrs_bytes (a # as) = ?data" by (simp add: attrs_bytes_def a)
  have long: "\<not> length ?data < length pre + 4" "\<not> length ?data < length pre + 4 + length v"
    by (simp_all add: attr_bytes_length)
  have next_pos: "length pre + 4 + (length v + (4 - length v mod 4) mod 4) = length (pre @ attr_bytes t v)"
    by (simp add: attr_bytes_length padding_def)
  obtain out' where out': "turn_attr t v out = Some out'" using turn_attr_total by blast
  have "turn_loop ?data (length ?data) (length pre) out = turn_loop ?data (length ?data) (length (pre @ attr_bytes t v)) out'"
    using long by (subst turn_loop.simps)
      (simp add: attr_reads [OF v] unat_len16 [OF v] out' next_pos Let_def
        del: slice_of_Some add_2_eq_Suc' length_append)
  also have "\<dots> = turn_attrs as out'" using Cons.IH [OF fit, of "pre @ attr_bytes t v"] by simp
  finally show ?case unfolding data by (simp add: a out')
qed

lemma turn_parse_built:
  assumes "attrs_fit as" and "length txn = 12"
  shows "turn_parse (build_header txn ty (length (attrs_bytes as)) @ attrs_bytes as) txn =
    map_option Some (turn_attrs as (turn_blank (ty AND 0x0110)))"
proof -
  let ?b = "attrs_bytes as" and ?n = "to_be16 (len16 (length (attrs_bytes as)))"
  let ?d = "build_header txn ty (length ?b) @ ?b"
  have reads: "be16_at ?d 0 = Some ty" "be16_at ?d 2 = Some (len16 (length ?b))" "be32_at ?d 4 = Some MAGIC_COOKIE"
    "slice_of ?d 8 20 = Some txn"
    using be16_at_mid [of "[]" ty "?n @ to_be32 MAGIC_COOKIE @ txn @ ?b"]
      be16_at_mid [of "to_be16 ty" "len16 (length ?b)" "to_be32 MAGIC_COOKIE @ txn @ ?b"]
      be32_at_mid [of "to_be16 ty @ ?n" MAGIC_COOKIE "txn @ ?b"]
      slice_of_mid [of "to_be16 ty @ ?n @ to_be32 MAGIC_COOKIE" txn ?b] assms(2)
    by (simp_all add: build_header_def)
  have h: "length (build_header txn ty (length ?b)) = 20" by (simp add: build_header_def assms(2))
  have n: "unat (len16 (length ?b)) = length ?b" using assms(1) by (simp add: attrs_fit_def unat_len16)
  have loop: "turn_loop ?d (length ?d) 20 out = turn_attrs as out" for out
    using turn_loop_attrs [OF assms(1), of "build_header txn ty (length ?b)" out] by (simp add: h)
  have len: "length ?d = 20 + length ?b" by (simp add: h)
  have "\<not> length ?d < 20" "min (20 + length ?b) (length ?d) = length ?d"
    by (simp_all add: len del: length_append)
  then show ?thesis
    by (simp add: turn_parse_def reads n loop del: slice_of_Some length_append)
qed

section \<open>The properties\<close>

text \<open>No datagram makes the STUN or the TURN parser panic: every index and slice of the
  attribute loops is in range, whatever lengths the datagram declares, and the loops end.\<close>

theorem nat_parsers_never_panic:
  "decode_response data txid \<noteq> None \<and> turn_parse data txid \<noteq> None"
  by (simp add: decode_response_total turn_parse_total)

text \<open>The attributes of an authenticated Allocate request, and the bytes its tag covers.\<close>

definition allocate_attrs :: "32 word \<Rightarrow> auth_attrs \<Rightarrow> (16 word \<times> byte list) list" where
  "allocate_attrs lifetime a =
     [(ATTR_REQUESTED_TRANSPORT, [REQUESTED_TRANSPORT_UDP, 0, 0, 0]), (ATTR_LIFETIME, to_be32 lifetime),
      (ATTR_USERNAME, bytes_of (aa_username a)), (ATTR_REALM, bytes_of (aa_realm a)), (ATTR_NONCE, aa_nonce a)]"

definition signed_part :: "byte list \<Rightarrow> 32 word \<Rightarrow> auth_attrs \<Rightarrow> byte list" where
  "signed_part txn lifetime a =
     build_header txn (METHOD_ALLOCATE OR CLASS_REQUEST) (length (attrs_bytes (allocate_attrs lifetime a)) + 24)
       @ attrs_bytes (allocate_attrs lifetime a)"

lemma fixed_attr_bytes:
  "to_be16 ATTR_REQUESTED_TRANSPORT @ to_be16 4 @ [REQUESTED_TRANSPORT_UDP, 0, 0, 0]
     @ to_be16 ATTR_LIFETIME @ to_be16 4 @ to_be32 lifetime
   = attr_bytes ATTR_REQUESTED_TRANSPORT [REQUESTED_TRANSPORT_UDP, 0, 0, 0]
     @ attr_bytes ATTR_LIFETIME (to_be32 lifetime)"
proof -
  have "len16 4 = 4" "padding 4 = 0" by (simp_all add: len16_def padding_def)
  then show ?thesis by (simp add: attr_bytes_def eval_nat_numeral)
qed

lemma build_allocate_signed:
  defines "msg \<equiv> METHOD_ALLOCATE OR CLASS_REQUEST"
  shows "build_allocate tc txn lifetime (Some a) =
    build_header txn msg
      (length (attrs_bytes (allocate_attrs lifetime a @
        [(ATTR_MESSAGE_INTEGRITY, tc_hmac_sha1 tc (aa_key a) (signed_part txn lifetime a))])))
    @ attrs_bytes (allocate_attrs lifetime a @
        [(ATTR_MESSAGE_INTEGRITY, tc_hmac_sha1 tc (aa_key a) (signed_part txn lifetime a))])"
  unfolding build_allocate_def signed_part_def msg_def [symmetric] fixed_attr_bytes
  by (simp only: allocate_attrs_def attrs_bytes_def encode_attr_eq Let_def option.case
      list.map concat.simps prod.case append_assoc append_Nil append_Nil2 append_Cons)

text \<open>The integrity tag of an authenticated Allocate request is the HMAC, under the
  long-term key, of exactly the bytes that precede its attribute in the datagram: the length
  in the header that is hashed is the length in the header that is sent.\<close>

theorem integrity_covers_sent_bytes:
  assumes "\<And>k m. length (tc_hmac_sha1 tc k m) = 20"
  shows "build_allocate tc txn lifetime (Some a) =
    signed_part txn lifetime a
      @ attr_bytes ATTR_MESSAGE_INTEGRITY (tc_hmac_sha1 tc (aa_key a) (signed_part txn lifetime a))"
proof -
  let ?tag = "tc_hmac_sha1 tc (aa_key a) (signed_part txn lifetime a)"
  have "length (attrs_bytes (allocate_attrs lifetime a @ [(ATTR_MESSAGE_INTEGRITY, ?tag)]))
      = length (attrs_bytes (allocate_attrs lifetime a)) + 24"
    by (simp add: attrs_bytes_def attr_bytes_length assms padding_def)
  then show ?thesis
    by (simp add: build_allocate_signed signed_part_def attrs_bytes_def)
qed


definition sample_crypto :: turn_crypto where
  "sample_crypto = \<lparr>tc_md5 = (\<lambda>m. replicate 16 (of_nat (length m))), tc_hmac_sha1 = (\<lambda>k m. replicate 20 (of_nat (length m)))\<rparr>"

definition sample_auth :: auth_attrs where
  "sample_auth = \<lparr>aa_username = ''bob'', aa_realm = ''lan'', aa_nonce = [1, 2, 3, 4, 5], aa_key = []\<rparr>"

lemma integrity_covers_sent_bytes_witness:
  "build_allocate sample_crypto (replicate 12 7) 600 (Some sample_auth) =
    signed_part (replicate 12 7) 600 sample_auth
      @ attr_bytes ATTR_MESSAGE_INTEGRITY
          (tc_hmac_sha1 sample_crypto (aa_key sample_auth) (signed_part (replicate 12 7) 600 sample_auth))"
  by (rule integrity_covers_sent_bytes) (simp add: sample_crypto_def)


end
