(* ===== verification/Lifecycle_Manifest.thy ===== *)
theory Lifecycle_Manifest
  imports Keyed_Store "HOL-Library.List_Lexorder" "HOL-Library.Char_ord"
begin

text \<open>
  The service manifests (\<open>wylde-shared/src/manifest.rs\<close>): the record with its JSON form, the
  directory of \<open>.json\<close> files, and the operations of a service (\<open>write\<close>, heartbeat,
  \<open>mark_stopped\<close>, \<open>update_contributes\<close>) and of the daemon (\<open>mark_orphan_dead\<close>, \<open>mark_failed\<close>).
  The time is the string that \<open>now_iso\<close> prints; whether a write to the disk succeeds is an argument.
\<close>

section \<open>The record\<close>

record manifest_status =
  mf_pid :: "32 word"
  mf_started_at :: string
  mf_heartbeat :: string
  mf_state :: string
  mf_stop_time :: "string option"
  mf_last_seen :: "string option"

record manifest_data =
  mf_service :: string
  mf_version :: string
  mf_pipe :: string
  mf_port :: "16 word option"
  mf_category :: string
  mf_description :: string
  mf_entry_point :: string
  mf_contributes :: json
  mf_startup_sequence :: "string list"
  mf_shutdown_attested :: bool
  mf_status :: manifest_status

definition MANIFEST_VERSION :: string where
  "MANIFEST_VERSION = ''1.0.0''"

text \<open>The serializer: an absent \<open>port\<close> is \<open>null\<close>, an absent time is left out.\<close>

definition opt_member :: "string \<Rightarrow> string option \<Rightarrow> (string \<times> json) list" where
  "opt_member k x = (case x of None \<Rightarrow> [] | Some s \<Rightarrow> [(k, JStr s)])"

definition status_to_json :: "manifest_status \<Rightarrow> json" where
  "status_to_json s = JObj (
     [(''pid'', JInt (uint (mf_pid s))), (''started_at'', JStr (mf_started_at s)),
      (''heartbeat'', JStr (mf_heartbeat s)), (''state'', JStr (mf_state s))]
     @ opt_member ''stop_time'' (mf_stop_time s) @ opt_member ''last_seen'' (mf_last_seen s))"

definition manifest_to_json :: "manifest_data \<Rightarrow> json" where
  "manifest_to_json m = JObj
     [(''service'', JStr (mf_service m)), (''version'', JStr (mf_version m)), (''pipe'', JStr (mf_pipe m)),
      (''port'', case mf_port m of None \<Rightarrow> JNull | Some p \<Rightarrow> JInt (uint p)),
      (''category'', JStr (mf_category m)), (''description'', JStr (mf_description m)),
      (''entry_point'', JStr (mf_entry_point m)), (''contributes'', mf_contributes m),
      (''startup_sequence'', JArr (map JStr (mf_startup_sequence m))),
      (''shutdown_attested'', JBool (mf_shutdown_attested m)), (''status'', status_to_json (mf_status m))]"

text \<open>
  The parser that \<open>serde\<close> derives, from an object: every member but the optional ones must be
  there with its type, others are ignored. A wrong member is an error, \<open>None\<close>.
\<close>

definition word_member :: "string \<Rightarrow> json \<Rightarrow> 'a::len word option" where
  "word_member k j = (case jget k j of
     Some (JInt i) \<Rightarrow> if 0 \<le> i \<and> i < 2 ^ LENGTH('a) then Some (word_of_int i) else None | _ \<Rightarrow> None)"

definition opt_str_member :: "string \<Rightarrow> json \<Rightarrow> string option option" where
  "opt_str_member k j = (case jget k j of
     None \<Rightarrow> Some None | Some JNull \<Rightarrow> Some None | Some (JStr s) \<Rightarrow> Some (Some s) | _ \<Rightarrow> None)"

definition opt_word_member :: "string \<Rightarrow> json \<Rightarrow> 'a::len word option option" where
  "opt_word_member k j = (case jget k j of
     None \<Rightarrow> Some None | Some JNull \<Rightarrow> Some None | _ \<Rightarrow> map_option Some (word_member k j))"

fun json_strs :: "json list \<Rightarrow> string list option" where
  "json_strs [] = Some []"
| "json_strs (JStr s # js) = map_option ((#) s) (json_strs js)"
| "json_strs (_ # js) = None"

definition strs_member :: "string \<Rightarrow> json \<Rightarrow> string list option" where
  "strs_member k j = (case jget k j of Some (JArr js) \<Rightarrow> json_strs js | _ \<Rightarrow> None)"

definition status_of_json :: "json \<Rightarrow> manifest_status option" where
  "status_of_json j =
     (case (word_member ''pid'' j, get_str ''started_at'' j, get_str ''heartbeat'' j, get_str ''state'' j,
            opt_str_member ''stop_time'' j, opt_str_member ''last_seen'' j) of
        (Some p, Some sa, Some hb, Some st, Some stop, Some seen) \<Rightarrow>
          Some \<lparr>mf_pid = p, mf_started_at = sa, mf_heartbeat = hb, mf_state = st,
                mf_stop_time = stop, mf_last_seen = seen\<rparr>
      | _ \<Rightarrow> None)"

definition manifest_of_json :: "json \<Rightarrow> manifest_data option" where
  "manifest_of_json j =
     (case (get_str ''service'' j, get_str ''version'' j, get_str ''pipe'' j, opt_word_member ''port'' j,
            get_str ''category'' j, get_str ''description'' j, get_str ''entry_point'' j) of
        (Some sv, Some ve, Some pp, Some po, Some ca, Some de, Some en) \<Rightarrow>
          (case (jget ''contributes'' j, strs_member ''startup_sequence'' j,
                 Option.bind (jget ''shutdown_attested'' j) as_bool, Option.bind (jget ''status'' j) status_of_json) of
             (Some co, Some sq, Some sa, Some st) \<Rightarrow>
               Some \<lparr>mf_service = sv, mf_version = ve, mf_pipe = pp, mf_port = po, mf_category = ca,
                     mf_description = de, mf_entry_point = en, mf_contributes = co,
                     mf_startup_sequence = sq, mf_shutdown_attested = sa, mf_status = st\<rparr>
           | _ \<Rightarrow> None)
      | _ \<Rightarrow> None)"

section \<open>The directory\<close>

text \<open>
  The \<open>.json\<close> files by their stem; \<open>None\<close> is a file that cannot be read or is not JSON.
  \<open>manifest_paths\<close> lists them in the order of their paths, as every walk sorts them.
\<close>

type_synonym manifest_dir = "(string, json option) hmap"

definition manifest_paths :: "manifest_dir \<Rightarrow> (string \<times> json option) list" where
  "manifest_paths d = sort_key (\<lambda>e. fst e @ ''.json'') d"

definition atomic_write :: "bool \<Rightarrow> string \<Rightarrow> manifest_data \<Rightarrow> manifest_dir \<Rightarrow> bool \<times> manifest_dir" where
  "atomic_write disk_ok service m d =
     (if disk_ok then (True, hm_put service (Some (manifest_to_json m)) d) else (False, d))"

section \<open>What a service does with its manifest\<close>

text \<open>The writer of a service is its cached record.\<close>

definition manifest_write ::
  "bool \<Rightarrow> string \<Rightarrow> 32 word \<Rightarrow> string list \<Rightarrow> string \<Rightarrow> 16 word option \<Rightarrow> string \<Rightarrow> string \<Rightarrow> json \<Rightarrow> string
   \<Rightarrow> manifest_dir \<Rightarrow> manifest_data option \<times> manifest_dir" where
  "manifest_write disk_ok now pid pre_phases service port category description contributes entry_point d =
     (let started_at = unwrap_or now (Option.bind (Option.bind (hm_get d service) id)
                         (\<lambda>v. Option.bind (jget ''status'' v) (get_str ''started_at'')));
          pipe_suffix = unwrap_or service (strip_prefix ''wylde-'' service);
          sequence = (if pre_phases \<noteq> [] \<and> last pre_phases = ''write_manifest'' then pre_phases
                      else pre_phases @ [''write_manifest'']);
          m = \<lparr>mf_service = service, mf_version = MANIFEST_VERSION,
               mf_pipe = [CHR 0x5C, CHR 0x5C] @ ''.'' @ [CHR 0x5C] @ ''pipe'' @ [CHR 0x5C] @ ''wylde-'' @ pipe_suffix,
               mf_port = port, mf_category = category, mf_description = description, mf_entry_point = entry_point,
               mf_contributes = contributes, mf_startup_sequence = sequence, mf_shutdown_attested = False,
               mf_status = \<lparr>mf_pid = pid, mf_started_at = started_at, mf_heartbeat = now, mf_state = ''alive'',
                            mf_stop_time = None, mf_last_seen = None\<rparr>\<rparr>
      in case atomic_write disk_ok service m d of (ok, d') \<Rightarrow> (if ok then Some m else None, d'))"

definition persist_phase :: "bool \<Rightarrow> string \<Rightarrow> string \<Rightarrow> manifest_data \<Rightarrow> manifest_dir \<Rightarrow> manifest_data \<times> bool \<times> manifest_dir" where
  "persist_phase disk_ok service phase m d =
     (let sq = mf_startup_sequence m;
          m' = (if sq \<noteq> [] \<and> last sq = phase then m else m\<lparr>mf_startup_sequence := sq @ [phase]\<rparr>)
      in (m', atomic_write disk_ok service m' d))"

definition heartbeat_tick :: "bool \<Rightarrow> string \<Rightarrow> string \<Rightarrow> manifest_data \<Rightarrow> manifest_dir \<Rightarrow> manifest_data \<times> bool \<times> manifest_dir" where
  "heartbeat_tick disk_ok now service m d =
     (let m' = m\<lparr>mf_status := (mf_status m)\<lparr>mf_heartbeat := now\<rparr>\<rparr> in (m', atomic_write disk_ok service m' d))"

definition mark_stopped :: "bool \<Rightarrow> string \<Rightarrow> string \<Rightarrow> manifest_data \<Rightarrow> manifest_dir \<Rightarrow> manifest_data \<times> bool \<times> manifest_dir" where
  "mark_stopped disk_ok now service m d =
     (let m' = m\<lparr>mf_status := (mf_status m)\<lparr>mf_state := ''stopped'', mf_stop_time := Some now, mf_heartbeat := now\<rparr>,
                 mf_shutdown_attested := True\<rparr>
      in (m', atomic_write disk_ok service m' d))"

definition update_contributes :: "bool \<Rightarrow> string \<Rightarrow> string \<Rightarrow> json \<Rightarrow> manifest_data \<Rightarrow> manifest_dir \<Rightarrow> manifest_data \<times> bool \<times> manifest_dir" where
  "update_contributes disk_ok now service contributes m d =
     (let m' = m\<lparr>mf_contributes := contributes, mf_status := (mf_status m)\<lparr>mf_heartbeat := now\<rparr>\<rparr>
      in (m', atomic_write disk_ok service m' d))"

section \<open>What the daemon does with it\<close>

text \<open>Both marks rewrite the file with another state; a file that is not there is fine.\<close>

definition mark_orphan_dead :: "bool \<Rightarrow> string \<Rightarrow> string \<Rightarrow> manifest_dir \<Rightarrow> bool \<times> manifest_dir" where
  "mark_orphan_dead disk_ok now service d =
     (case hm_get d service of
        None \<Rightarrow> (True, d)
      | Some doc \<Rightarrow>
          (case Option.bind doc manifest_of_json of
             None \<Rightarrow> (False, d)
           | Some m \<Rightarrow> atomic_write disk_ok service
               (m\<lparr>mf_status := (mf_status m)\<lparr>mf_state := ''dead-orphan'', mf_last_seen := Some now\<rparr>\<rparr>) d))"

definition mark_failed :: "bool \<Rightarrow> string \<Rightarrow> string \<Rightarrow> manifest_dir \<Rightarrow> bool \<times> manifest_dir" where
  "mark_failed disk_ok now service d =
     (case hm_get d service of
        None \<Rightarrow> (True, d)
      | Some doc \<Rightarrow>
          (case Option.bind doc manifest_of_json of
             None \<Rightarrow> (False, d)
           | Some m \<Rightarrow> atomic_write disk_ok service
               (m\<lparr>mf_status := (mf_status m)\<lparr>mf_state := ''failed'', mf_last_seen := Some now\<rparr>\<rparr>) d))"

section \<open>Lemmas\<close>

lemma word_member_uint [simp]: "jget k j = Some (JInt (uint w)) \<Longrightarrow> word_member k j = Some w"
  by (simp add: word_member_def uint_lt2p [of w, simplified])

lemma json_strs_map [simp]: "json_strs (map JStr xs) = Some xs"
  by (induction xs) simp_all

lemma status_round_trip [simp]: "status_of_json (status_to_json s) = Some s"
  by (cases "mf_stop_time s"; cases "mf_last_seen s")
    (simp_all add: status_of_json_def status_to_json_def opt_member_def get_str_def opt_str_member_def)

lemma manifest_round_trip_eq: "manifest_of_json (manifest_to_json m) = Some m"
  by (cases "mf_port m")
    (simp_all add: manifest_of_json_def manifest_to_json_def get_str_def strs_member_def opt_word_member_def
      word_member_def uint_lt2p [where 'a = 16, simplified])

lemma manifest_round_trip_bind [simp]: "Option.bind (Some (manifest_to_json m)) manifest_of_json = Some m"
  by (simp add: manifest_round_trip_eq)

lemma set_manifest_paths [simp]: "set (manifest_paths d) = set d"
  by (simp add: manifest_paths_def)

lemma hm_ok_manifest_paths: "hm_ok d \<Longrightarrow> hm_ok (manifest_paths d)"
  unfolding hm_ok_def manifest_paths_def
  by (simp add: distinct_map inj_on_def)

text \<open>The state that a manifest shows to the sweeps: none when there is no such manifest.\<close>

definition shown_state :: "manifest_dir \<Rightarrow> string \<Rightarrow> string option" where
  "shown_state d service = Option.bind (Option.bind (hm_get d service) id)
     (\<lambda>v. Option.bind (jget ''status'' v) (get_str ''state''))"

lemma shown_state_put [simp]:
  "shown_state (hm_put k (Some (manifest_to_json m)) d) k' =
     (if k' = k then Some (mf_state (mf_status m)) else shown_state d k')"
  by (simp add: shown_state_def manifest_to_json_def status_to_json_def get_str_def)

lemma atomic_write_state:
  "atomic_write disk_ok k m d = (ok, d') \<Longrightarrow>
     shown_state d' k' = (if disk_ok \<and> k' = k then Some (mf_state (mf_status m)) else shown_state d k')"
  by (auto simp: atomic_write_def split: if_splits)

lemma manifest_service: "manifest_of_json v = Some m \<Longrightarrow> get_str ''service'' v = Some (mf_service m)"
  by (auto simp: manifest_of_json_def split: option.splits)

text \<open>
  Every file is named after the service it speaks of: \<open>ManifestWriter\<close> writes
  \<open><service>.json\<close>. The one exception, Core's own \<open>core.json\<close>, is written by the daemon itself,
  whose pid is alive.
\<close>

definition files_named :: "manifest_dir \<Rightarrow> bool" where
  "files_named d \<longleftrightarrow> hm_ok d \<and> (\<forall>k v s. hm_get d k = Some (Some v) \<longrightarrow> get_str ''service'' v = Some s \<longrightarrow> s = k)"

lemma files_named_put:
  "files_named d \<Longrightarrow> get_str ''service'' v = Some k \<Longrightarrow> files_named (hm_put k (Some v) d)"
  by (auto simp: files_named_def)

lemma get_service_written [simp]: "get_str ''service'' (manifest_to_json m) = Some (mf_service m)"
  by (simp add: get_str_def manifest_to_json_def)

lemma atomic_write_named:
  "files_named d \<Longrightarrow> mf_service m = k \<Longrightarrow> atomic_write disk_ok k m d = (r, d') \<Longrightarrow> files_named d'"
  by (auto simp: atomic_write_def files_named_put split: if_splits)

lemma atomic_write_frame:
  "atomic_write disk_ok k m d = (r, d') \<Longrightarrow> k' \<noteq> k \<Longrightarrow> hm_get d' k' = hm_get d k'"
  by (auto simp: atomic_write_def split: if_splits)

lemma mark_failed_frame:
  "k \<noteq> service \<Longrightarrow> hm_get (snd (mark_failed disk_ok now service d)) k = hm_get d k"
  by (auto simp: mark_failed_def atomic_write_def split: option.split)

lemma mark_failed_named: "files_named d \<Longrightarrow> files_named (snd (mark_failed disk_ok now service d))"
  by (auto simp: mark_failed_def atomic_write_def files_named_def split: option.split bind_splits)
    (metis manifest_service)

lemma manifest_write_service:
  "manifest_write b now pid ph service po ca de co en d = (Some m, d') \<Longrightarrow> mf_service m = service"
  by (auto simp: manifest_write_def Let_def atomic_write_def split: if_splits)

lemma manifest_write_frame:
  "manifest_write b now pid ph service po ca de co en d = (r, d') \<Longrightarrow> k \<noteq> service \<Longrightarrow> hm_get d' k = hm_get d k"
  by (auto simp: manifest_write_def Let_def atomic_write_def split: if_splits)

lemma manifest_write_named:
  "manifest_write b now pid ph service po ca de co en d = (r, d') \<Longrightarrow> files_named d \<Longrightarrow> files_named d'"
  by (auto simp: manifest_write_def Let_def split: prod.splits if_splits elim!: atomic_write_named [rotated 2])

lemma mark_stopped_named:
  "mark_stopped disk_ok now service m d = (m', r, d') \<Longrightarrow> mf_service m = service \<Longrightarrow> files_named d \<Longrightarrow> files_named d'"
  by (auto simp: mark_stopped_def Let_def elim!: atomic_write_named [rotated 2])

lemma mark_stopped_frame:
  "mark_stopped disk_ok now service m d = (m', r, d') \<Longrightarrow> k \<noteq> service \<Longrightarrow> hm_get d' k = hm_get d k"
  by (auto simp: mark_stopped_def Let_def dest: atomic_write_frame)

lemma persist_phase_own:
  assumes "persist_phase disk_ok service phase m d = (m', r, d')" and "mf_service m = service"
  shows "mf_service m' = service" "k \<noteq> service \<Longrightarrow> hm_get d' k = hm_get d k" "files_named d \<Longrightarrow> files_named d'"
  using assms
  by (auto simp: persist_phase_def Let_def dest: atomic_write_frame split: if_splits elim!: atomic_write_named [rotated 2])

end
