(* ===== verification/Lifecycle_Restart.thy ===== *)
theory Lifecycle_Restart
  imports Keyed_Store
begin

text \<open>
  The crash-restart policy of the lifecycle daemon (\<open>wylde-lifecycle/src/state/restart.rs\<close>):
  the governor, its backoff, and the planning step over the orphans of a sweep. Times and
  durations are nanoseconds; an \<open>Instant\<close> is the time since an origin.
\<close>

section \<open>Configuration\<close>

record restart_config =
  rc_enabled :: bool
  rc_max_restarts :: nat
  rc_window :: nat
  rc_base_backoff :: nat
  rc_max_backoff :: nat

definition from_secs :: "nat \<Rightarrow> nat" where
  "from_secs s = s * 10 ^ 9"

definition from_millis :: "nat \<Rightarrow> nat" where
  "from_millis ms = ms * 10 ^ 6"

definition as_millis :: "nat \<Rightarrow> nat" where
  "as_millis d = d div 10 ^ 6"

definition restart_default :: restart_config where
  "restart_default = \<lparr>rc_enabled = True, rc_max_restarts = 5, rc_window = from_secs 600,
     rc_base_backoff = from_secs 1, rc_max_backoff = from_secs 60\<rparr>"

text \<open>\<open>env_bool\<close> on the value of the variable (\<open>to_lowercase\<close> on the ASCII words it is compared with).\<close>

definition env_bool :: "string option \<Rightarrow> bool \<Rightarrow> bool" where
  "env_bool v d = (case v of None \<Rightarrow> d
     | Some s \<Rightarrow> to_ascii_lowercase (trim s) \<notin> {''0'', ''false'', ''no'', ''off'', ''''})"

section \<open>The governor\<close>

datatype restart_decision = Restart nat nat | TripBreaker nat | Pending | GaveUp

text \<open>\<open>Restart delay attempt\<close>, \<open>TripBreaker attempts\<close>.\<close>

record entry =
  en_window_start :: "nat option"
  en_count :: nat
  en_pending :: bool
  en_failed :: bool

definition entry_default :: entry where
  "entry_default = \<lparr>en_window_start = None, en_count = 0, en_pending = False, en_failed = False\<rparr>"

type_synonym governor = "(string, entry) hmap"

definition backoff_for :: "nat \<Rightarrow> restart_config \<Rightarrow> nat" where
  "backoff_for attempt cfg =
     (let shift = min (attempt - 1) 32;
          mult = (if shift < 64 then 2 ^ shift else u64_max);
          base = min (as_millis (rc_base_backoff cfg)) u64_max;
          cap = min (as_millis (rc_max_backoff cfg)) u64_max;
          ms = min (min (base * mult) u64_max) cap
      in from_millis ms)"

text \<open>A crash that lands after the window elapsed starts a fresh count.\<close>

definition roll_window :: "nat \<Rightarrow> restart_config \<Rightarrow> entry \<Rightarrow> entry" where
  "roll_window now cfg e =
     (if (case en_window_start e of Some start \<Rightarrow> rc_window cfg < now - start | None \<Rightarrow> True)
      then e\<lparr>en_window_start := Some now, en_count := 0\<rparr> else e)"

definition entry_crash :: "nat \<Rightarrow> restart_config \<Rightarrow> entry \<Rightarrow> restart_decision \<times> entry" where
  "entry_crash now cfg e =
     (if en_failed e then (GaveUp, e)
      else if en_pending e then (Pending, e)
      else
        let e1 = roll_window now cfg e
        in if rc_max_restarts cfg \<le> en_count e1 then (TripBreaker (en_count e1), e1\<lparr>en_failed := True\<rparr>)
           else let n = en_count e1 + 1
                in (Restart (backoff_for n cfg) n, e1\<lparr>en_count := n, en_pending := True\<rparr>))"

definition on_crash :: "string \<Rightarrow> nat \<Rightarrow> restart_config \<Rightarrow> governor \<Rightarrow> restart_decision \<times> governor" where
  "on_crash name now cfg g =
     (let e = unwrap_or entry_default (hm_get g name)
      in case entry_crash now cfg e of (d, e') \<Rightarrow> (d, hm_put name e' g))"

definition on_restart_done :: "string \<Rightarrow> governor \<Rightarrow> governor" where
  "on_restart_done name g =
     (case hm_get g name of None \<Rightarrow> g | Some e \<Rightarrow> hm_put name (e\<lparr>en_pending := False\<rparr>) g)"

definition gov_forget :: "string \<Rightarrow> governor \<Rightarrow> governor" where
  "gov_forget name g = hm_del name g"

definition is_failed :: "string \<Rightarrow> governor \<Rightarrow> bool" where
  "is_failed name g = (case hm_get g name of None \<Rightarrow> False | Some e \<Rightarrow> en_failed e)"

text \<open>The planning step: the services that are owned, in the order of the list.\<close>

fun plan_restarts ::
  "string list \<Rightarrow> string set \<Rightarrow> restart_config \<Rightarrow> governor \<Rightarrow> nat \<Rightarrow> (string \<times> restart_decision) list \<times> governor" where
  "plan_restarts [] owned cfg g now = ([], g)"
| "plan_restarts (name # orphans) owned cfg g now =
     (if \<not> rc_enabled cfg then ([], g)
      else if name \<notin> owned then plan_restarts orphans owned cfg g now
      else case on_crash name now cfg g of
        (d, g1) \<Rightarrow> (case plan_restarts orphans owned cfg g1 now of (out, g2) \<Rightarrow> ((name, d) # out, g2)))"

section \<open>Backoff\<close>

lemma backoff_le_cap: "backoff_for n cfg \<le> rc_max_backoff cfg"
proof -
  have "from_millis (as_millis x) \<le> x" for x
    by (simp add: from_millis_def as_millis_def)
  moreover have "from_millis a \<le> from_millis b" if "a \<le> b" for a b
    using that by (simp add: from_millis_def)
  ultimately show ?thesis
    unfolding backoff_for_def Let_def by (meson le_trans min.cobounded1 min.cobounded2)
qed

lemma backoff_mono: "m \<le> n \<Longrightarrow> backoff_for m cfg \<le> backoff_for n cfg"
proof -
  assume "m \<le> n"
  then have "(2::nat) ^ min (m - 1) 32 \<le> 2 ^ min (n - 1) 32"
    by (intro power_increasing) auto
  then show ?thesis
    unfolding backoff_for_def Let_def from_millis_def
    by (intro mult_le_mono1 min.mono order_refl) (auto intro: mult_le_mono2)
qed

lemma backoff_exact:
  assumes "1 \<le> n" and "n \<le> 33" and "as_millis (rc_base_backoff cfg) * 2 ^ (n - 1) < 2 ^ 64"
    and "as_millis (rc_max_backoff cfg) < 2 ^ 64"
  shows "backoff_for n cfg =
    from_millis (min (as_millis (rc_base_backoff cfg) * 2 ^ (n - 1)) (as_millis (rc_max_backoff cfg)))"
proof -
  let ?b = "as_millis (rc_base_backoff cfg)"
  have "?b \<le> ?b * 2 ^ (n - 1)" by simp
  then have "?b < 2 ^ 64" by (rule le_less_trans [OF _ assms(3)])
  then have "min ?b u64_max = ?b" "min (?b * 2 ^ (n - 1)) u64_max = ?b * 2 ^ (n - 1)"
    "min (as_millis (rc_max_backoff cfg)) u64_max = as_millis (rc_max_backoff cfg)"
    using assms(3,4) by (simp_all add: u64_max_def)
  moreover have "min (n - 1) 32 = n - 1" "n - 1 < 64" using assms(2) by simp_all
  ultimately show ?thesis
    by (simp only: backoff_for_def Let_def if_True)
qed

section \<open>Runs of the governor\<close>

text \<open>
  A run is a sequence of observed crashes, finished restarts and intended stops. It returns
  the restarts that were granted, with the time of the crash.
\<close>

datatype restart_event = Crash string nat | Done string | Forget string

fun gov_run :: "restart_config \<Rightarrow> restart_event list \<Rightarrow> governor \<Rightarrow> (string \<times> nat) list \<times> governor" where
  "gov_run cfg [] g = ([], g)"
| "gov_run cfg (Crash k t # es) g =
     (case on_crash k t cfg g of (d, g1) \<Rightarrow>
        (case gov_run cfg es g1 of (hs, g2) \<Rightarrow>
           (case d of Restart _ _ \<Rightarrow> (k, t) # hs | _ \<Rightarrow> hs, g2)))"
| "gov_run cfg (Done k # es) g = gov_run cfg es (on_restart_done k g)"
| "gov_run cfg (Forget k # es) g = gov_run cfg es (gov_forget k g)"

fun event_time :: "restart_event \<Rightarrow> nat option" where
  "event_time (Crash k t) = Some t"
| "event_time _ = None"

definition crash_times :: "restart_event list \<Rightarrow> nat list" where
  "crash_times es = map the (filter (\<lambda>x. x \<noteq> None) (map event_time es))"

text \<open>The times of the restarts of one service.\<close>

definition times_of :: "string \<Rightarrow> (string \<times> nat) list \<Rightarrow> nat list" where
  "times_of k hs = map snd (filter (\<lambda>x. fst x = k) hs)"

definition count_if :: "('a \<Rightarrow> bool) \<Rightarrow> 'a list \<Rightarrow> nat" where
  "count_if p xs = length (filter p xs)"

lemma count_if_simps [simp]:
  "count_if p [] = 0" "count_if p (x # xs) = (if p x then 1 else 0) + count_if p xs"
  "count_if p (xs @ ys) = count_if p xs + count_if p ys"
  by (simp_all add: count_if_def)

lemma count_if_mono: "(\<And>x. x \<in> set xs \<Longrightarrow> p x \<Longrightarrow> q x) \<Longrightarrow> count_if p xs \<le> count_if q xs"
  by (induction xs) auto

lemma count_if_le_two: "(\<And>x. x \<in> set xs \<Longrightarrow> p x \<Longrightarrow> q x \<or> r x) \<Longrightarrow> count_if p xs \<le> count_if q xs + count_if r xs"
  by (induction xs) fastforce+

lemma count_if_none: "(\<And>x. x \<in> set xs \<Longrightarrow> \<not> p x) \<Longrightarrow> count_if p xs = 0"
  by (induction xs) auto

text \<open>
  What the entry of a service says of its restarts \<open>T\<close> so far: those of the current window are
  counted, and those that lie less than a window before it are at most the limit as well.
\<close>

definition budget_inv :: "restart_config \<Rightarrow> nat \<Rightarrow> entry option \<Rightarrow> nat list \<Rightarrow> bool" where
  "budget_inv cfg now eo T \<longleftrightarrow> (\<forall>t \<in> set T. t \<le> now)
     \<and> (\<forall>a. count_if (\<lambda>t. a \<le> t \<and> t \<le> a + rc_window cfg) T \<le> 2 * rc_max_restarts cfg)
     \<and> (case eo of None \<Rightarrow> T = [] | Some e \<Rightarrow>
          (case en_window_start e of None \<Rightarrow> T = [] | Some ws \<Rightarrow>
             ws \<le> now \<and> (\<forall>t \<in> set T. t \<le> ws + rc_window cfg) \<and> en_count e \<le> rc_max_restarts cfg \<and> count_if (\<lambda>t. ws \<le> t) T = en_count e
             \<and> count_if (\<lambda>t. t < ws \<and> ws \<le> t + rc_window cfg) T \<le> rc_max_restarts cfg))"

lemma budget_inv_later: "budget_inv cfg now eo T \<Longrightarrow> now \<le> t \<Longrightarrow> budget_inv cfg t eo T"
  by (force simp: budget_inv_def split: option.splits)

lemma budget_inv_flags:
  "en_window_start e' = en_window_start e \<Longrightarrow> en_count e' = en_count e
     \<Longrightarrow> budget_inv cfg now (Some e') T = budget_inv cfg now (Some e) T"
  by (simp add: budget_inv_def split: option.split)

text \<open>The window rolls over: the count starts again, what was counted becomes the past.\<close>

lemma budget_inv_roll:
  assumes "budget_inv cfg now (Some e) T" and "now \<le> t"
    and "case en_window_start e of Some ws \<Rightarrow> rc_window cfg < t - ws | None \<Rightarrow> True"
  shows "budget_inv cfg t (Some (e\<lparr>en_window_start := Some t, en_count := 0\<rparr>)) T"
proof (cases "en_window_start e")
  case None
  then show ?thesis using assms(1) by (simp add: budget_inv_def)
next
  case (Some ws)
  have past: "\<forall>x \<in> set T. x \<le> now \<and> x \<le> ws + rc_window cfg" and n: "en_count e \<le> rc_max_restarts cfg"
    and c: "count_if (\<lambda>t. ws \<le> t) T = en_count e"
    and lim: "\<forall>a. count_if (\<lambda>t. a \<le> t \<and> t \<le> a + rc_window cfg) T \<le> 2 * rc_max_restarts cfg"
    using assms(1) Some by (auto simp: budget_inv_def)
  have t: "ws + rc_window cfg < t" using assms(3) Some by simp
  have "count_if (\<lambda>x. t \<le> x) T = 0"
    by (rule count_if_none) (use past t in force)
  moreover have "count_if (\<lambda>x. x < t \<and> t \<le> x + rc_window cfg) T \<le> count_if (\<lambda>x. ws \<le> x) T"
    by (rule count_if_mono) (use t in simp)
  ultimately show ?thesis
    using past n c lim assms(2) by (force simp: budget_inv_def)
qed

text \<open>A grant: at most the past and the counted ones lie in an interval that reaches the new one.\<close>

lemma budget_inv_grant:
  assumes inv: "budget_inv cfg t (Some e) T" and ws: "en_window_start e = Some ws"
    and win: "t \<le> ws + rc_window cfg" and n: "en_count e < rc_max_restarts cfg"
  shows "budget_inv cfg t (Some (e\<lparr>en_count := en_count e + 1, en_pending := True\<rparr>)) (T @ [t])"
proof -
  have past: "\<forall>x \<in> set T. x \<le> t \<and> x \<le> ws + rc_window cfg"
    and c: "count_if (\<lambda>t. ws \<le> t) T = en_count e" and wt: "ws \<le> t"
    and prev: "count_if (\<lambda>t. t < ws \<and> ws \<le> t + rc_window cfg) T \<le> rc_max_restarts cfg"
    and lim: "\<forall>a. count_if (\<lambda>t. a \<le> t \<and> t \<le> a + rc_window cfg) T \<le> 2 * rc_max_restarts cfg"
    using inv ws by (auto simp: budget_inv_def)
  have "count_if (\<lambda>x. a \<le> x \<and> x \<le> a + rc_window cfg) (T @ [t]) \<le> 2 * rc_max_restarts cfg" for a
  proof (cases "t \<le> a + rc_window cfg")
    case True
    have "count_if (\<lambda>x. a \<le> x \<and> x \<le> a + rc_window cfg) T
        \<le> count_if (\<lambda>x. x < ws \<and> ws \<le> x + rc_window cfg) T + count_if (\<lambda>x. ws \<le> x) T"
      by (rule count_if_le_two) (use True wt in auto)
    then show ?thesis using c prev n by simp
  qed (use lim in simp)
  then show ?thesis
    using past c wt prev n win ws by (auto simp: budget_inv_def)
qed

lemma budget_inv_crash:
  assumes inv: "budget_inv cfg now (Some e) T" and t: "now \<le> t" and step: "entry_crash t cfg e = (d, e')"
  shows "budget_inv cfg t (Some e') (T @ (case d of Restart _ _ \<Rightarrow> [t] | _ \<Rightarrow> []))"
proof -
  let ?e1 = "roll_window t cfg e"
  have same: "budget_inv cfg t (Some e) T" by (rule budget_inv_later [OF inv t])
  have inv1: "budget_inv cfg t (Some ?e1) T"
    using budget_inv_roll [OF inv t] same by (simp add: roll_window_def)
  have "\<exists>ws. en_window_start ?e1 = Some ws \<and> t \<le> ws + rc_window cfg"
    by (cases "en_window_start e") (auto simp: roll_window_def)
  then obtain ws where ws: "en_window_start ?e1 = Some ws" "t \<le> ws + rc_window cfg" by blast
  show ?thesis
  proof (cases "en_failed e \<or> en_pending e")
    case True
    then have "e' = e" "d = GaveUp \<or> d = Pending" using step by (auto simp: entry_crash_def split: if_split_asm)
    then show ?thesis using same by auto
  next
    case active: False
    show ?thesis
    proof (cases "rc_max_restarts cfg \<le> en_count ?e1")
      case True
      then have "d = TripBreaker (en_count ?e1)" "e' = ?e1\<lparr>en_failed := True\<rparr>"
        using step active by (simp_all add: entry_crash_def Let_def)
      then show ?thesis using inv1 by (simp add: budget_inv_flags [of "?e1\<lparr>en_failed := True\<rparr>" ?e1])
    next
      case False
      then have "d = Restart (backoff_for (en_count ?e1 + 1) cfg) (en_count ?e1 + 1)"
        "e' = ?e1\<lparr>en_count := en_count ?e1 + 1, en_pending := True\<rparr>"
        using step active by (simp_all add: entry_crash_def Let_def)
      then show ?thesis using budget_inv_grant [OF inv1 ws] False by simp
    qed
  qed
qed

lemma budget_inv_fresh: "budget_inv cfg now None T \<Longrightarrow> budget_inv cfg now (Some entry_default) T"
  by (simp add: budget_inv_def entry_default_def)

lemma budget_inv_done: "budget_inv cfg now (hm_get g k) T \<Longrightarrow> budget_inv cfg now (hm_get (on_restart_done k' g) k) T"
  by (auto simp: on_restart_done_def budget_inv_def split: option.splits)

lemma times_of_simps [simp]:
  "times_of k [] = []" "times_of k (x # hs) = (if fst x = k then [snd x] else []) @ times_of k hs"
  by (simp_all add: times_of_def)

lemma gov_run_budget:
  assumes "budget_inv cfg now (hm_get g k) T" and "sorted (crash_times es)" and "\<forall>t \<in> set (crash_times es). now \<le> t"
    and "Forget k \<notin> set es"
  shows "\<exists>now' eo. budget_inv cfg now' eo (T @ times_of k (fst (gov_run cfg es g)))"
  using assms
proof (induction es arbitrary: now g T)
  case Nil
  then show ?case by auto
next
  case (Cons ev es)
  show ?case
  proof (cases ev)
    case (Crash k' t)
    obtain d g1 where c: "on_crash k' t cfg g = (d, g1)" by fastforce
    have le: "now \<le> t" and later: "sorted (crash_times es)" "\<forall>t' \<in> set (crash_times es). t \<le> t'"
      using Cons.prems(2,3) Crash by (auto simp: crash_times_def)
    let ?new = "case d of Restart _ _ \<Rightarrow> if k' = k then [t] else [] | _ \<Rightarrow> []"
    have "budget_inv cfg t (hm_get g1 k) (T @ ?new)"
    proof (cases "k' = k")
      case True
      have old: "budget_inv cfg now (Some (unwrap_or entry_default (hm_get g k))) T"
        using Cons.prems(1) budget_inv_fresh by (cases "hm_get g k") auto
      show ?thesis
        using budget_inv_crash [OF old le] c True
        by (auto simp: on_crash_def Let_def split: prod.splits restart_decision.splits)
    next
      case False
      then show ?thesis
        using c budget_inv_later [OF Cons.prems(1) le]
        by (auto simp: on_crash_def Let_def split: prod.splits restart_decision.splits)
    qed
    moreover have "times_of k (fst (gov_run cfg (ev # es) g)) = ?new @ times_of k (fst (gov_run cfg es g1))"
      using Crash c by (cases "gov_run cfg es g1") (auto split: restart_decision.splits)
    ultimately show ?thesis
      using Cons.IH [OF _ later] Cons.prems(4) by (metis append.assoc list.set_intros(2))
  next
    case (Done k')
    then show ?thesis
      using Cons.IH [OF budget_inv_done [OF Cons.prems(1)]] Cons.prems by (simp add: crash_times_def)
  next
    case (Forget k')
    then have "budget_inv cfg now (hm_get (gov_forget k' g) k) T"
      using Cons.prems(1,4) by (auto simp: gov_forget_def)
    from Cons.IH [OF this] show ?thesis
      using Cons.prems Forget by (simp add: crash_times_def)
  qed
qed

text \<open>C25: However often a service crashes, an interval of the length of the window holds at most
  twice \<open>max_restarts\<close> of its automatic restarts, as long as nobody stops the service.
\<close>

theorem restart_budget:
  assumes "sorted (crash_times es)" and "Forget k \<notin> set es"
  shows "count_if (\<lambda>t. a \<le> t \<and> t \<le> a + rc_window cfg) (times_of k (fst (gov_run cfg es []))) \<le> 2 * rc_max_restarts cfg"
proof -
  have "budget_inv cfg 0 (hm_get [] k) []" by (simp add: budget_inv_def)
  from gov_run_budget [OF this assms(1) _ assms(2)] show ?thesis
    by (auto simp: budget_inv_def)
qed

definition short_window :: restart_config where
  "short_window = restart_default\<lparr>rc_max_restarts := 2\<rparr>"

theorem restart_budget_witness:
  "count_if (\<lambda>t. 0 \<le> t \<and> t \<le> 0 + rc_window short_window)
     (times_of ''svc'' (fst (gov_run short_window [Crash ''svc'' 0, Done ''svc'', Crash ''svc'' 1] []))) \<le> 2 * rc_max_restarts short_window"
  by (rule restart_budget) (simp_all add: crash_times_def)

section \<open>Gates\<close>

text \<open>Nothing is granted for a service whose entry is failed, or waits for a restart to finish.\<close>

lemma on_crash_eq:
  "on_crash k t cfg g = (case entry_crash t cfg (unwrap_or entry_default (hm_get g k)) of (d, e) \<Rightarrow> (d, hm_put k e g))"
  by (simp add: on_crash_def Let_def)

lemma entry_crash_closed [simp]:
  "en_failed e \<Longrightarrow> entry_crash t cfg e = (GaveUp, e)"
  "\<not> en_failed e \<Longrightarrow> en_pending e \<Longrightarrow> entry_crash t cfg e = (Pending, e)"
  by (simp_all add: entry_crash_def)

lemma entry_crash_opens:
  assumes "entry_crash t cfg e = (d, e')"
  shows "d = Restart delay n \<Longrightarrow> en_pending e'" "d = TripBreaker n \<Longrightarrow> en_failed e'"
  using assms by (auto simp: entry_crash_def Let_def split: if_split_asm)

definition is_pending :: "string \<Rightarrow> governor \<Rightarrow> bool" where
  "is_pending k g = (case hm_get g k of None \<Rightarrow> False | Some e \<Rightarrow> en_pending e)"

definition grants_of :: "restart_decision \<Rightarrow> nat \<Rightarrow> nat list" where
  "grants_of d t = (case d of Restart _ _ \<Rightarrow> [t] | _ \<Rightarrow> [])"

lemma gov_run_Crash:
  "times_of k (fst (gov_run cfg (Crash k' t # es) g)) =
     (if k' = k then grants_of (fst (on_crash k' t cfg g)) t else []) @ times_of k (fst (gov_run cfg es (snd (on_crash k' t cfg g))))"
  by (auto simp: grants_of_def split: prod.splits restart_decision.splits)

lemma on_crash_failed:
  "is_failed k g \<Longrightarrow> is_failed k (snd (on_crash k' t cfg g)) \<and> (k' = k \<longrightarrow> grants_of (fst (on_crash k' t cfg g)) t = [])"
  by (cases "hm_get g k") (auto simp: on_crash_eq is_failed_def grants_of_def split: prod.split)

lemma on_crash_pending:
  "is_pending k g \<Longrightarrow> is_pending k (snd (on_crash k' t cfg g)) \<and> (k' = k \<longrightarrow> grants_of (fst (on_crash k' t cfg g)) t = [])"
  by (cases "hm_get g k"; cases "is_failed k g")
    (auto simp: on_crash_eq is_failed_def is_pending_def grants_of_def split: prod.split)

lemma gate_other_events:
  "is_failed k g \<Longrightarrow> is_failed k (on_restart_done k' g)"
  "is_failed k g \<Longrightarrow> k' \<noteq> k \<Longrightarrow> is_failed k (gov_forget k' g)"
  "is_pending k g \<Longrightarrow> k' \<noteq> k \<Longrightarrow> is_pending k (on_restart_done k' g)"
  "is_pending k g \<Longrightarrow> k' \<noteq> k \<Longrightarrow> is_pending k (gov_forget k' g)"
  by (auto simp: is_failed_def is_pending_def on_restart_done_def gov_forget_def split: option.splits)

lemma failed_no_grant:
  "is_failed k g \<Longrightarrow> Forget k \<notin> set es \<Longrightarrow> times_of k (fst (gov_run cfg es g)) = []"
proof (induction es arbitrary: g)
  case (Cons ev es)
  then show ?case
    using on_crash_failed [OF Cons.prems(1)] gate_other_events(1,2) [OF Cons.prems(1)]
    by (cases ev) (auto simp: gov_run_Crash simp del: gov_run.simps(2))
qed simp

lemma pending_no_grant:
  "is_pending k g \<Longrightarrow> Done k \<notin> set es \<Longrightarrow> Forget k \<notin> set es \<Longrightarrow> times_of k (fst (gov_run cfg es g)) = []"
proof (induction es arbitrary: g)
  case (Cons ev es)
  then show ?case
    using on_crash_pending [OF Cons.prems(1)] gate_other_events(3,4) [OF Cons.prems(1)]
    by (cases ev) (auto simp: gov_run_Crash simp del: gov_run.simps(2))
qed simp

lemma on_crash_opens:
  "fst (on_crash k t cfg g) = Restart delay n \<Longrightarrow> is_pending k (snd (on_crash k t cfg g))"
  "fst (on_crash k t cfg g) = TripBreaker n \<Longrightarrow> is_failed k (snd (on_crash k t cfg g))"
  by (auto simp: on_crash_eq is_pending_def is_failed_def split: prod.splits dest: entry_crash_opens)

text \<open>A granted restart is the only one of its service until it is reported done or the service is
  stopped; once the crash-loop breaker trips, nothing restarts the service before it is stopped.
\<close>

theorem restart_gates:
  assumes "Forget k \<notin> set es"
    and "(\<exists>delay n. fst (on_crash k t cfg g) = Restart delay n) \<and> Done k \<notin> set es
      \<or> (\<exists>n. fst (on_crash k t cfg g) = TripBreaker n)"
  shows "times_of k (fst (gov_run cfg es (snd (on_crash k t cfg g)))) = []"
  using assms on_crash_opens pending_no_grant failed_no_grant by blast

theorem restart_gates_witness:
  "times_of ''svc'' (fst (gov_run short_window [Crash ''svc'' 7, Crash ''svc'' 8]
     (snd (on_crash ''svc'' 5 short_window [])))) = []"
  by (rule restart_gates)
    (simp_all add: on_crash_eq entry_crash_def roll_window_def entry_default_def short_window_def restart_default_def)

text \<open>The backoff doubles with every restart of a window and stops at the cap: it is the base
  times a power of two as long as that fits, never more than \<open>max_backoff\<close>, and never shorter
  for a later restart.
\<close>

theorem backoff_doubles_to_cap:
  "backoff_for m cfg \<le> rc_max_backoff cfg
   \<and> (m \<le> n \<longrightarrow> backoff_for m cfg \<le> backoff_for n cfg)
   \<and> (1 \<le> n \<and> n \<le> 33 \<and> as_millis (rc_base_backoff cfg) * 2 ^ (n - 1) < 2 ^ 64 \<and> as_millis (rc_max_backoff cfg) < 2 ^ 64
      \<longrightarrow> backoff_for n cfg =
        from_millis (min (as_millis (rc_base_backoff cfg) * 2 ^ (n - 1)) (as_millis (rc_max_backoff cfg))))"
  using backoff_le_cap backoff_mono backoff_exact by blast

theorem backoff_doubles_to_cap_witness:
  "backoff_for 3 restart_default = from_secs 4 \<and> backoff_for 9 restart_default = from_secs 60"
  using backoff_doubles_to_cap [of 3 restart_default 3] backoff_doubles_to_cap [of 9 restart_default 9]
  by (simp add: restart_default_def as_millis_def from_secs_def from_millis_def)

definition straddling_crashes :: "restart_event list" where
  "straddling_crashes = concat (map (\<lambda>s. [Crash ''svc'' (from_secs s), Done ''svc''])
     [0, 565, 575, 585, 595, 601, 603, 606, 611, 620])"

text \<open>The window is not a sliding one. It starts with the first crash and is replaced as a whole,
  so with the shipped policy (5 restarts in 600 s) nine restarts fit into less than 60 s.
\<close>

theorem window_does_not_slide:
  "count_if (\<lambda>t. from_secs 565 \<le> t \<and> t \<le> from_secs 620)
     (times_of ''svc'' (fst (gov_run restart_default straddling_crashes []))) = 9
   \<and> rc_max_restarts restart_default = 5 \<and> from_secs 620 - from_secs 565 < rc_window restart_default"
proof -
  have "times_of ''svc'' (fst (gov_run restart_default straddling_crashes [])) =
      map from_secs [0, 565, 575, 585, 595, 601, 603, 606, 611, 620]"
    by (simp add: straddling_crashes_def on_crash_eq entry_crash_def roll_window_def entry_default_def
        restart_default_def on_restart_done_def Let_def from_secs_def)
  then show ?thesis by (simp add: restart_default_def from_secs_def)
qed

end
