(* ===== verification/Lifecycle_Services.thy ===== *)
theory Lifecycle_Services
  imports Lifecycle_Manifest Lifecycle_Restart Wire
begin

text \<open>
  The daemon's state and its service hooks (\<open>wylde-lifecycle/src/state/mod.rs\<close>,
  \<open>state/services.rs\<close>, \<open>daemon_managed.rs\<close>, and \<open>wylde-stack/src/service_name.rs\<close>): spawn
  records, child handles, the start and stop of every service, the table of the managed
  services with boot and shutdown. The governor and the pending restarts of
  \<open>state/restart.rs\<close> are part of the same state.
\<close>

section \<open>Service names\<close>

definition MEMGRAPH :: string where "MEMGRAPH = ''wylde-memgraph''"
definition VOICE :: string where "VOICE = ''wylde-voice''"
definition VRAM_BROKER :: string where "VRAM_BROKER = ''wylde-vram-broker''"
definition DEVICE_GATE :: string where "DEVICE_GATE = ''wylde-device-gate''"
definition EXTENSION_BRIDGE :: string where "EXTENSION_BRIDGE = ''wylde-extension-bridge''"
definition GATEWAY :: string where "GATEWAY = ''wylde-gateway''"
definition OLLAMA :: string where "OLLAMA = ''wylde-ollama''"
definition VPN :: string where "VPN = ''wylde-vpn''"
definition MEMORY_SCHEDULER :: string where "MEMORY_SCHEDULER = ''wylde-memory-scheduler''"
definition HARNESS :: string where "HARNESS = ''wylde-harness''"
definition TREESITTER :: string where "TREESITTER = ''wylde-treesitter''"
definition WORKSPACES :: string where "WORKSPACES = ''wylde-workspaces''"
definition N8N :: string where "N8N = ''wylde-n8n''"
definition N8N_ENGINE :: string where "N8N_ENGINE = ''wylde-n8n-engine''"

lemmas service_names = MEMGRAPH_def VOICE_def VRAM_BROKER_def DEVICE_GATE_def EXTENSION_BRIDGE_def GATEWAY_def
  OLLAMA_def VPN_def MEMORY_SCHEDULER_def HARNESS_def TREESITTER_def WORKSPACES_def N8N_def N8N_ENGINE_def

section \<open>State and environment\<close>

definition SPAWN_GRACE :: nat where
  "SPAWN_GRACE = from_secs 30"

record spawn_record =
  sn_pid :: "32 word"
  sn_spawn_time :: nat
  sn_impl_lang :: string
  sn_grace_satisfied :: bool

text \<open>
  \<open>sp_procs\<close> are the child handles, by their pid; \<open>sp_tasks\<close> the delayed restarts that were
  spawned, with the time they are due, and \<open>sp_resuming\<close> those whose ownership check has passed
  and that are about to start the service. \<open>sp_memgraph\<close> is the manifest writer that the daemon
  holds for the graph database. The lock of the state is never poisoned: no operation panics under it.
\<close>

record sup =
  sp_procs :: "(string, 32 word) hmap"
  sp_records :: "(string, spawn_record) hmap"
  sp_dir :: manifest_dir
  sp_nospawn :: bool
  sp_nospawn_services :: "(string, string) hmap"
  sp_governor :: governor
  sp_tasks :: "(string \<times> nat) list"
  sp_resuming :: "string list"
  sp_memgraph :: "manifest_data option"

record discovered_service =
  ds_name :: string
  ds_folder :: string
  ds_enabled :: bool
  ds_min_core :: "string option"

text \<open>
  What the daemon asks of its surroundings: clocks, the environment, files, processes. A spawn
  gives an error or the pid of the child; \<open>os_engine\<close> is the launch of the n8n engine, which may
  decide to do nothing; \<open>os_graph\<close> says whether the graph database answers, \<open>os_launcher\<close> whether
  its launcher exists, \<open>os_phases\<close> the startup phases that the daemon has attested. \<open>os_core_ok\<close> is the check of a sibling's \<open>min_core\<close> against the running core.
\<close>

record os =
  os_now :: nat
  os_now_iso :: string
  os_pid_alive :: "32 word \<Rightarrow> bool"
  os_child_alive :: "32 word \<Rightarrow> bool"
  os_env :: "string \<Rightarrow> string option"
  os_exists :: "string \<Rightarrow> bool"
  os_resolve :: "string \<Rightarrow> string option"
  os_spawn :: "string \<Rightarrow> (string, 32 word) rust_res"
  os_engine :: "(string, 32 word option) rust_res"
  os_graph :: bool
  os_launcher :: bool
  os_self_pid :: "32 word"
  os_phases :: "string list"
  os_stop :: "string \<Rightarrow> string option"
  os_disk_ok :: "string \<Rightarrow> bool"
  os_core_ok :: "string option \<Rightarrow> bool"
  os_discovered :: "discovered_service list"

type_synonym hook = "os \<Rightarrow> sup \<Rightarrow> (string, unit) rust_res \<times> sup"

definition sup_new :: "manifest_dir \<Rightarrow> sup" where
  "sup_new d = \<lparr>sp_procs = [], sp_records = [], sp_dir = d, sp_nospawn = False, sp_nospawn_services = [],
     sp_governor = [], sp_tasks = [], sp_resuming = [], sp_memgraph = None\<rparr>"

definition nospawn_record :: "string \<Rightarrow> string \<Rightarrow> sup \<Rightarrow> sup" where
  "nospawn_record name lang st = st\<lparr>sp_nospawn_services := hm_put name lang (sp_nospawn_services st)\<rparr>"

definition nospawn_take :: "string \<Rightarrow> sup \<Rightarrow> sup" where
  "nospawn_take name st = st\<lparr>sp_nospawn_services := hm_del name (sp_nospawn_services st)\<rparr>"

definition record_spawn :: "nat \<Rightarrow> string \<Rightarrow> 32 word \<Rightarrow> string \<Rightarrow> sup \<Rightarrow> sup" where
  "record_spawn now name pid lang st =
     st\<lparr>sp_records := hm_put name \<lparr>sn_pid = pid, sn_spawn_time = now, sn_impl_lang = lang,
                                   sn_grace_satisfied = False\<rparr> (sp_records st)\<rparr>"

definition forget_spawn :: "string \<Rightarrow> sup \<Rightarrow> sup" where
  "forget_spawn name st = st\<lparr>sp_records := hm_del name (sp_records st)\<rparr>"

definition spawn_record_exists :: "string \<Rightarrow> sup \<Rightarrow> bool" where
  "spawn_record_exists name st \<longleftrightarrow> hm_get (sp_records st) name \<noteq> None"

definition mark_grace_satisfied :: "string \<Rightarrow> sup \<Rightarrow> sup" where
  "mark_grace_satisfied name st =
     (case hm_get (sp_records st) name of None \<Rightarrow> st
      | Some rec \<Rightarrow> st\<lparr>sp_records := hm_put name (rec\<lparr>sn_grace_satisfied := True\<rparr>) (sp_records st)\<rparr>)"

definition set_service_proc :: "string \<Rightarrow> 32 word \<Rightarrow> sup \<Rightarrow> sup" where
  "set_service_proc name child st = st\<lparr>sp_procs := hm_put name child (sp_procs st)\<rparr>"

definition take_service_proc :: "string \<Rightarrow> sup \<Rightarrow> 32 word option \<times> sup" where
  "take_service_proc name st = (hm_get (sp_procs st) name, st\<lparr>sp_procs := hm_del name (sp_procs st)\<rparr>)"

definition is_service_alive :: "os \<Rightarrow> string \<Rightarrow> sup \<Rightarrow> bool" where
  "is_service_alive w name st =
     (if sp_nospawn st then hm_get (sp_nospawn_services st) name \<noteq> None
      else case hm_get (sp_procs st) name of None \<Rightarrow> False | Some child \<Rightarrow> os_child_alive w child)"

text \<open>Core's own manifest is \<open>core.json\<close>, every other one has the name of its service.\<close>

definition manifest_stem :: "string \<Rightarrow> string" where
  "manifest_stem name = (if name = ''wylde-core'' then ''core'' else name)"

definition manifest_exists :: "string \<Rightarrow> sup \<Rightarrow> bool" where
  "manifest_exists name st \<longleftrightarrow> hm_get (sp_dir st) (manifest_stem name) \<noteq> None"

section \<open>Binaries\<close>

definition bin_env_name :: "string \<Rightarrow> string" where
  "bin_env_name service =
     ''WYLDE_'' @ map (\<lambda>c. if c = CHR ''-'' then CHR ''_'' else c) (to_ascii_uppercase service) @ ''_BIN''"

definition rust_binary_path :: "os \<Rightarrow> string \<Rightarrow> string option" where
  "rust_binary_path w service =
     (case os_env w (bin_env_name service) of
        Some over \<Rightarrow> if os_exists w over then Some over else None
      | None \<Rightarrow> os_resolve w service)"

definition path_join :: "string \<Rightarrow> string \<Rightarrow> string" where
  "path_join d n = d @ [CHR 0x5C] @ n"

definition sibling_binary_path :: "os \<Rightarrow> string \<Rightarrow> string \<Rightarrow> string option" where
  "sibling_binary_path w folder service =
     (case os_env w (bin_env_name service) of
        Some over \<Rightarrow> if os_exists w over then Some over else None
      | None \<Rightarrow>
          let stripped = unwrap_or service (strip_prefix ''wylde-'' service);
              names = [''wylde-'' @ stripped @ ''.exe'', stripped @ ''.exe''];
              dirs = [folder, path_join (path_join folder ''target'') ''release'', path_join (path_join folder ''target'') ''debug'']
          in List.find (os_exists w) [path_join d n. d \<leftarrow> dirs, n \<leftarrow> names])"

section \<open>Start hooks\<close>

text \<open>What every start hook ends with: the child is spawned, recorded, and its handle kept.\<close>

definition spawn_and_record :: "os \<Rightarrow> string \<Rightarrow> string \<Rightarrow> sup \<Rightarrow> (string, unit) rust_res \<times> sup" where
  "spawn_and_record w name bin st =
     (case os_spawn w bin of
        Inl e \<Rightarrow> (Inl e, st)
      | Inr pid \<Rightarrow> (Inr (), set_service_proc name pid (record_spawn (os_now w) name pid ''rust'' st)))"

definition start_strangler :: "string \<Rightarrow> hook" where
  "start_strangler name w st =
     (if is_service_alive w name st then (Inr (), st)
      else if sp_nospawn st then (Inr (), nospawn_record name ''rust'' st)
      else case rust_binary_path w name of
        Some bin \<Rightarrow> spawn_and_record w name bin st
      | None \<Rightarrow> (Inr (), st))"

definition impl_for :: "os \<Rightarrow> string \<Rightarrow> string" where
  "impl_for w service =
     (case os_env w (''WYLDE_'' @ map (\<lambda>c. if c = CHR ''-'' then CHR ''_'' else c) (to_ascii_uppercase service) @ ''_IMPL'') of
        None \<Rightarrow> ''rust''
      | Some raw \<Rightarrow> if to_ascii_lowercase raw = ''python'' then ''python'' else ''rust'')"

definition start_ollama :: hook where
  "start_ollama w st =
     (if is_service_alive w OLLAMA st then (Inr (), st)
      else if sp_nospawn st then (Inr (), nospawn_record OLLAMA ''rust'' st)
      else case rust_binary_path w OLLAMA of
        None \<Rightarrow> (Inl (''ollama: rust binary not found (checked WYLDE_WYLDE_OLLAMA_BIN, rust/bin/wylde-ollama.exe, ''
               @ ''rust/target/release/wylde-ollama.exe, rust/target/debug/wylde-ollama.exe) '' @ em_dash
               @ '' build with `cargo build --release -p wylde-ollama` first''), st)
      | Some bin \<Rightarrow> spawn_and_record w OLLAMA bin st)"

definition start_treesitter :: hook where
  "start_treesitter w st =
     (if is_service_alive w TREESITTER st then (Inr (), st)
      else if sp_nospawn st then (Inr (), nospawn_record TREESITTER ''rust'' st)
      else case rust_binary_path w TREESITTER of
        None \<Rightarrow> (Inl (''treesitter: rust binary not found (checked WYLDE_WYLDE_TREESITTER_BIN, rust/bin/wylde-treesitter.exe, ''
               @ ''rust/target/release/wylde-treesitter.exe, rust/target/debug/wylde-treesitter.exe) '' @ em_dash
               @ '' build with `cargo build --release -p wylde-treesitter` first''), st)
      | Some bin \<Rightarrow> spawn_and_record w TREESITTER bin st)"

definition start_workspaces :: hook where
  "start_workspaces w st =
     (if is_service_alive w WORKSPACES st then (Inr (), st)
      else if sp_nospawn st then (Inr (), nospawn_record WORKSPACES ''rust'' st)
      else case rust_binary_path w WORKSPACES of
        None \<Rightarrow> (Inr (), st)
      | Some bin \<Rightarrow> spawn_and_record w WORKSPACES bin st)"

definition start_n8n :: hook where
  "start_n8n w st =
     (if is_service_alive w N8N st then (Inr (), st)
      else if sp_nospawn st then (Inr (), nospawn_record N8N ''rust'' st)
      else case rust_binary_path w N8N of
        None \<Rightarrow> (Inr (), st)
      | Some bin \<Rightarrow> spawn_and_record w N8N bin st)"

definition start_harness :: hook where
  "start_harness w st =
     (if is_service_alive w HARNESS st then (Inr (), st)
      else if sp_nospawn st then (Inr (), nospawn_record HARNESS (impl_for w HARNESS) st)
      else case rust_binary_path w HARNESS of
        None \<Rightarrow> (Inr (), st)
      | Some bin \<Rightarrow> spawn_and_record w HARNESS bin st)"

definition start_vpn :: hook where
  "start_vpn w st =
     (if is_service_alive w VPN st then (Inr (), st)
      else if sp_nospawn st then (Inr (), nospawn_record VPN ''rust'' st)
      else case rust_binary_path w VPN of
        None \<Rightarrow> (Inr (), st)
      | Some bin \<Rightarrow> spawn_and_record w VPN bin st)"

text \<open>A discovered sibling: refused when it needs a newer core, its binary lies beside its manifest.\<close>

definition start_discovered :: "discovered_service \<Rightarrow> hook" where
  "start_discovered svc w st =
     (let name = ds_name svc in
      if is_service_alive w name st then (Inr (), st)
      else if sp_nospawn st then (Inr (), nospawn_record name ''rust'' st)
      else if \<not> os_core_ok w (ds_min_core svc) then (Inr (), st)
      else case sibling_binary_path w (ds_folder svc) name of
        None \<Rightarrow> (Inr (), st)
      | Some bin \<Rightarrow> spawn_and_record w name bin st)"

text \<open>
  The graph database: an instance that already answers is adopted without a spawn, and the
  daemon writes the manifest, with its own pid, and attests the start of the heartbeat.
\<close>

definition bolt_port :: "os \<Rightarrow> 16 word" where
  "bolt_port w = unwrap_or 7687 (Option.bind (os_env w ''GRAPH_BOLT_PORT'') parse_u16)"

definition graph_manifest :: "os \<Rightarrow> sup \<Rightarrow> sup" where
  "graph_manifest w st =
     (case manifest_write (os_disk_ok w MEMGRAPH) (os_now_iso w) (os_self_pid w) (os_phases w) MEMGRAPH
             (Some (bolt_port w)) ''core''
             (''Graph data layer (bundled Neo4j via Bolt). Constituent pipe of Core '' @ em_dash
              @ '' the registry filters this entry out of the peer services list because ''
              @ ''Core's rollup manifest covers it.'')
             (JObj [(''dashboard'', JObj [(''label'', JStr ''Memgraph''), (''icon'', JStr ''database''),
                                          (''color'', JStr ''blue'')])])
             ''rust:wylde-lifecycle (in-daemon Neo4j supervisor)'' (sp_dir st) of
        (Some m, d) \<Rightarrow>
          (case persist_phase (os_disk_ok w MEMGRAPH) MEMGRAPH ''start_heartbeat'' m d of
             (m', _, d') \<Rightarrow> st\<lparr>sp_dir := d', sp_memgraph := Some m'\<rparr>)
      | (None, d) \<Rightarrow> st\<lparr>sp_dir := d\<rparr>)"

definition start_memgraph :: hook where
  "start_memgraph w st =
     (if is_service_alive w MEMGRAPH st then (Inr (), st)
      else if sp_nospawn st then (Inr (), nospawn_record MEMGRAPH ''rust'' st)
      else if os_graph w then (Inr (), graph_manifest w st)
      else if \<not> os_launcher w then (Inr (), st)
      else case spawn_and_record w MEMGRAPH ''cmd'' st of
        (Inl e, st1) \<Rightarrow> (Inl e, st1)
      | (Inr _, st1) \<Rightarrow> (Inr (), graph_manifest w st1))"

definition start_n8n_engine :: hook where
  "start_n8n_engine w st =
     (if is_service_alive w N8N_ENGINE st then (Inr (), st)
      else if sp_nospawn st then (Inr (), nospawn_record N8N_ENGINE ''rust'' st)
      else case os_engine w of
        Inl e \<Rightarrow> (Inl e, st)
      | Inr None \<Rightarrow> (Inr (), st)
      | Inr (Some pid) \<Rightarrow>
          (Inr (), set_service_proc N8N_ENGINE pid (record_spawn (os_now w) N8N_ENGINE pid ''rust'' st)))"

definition start_memory_scheduler :: hook where
  "start_memory_scheduler w st = (Inr (), st)"

section \<open>Stop hooks\<close>

definition stop_service :: "string \<Rightarrow> hook" where
  "stop_service name w st =
     (let st1 = forget_spawn name st;
          st2 = st1\<lparr>sp_governor := gov_forget name (sp_governor st1)\<rparr>
      in if sp_nospawn st2 then (Inr (), nospawn_take name st2)
         else case take_service_proc name st2 of
           (None, st3) \<Rightarrow> (Inr (), st3)
         | (Some child, st3) \<Rightarrow> (case os_stop w name of None \<Rightarrow> Inr () | Some e \<Rightarrow> Inl e, st3))"

definition stop_memgraph :: hook where
  "stop_memgraph w st =
     (let st1 = forget_spawn MEMGRAPH st
      in if sp_nospawn st1 then (Inr (), (nospawn_take MEMGRAPH st1)\<lparr>sp_memgraph := None\<rparr>)
         else case take_service_proc MEMGRAPH st1 of
           (child, st2) \<Rightarrow>
             (case sp_memgraph st2 of
                None \<Rightarrow> (Inr (), st2)
              | Some m \<Rightarrow>
                  (case mark_stopped (os_disk_ok w MEMGRAPH) (os_now_iso w) MEMGRAPH m (sp_dir st2) of
                     (_, _, d) \<Rightarrow> (Inr (), st2\<lparr>sp_dir := d, sp_memgraph := None\<rparr>))))"

section \<open>The table of managed services\<close>

datatype role = Standard | UserStarted | BootOnlyNoop

fun boots :: "role \<Rightarrow> bool" where
  "boots Standard = True"
| "boots UserStarted = False"
| "boots BootOnlyNoop = True"

fun is_managed :: "role \<Rightarrow> bool" where
  "is_managed Standard = True"
| "is_managed UserStarted = True"
| "is_managed BootOnlyNoop = False"

record daemon_service =
  dm_name :: string
  dm_start :: hook
  dm_stop :: "hook option"
  dm_role :: role
  dm_rank :: nat

definition managed_row :: "string \<Rightarrow> hook \<Rightarrow> hook \<Rightarrow> role \<Rightarrow> nat \<Rightarrow> daemon_service" where
  "managed_row name start stop role rank =
     \<lparr>dm_name = name, dm_start = start, dm_stop = Some stop, dm_role = role, dm_rank = rank\<rparr>"

definition DAEMON_MANAGED :: "daemon_service list" where
  "DAEMON_MANAGED =
     [managed_row MEMGRAPH start_memgraph stop_memgraph Standard 11,
      \<lparr>dm_name = MEMORY_SCHEDULER, dm_start = start_memory_scheduler, dm_stop = None,
       dm_role = BootOnlyNoop, dm_rank = 65535\<rparr>,
      managed_row VRAM_BROKER (start_strangler VRAM_BROKER) (stop_service VRAM_BROKER) Standard 10,
      managed_row VOICE (start_strangler VOICE) (stop_service VOICE) Standard 6,
      managed_row DEVICE_GATE (start_strangler DEVICE_GATE) (stop_service DEVICE_GATE) Standard 7,
      managed_row EXTENSION_BRIDGE (start_strangler EXTENSION_BRIDGE) (stop_service EXTENSION_BRIDGE) Standard 4,
      managed_row OLLAMA start_ollama (stop_service OLLAMA) Standard 8,
      managed_row GATEWAY (start_strangler GATEWAY) (stop_service GATEWAY) Standard 0,
      managed_row HARNESS start_harness (stop_service HARNESS) Standard 5,
      managed_row TREESITTER start_treesitter (stop_service TREESITTER) Standard 3,
      managed_row WORKSPACES start_workspaces (stop_service WORKSPACES) Standard 2,
      managed_row N8N_ENGINE start_n8n_engine (stop_service N8N_ENGINE) Standard 12,
      managed_row N8N start_n8n (stop_service N8N) Standard 1,
      managed_row VPN start_vpn (stop_service VPN) UserStarted 9]"

definition boot_sequence :: "daemon_service list" where
  "boot_sequence = filter (\<lambda>s. boots (dm_role s)) DAEMON_MANAGED"

definition shutdown_sequence :: "daemon_service list" where
  "shutdown_sequence = sort_key dm_rank (filter (\<lambda>s. is_managed (dm_role s)) DAEMON_MANAGED)"

definition dispatchable :: "string \<Rightarrow> daemon_service option" where
  "dispatchable name = List.find (\<lambda>s. dm_name s = name \<and> is_managed (dm_role s)) DAEMON_MANAGED"

definition core_service_names :: "string list" where
  "core_service_names = map dm_name (filter (\<lambda>s. is_managed (dm_role s)) DAEMON_MANAGED)"

section \<open>Dispatch, boot and shutdown\<close>

definition dispatch_start :: "string \<Rightarrow> hook" where
  "dispatch_start name w st =
     (case dispatchable name of
        Some svc \<Rightarrow> dm_start svc w st
      | None \<Rightarrow>
          (case List.find (\<lambda>d. ds_name d = name) (os_discovered w) of
             Some svc \<Rightarrow> start_discovered svc w st
           | None \<Rightarrow> (Inl (''not a daemon-managed service: '' @ name), st)))"

definition dispatch_stop :: "string \<Rightarrow> hook" where
  "dispatch_stop name w st =
     (case Option.bind (dispatchable name) dm_stop of
        Some stop \<Rightarrow> stop w st
      | None \<Rightarrow> stop_service name w st)"

text \<open>The boot loops of \<open>serve_forever\<close>: a failed start is logged and the next service follows.\<close>

fun boot_core :: "daemon_service list \<Rightarrow> os \<Rightarrow> sup \<Rightarrow> sup" where
  "boot_core [] w st = st"
| "boot_core (svc # rest) w st = boot_core rest w (snd (dm_start svc w st))"

fun boot_siblings :: "discovered_service list \<Rightarrow> os \<Rightarrow> sup \<Rightarrow> sup" where
  "boot_siblings [] w st = st"
| "boot_siblings (svc # rest) w st =
     boot_siblings rest w (if ds_enabled svc then snd (start_discovered svc w st) else st)"

definition boot_services :: "os \<Rightarrow> sup \<Rightarrow> sup" where
  "boot_services w st =
     (let st1 = boot_core boot_sequence w st
      in if sp_nospawn st1 then st1 else boot_siblings (os_discovered w) w st1)"

definition is_or_was_tracked :: "string \<Rightarrow> sup \<Rightarrow> bool" where
  "is_or_was_tracked name st =
     (if manifest_exists name st then True
      else if name = VRAM_BROKER then manifest_exists ''vram-broker'' st else False)"

text \<open>
  \<open>stop_all_daemon_managed\<close>: siblings first, then the managed services in the order of their
  rank. It returns the names it reports as stopped and the failures; the recurring sweep is halted
  before and \<open>core.json\<close> removed after.
\<close>

fun stop_siblings :: "discovered_service list \<Rightarrow> os \<Rightarrow> sup \<Rightarrow> string list \<times> (string \<times> string) list \<times> sup" where
  "stop_siblings [] w st = ([], [], st)"
| "stop_siblings (svc # rest) w st =
     (case stop_service (ds_name svc) w st of
        (r, st1) \<Rightarrow> (case stop_siblings rest w st1 of
          (stopped, failed, st2) \<Rightarrow>
            (case r of
               Inl e \<Rightarrow> (stopped, (ds_name svc, e) # failed, st2)
             | Inr _ \<Rightarrow> (if is_or_was_tracked (ds_name svc) st1 then ds_name svc # stopped else stopped, failed, st2))))"

fun stop_managed :: "daemon_service list \<Rightarrow> os \<Rightarrow> sup \<Rightarrow> string list \<times> (string \<times> string) list \<times> sup" where
  "stop_managed [] w st = ([], [], st)"
| "stop_managed (svc # rest) w st =
     (let name = dm_name svc; was_alive = is_service_alive w name st
      in case (case dm_stop svc of Some stop \<Rightarrow> stop w st | None \<Rightarrow> (Inr (), st)) of
        (r, st1) \<Rightarrow> (case stop_managed rest w st1 of
          (stopped, failed, st2) \<Rightarrow>
            (case r of
               Inl e \<Rightarrow> (stopped, (name, e) # failed, st2)
             | Inr _ \<Rightarrow>
                 (if (if sp_nospawn st then was_alive else is_or_was_tracked name st1)
                  then name # stopped else stopped, failed, st2))))"

definition stop_all_daemon_managed :: "os \<Rightarrow> sup \<Rightarrow> string list \<times> (string \<times> string) list \<times> sup" where
  "stop_all_daemon_managed w st =
     (case (if sp_nospawn st then ([], [], st) else stop_siblings (os_discovered w) w st) of
        (stopped1, failed1, st1) \<Rightarrow>
          (case stop_managed shutdown_sequence w st1 of
             (stopped2, failed2, st2) \<Rightarrow>
               (stopped1 @ stopped2, failed1 @ failed2,
                if sp_nospawn st then st2 else st2\<lparr>sp_dir := hm_del ''core'' (sp_dir st2)\<rparr>)))"

end
