(* ===== verification/Lifecycle_Sweep.thy ===== *)
theory Lifecycle_Sweep
  imports Lifecycle_Services
begin

text \<open>
  The orphan sweeps (\<open>wylde-lifecycle/src/state/orphan_sweep.rs\<close>) and the driver of the
  crash-restarts (\<open>state/restart.rs\<close>): the sweep finds services whose manifest says alive and
  whose pid is gone, the governor decides, delayed tasks restart.
\<close>

section \<open>Sweeps\<close>

text \<open>
  The check both sweeps make of a parsed manifest: a state of \<open>alive\<close>, or none at all, and a
  pid in range that is not running.
\<close>

definition alive_but_dead :: "os \<Rightarrow> json \<Rightarrow> bool" where
  "alive_but_dead w data =
     (case jget ''status'' data of
        Some (JObj status) \<Rightarrow>
          (case get_str ''state'' (JObj status) of Some s \<Rightarrow> s = ''alive'' | None \<Rightarrow> True)
          \<and> (case Option.bind (jget ''pid'' (JObj status)) as_u64 of
               Some p \<Rightarrow> 0 < p \<and> p < 2 ^ 32 \<and> \<not> os_pid_alive w (word_of_nat p)
             | None \<Rightarrow> False)
      | _ \<Rightarrow> False)"

record sweep_report =
  sw_orphans :: "string list"
  sw_failed_to_launch :: "string list"
  sw_checked :: nat

text \<open>One file of the recurring sweep.\<close>

definition sweep_file :: "os \<Rightarrow> string \<Rightarrow> manifest_dir \<Rightarrow> string option \<times> manifest_dir" where
  "sweep_file w stem d =
     (case hm_get d stem of
        Some (Some data) \<Rightarrow>
          if alive_but_dead w data then
            (case get_str ''service'' data of
               None \<Rightarrow> (None, d)
             | Some service \<Rightarrow>
                 (case mark_orphan_dead (os_disk_ok w service) (os_now_iso w) service d of
                    (ok, d') \<Rightarrow> (if ok then Some service else None, d')))
          else (None, d)
      | _ \<Rightarrow> (None, d))"

fun sweep_files :: "os \<Rightarrow> string list \<Rightarrow> manifest_dir \<Rightarrow> string list \<times> manifest_dir" where
  "sweep_files w [] d = ([], d)"
| "sweep_files w (stem # stems) d =
     (case sweep_file w stem d of
        (o1, d1) \<Rightarrow> (case sweep_files w stems d1 of
          (os, d2) \<Rightarrow> ((case o1 of None \<Rightarrow> os | Some s \<Rightarrow> s # os), d2)))"

text \<open>The failed-to-launch check of the spawn records, over a snapshot of them.\<close>

fun launch_check :: "os \<Rightarrow> (string \<times> spawn_record) list \<Rightarrow> sup \<Rightarrow> string list \<times> sup" where
  "launch_check w [] st = ([], st)"
| "launch_check w ((name, rec) # recs) st =
     (if sn_grace_satisfied rec then launch_check w recs st
      else if manifest_exists name st then launch_check w recs (mark_grace_satisfied name st)
      else if os_now w - sn_spawn_time rec < SPAWN_GRACE then launch_check w recs st
      else if os_pid_alive w (sn_pid rec) then launch_check w recs st
      else case launch_check w recs (mark_grace_satisfied name st) of (out, st') \<Rightarrow> (name # out, st'))"

definition sweep_orphans :: "os \<Rightarrow> sup \<Rightarrow> sweep_report \<times> sup" where
  "sweep_orphans w st =
     (let stems = map fst (manifest_paths (sp_dir st))
      in case sweep_files w stems (sp_dir st) of
        (orphans, d) \<Rightarrow>
          (case launch_check w (sp_records st) (st\<lparr>sp_dir := d\<rparr>) of
             (failed, st') \<Rightarrow> (\<lparr>sw_orphans = orphans, sw_failed_to_launch = failed, sw_checked = length stems\<rparr>, st')))"

text \<open>The boot sweep removes such manifests; in no-spawn mode it only lists them.\<close>

record boot_report =
  br_removed :: "string list"
  br_would_remove :: "string list"
  br_checked :: nat

fun boot_files :: "os \<Rightarrow> bool \<Rightarrow> string list \<Rightarrow> manifest_dir \<Rightarrow> string list \<times> string list \<times> manifest_dir" where
  "boot_files w nospawn [] d = ([], [], d)"
| "boot_files w nospawn (stem # stems) d =
     (case hm_get d stem of
        Some (Some data) \<Rightarrow>
          if alive_but_dead w data then
            let service = unwrap_or stem (get_str ''service'' data)
            in if nospawn then
                 (case boot_files w nospawn stems d of (rm, wr, d') \<Rightarrow> (rm, service # wr, d'))
               else if os_disk_ok w stem then
                 (case boot_files w nospawn stems (hm_del stem d) of (rm, wr, d') \<Rightarrow> (service # rm, wr, d'))
               else boot_files w nospawn stems d
          else boot_files w nospawn stems d
      | _ \<Rightarrow> boot_files w nospawn stems d)"

definition boot_orphan_sweep :: "os \<Rightarrow> sup \<Rightarrow> boot_report \<times> sup" where
  "boot_orphan_sweep w st =
     (let stems = map fst (manifest_paths (sp_dir st))
      in case boot_files w (sp_nospawn st) stems (sp_dir st) of
        (rm, wr, d) \<Rightarrow> (\<lparr>br_removed = rm, br_would_remove = wr, br_checked = length stems\<rparr>, st\<lparr>sp_dir := d\<rparr>))"

section \<open>Driving restarts\<close>

definition act_on :: "os \<Rightarrow> string \<times> restart_decision \<Rightarrow> sup \<Rightarrow> sup" where
  "act_on w a st =
     (case a of
        (name, Restart delay _) \<Rightarrow> st\<lparr>sp_tasks := sp_tasks st @ [(name, os_now w + delay)]\<rparr>
      | (name, TripBreaker _) \<Rightarrow> st\<lparr>sp_dir := snd (mark_failed (os_disk_ok w name) (os_now_iso w) name (sp_dir st))\<rparr>
      | (name, _) \<Rightarrow> st)"

definition drive_restarts :: "restart_config \<Rightarrow> os \<Rightarrow> string list \<Rightarrow> sup \<Rightarrow> sup" where
  "drive_restarts cfg w orphans st =
     (if \<not> rc_enabled cfg \<or> orphans = [] then st
      else case plan_restarts orphans (set (map fst (sp_records st))) cfg (sp_governor st) (os_now w) of
        (actions, g) \<Rightarrow> foldl (\<lambda>s a. act_on w a s) (st\<lparr>sp_governor := g\<rparr>) actions)"

text \<open>One tick of the sweep task.\<close>

definition sweep_tick :: "restart_config \<Rightarrow> os \<Rightarrow> sup \<Rightarrow> sup" where
  "sweep_tick cfg w st = (case sweep_orphans w st of (report, st') \<Rightarrow> drive_restarts cfg w (sw_orphans report) st')"

text \<open>
  A delayed restart, in the two moments at which it touches the state: after the sleep it checks
  that the service is still owned, and gives up when it is not; then it starts the service through
  the dispatch and reports to the governor, whether or not the start worked.
\<close>

definition restart_check :: "string \<Rightarrow> sup \<Rightarrow> sup" where
  "restart_check name st =
     (if \<not> spawn_record_exists name st then st\<lparr>sp_governor := on_restart_done name (sp_governor st)\<rparr>
      else st\<lparr>sp_resuming := sp_resuming st @ [name]\<rparr>)"

definition restart_resume :: "os \<Rightarrow> string \<Rightarrow> sup \<Rightarrow> sup" where
  "restart_resume w name st =
     (let st1 = snd (dispatch_start name w st) in st1\<lparr>sp_governor := on_restart_done name (sp_governor st1)\<rparr>)"

section \<open>The sweep on manifests that services wrote\<close>

definition dead_manifest :: "os \<Rightarrow> manifest_data \<Rightarrow> manifest_data" where
  "dead_manifest w m = m\<lparr>mf_status := (mf_status m)\<lparr>mf_state := ''dead-orphan'', mf_last_seen := Some (os_now_iso w)\<rparr>\<rparr>"

lemma dead_manifest_simps [simp]:
  "mf_state (mf_status (dead_manifest w m)) = ''dead-orphan''" "mf_service (dead_manifest w m) = mf_service m"
  "mf_pid (mf_status (dead_manifest w m)) = mf_pid (mf_status m)"
  by (simp_all add: dead_manifest_def)

lemma unat_word32_less: "unat (p :: 32 word) < 2 ^ 32"
  using unsigned_less [of p, where 'a = nat] by simp

lemma as_u64_word32 [simp]: "as_u64 (JInt (uint (p :: 32 word))) = Some (unat p)"
  using uint_lt2p [of p] by simp

lemma alive_but_dead_written [simp]:
  "alive_but_dead w (manifest_to_json m) \<longleftrightarrow>
     mf_state (mf_status m) = ''alive'' \<and> mf_pid (mf_status m) \<noteq> 0 \<and> \<not> os_pid_alive w (mf_pid (mf_status m))"
proof -
  show ?thesis
    using unat_word32_less [of "mf_pid (mf_status m)"] uint_lt2p [of "mf_pid (mf_status m)"]
    by (auto simp: alive_but_dead_def manifest_to_json_def status_to_json_def get_str_def unat_gt_0)
qed

lemma mark_orphan_dead_written:
  "hm_get d service = Some (Some (manifest_to_json m)) \<Longrightarrow>
     mark_orphan_dead disk_ok (os_now_iso w) service d = atomic_write disk_ok service (dead_manifest w m) d"
  by (simp add: mark_orphan_dead_def manifest_round_trip_eq dead_manifest_def)

lemma sweep_file_written:
  assumes "hm_get d k = Some (Some (manifest_to_json m))" and "mf_service m = k"
  shows "sweep_file w k d =
    (if mf_state (mf_status m) = ''alive'' \<and> mf_pid (mf_status m) \<noteq> 0 \<and> \<not> os_pid_alive w (mf_pid (mf_status m))
        \<and> os_disk_ok w k
     then (Some k, hm_put k (Some (manifest_to_json (dead_manifest w m))) d) else (None, d))"
  using assms by (simp add: sweep_file_def mark_orphan_dead_written atomic_write_def)

end
