(* ===== verification/Lifecycle_Supervisor.thy ===== *)
theory Lifecycle_Supervisor
  imports Lifecycle_Sweep
begin

text \<open>
  The supervisor as a state machine: ticks of the sweep, delayed restarts, commands of the
  operator and manifests that the services write, in any order. What it promises: a service
  that was stopped stays stopped, a crash is reported once and restarted, shutdown leaves nothing
  behind; and where it does not keep the promise.
\<close>

section \<open>What a hook may touch\<close>

text \<open>A hook of a service changes the records, the handle and the manifest of that service only.\<close>

definition sup_ok :: "sup \<Rightarrow> bool" where
  "sup_ok st \<longleftrightarrow> files_named (sp_dir st) \<and> (\<forall>m. sp_memgraph st = Some m \<longrightarrow> mf_service m = MEMGRAPH)"

definition own_change :: "string \<Rightarrow> sup \<Rightarrow> sup \<Rightarrow> bool" where
  "own_change name st st' \<longleftrightarrow>
     sp_governor st' = sp_governor st \<and> sp_tasks st' = sp_tasks st \<and> sp_resuming st' = sp_resuming st
     \<and> sp_nospawn st' = sp_nospawn st
     \<and> (\<forall>k. k \<noteq> name \<longrightarrow> hm_get (sp_records st') k = hm_get (sp_records st) k
            \<and> hm_get (sp_procs st') k = hm_get (sp_procs st) k
            \<and> hm_get (sp_dir st') k = hm_get (sp_dir st) k)
     \<and> (name \<noteq> MEMGRAPH \<longrightarrow> sp_dir st' = sp_dir st)
     \<and> (sup_ok st \<longrightarrow> sup_ok st')"

definition own_start :: "string \<Rightarrow> hook \<Rightarrow> bool" where
  "own_start name h \<longleftrightarrow> (\<forall>w st. own_change name st (snd (h w st)))"

named_theorems own_changes \<open>state changes that concern one service\<close>

lemmas sup_updates = nospawn_record_def nospawn_take_def record_spawn_def forget_spawn_def set_service_proc_def
  take_service_proc_def mark_grace_satisfied_def

lemma own_change_refl [own_changes]: "own_change name st st"
  by (simp add: own_change_def)

lemma own_change_trans: "own_change name st st1 \<Longrightarrow> own_change name st1 st2 \<Longrightarrow> own_change name st st2"
  by (simp add: own_change_def)

lemma own_change_nospawn [own_changes]: "own_change name st (nospawn_record name lang st)"
  by (simp add: own_change_def nospawn_record_def sup_ok_def)

lemma own_change_spawned [own_changes]:
  "own_change name st (set_service_proc name pid (record_spawn now name pid lang st))"
  by (simp add: own_change_def sup_updates sup_ok_def)

lemma own_change_spawn [own_changes]: "own_change name st (snd (spawn_and_record w name bin st))"
  by (simp add: spawn_and_record_def own_changes split: sum.split)

lemma graph_write_own:
  assumes "manifest_write b now pid ph MEMGRAPH po ca de co en (sp_dir st) = (r, d)"
  shows "own_change MEMGRAPH st (case r of
      Some m \<Rightarrow> (case persist_phase b' MEMGRAPH p m d of (m', _, d') \<Rightarrow> st\<lparr>sp_dir := d', sp_memgraph := Some m'\<rparr>)
    | None \<Rightarrow> st\<lparr>sp_dir := d\<rparr>)"
proof (cases r)
  case None
  then show ?thesis
    using manifest_write_frame [OF assms] manifest_write_named [OF assms] by (simp add: own_change_def sup_ok_def)
next
  case (Some m)
  obtain m' r' d' where pp: "persist_phase b' MEMGRAPH p m d = (m', r', d')" by (metis prod_cases3)
  note own = persist_phase_own [OF pp manifest_write_service [OF assms [unfolded Some]]]
  show ?thesis
    using manifest_write_frame [OF assms] manifest_write_named [OF assms] own
    by (simp add: Some pp own_change_def sup_ok_def)
qed

lemma own_change_graph [own_changes]: "own_change MEMGRAPH st (graph_manifest w st)"
  unfolding graph_manifest_def by (split prod.split, intro allI impI, rule graph_write_own)

lemma start_memgraph_own: "own_start MEMGRAPH start_memgraph"
  unfolding own_start_def start_memgraph_def
  using own_change_trans [OF own_change_spawn own_change_graph]
  by (auto simp: own_changes split: prod.split sum.split) (metis snd_conv own_change_spawn)+

lemma start_hooks_own:
  "own_start name (start_strangler name)" "own_start OLLAMA start_ollama" "own_start TREESITTER start_treesitter"
  "own_start WORKSPACES start_workspaces" "own_start N8N start_n8n" "own_start HARNESS start_harness"
  "own_start VPN start_vpn" "own_start N8N_ENGINE start_n8n_engine"
  "own_start MEMORY_SCHEDULER start_memory_scheduler"
  by (simp_all add: own_start_def own_changes start_strangler_def start_ollama_def start_treesitter_def
      start_workspaces_def start_n8n_def start_harness_def start_vpn_def start_n8n_engine_def
      start_memory_scheduler_def split: option.split sum.split)

lemma start_discovered_own: "own_start (ds_name svc) (start_discovered svc)"
  by (simp add: own_start_def own_changes start_discovered_def Let_def split: option.split)

lemma table_own_start: "svc \<in> set DAEMON_MANAGED \<Longrightarrow> own_start (dm_name svc) (dm_start svc)"
  unfolding DAEMON_MANAGED_def by (auto simp: managed_row_def intro: start_hooks_own start_memgraph_own)

lemma dispatch_start_own: "own_start name (dispatch_start name)"
proof -
  have "own_start name (dm_start svc)" if "dispatchable name = Some svc" for svc
    using that table_own_start [of svc] by (auto simp: dispatchable_def find_Some_iff)
  moreover have "own_start name (start_discovered svc)" if "List.find (\<lambda>d. ds_name d = name) ds = Some svc" for svc ds
    using that start_discovered_own [of svc] by (auto simp: find_Some_iff)
  ultimately show ?thesis
    unfolding own_start_def dispatch_start_def by (auto simp: own_changes split: option.split)
qed

section \<open>Steps\<close>

datatype sup_event = Tick | Wake string | Resume string | StartCmd string | StopCmd string | FileChange string

inductive sup_step :: "restart_config \<Rightarrow> sup \<Rightarrow> sup_event \<Rightarrow> sup \<Rightarrow> bool" for cfg where
  tick: "sup_step cfg st Tick (sweep_tick cfg w st)"
| wake: "(name, due) \<in> set (sp_tasks st) \<Longrightarrow> due \<le> os_now (w :: os)
    \<Longrightarrow> sup_step cfg st (Wake name) (restart_check name (st\<lparr>sp_tasks := remove1 (name, due) (sp_tasks st)\<rparr>))"
| resume: "name \<in> set (sp_resuming st)
    \<Longrightarrow> sup_step cfg st (Resume name) (restart_resume w name (st\<lparr>sp_resuming := remove1 name (sp_resuming st)\<rparr>))"
| start_cmd: "sup_step cfg st (StartCmd name) (snd (dispatch_start name w st))"
| stop_cmd: "sup_step cfg st (StopCmd name) (snd (dispatch_stop name w st))"
| file_change: "mf_service m = k
    \<Longrightarrow> sup_step cfg st (FileChange k) (st\<lparr>sp_dir := hm_put k (Some (manifest_to_json m)) (sp_dir st)\<rparr>)"

inductive_cases sup_step_ResumeE: "sup_step cfg st (Resume name) st'"

inductive sup_run :: "restart_config \<Rightarrow> sup \<Rightarrow> sup_event list \<Rightarrow> sup \<Rightarrow> bool" for cfg where
  start: "sup_run cfg st [] st"
| more: "sup_step cfg st ev st1 \<Longrightarrow> sup_run cfg st1 evs st' \<Longrightarrow> sup_run cfg st (ev # evs) st'"

lemma table_stops:
  "svc \<in> set DAEMON_MANAGED \<Longrightarrow> dm_stop svc = Some stop
     \<Longrightarrow> stop = stop_service (dm_name svc) \<or> dm_name svc = MEMGRAPH \<and> stop = stop_memgraph"
  unfolding DAEMON_MANAGED_def by (auto simp: managed_row_def)

lemma dispatch_stop_cases:
  "dispatch_stop name = stop_service name \<or> name = MEMGRAPH \<and> dispatch_stop name = stop_memgraph"
proof (cases "Option.bind (dispatchable name) dm_stop")
  case None
  then show ?thesis by (auto simp: dispatch_stop_def fun_eq_iff)
next
  case (Some stop)
  then obtain svc where "svc \<in> set DAEMON_MANAGED" "dm_name svc = name" "dm_stop svc = Some stop"
    by (auto simp: dispatchable_def dest: find_SomeD split: bind_splits)
  then show ?thesis
    using table_stops [of svc stop] Some by (auto simp: dispatch_stop_def fun_eq_iff)
qed

text \<open>What a stop changes: its own service's bookkeeping, never a pending restart.\<close>

definition own_stop :: "string \<Rightarrow> sup \<Rightarrow> sup \<Rightarrow> bool" where
  "own_stop name st st' \<longleftrightarrow>
     sp_tasks st' = sp_tasks st \<and> sp_resuming st' = sp_resuming st \<and> sp_nospawn st' = sp_nospawn st
     \<and> hm_get (sp_records st') name = None
     \<and> hm_get (sp_procs st') name = (if sp_nospawn st then hm_get (sp_procs st) name else None)
     \<and> (\<forall>k. k \<noteq> name \<longrightarrow> hm_get (sp_records st') k = hm_get (sp_records st) k
            \<and> hm_get (sp_procs st') k = hm_get (sp_procs st) k
            \<and> hm_get (sp_governor st') k = hm_get (sp_governor st) k
            \<and> hm_get (sp_dir st') k = hm_get (sp_dir st) k)
     \<and> (name \<noteq> MEMGRAPH \<longrightarrow> sp_dir st' = sp_dir st)
     \<and> (sup_ok st \<longrightarrow> sup_ok st')"

lemma stop_service_own: "own_stop name st (snd (stop_service name w st))"
  by (simp add: own_stop_def stop_service_def sup_updates gov_forget_def sup_ok_def Let_def split: option.split)

lemma stop_memgraph_own: "own_stop MEMGRAPH st (snd (stop_memgraph w st))"
  by (auto simp: own_stop_def stop_memgraph_def sup_updates sup_ok_def Let_def split: option.split prod.split
      dest: mark_stopped_frame mark_stopped_named)

lemma dispatch_stop_own: "own_stop name st (snd (dispatch_stop name w st))"
  using dispatch_stop_cases [of name] stop_service_own stop_memgraph_own by metis

section \<open>A stopped service stays stopped\<close>

definition gone :: "string \<Rightarrow> sup \<Rightarrow> bool" where
  "gone name st \<longleftrightarrow> hm_get (sp_records st) name = None \<and> hm_get (sp_procs st) name = None \<and> name \<notin> set (sp_resuming st)"

lemma mark_grace_frame:
  "sp_procs (mark_grace_satisfied n st) = sp_procs st \<and> sp_resuming (mark_grace_satisfied n st) = sp_resuming st
   \<and> sp_tasks (mark_grace_satisfied n st) = sp_tasks st \<and> sp_governor (mark_grace_satisfied n st) = sp_governor st
   \<and> sp_dir (mark_grace_satisfied n st) = sp_dir st \<and> sp_nospawn (mark_grace_satisfied n st) = sp_nospawn st
   \<and> (hm_get (sp_records (mark_grace_satisfied n st)) k = None \<longleftrightarrow> hm_get (sp_records st) k = None)"
  by (simp add: mark_grace_satisfied_def split: option.split)

lemma launch_check_frame:
  "sp_procs (snd (launch_check w recs st)) = sp_procs st \<and> sp_resuming (snd (launch_check w recs st)) = sp_resuming st
   \<and> sp_tasks (snd (launch_check w recs st)) = sp_tasks st \<and> sp_governor (snd (launch_check w recs st)) = sp_governor st
   \<and> sp_dir (snd (launch_check w recs st)) = sp_dir st \<and> sp_nospawn (snd (launch_check w recs st)) = sp_nospawn st
   \<and> (hm_get (sp_records (snd (launch_check w recs st))) k = None \<longleftrightarrow> hm_get (sp_records st) k = None)"
proof (induction recs arbitrary: st)
  case (Cons a recs)
  obtain name rec where a: "a = (name, rec)" by (cases a)
  show ?case
    using Cons.IH [of st] Cons.IH [of "mark_grace_satisfied name st"] mark_grace_frame [of name st k]
    by (simp add: a split_def)
qed simp

lemma act_on_frame:
  "sp_procs (act_on w a st) = sp_procs st \<and> sp_resuming (act_on w a st) = sp_resuming st
   \<and> sp_records (act_on w a st) = sp_records st \<and> sp_nospawn (act_on w a st) = sp_nospawn st
   \<and> sp_governor (act_on w a st) = sp_governor st"
  by (auto simp: act_on_def split: prod.split restart_decision.split)

lemma act_on_all_frame:
  "sp_procs (foldl (\<lambda>s a. act_on w a s) st as) = sp_procs st
   \<and> sp_resuming (foldl (\<lambda>s a. act_on w a s) st as) = sp_resuming st
   \<and> sp_records (foldl (\<lambda>s a. act_on w a s) st as) = sp_records st
   \<and> sp_nospawn (foldl (\<lambda>s a. act_on w a s) st as) = sp_nospawn st
   \<and> sp_governor (foldl (\<lambda>s a. act_on w a s) st as) = sp_governor st"
  by (induction as arbitrary: st) (simp_all add: act_on_frame)

lemma drive_restarts_frame:
  "sp_procs (drive_restarts cfg w os st) = sp_procs st \<and> sp_resuming (drive_restarts cfg w os st) = sp_resuming st
   \<and> sp_records (drive_restarts cfg w os st) = sp_records st \<and> sp_nospawn (drive_restarts cfg w os st) = sp_nospawn st"
  by (simp add: drive_restarts_def act_on_all_frame split: prod.split)

lemma sweep_orphans_frame:
  "sp_procs (snd (sweep_orphans w st)) = sp_procs st \<and> sp_resuming (snd (sweep_orphans w st)) = sp_resuming st
   \<and> sp_tasks (snd (sweep_orphans w st)) = sp_tasks st \<and> sp_governor (snd (sweep_orphans w st)) = sp_governor st
   \<and> sp_nospawn (snd (sweep_orphans w st)) = sp_nospawn st
   \<and> (hm_get (sp_records (snd (sweep_orphans w st))) k = None \<longleftrightarrow> hm_get (sp_records st) k = None)"
proof -
  obtain orphans d where f: "sweep_files w (map fst (manifest_paths (sp_dir st))) (sp_dir st) = (orphans, d)"
    by fastforce
  show ?thesis
    using launch_check_frame [of w "sp_records st" "st\<lparr>sp_dir := d\<rparr>" k]
    by (simp add: sweep_orphans_def f split_def)
qed

lemma sweep_tick_gone: "gone name st \<Longrightarrow> gone name (sweep_tick cfg w st)"
  using sweep_orphans_frame [of w st name]
  by (simp add: gone_def sweep_tick_def drive_restarts_frame split_def)

lemma gone_step:
  assumes "sup_step cfg st ev st'" and "gone name st" and "ev \<noteq> StartCmd name"
  shows "gone name st'"
  using assms
proof cases
  case (tick w)
  then show ?thesis using sweep_tick_gone assms(2) by simp
next
  case (wake n due w)
  then show ?thesis using assms(2) by (auto simp: gone_def restart_check_def spawn_record_exists_def)
next
  case (resume n w)
  moreover have "n \<noteq> name" using resume(3) assms(2) by (auto simp: gone_def)
  ultimately show ?thesis
    using assms(2) dispatch_start_own [of n]
    by (auto simp: gone_def restart_resume_def own_start_def own_change_def Let_def)
next
  case (start_cmd n w)
  then show ?thesis
    using assms(2,3) dispatch_start_own [of n] by (auto simp: gone_def own_start_def own_change_def)
next
  case (stop_cmd n w)
  then show ?thesis
    using assms(2) dispatch_stop_own [of n st w] by (cases "n = name") (auto simp: gone_def own_stop_def)
next
  case (file_change m k)
  then show ?thesis using assms(2) by (simp add: gone_def)
qed

lemma gone_run: "sup_run cfg st evs st' \<Longrightarrow> gone name st \<Longrightarrow> StartCmd name \<notin> set evs \<Longrightarrow> gone name st'"
  by (induction rule: sup_run.induct) (auto intro: gone_step)

text \<open>C24: An intended stop is sacrosanct: whatever sweeps, pending restarts and other commands follow,
  the service has no spawn record and no child again before an operator starts it, unless a
  restart had passed its ownership check before the stop.
\<close>

theorem stopped_stays_stopped:
  assumes "sup_run cfg (snd (dispatch_stop name w st)) evs st'" and "StartCmd name \<notin> set evs"
    and "\<not> sp_nospawn st" and "name \<notin> set (sp_resuming st)"
  shows "hm_get (sp_records st') name = None \<and> hm_get (sp_procs st') name = None"
proof -
  have "gone name (snd (dispatch_stop name w st))"
    using dispatch_stop_own [of name st w] assms(3,4) by (simp add: own_stop_def gone_def)
  from gone_run [OF assms(1) this assms(2)] show ?thesis by (simp add: gone_def)
qed

text \<open>A daemon whose gateway runs, in a world where every spawn succeeds and the old process is gone.\<close>

definition sample_os :: os where
  "sample_os = \<lparr>os_now = from_secs 100, os_now_iso = ''2026-01-01T00:01:40Z'', os_pid_alive = (\<lambda>_. False),
     os_child_alive = (\<lambda>_. False), os_env = (\<lambda>_. None), os_exists = (\<lambda>_. True),
     os_resolve = (\<lambda>s. Some (s @ ''.exe'')), os_spawn = (\<lambda>_. Inr 77), os_engine = Inr None, os_graph = False,
     os_launcher = True, os_self_pid = 5, os_phases = [], os_stop = (\<lambda>_. None), os_disk_ok = (\<lambda>_. True),
     os_core_ok = (\<lambda>_. True), os_discovered = []\<rparr>"

lemma sample_os_simps [simp]:
  "os_now sample_os = from_secs 100" "os_now_iso sample_os = ''2026-01-01T00:01:40Z''"
  "os_pid_alive sample_os p = False" "os_child_alive sample_os p = False" "os_env sample_os s = None"
  "os_exists sample_os s = True" "os_resolve sample_os s = Some (s @ ''.exe'')" "os_spawn sample_os s = Inr 77"
  "os_stop sample_os s = None" "os_disk_ok sample_os s = True" "os_discovered sample_os = []"
  by (simp_all add: sample_os_def)

lemma dispatch_gateway:
  "dispatch_start GATEWAY = start_strangler GATEWAY" "dispatch_stop GATEWAY = stop_service GATEWAY"
  by (simp_all add: fun_eq_iff dispatch_start_def dispatch_stop_def dispatchable_def DAEMON_MANAGED_def
      managed_row_def service_names)

theorem stopped_stays_stopped_witness:
  "hm_get (sp_records (sweep_tick restart_default sample_os
      (snd (dispatch_stop GATEWAY sample_os (snd (dispatch_start GATEWAY sample_os (sup_new []))))))) GATEWAY = None"
proof -
  let ?st = "snd (dispatch_start GATEWAY sample_os (sup_new []))"
  have "\<not> sp_nospawn ?st" "GATEWAY \<notin> set (sp_resuming ?st)"
    using dispatch_start_own [of GATEWAY] by (simp_all add: own_start_def own_change_def sup_new_def)
  moreover have "sup_run restart_default (snd (dispatch_stop GATEWAY sample_os ?st)) [Tick]
      (sweep_tick restart_default sample_os (snd (dispatch_stop GATEWAY sample_os ?st)))"
    by (rule sup_run.more [OF sup_step.tick sup_run.start])
  ultimately show ?thesis
    using stopped_stays_stopped [of restart_default GATEWAY sample_os ?st "[Tick]"] by simp
qed

definition gateway_up :: manifest_data where
  "gateway_up = \<lparr>mf_service = GATEWAY, mf_version = MANIFEST_VERSION, mf_pipe = ''p'', mf_port = Some 8080,
     mf_category = ''core'', mf_description = ''gateway'', mf_entry_point = ''rust:wylde-gateway'',
     mf_contributes = JNull, mf_startup_sequence = [''write_manifest''], mf_shutdown_attested = False,
     mf_status = \<lparr>mf_pid = 77, mf_started_at = ''t'', mf_heartbeat = ''t'', mf_state = ''alive'',
       mf_stop_time = None, mf_last_seen = None\<rparr>\<rparr>"

lemma gateway_up_simps [simp]:
  "mf_service gateway_up = GATEWAY" "mf_state (mf_status gateway_up) = ''alive''" "mf_pid (mf_status gateway_up) = 77"
  by (simp_all add: gateway_up_def)

text \<open>The exception is real. A stop that lands between the ownership check of a pending restart and
  the start it makes is undone: after start, crash, check, stop, resume the service is up again,
  with a record and a child, though the last command was to stop it.
\<close>

theorem stop_races_restart:
  "\<exists>st. sup_run restart_default (sup_new [])
      [StartCmd GATEWAY, FileChange GATEWAY, Tick, Wake GATEWAY, StopCmd GATEWAY, Resume GATEWAY] st
    \<and> spawn_record_exists GATEWAY st \<and> hm_get (sp_procs st) GATEWAY = Some 77"
proof -
  let ?rec = "\<lparr>sn_pid = 77, sn_spawn_time = from_secs 100, sn_impl_lang = ''rust'', sn_grace_satisfied = False\<rparr>"
  let ?s1 = "(sup_new [])\<lparr>sp_procs := [(GATEWAY, 77)], sp_records := [(GATEWAY, ?rec)]\<rparr>"
  let ?s2 = "?s1\<lparr>sp_dir := hm_put GATEWAY (Some (manifest_to_json gateway_up)) (sp_dir ?s1)\<rparr>"
  have s1: "sup_step restart_default (sup_new []) (StartCmd GATEWAY) ?s1"
    using sup_step.start_cmd [of restart_default "sup_new []" GATEWAY sample_os]
    by (simp add: dispatch_gateway start_strangler_def is_service_alive_def sup_new_def rust_binary_path_def
        spawn_and_record_def sup_updates hm_put_def)
  have sweep: "sweep_files sample_os (map fst (manifest_paths (sp_dir ?s2))) (sp_dir ?s2) =
      ([GATEWAY], hm_put GATEWAY (Some (manifest_to_json (dead_manifest sample_os gateway_up))) (sp_dir ?s2))"
    by (simp add: sup_new_def manifest_paths_def hm_put_def sweep_file_written [where m = gateway_up] hm_get_def)
  have "backoff_for 1 restart_default = from_secs 1"
    by (simp add: backoff_for_def restart_default_def as_millis_def from_secs_def from_millis_def u64_max_def)
  then obtain g where crash: "on_crash GATEWAY (from_secs 100) restart_default [] = (Restart (from_secs 1) 1, g)"
    by (simp add: on_crash_eq entry_crash_def roll_window_def entry_default_def restart_default_def)
  let ?s3 = "?s2\<lparr>sp_dir := hm_put GATEWAY (Some (manifest_to_json (dead_manifest sample_os gateway_up))) (sp_dir ?s2),
    sp_records := [(GATEWAY, ?rec\<lparr>sn_grace_satisfied := True\<rparr>)], sp_tasks := [(GATEWAY, from_secs 101)],
    sp_governor := g\<rparr>"
  have "manifest_stem GATEWAY = GATEWAY" "rc_enabled restart_default" "from_secs 100 + from_secs 1 = from_secs 101"
    "sp_governor (sup_new []) = []" "sp_tasks (sup_new []) = []" "sp_dir (sup_new []) = []"
    by (simp_all add: manifest_stem_def GATEWAY_def restart_default_def from_secs_def sup_new_def)
  then have "sweep_tick restart_default sample_os ?s2 = ?s3"
    unfolding sweep_tick_def sweep_orphans_def Let_def sweep
    by (simp add: manifest_exists_def mark_grace_satisfied_def drive_restarts_def act_on_def crash hm_get_def hm_put_def)
  then have s3: "sup_step restart_default ?s2 Tick ?s3"
    using sup_step.tick [of restart_default ?s2 sample_os] by simp
  let ?s4 = "?s3\<lparr>sp_tasks := [], sp_resuming := [GATEWAY]\<rparr>"
  have s4: "sup_step restart_default ?s3 (Wake GATEWAY) ?s4"
    using sup_step.wake [of GATEWAY "from_secs 101" ?s3 "sample_os\<lparr>os_now := from_secs 102\<rparr>" restart_default]
    by (simp add: restart_check_def spawn_record_exists_def hm_get_def from_secs_def sup_new_def)
  let ?s5 = "snd (dispatch_stop GATEWAY sample_os ?s4)"
  let ?s6 = "restart_resume sample_os GATEWAY (?s5\<lparr>sp_resuming := remove1 GATEWAY (sp_resuming ?s5)\<rparr>)"
  have "GATEWAY \<in> set (sp_resuming ?s5)"
    using dispatch_stop_own [of GATEWAY ?s4 sample_os] by (simp add: own_stop_def)
  then have s6: "sup_step restart_default ?s5 (Resume GATEWAY) ?s6"
    by (rule sup_step.resume)
  have "sup_run restart_default (sup_new [])
      [StartCmd GATEWAY, FileChange GATEWAY, Tick, Wake GATEWAY, StopCmd GATEWAY, Resume GATEWAY] ?s6"
    by (rule sup_run.more [OF s1], rule sup_run.more [OF sup_step.file_change [OF gateway_up_simps(1)]], rule sup_run.more [OF s3],
        rule sup_run.more [OF s4], rule sup_run.more [OF sup_step.stop_cmd], rule sup_run.more [OF s6], rule sup_run.start)
  moreover have "spawn_record_exists GATEWAY ?s6 \<and> hm_get (sp_procs ?s6) GATEWAY = Some 77"
    by (simp add: restart_resume_def dispatch_gateway start_strangler_def stop_service_def is_service_alive_def
        rust_binary_path_def spawn_and_record_def sup_updates spawn_record_exists_def sup_new_def Let_def
        split: option.split)
  ultimately show ?thesis by blast
qed

end
