(* ===== verification/Lifecycle_Crash.thy ===== *)
theory Lifecycle_Crash
  imports Lifecycle_Supervisor
begin

text \<open>
  From a crash to a restart: what a sweep reports and marks, how the report becomes a delayed
  start, and the crashes that never do.
\<close>

section \<open>The recurring sweep\<close>

definition sweep_hit :: "os \<Rightarrow> manifest_dir \<Rightarrow> string \<Rightarrow> bool" where
  "sweep_hit w d k =
     (case hm_get d k of
        Some (Some v) \<Rightarrow> alive_but_dead w v \<and> manifest_of_json v \<noteq> None \<and> os_disk_ok w k
      | _ \<Rightarrow> False)"

definition marked_dead :: "os \<Rightarrow> manifest_dir \<Rightarrow> string \<Rightarrow> json" where
  "marked_dead w d k = manifest_to_json (dead_manifest w (the (manifest_of_json (the (the (hm_get d k))))))"

lemma sweep_file_named:
  assumes "files_named d"
  shows "sweep_file w k d =
    (if sweep_hit w d k then (Some k, hm_put k (Some (marked_dead w d k)) d) else (None, d))"
proof (cases "hm_get d k")
  case (Some doc)
  show ?thesis
  proof (cases doc)
    case (Some v)
    have doc: "hm_get d k = Some (Some v)" using \<open>hm_get d k = Some doc\<close> Some by simp
    have name: "s = k" if "get_str ''service'' v = Some s" for s
      using assms doc that by (auto simp: files_named_def)
    show ?thesis
    proof (cases "manifest_of_json v")
      case (Some m)
      then have "mf_service m = k" using name manifest_service by blast
      then show ?thesis
        using doc Some manifest_service [OF Some]
        by (simp add: sweep_file_def sweep_hit_def marked_dead_def mark_orphan_dead_def atomic_write_def dead_manifest_def)
    qed (use doc name in \<open>auto simp: sweep_file_def sweep_hit_def mark_orphan_dead_def split: option.split\<close>)
  qed (use Some in \<open>simp add: sweep_file_def sweep_hit_def\<close>)
qed (simp add: sweep_file_def sweep_hit_def)

lemma marked_dead_named: "files_named d \<Longrightarrow> sweep_hit w d k \<Longrightarrow> files_named (hm_put k (Some (marked_dead w d k)) d)"
  by (rule files_named_put) (auto simp: files_named_def sweep_hit_def marked_dead_def split: option.splits, metis manifest_service)

lemma sweep_files_spec:
  assumes "files_named d" and "distinct stems"
  shows "fst (sweep_files w stems d) = filter (sweep_hit w d) stems
    \<and> files_named (snd (sweep_files w stems d))
    \<and> (\<forall>k. hm_get (snd (sweep_files w stems d)) k =
         (if k \<in> set stems \<and> sweep_hit w d k then Some (Some (marked_dead w d k)) else hm_get d k))"
  using assms
proof (induction stems arbitrary: d)
  case (Cons s stems)
  show ?case
  proof (cases "sweep_hit w d s")
    case False
    then show ?thesis
      using Cons.IH [OF Cons.prems(1)] Cons.prems by (auto simp: sweep_file_named split_def)
  next
    case True
    let ?d = "hm_put s (Some (marked_dead w d s)) d"
    have named: "files_named ?d" by (rule marked_dead_named [OF Cons.prems(1) True])
    have same: "sweep_hit w ?d k = sweep_hit w d k" "marked_dead w ?d k = marked_dead w d k" if "k \<noteq> s" for k
      using that by (simp_all add: sweep_hit_def marked_dead_def)
    have "filter (sweep_hit w ?d) stems = filter (sweep_hit w d) stems"
      using Cons.prems(2) same(1) by (intro filter_cong) (auto, metis+)
    moreover have "(k \<in> set stems \<and> sweep_hit w ?d k) = (k \<in> set stems \<and> sweep_hit w d k)"
      "k \<in> set stems \<Longrightarrow> marked_dead w ?d k = marked_dead w d k" for k
      using Cons.prems(2) same by (cases "k = s"; auto)+
    ultimately show ?thesis
      using Cons.IH [OF named] Cons.prems(2) True Cons.prems(1)
      by (auto simp: sweep_file_named split_def)
  qed
qed simp

lemma sweep_orphans_spec:
  assumes "files_named (sp_dir st)"
  shows "set (sw_orphans (fst (sweep_orphans w st))) = {k. sweep_hit w (sp_dir st) k}
    \<and> distinct (sw_orphans (fst (sweep_orphans w st)))
    \<and> files_named (sp_dir (snd (sweep_orphans w st)))
    \<and> (\<forall>k. hm_get (sp_dir (snd (sweep_orphans w st))) k =
         (if sweep_hit w (sp_dir st) k then Some (Some (marked_dead w (sp_dir st) k)) else hm_get (sp_dir st) k))"
proof -
  let ?d = "sp_dir st" and ?stems = "map fst (manifest_paths (sp_dir st))"
  have ok: "hm_ok ?d" using assms by (simp add: files_named_def)
  have dist: "distinct ?stems" using hm_ok_manifest_paths [OF ok] by (simp add: hm_ok_def)
  have mem: "k \<in> set ?stems \<longleftrightarrow> hm_get ?d k \<noteq> None" for k
    using ok by (force simp: hm_entry_iff [symmetric] image_iff)
  have hit: "sweep_hit w ?d k \<Longrightarrow> k \<in> set ?stems" for k
    unfolding mem by (auto simp: sweep_hit_def split: option.splits)
  have dir: "sp_dir (snd (sweep_orphans w st)) = snd (sweep_files w ?stems ?d)"
    and orph: "sw_orphans (fst (sweep_orphans w st)) = fst (sweep_files w ?stems ?d)"
    using launch_check_frame by (simp_all add: sweep_orphans_def Let_def split_def)
  show ?thesis
    unfolding dir orph using sweep_files_spec [OF assms dist, of w] hit dist by auto
qed


definition gateway_dir :: manifest_dir where
  "gateway_dir = [(GATEWAY, Some (manifest_to_json gateway_up))]"

lemma gateway_dir_simps:
  "files_named gateway_dir" "hm_get gateway_dir k = (if k = GATEWAY then Some (Some (manifest_to_json gateway_up)) else None)"
  by (auto simp: files_named_def gateway_dir_def hm_ok_def hm_get_def split: if_split_asm)


section \<open>From the report to the restart\<close>

lemma plan_restarts_other:
  "k \<notin> set orphans \<or> k \<notin> owned \<Longrightarrow>
     k \<notin> fst ` set (fst (plan_restarts orphans owned cfg g now))
     \<and> hm_get (snd (plan_restarts orphans owned cfg g now)) k = hm_get g k"
  by (induction orphans arbitrary: g) (auto simp: on_crash_eq split_def)

lemma plan_restarts_member:
  assumes "distinct orphans" and "k \<in> set orphans" and "k \<in> owned" and "rc_enabled cfg"
  shows "((k, d) \<in> set (fst (plan_restarts orphans owned cfg g now)) \<longleftrightarrow> d = fst (on_crash k now cfg g))
    \<and> hm_get (snd (plan_restarts orphans owned cfg g now)) k = hm_get (snd (on_crash k now cfg g)) k"
  using assms
proof (induction orphans arbitrary: g)
  case (Cons n orphans)
  show ?case
  proof (cases "n = k")
    case True
    then have "k \<notin> fst ` set (fst (plan_restarts orphans owned cfg (snd (on_crash k now cfg g)) now))"
      and "hm_get (snd (plan_restarts orphans owned cfg (snd (on_crash k now cfg g)) now)) k = hm_get (snd (on_crash k now cfg g)) k"
      using Cons.prems plan_restarts_other [of k orphans owned cfg "snd (on_crash k now cfg g)" now] by auto
    then show ?thesis
      using Cons.prems True by (force simp: split_def)
  next
    case False
    have "hm_get (snd (on_crash n now cfg g)) k = hm_get g k" using False by (simp add: on_crash_eq split_def)
    then have same: "fst (on_crash k now cfg (snd (on_crash n now cfg g))) = fst (on_crash k now cfg g)"
      "hm_get (snd (on_crash k now cfg (snd (on_crash n now cfg g)))) k = hm_get (snd (on_crash k now cfg g)) k"
      by (simp_all add: on_crash_eq split_def)
    show ?thesis
      using Cons.IH [of g] Cons.IH [of "snd (on_crash n now cfg g)"] Cons.prems False same
      by (auto simp: split_def)
  qed
qed simp

lemma act_on_all_tasks:
  "set (sp_tasks (foldl (\<lambda>s a. act_on w a s) st as)) =
     set (sp_tasks st) \<union> {(k, os_now w + delay) | k delay n. (k, Restart delay n) \<in> set as}"
proof (induction as arbitrary: st)
  case (Cons a as)
  show ?case
    unfolding foldl.simps Cons.IH
    by (cases a) (auto simp: act_on_def split: restart_decision.splits)
qed simp

lemma drive_restarts_tasks:
  assumes "distinct os" and "rc_enabled cfg"
  shows "(k, due) \<in> set (sp_tasks (drive_restarts cfg w os st)) \<longleftrightarrow> (k, due) \<in> set (sp_tasks st)
    \<or> (\<exists>delay n. due = os_now w + delay \<and> (k, Restart delay n) \<in> set (fst (plan_restarts os (set (map fst (sp_records st))) cfg (sp_governor st) (os_now w))))"
  using assms by (auto simp: drive_restarts_def split_def act_on_all_tasks)

lemma owned_iff: "k \<in> set (map fst m) \<longleftrightarrow> hm_get m k \<noteq> None"
  by (simp add: hm_get_def map_of_eq_None_iff)

text \<open>A tick, seen from one service: a reported crash of an owned service goes to the governor.\<close>

lemma sweep_tick_service:
  fixes k :: string and cfg :: restart_config and w :: os
  assumes "files_named (sp_dir st)"
  defines "hit \<equiv> rc_enabled cfg \<and> sweep_hit w (sp_dir st) k \<and> spawn_record_exists k st"
  shows "(k, due) \<in> set (sp_tasks (sweep_tick cfg w st)) \<longleftrightarrow> (k, due) \<in> set (sp_tasks st)
      \<or> hit \<and> (\<exists>delay n. due = os_now w + delay \<and> fst (on_crash k (os_now w) cfg (sp_governor st)) = Restart delay n)"
    and "hm_get (sp_governor (sweep_tick cfg w st)) k =
      (if hit then hm_get (snd (on_crash k (os_now w) cfg (sp_governor st))) k else hm_get (sp_governor st) k)"
proof -
  let ?os = "sw_orphans (fst (sweep_orphans w st))" and ?st1 = "snd (sweep_orphans w st)"
  let ?own = "set (map fst (sp_records ?st1))"
  let ?plan = "plan_restarts ?os ?own cfg (sp_governor st) (os_now w)"
  note spec = sweep_orphans_spec [OF assms(1), of w]
  have same: "sp_tasks ?st1 = sp_tasks st" "sp_governor ?st1 = sp_governor st"
    using sweep_orphans_frame [of w st] by simp_all
  have own: "k \<in> ?own \<longleftrightarrow> spawn_record_exists k st"
    using sweep_orphans_frame [of w st k] by (simp only: owned_iff spawn_record_exists_def)
  have tick: "sweep_tick cfg w st = drive_restarts cfg w ?os ?st1"
    by (simp add: sweep_tick_def split_def)
  have hits: "hit \<longleftrightarrow> rc_enabled cfg \<and> k \<in> set ?os \<and> k \<in> ?own"
    using spec own by (simp add: hit_def)
  have off: "drive_restarts cfg w ?os ?st1 = ?st1" if "\<not> rc_enabled cfg"
    using that by (simp add: drive_restarts_def)
  have dist: "distinct ?os" using spec by simp
  have on: "(k, d) \<in> set (fst ?plan) \<longleftrightarrow> k \<in> set ?os \<and> k \<in> ?own \<and> d = fst (on_crash k (os_now w) cfg (sp_governor st))"
    and gov: "hm_get (snd ?plan) k = (if k \<in> set ?os \<and> k \<in> ?own
      then hm_get (snd (on_crash k (os_now w) cfg (sp_governor st))) k else hm_get (sp_governor st) k)"
    if "rc_enabled cfg" for d
    using plan_restarts_member [OF dist, of k ?own cfg] plan_restarts_other [of k ?os ?own cfg] that by (force, force)
  show "(k, due) \<in> set (sp_tasks (sweep_tick cfg w st)) \<longleftrightarrow> (k, due) \<in> set (sp_tasks st)
      \<or> hit \<and> (\<exists>delay n. due = os_now w + delay \<and> fst (on_crash k (os_now w) cfg (sp_governor st)) = Restart delay n)"
  proof (cases "rc_enabled cfg")
    case True
    then show ?thesis
      unfolding tick hits drive_restarts_tasks [OF dist True] same on [OF True] by (auto, metis)
  qed (simp add: tick hits off same)
  show "hm_get (sp_governor (sweep_tick cfg w st)) k =
      (if hit then hm_get (snd (on_crash k (os_now w) cfg (sp_governor st))) k else hm_get (sp_governor st) k)"
  proof (cases "rc_enabled cfg \<and> ?os \<noteq> []")
    case True
    then have "sp_governor (drive_restarts cfg w ?os ?st1) = snd ?plan"
      by (simp add: drive_restarts_def split_def act_on_all_frame same)
    then show ?thesis using gov True by (simp add: tick hits)
  next
    case False
    then have "drive_restarts cfg w ?os ?st1 = ?st1" by (auto simp: drive_restarts_def)
    moreover have "\<not> hit" using False hits by auto
    ultimately show ?thesis by (simp add: tick same)
  qed
qed


definition gateway_crashed :: sup where
  "gateway_crashed = (sup_new gateway_dir)\<lparr>sp_records := [(GATEWAY,
     \<lparr>sn_pid = 77, sn_spawn_time = 0, sn_impl_lang = ''rust'', sn_grace_satisfied = False\<rparr>)]\<rparr>"

lemma gateway_crashed_facts:
  "files_named (sp_dir gateway_crashed)" "sweep_hit sample_os (sp_dir gateway_crashed) GATEWAY"
  "spawn_record_exists GATEWAY gateway_crashed" "sp_governor gateway_crashed = []"
  by (simp_all add: gateway_crashed_def sup_new_def gateway_dir_simps sweep_hit_def manifest_round_trip_eq
      spawn_record_exists_def hm_get_Cons)


section \<open>Crashes that are not restarted\<close>

lemma act_on_dir:
  "files_named (sp_dir st) \<Longrightarrow> files_named (sp_dir (act_on w a st))"
  "k \<noteq> fst a \<Longrightarrow> hm_get (sp_dir (act_on w a st)) k = hm_get (sp_dir st) k"
  "sp_memgraph (act_on w a st) = sp_memgraph st"
  by (cases a; auto simp: act_on_def mark_failed_frame mark_failed_named split: restart_decision.split)+

lemma act_on_all_dir:
  "(files_named (sp_dir st) \<longrightarrow> files_named (sp_dir (foldl (\<lambda>s a. act_on w a s) st as)))
   \<and> (k \<notin> fst ` set as \<longrightarrow> hm_get (sp_dir (foldl (\<lambda>s a. act_on w a s) st as)) k = hm_get (sp_dir st) k)
   \<and> sp_memgraph (foldl (\<lambda>s a. act_on w a s) st as) = sp_memgraph st"
  by (induction as arbitrary: st) (simp_all add: act_on_dir)

lemma launch_check_memgraph: "sp_memgraph (snd (launch_check w recs st)) = sp_memgraph st"
  by (induction w recs st rule: launch_check.induct) (simp_all add: mark_grace_satisfied_def split_def split: option.split)

lemma sweep_tick_dir:
  assumes "sup_ok st"
  shows "sup_ok (sweep_tick cfg w st)
    \<and> (\<not> sweep_hit w (sp_dir st) k \<longrightarrow> hm_get (sp_dir (sweep_tick cfg w st)) k = hm_get (sp_dir st) k)"
proof -
  let ?os = "sw_orphans (fst (sweep_orphans w st))" and ?st1 = "snd (sweep_orphans w st)"
  have named: "files_named (sp_dir st)" using assms by (simp add: sup_ok_def)
  note spec = sweep_orphans_spec [OF named, of w]
  have ok1: "sup_ok ?st1"
    using assms spec by (simp add: sup_ok_def sweep_orphans_def split_def Let_def launch_check_memgraph)
  have tick: "sweep_tick cfg w st = drive_restarts cfg w ?os ?st1"
    by (simp add: sweep_tick_def split_def)
  have "sup_ok (drive_restarts cfg w ?os ?st1) \<and> (k \<notin> set ?os \<longrightarrow>
      hm_get (sp_dir (drive_restarts cfg w ?os ?st1)) k = hm_get (sp_dir ?st1) k)"
    using ok1 plan_restarts_other [of k ?os "set (map fst (sp_records ?st1))" cfg]
    by (auto simp: drive_restarts_def split_def sup_ok_def act_on_all_dir)
  then show ?thesis using spec tick by simp
qed

text \<open>A service that the sweeps do not see: nothing is scheduled for it until its manifest is written.\<close>

definition unseen :: "string \<Rightarrow> manifest_dir \<Rightarrow> bool" where
  "unseen k d \<longleftrightarrow> (case hm_get d k of
     Some (Some v) \<Rightarrow> \<exists>s. Option.bind (jget ''status'' v) (get_str ''state'') = Some s \<and> s \<noteq> ''alive'' | _ \<Rightarrow> True)"

lemma unseen_no_hit: "unseen k d \<Longrightarrow> \<not> sweep_hit w d k"
  by (auto simp: unseen_def sweep_hit_def alive_but_dead_def split: option.splits json.splits)

lemma unseen_step:
  assumes "sup_step cfg st ev st'" and "sup_ok st" and "unseen k (sp_dir st)" and "k \<noteq> MEMGRAPH" and "ev \<noteq> FileChange k"
  shows "sup_ok st' \<and> hm_get (sp_dir st') k = hm_get (sp_dir st) k
    \<and> (\<forall>due. (k, due) \<in> set (sp_tasks st') \<longrightarrow> (k, due) \<in> set (sp_tasks st))"
  using assms(1)
proof cases
  case (tick w)
  then show ?thesis
    using sweep_tick_dir [OF assms(2), of cfg w k] unseen_no_hit [OF assms(3)]
      sweep_tick_service(1) [of st k _ cfg w] assms(2) by (auto simp: sup_ok_def)
next
  case (wake n due w)
  then show ?thesis
    using assms(2) by (auto simp: restart_check_def sup_ok_def dest: set_remove1_subset [THEN subsetD])
next
  case (resume n w)
  let ?s = "st\<lparr>sp_resuming := remove1 n (sp_resuming st)\<rparr>"
  have "own_change n ?s (snd (dispatch_start n w ?s))"
    using dispatch_start_own [of n] by (simp add: own_start_def)
  moreover have "sup_ok ?s" using assms(2) by (simp add: sup_ok_def)
  ultimately have "sup_ok (snd (dispatch_start n w ?s))" "sp_tasks (snd (dispatch_start n w ?s)) = sp_tasks st"
    "hm_get (sp_dir (snd (dispatch_start n w ?s))) k = hm_get (sp_dir st) k"
    unfolding own_change_def using assms(4) by (cases "k = n"; simp)+
  then show ?thesis
    by (simp add: resume restart_resume_def sup_ok_def Let_def)
next
  case (start_cmd n w)
  have "own_change n st (snd (dispatch_start n w st))"
    using dispatch_start_own [of n] by (simp add: own_start_def)
  then show ?thesis
    unfolding start_cmd own_change_def using assms(2,4) by (cases "k = n") simp_all
next
  case (stop_cmd n w)
  then show ?thesis
    unfolding stop_cmd using dispatch_stop_own [of n st w] assms(2,4) unfolding own_stop_def by (cases "k = n") simp_all
next
  case (file_change m n)
  then show ?thesis
    using assms(2,5) by (auto simp: sup_ok_def files_named_put)
qed

lemma unseen_run:
  assumes "sup_run cfg st evs st'" and "sup_ok st" and "unseen k (sp_dir st)" and "k \<noteq> MEMGRAPH" and "FileChange k \<notin> set evs"
  shows "sup_ok st' \<and> hm_get (sp_dir st') k = hm_get (sp_dir st) k
    \<and> (\<forall>due. (k, due) \<in> set (sp_tasks st') \<longrightarrow> (k, due) \<in> set (sp_tasks st))"
  using assms
proof (induction rule: sup_run.induct)
  case (more st ev st1 evs st')
  have one: "sup_ok st1 \<and> hm_get (sp_dir st1) k = hm_get (sp_dir st) k
      \<and> (\<forall>due. (k, due) \<in> set (sp_tasks st1) \<longrightarrow> (k, due) \<in> set (sp_tasks st))"
    using unseen_step [OF more.hyps(1) more.prems(1,2,3)] more.prems(4) by fastforce
  then have "unseen k (sp_dir st1)" using more.prems(2) by (simp add: unseen_def)
  then show ?case using more.IH one more.prems(3,4) by simp
qed simp

text \<open>A restart that dies before it has written its manifest is never noticed. After the first
  crash the manifest says \<open>dead-orphan\<close>, which every later sweep skips: however long the daemon
  runs, and whatever is started and stopped, no further restart is scheduled for the service and
  its manifest never says \<open>failed\<close>, so neither the retries nor the crash-loop breaker see it.
\<close>

theorem silent_restart_is_final:
  assumes "sup_run cfg st evs st'" and "sup_ok st" and "k \<noteq> MEMGRAPH"
    and "shown_state (sp_dir st) k = Some ''dead-orphan''" and "FileChange k \<notin> set evs"
  shows "shown_state (sp_dir st') k = Some ''dead-orphan''
    \<and> (\<forall>due. (k, due) \<in> set (sp_tasks st') \<longrightarrow> (k, due) \<in> set (sp_tasks st))"
proof -
  have "unseen k (sp_dir st)"
    using assms(4) by (auto simp: unseen_def shown_state_def split: option.splits)
  from unseen_run [OF assms(1,2) this assms(3,5)] assms(4) show ?thesis by (simp add: shown_state_def)
qed

definition gateway_dead :: sup where
  "gateway_dead = sup_new [(GATEWAY, Some (manifest_to_json (dead_manifest sample_os gateway_up)))]"

lemma gateway_dead_facts:
  "sup_ok gateway_dead" "shown_state (sp_dir gateway_dead) GATEWAY = Some ''dead-orphan''" "sp_tasks gateway_dead = []"
  by (auto simp: gateway_dead_def sup_ok_def sup_new_def files_named_def hm_ok_def hm_get_Cons shown_state_def
      manifest_to_json_def status_to_json_def get_str_def dead_manifest_def split: if_split_asm)

theorem silent_restart_is_final_witness:
  "shown_state (sp_dir (sweep_tick restart_default sample_os
     (snd (dispatch_start GATEWAY sample_os gateway_dead)))) GATEWAY = Some ''dead-orphan''"
proof -
  have "sup_run restart_default gateway_dead [StartCmd GATEWAY, Tick]
      (sweep_tick restart_default sample_os (snd (dispatch_start GATEWAY sample_os gateway_dead)))"
    by (rule sup_run.more [OF sup_step.start_cmd], rule sup_run.more [OF sup_step.tick], rule sup_run.start)
  moreover have "GATEWAY \<noteq> MEMGRAPH" by (simp add: service_names)
  ultimately show ?thesis
    using silent_restart_is_final [OF _ gateway_dead_facts(1) _ gateway_dead_facts(2)] by simp
qed

text \<open>A crashed VRAM broker is never restarted. It publishes its manifest as \<open>vram-broker\<close>, the
  daemon keeps its spawn record as \<open>wylde-vram-broker\<close>: as long as nobody writes a manifest under
  the daemon's name, no run of the daemon schedules a restart of the broker.
\<close>

theorem broker_never_restarted:
  assumes "sup_run cfg (sup_new d) evs st'" and "files_named d" and "hm_get d VRAM_BROKER = None"
    and "FileChange VRAM_BROKER \<notin> set evs"
  shows "(VRAM_BROKER, due) \<notin> set (sp_tasks st')"
proof -
  have "sup_ok (sup_new d)" "unseen VRAM_BROKER (sp_dir (sup_new d))" "VRAM_BROKER \<noteq> MEMGRAPH"
    using assms(2,3) by (simp_all add: sup_ok_def sup_new_def unseen_def service_names)
  from unseen_run [OF assms(1) this assms(4)] show ?thesis by (simp add: sup_new_def)
qed

text \<open>The broker starts, publishes \<open>vram-broker.json\<close>, and crashes: the sweep reports it, nothing is scheduled.\<close>

definition broker_up :: manifest_data where
  "broker_up = gateway_up\<lparr>mf_service := ''vram-broker''\<rparr>"

theorem broker_never_restarted_witness:
  "\<exists>st. sup_run restart_default (sup_new []) [StartCmd VRAM_BROKER, FileChange ''vram-broker'', Tick] st
     \<and> spawn_record_exists VRAM_BROKER st \<and> (VRAM_BROKER, from_secs 101) \<notin> set (sp_tasks st)"
proof -
  let ?s1 = "snd (dispatch_start VRAM_BROKER sample_os (sup_new []))"
  let ?s2 = "?s1\<lparr>sp_dir := hm_put ''vram-broker'' (Some (manifest_to_json broker_up)) (sp_dir ?s1)\<rparr>"
  let ?s3 = "sweep_tick restart_default sample_os ?s2"
  have name: "mf_service broker_up = ''vram-broker''" by (simp add: broker_up_def)
  have run: "sup_run restart_default (sup_new []) [StartCmd VRAM_BROKER, FileChange ''vram-broker'', Tick] ?s3"
    by (rule sup_run.more [OF sup_step.start_cmd], rule sup_run.more [OF sup_step.file_change [OF name]], rule sup_run.more [OF sup_step.tick], rule sup_run.start)
  have "dispatch_start VRAM_BROKER = start_strangler VRAM_BROKER"
    by (simp add: fun_eq_iff dispatch_start_def dispatchable_def DAEMON_MANAGED_def managed_row_def service_names)
  then have "spawn_record_exists VRAM_BROKER ?s1"
    by (simp add: start_strangler_def is_service_alive_def sup_new_def rust_binary_path_def spawn_and_record_def
        sup_updates spawn_record_exists_def)
  then have "spawn_record_exists VRAM_BROKER ?s3"
    using sweep_orphans_frame [of sample_os ?s2 VRAM_BROKER]
    by (simp add: sweep_tick_def split_def spawn_record_exists_def drive_restarts_frame)
  moreover have "(VRAM_BROKER, from_secs 101) \<notin> set (sp_tasks ?s3)"
    by (rule broker_never_restarted [OF run]) (simp_all add: files_named_def service_names)
  ultimately show ?thesis using run by blast
qed

section \<open>Start does not reset the breaker\<close>

lemma failed_step:
  assumes "sup_step cfg st ev st'" and "sup_ok st" and "is_failed k (sp_governor st)" and "ev \<noteq> StopCmd k"
  shows "sup_ok st' \<and> is_failed k (sp_governor st')
    \<and> (\<forall>due. (k, due) \<in> set (sp_tasks st') \<longrightarrow> (k, due) \<in> set (sp_tasks st))"
  using assms(1)
proof cases
  case (tick w)
  have "hm_get (sp_governor st') k = hm_get (sp_governor st) k
      \<or> hm_get (sp_governor st') k = hm_get (snd (on_crash k (os_now w) cfg (sp_governor st))) k"
    unfolding tick using sweep_tick_service(2) [of st cfg w k] assms(2) by (simp add: sup_ok_def)
  then have "is_failed k (sp_governor st')"
    using assms(3) on_crash_failed [OF assms(3), of k "os_now w" cfg] by (auto simp: is_failed_def)
  moreover have "fst (on_crash k (os_now w) cfg (sp_governor st)) \<noteq> Restart delay n" for delay n
    using on_crash_failed [OF assms(3), of k "os_now w" cfg] by (auto simp: grants_of_def)
  ultimately show ?thesis
    using sweep_tick_dir [OF assms(2), of cfg w k] sweep_tick_service(1) [of st k _ cfg w] assms(2) tick
    by (auto simp: sup_ok_def)
next
  case (wake n due w)
  then show ?thesis
    using assms(2,3) gate_other_events(1) [OF assms(3)]
    by (auto simp: restart_check_def sup_ok_def dest: set_remove1_subset [THEN subsetD])
next
  case (resume n w)
  let ?s = "st\<lparr>sp_resuming := remove1 n (sp_resuming st)\<rparr>"
  have "own_change n ?s (snd (dispatch_start n w ?s))"
    using dispatch_start_own [of n] by (simp add: own_start_def)
  moreover have "sup_ok ?s" using assms(2) by (simp add: sup_ok_def)
  ultimately have "sup_ok (snd (dispatch_start n w ?s))" "sp_tasks (snd (dispatch_start n w ?s)) = sp_tasks st"
    "sp_governor (snd (dispatch_start n w ?s)) = sp_governor st"
    unfolding own_change_def by simp_all
  then show ?thesis
    using gate_other_events(1) [OF assms(3)] by (simp add: resume restart_resume_def sup_ok_def Let_def)
next
  case (start_cmd n w)
  have "own_change n st (snd (dispatch_start n w st))"
    using dispatch_start_own [of n] by (simp add: own_start_def)
  then show ?thesis
    unfolding start_cmd own_change_def using assms(2,3) by simp
next
  case (stop_cmd n w)
  then show ?thesis
    using dispatch_stop_own [of n st w] assms(2,3,4) by (auto simp: own_stop_def is_failed_def)
next
  case (file_change m n)
  then show ?thesis
    using assms(2,3) by (auto simp: sup_ok_def files_named_put)
qed

text \<open>Starting a service does not clear its crash-loop breaker, though the message of the tripped
  breaker says so: in any run without a stop of the service, starts included, its entry stays
  failed and no crash of it is restarted.
\<close>

theorem start_keeps_breaker:
  assumes "sup_run cfg st evs st'" and "sup_ok st" and "is_failed k (sp_governor st)" and "StopCmd k \<notin> set evs"
  shows "is_failed k (sp_governor st') \<and> (\<forall>due. (k, due) \<in> set (sp_tasks st') \<longrightarrow> (k, due) \<in> set (sp_tasks st))"
proof -
  have "sup_ok st' \<and> is_failed k (sp_governor st') \<and> (\<forall>due. (k, due) \<in> set (sp_tasks st') \<longrightarrow> (k, due) \<in> set (sp_tasks st))"
    using assms
  proof (induction rule: sup_run.induct)
    case (more st ev st1 evs st')
    have "sup_ok st1 \<and> is_failed k (sp_governor st1) \<and> (\<forall>due. (k, due) \<in> set (sp_tasks st1) \<longrightarrow> (k, due) \<in> set (sp_tasks st))"
      using failed_step [OF more.hyps(1) more.prems(1,2)] more.prems(3) by fastforce
    then show ?case using more.IH more.prems(3) by simp
  qed simp
  then show ?thesis by simp
qed

definition gateway_tripped :: sup where
  "gateway_tripped = (sup_new gateway_dir)\<lparr>sp_governor := [(GATEWAY, entry_default\<lparr>en_failed := True\<rparr>)]\<rparr>"

theorem start_keeps_breaker_witness:
  "\<forall>due. (GATEWAY, due) \<notin> set (sp_tasks (sweep_tick restart_default sample_os (snd (dispatch_start GATEWAY sample_os gateway_tripped))))"
proof -
  have run: "sup_run restart_default gateway_tripped [StartCmd GATEWAY, Tick]
      (sweep_tick restart_default sample_os (snd (dispatch_start GATEWAY sample_os gateway_tripped)))"
    by (rule sup_run.more [OF sup_step.start_cmd], rule sup_run.more [OF sup_step.tick], rule sup_run.start)
  have "sup_ok gateway_tripped" "is_failed GATEWAY (sp_governor gateway_tripped)" "sp_tasks gateway_tripped = []"
    by (simp_all add: gateway_tripped_def sup_ok_def sup_new_def gateway_dir_simps is_failed_def hm_get_Cons)
  then show ?thesis using start_keeps_breaker [OF run] by simp
qed

end
