(* ===== verification/Lifecycle_Shutdown.thy ===== *)
theory Lifecycle_Shutdown
  imports Lifecycle_Crash
begin

text \<open>
  The ends of the daemon's life: the sweep before the first start, the agreement of the table of
  managed services, and the shutdown, which leaves no record and no child of any service.
\<close>

section \<open>The boot sweep\<close>

lemma boot_files_spec:
  assumes "distinct stems"
  shows "hm_get (snd (snd (boot_files w nospawn stems d))) k =
    (if k \<in> set stems \<and> \<not> nospawn \<and> os_disk_ok w k
        \<and> (case hm_get d k of Some (Some v) \<Rightarrow> alive_but_dead w v | _ \<Rightarrow> False)
     then None else hm_get d k)"
  using assms
proof (induction stems arbitrary: d)
  case (Cons s stems)
  have other: "hm_get (hm_del s d) k = hm_get d k" if "k \<noteq> s" using that by simp
  show ?case
    using Cons.IH [of d] Cons.IH [of "hm_del s d"] Cons.prems
    by (auto simp: split_def Let_def split: option.split)
qed simp

text \<open>The sweep at boot removes exactly the manifests that say alive and name a process that is
  gone, whose file can be removed; in no-spawn mode it changes nothing.
\<close>

theorem boot_sweep_exact:
  assumes "hm_ok (sp_dir st)"
  shows "hm_get (sp_dir (snd (boot_orphan_sweep w st))) k =
    (if \<not> sp_nospawn st \<and> os_disk_ok w k
        \<and> (case hm_get (sp_dir st) k of Some (Some v) \<Rightarrow> alive_but_dead w v | _ \<Rightarrow> False)
     then None else hm_get (sp_dir st) k)"
proof -
  let ?stems = "map fst (manifest_paths (sp_dir st))"
  have "distinct ?stems" using hm_ok_manifest_paths [OF assms] by (simp add: hm_ok_def)
  moreover have "k \<in> set ?stems \<longleftrightarrow> hm_get (sp_dir st) k \<noteq> None"
    using assms by (force simp: hm_entry_iff [symmetric] image_iff)
  ultimately show ?thesis
    using boot_files_spec [of ?stems w "sp_nospawn st" "sp_dir st" k]
    by (auto simp: boot_orphan_sweep_def Let_def split_def split: option.split)
qed

theorem boot_sweep_exact_witness:
  "hm_get (sp_dir (snd (boot_orphan_sweep sample_os (sup_new gateway_dir)))) GATEWAY = None"
  using boot_sweep_exact [of "sup_new gateway_dir" sample_os GATEWAY] gateway_dir_simps(1)
  by (simp add: sup_new_def gateway_dir_simps files_named_def)

section \<open>The table\<close>

lemma core_names:
  "core_service_names = [MEMGRAPH, VRAM_BROKER, VOICE, DEVICE_GATE, EXTENSION_BRIDGE, OLLAMA, GATEWAY, HARNESS,
     TREESITTER, WORKSPACES, N8N_ENGINE, N8N, VPN]"
  by (simp add: core_service_names_def DAEMON_MANAGED_def managed_row_def)

lemma boot_names:
  "map dm_name boot_sequence = [MEMGRAPH, MEMORY_SCHEDULER, VRAM_BROKER, VOICE, DEVICE_GATE, EXTENSION_BRIDGE, OLLAMA,
     GATEWAY, HARNESS, TREESITTER, WORKSPACES, N8N_ENGINE, N8N]"
  by (simp add: boot_sequence_def DAEMON_MANAGED_def managed_row_def)

text \<open>Boot, shutdown and dispatch agree: the services that shutdown tears down are those that
  dispatch accepts, each with a stop hook, and differ from the ones started at boot by the VPN, which the
  user starts, and the memory scheduler, which has no process; shutdown takes them in this order.
\<close>

theorem service_table_agrees:
  "map dm_name shutdown_sequence = [GATEWAY, N8N, WORKSPACES, TREESITTER, EXTENSION_BRIDGE, HARNESS, VOICE,
      DEVICE_GATE, OLLAMA, VPN, VRAM_BROKER, MEMGRAPH, N8N_ENGINE]
   \<and> set (map dm_name shutdown_sequence) = set core_service_names
   \<and> set core_service_names = set (map dm_name boot_sequence) - {MEMORY_SCHEDULER} \<union> {VPN}
   \<and> distinct (map dm_name DAEMON_MANAGED)
   \<and> list_all (\<lambda>s. dm_stop s \<noteq> None) shutdown_sequence
   \<and> list_all (\<lambda>n. dispatchable n \<noteq> None) core_service_names"
proof (intro conjI)
  show "map dm_name shutdown_sequence = [GATEWAY, N8N, WORKSPACES, TREESITTER, EXTENSION_BRIDGE, HARNESS, VOICE,
      DEVICE_GATE, OLLAMA, VPN, VRAM_BROKER, MEMGRAPH, N8N_ENGINE]"
    by (simp add: shutdown_sequence_def DAEMON_MANAGED_def managed_row_def)
  show "set (map dm_name shutdown_sequence) = set core_service_names"
    by (simp add: shutdown_sequence_def core_service_names_def)
  have "MEMORY_SCHEDULER \<notin> set [MEMGRAPH, VRAM_BROKER, VOICE, DEVICE_GATE, EXTENSION_BRIDGE, OLLAMA, GATEWAY,
      HARNESS, TREESITTER, WORKSPACES, N8N_ENGINE, N8N]"
    by (simp add: service_names)
  then show "set core_service_names = set (map dm_name boot_sequence) - {MEMORY_SCHEDULER} \<union> {VPN}"
    unfolding core_names boot_names by auto
  show "distinct (map dm_name DAEMON_MANAGED)"
    by (simp add: DAEMON_MANAGED_def managed_row_def service_names)
  show "list_all (\<lambda>s. dm_stop s \<noteq> None) shutdown_sequence"
    by (simp add: shutdown_sequence_def list_all_iff DAEMON_MANAGED_def managed_row_def)
  show "list_all (\<lambda>n. dispatchable n \<noteq> None) core_service_names"
    by (auto simp: list_all_iff core_service_names_def dispatchable_def find_None_iff)
qed

section \<open>Shutdown\<close>

lemma table_stop_own:
  assumes "svc \<in> set DAEMON_MANAGED" and "dm_stop svc = Some stop"
  shows "own_stop (dm_name svc) st (snd (stop w st))"
  using table_stops [OF assms] stop_service_own stop_memgraph_own by auto

text \<open>A stop clears its own service and brings no other one back.\<close>

definition off :: "string \<Rightarrow> sup \<Rightarrow> bool" where
  "off name st \<longleftrightarrow> \<not> sp_nospawn st \<and> hm_get (sp_records st) name = None \<and> hm_get (sp_procs st) name = None"

lemma own_stop_off:
  "own_stop k st st' \<Longrightarrow> \<not> sp_nospawn st \<Longrightarrow> off k st'"
  "own_stop k st st' \<Longrightarrow> off name st \<Longrightarrow> off name st'"
  by (auto simp: own_stop_def off_def) (cases "name = k"; simp)+

lemma own_stop_calm: "own_stop k st st' \<Longrightarrow> sp_resuming st' = sp_resuming st \<and> sp_nospawn st' = sp_nospawn st"
  by (simp add: own_stop_def)

lemma stop_siblings_off:
  assumes "\<not> sp_nospawn st"
  shows "(name \<in> ds_name ` set ds \<or> off name st \<longrightarrow> off name (snd (snd (stop_siblings ds w st))))
    \<and> \<not> sp_nospawn (snd (snd (stop_siblings ds w st)))
    \<and> sp_resuming (snd (snd (stop_siblings ds w st))) = sp_resuming st"
  using assms
proof (induction ds arbitrary: st)
  case (Cons d ds)
  let ?s1 = "snd (stop_service (ds_name d) w st)"
  note own = stop_service_own [of "ds_name d" st w]
  have "\<not> sp_nospawn ?s1" "sp_resuming ?s1 = sp_resuming st" using own_stop_calm [OF own] Cons.prems by simp_all
  moreover have "off (ds_name d) ?s1" "off name st \<Longrightarrow> off name ?s1"
    using own_stop_off [OF own] Cons.prems by simp_all
  ultimately show ?case using Cons.IH [of ?s1] by (auto simp: split_def split: sum.split)
qed simp

lemma stop_managed_off:
  assumes "\<not> sp_nospawn st" and "set svcs \<subseteq> set DAEMON_MANAGED" and "\<forall>s \<in> set svcs. dm_stop s \<noteq> None"
  shows "(name \<in> dm_name ` set svcs \<or> off name st \<longrightarrow> off name (snd (snd (stop_managed svcs w st))))
    \<and> \<not> sp_nospawn (snd (snd (stop_managed svcs w st)))
    \<and> sp_resuming (snd (snd (stop_managed svcs w st))) = sp_resuming st"
  using assms
proof (induction svcs arbitrary: st)
  case (Cons s svcs)
  from Cons.prems obtain stop where stop: "dm_stop s = Some stop" and s: "s \<in> set DAEMON_MANAGED" by auto
  let ?s1 = "snd (stop w st)"
  note own = table_stop_own [OF s stop, of st w]
  have "\<not> sp_nospawn ?s1" "sp_resuming ?s1 = sp_resuming st" using own_stop_calm [OF own] Cons.prems by simp_all
  moreover have "off (dm_name s) ?s1" "off name st \<Longrightarrow> off name ?s1"
    using own_stop_off [OF own] Cons.prems by simp_all
  ultimately show ?case using Cons.IH [of ?s1] Cons.prems by (auto simp: split_def Let_def stop split: sum.split)
qed simp

lemma shutdown_rows:
  "set shutdown_sequence \<subseteq> set DAEMON_MANAGED" "\<forall>s \<in> set shutdown_sequence. dm_stop s \<noteq> None"
  "dm_name ` set shutdown_sequence = set core_service_names"
  by (auto simp: shutdown_sequence_def core_service_names_def DAEMON_MANAGED_def managed_row_def)

lemma stop_all_off:
  assumes "\<not> sp_nospawn st" and "name \<in> set core_service_names \<union> ds_name ` set (os_discovered w)"
  shows "off name (snd (snd (stop_all_daemon_managed w st)))
    \<and> sp_resuming (snd (snd (stop_all_daemon_managed w st))) = sp_resuming st"
proof -
  let ?s1 = "snd (snd (stop_siblings (os_discovered w) w st))"
  from stop_siblings_off [OF assms(1), of name "os_discovered w" w]
  have s1: "name \<in> ds_name ` set (os_discovered w) \<longrightarrow> off name ?s1" "\<not> sp_nospawn ?s1" "sp_resuming ?s1 = sp_resuming st"
    by auto
  from stop_managed_off [OF s1(2) shutdown_rows(1,2), of name w] assms(2) s1 show ?thesis
    by (auto simp: stop_all_daemon_managed_def split_def assms(1) shutdown_rows(3) off_def)
qed

text \<open>C27: Shutdown leaves nothing behind: no service of the table and no discovered sibling has a spawn
  record or a child after it, though some stops failed, and none comes back in whatever sweeps and
  pending restarts still run, unless one had already passed its check.
\<close>

theorem shutdown_leaves_nothing:
  assumes "\<not> sp_nospawn st" and "name \<in> set core_service_names \<union> ds_name ` set (os_discovered w)"
    and "name \<notin> set (sp_resuming st)"
    and "sup_run cfg (snd (snd (stop_all_daemon_managed w st))) evs st'" and "StartCmd name \<notin> set evs"
  shows "hm_get (sp_records st') name = None \<and> hm_get (sp_procs st') name = None"
proof -
  have "gone name (snd (snd (stop_all_daemon_managed w st)))"
    using stop_all_off [OF assms(1,2)] assms(3) by (simp add: off_def gone_def)
  from gone_run [OF assms(4) this assms(5)] show ?thesis by (simp add: gone_def)
qed

theorem shutdown_leaves_nothing_witness:
  "hm_get (sp_procs (snd (snd (stop_all_daemon_managed sample_os
     (snd (dispatch_start GATEWAY sample_os (sup_new []))))))) GATEWAY = None"
proof -
  let ?st = "snd (dispatch_start GATEWAY sample_os (sup_new []))"
  have "\<not> sp_nospawn ?st" "GATEWAY \<notin> set (sp_resuming ?st)" "GATEWAY \<in> set core_service_names"
    using dispatch_start_own [of GATEWAY] by (simp_all add: own_start_def own_change_def sup_new_def core_names)
  then show ?thesis
    using shutdown_leaves_nothing [OF _ _ _ sup_run.start, of ?st GATEWAY sample_os] by simp
qed

end
