(* ===== verification/Tool_Consent.thy ===== *)
theory Tool_Consent
  imports Keyed_Store "HOL-Library.List_Lexorder" "HOL-Library.Char_ord"
begin

text \<open>
  The consent of the user to the agent's tools (\<open>wylde-harness/src/tooling/consent.rs\<close> and the
  \<open>consent.*\<close> actions of \<open>api/consent.rs\<close>, \<open>api/mod.rs\<close>): the store with its decisions and one-time
  grants, the registry of pending prompts with its events, and the actions that change them.
\<close>

section \<open>State and surroundings\<close>

datatype decision = Approved | Denied

fun as_wire :: "decision \<Rightarrow> string" where
  "as_wire Approved = ''approved''"
| "as_wire Denied = ''denied''"

record consent_file =
  cf_no_auth :: bool
  cf_tools :: "(string, decision) hmap"

definition consent_file_default :: consent_file where
  "consent_file_default = \<lparr>cf_no_auth = False, cf_tools = []\<rparr>"

datatype gate_outcome = Allow | Deny string | PendingPrompt string

record pending_entry =
  pe_id :: string
  pe_tool :: string
  pe_summary :: string
  pe_default_action :: string
  pe_awaiting_since :: int

datatype consent_event = PendingEvent pending_entry | Resolved string string "string option"

text \<open>
  The store and the pending registry are one state. \<open>cs_disk\<close> is the file: none, one that cannot be
  read or parsed, or its content. \<open>cs_events\<close> are the broadcasts so far, whoever listens.
\<close>

record consent_state =
  cs_file :: consent_file
  cs_loaded :: bool
  cs_one_time :: "(string, decision) hmap"
  cs_disk :: "consent_file option option"
  cs_pending :: "pending_entry list"
  cs_events :: "consent_event list"

text \<open>
  \<open>he_io\<close> is the error that a write of the file meets, \<open>he_uuid n\<close> the id that the generator gives
  when \<open>n\<close> events were sent, \<open>he_debug\<close> is Rust's \<open>{:?}\<close> of a string, \<open>he_elapsed\<close> the measured duration.
\<close>

record henv =
  he_bypass_flag :: bool
  he_bypass_env :: "string option"
  he_io :: "string option"
  he_uuid :: "nat \<Rightarrow> string"
  he_now :: int
  he_debug :: "string \<Rightarrow> string"
  he_elapsed :: nat

definition consent_new :: "consent_file option option \<Rightarrow> consent_state" where
  "consent_new disk = \<lparr>cs_file = consent_file_default, cs_loaded = False, cs_one_time = [], cs_disk = disk,
     cs_pending = [], cs_events = []\<rparr>"

section \<open>The store\<close>

definition ensure_loaded :: "consent_state \<Rightarrow> consent_state" where
  "ensure_loaded st =
     (if cs_loaded st then st
      else case cs_disk st of
        Some (Some f) \<Rightarrow> st\<lparr>cs_file := f, cs_loaded := True\<rparr>
      | _ \<Rightarrow> st\<lparr>cs_loaded := True\<rparr>)"

definition consent_persist :: "henv \<Rightarrow> consent_state \<Rightarrow> (string, unit) rust_res \<times> consent_state" where
  "consent_persist w st =
     (case he_io w of Some e \<Rightarrow> (Inl e, st) | None \<Rightarrow> (Inr (), st\<lparr>cs_disk := Some (Some (cs_file st))\<rparr>))"

definition consent_check :: "henv \<Rightarrow> string \<Rightarrow> string \<Rightarrow> consent_state \<Rightarrow> gate_outcome \<times> consent_state" where
  "consent_check w tool_id prompt st =
     (let st1 = ensure_loaded st
      in if cf_no_auth (cs_file st1) then (Allow, st1)
         else case hm_get (cs_one_time st1) tool_id of
           Some d \<Rightarrow>
             (case d of
                Approved \<Rightarrow> Allow
              | Denied \<Rightarrow> Deny (''tool '' @ he_debug w tool_id @ '' was denied once by the user; the deny was ''
                  @ ''not persisted, so a subsequent dispatch will prompt again''),
              st1\<lparr>cs_one_time := hm_del tool_id (cs_one_time st1)\<rparr>)
         | None \<Rightarrow>
             (case hm_get (cf_tools (cs_file st1)) tool_id of
                Some Approved \<Rightarrow> (Allow, st1)
              | Some Denied \<Rightarrow> (Deny (''tool '' @ he_debug w tool_id @ '' is denied by the user's stored consent preference; ''
                  @ ''call `consent.set` with decision='' @ dquote @ ''approved'' @ dquote @ '' to re-enable''), st1)
              | None \<Rightarrow> (PendingPrompt prompt, st1)))"

definition set_one_time :: "string \<Rightarrow> decision \<Rightarrow> consent_state \<Rightarrow> consent_state" where
  "set_one_time tool_id d st = st\<lparr>cs_one_time := hm_put tool_id d (cs_one_time st)\<rparr>"

definition consent_set :: "henv \<Rightarrow> string \<Rightarrow> decision \<Rightarrow> consent_state \<Rightarrow> (string, unit) rust_res \<times> consent_state" where
  "consent_set w tool_id d st =
     (let st1 = ensure_loaded st; f = cs_file st1
      in consent_persist w (st1\<lparr>cs_file := f\<lparr>cf_tools := hm_put tool_id d (cf_tools f)\<rparr>\<rparr>))"

definition set_no_auth :: "henv \<Rightarrow> bool \<Rightarrow> consent_state \<Rightarrow> (string, unit) rust_res \<times> consent_state" where
  "set_no_auth w enabled st =
     (let st1 = ensure_loaded st in consent_persist w (st1\<lparr>cs_file := (cs_file st1)\<lparr>cf_no_auth := enabled\<rparr>\<rparr>))"

definition consent_clear :: "henv \<Rightarrow> string \<Rightarrow> consent_state \<Rightarrow> (string, unit) rust_res \<times> consent_state" where
  "consent_clear w tool_id st =
     (let st1 = ensure_loaded st; f = cs_file st1
      in consent_persist w (st1\<lparr>cs_file := f\<lparr>cf_tools := hm_del tool_id (cf_tools f)\<rparr>\<rparr>))"

definition consent_reset :: "henv \<Rightarrow> consent_state \<Rightarrow> (string, unit) rust_res \<times> consent_state" where
  "consent_reset w st =
     consent_persist w (st\<lparr>cs_file := consent_file_default, cs_loaded := True, cs_one_time := []\<rparr>)"

definition consent_snapshot :: "consent_state \<Rightarrow> consent_file \<times> consent_state" where
  "consent_snapshot st = (let st1 = ensure_loaded st in (cs_file st1, st1))"

definition global_bypass_active :: "henv \<Rightarrow> bool" where
  "global_bypass_active w =
     (if he_bypass_flag w then True
      else case he_bypass_env w of
        Some v \<Rightarrow> (let t = to_ascii_lowercase (trim v) in t = ''1'' \<or> t = ''true'' \<or> t = ''yes'')
      | None \<Rightarrow> False)"

section \<open>Pending prompts\<close>

definition record_pending :: "henv \<Rightarrow> string \<Rightarrow> string \<Rightarrow> string \<Rightarrow> consent_state \<Rightarrow> string \<times> consent_state" where
  "record_pending w tool summary default_action st =
     (case List.find (\<lambda>e. pe_tool e = tool) (cs_pending st) of
        Some existing \<Rightarrow> (pe_id existing, st)
      | None \<Rightarrow>
          (let entry = \<lparr>pe_id = he_uuid w (length (cs_events st)), pe_tool = tool, pe_summary = summary,
                        pe_default_action = default_action, pe_awaiting_since = he_now w\<rparr>
           in (pe_id entry, st\<lparr>cs_pending := cs_pending st @ [entry],
                               cs_events := cs_events st @ [PendingEvent entry]\<rparr>)))"

definition resolve_pending_for_tool :: "string \<Rightarrow> string option \<Rightarrow> consent_state \<Rightarrow> consent_state" where
  "resolve_pending_for_tool tool_id d st =
     (let removed = filter (\<lambda>e. pe_tool e = tool_id) (cs_pending st)
      in st\<lparr>cs_pending := filter (\<lambda>e. pe_tool e \<noteq> tool_id) (cs_pending st),
            cs_events := cs_events st @ map (\<lambda>e. Resolved (pe_id e) (pe_tool e) d) removed\<rparr>)"

text \<open>A subscriber gets the pending entries and from then on the events after the given position.\<close>

definition subscribe_pending :: "consent_state \<Rightarrow> nat \<times> pending_entry list" where
  "subscribe_pending st = (length (cs_events st), cs_pending st)"

definition clear_pending :: "consent_state \<Rightarrow> consent_state" where
  "clear_pending st = st\<lparr>cs_pending := []\<rparr>"

definition format_prompt :: "string \<Rightarrow> string \<Rightarrow> string \<Rightarrow> bool \<Rightarrow> string" where
  "format_prompt tool_id tool_name description destructive =
     (let danger = (if destructive then '' [destructive '' @ em_dash @ '' may modify or delete data]'' else [])
      in ''Wylde wants to call the '' @ tool_name @ '' tool ('' @ tool_id @ '')'' @ danger @ ''. '' @ description
         @ '' Approve once, deny, or remember the choice for next time?'')"

section \<open>The actions\<close>

definition require_string :: "json \<Rightarrow> string \<Rightarrow> string option" where
  "require_string payload key =
     (case get_str key payload of Some s \<Rightarrow> if s = [] then None else Some s | None \<Rightarrow> None)"

definition consent_snapshot_value :: "consent_state \<Rightarrow> json \<times> consent_state" where
  "consent_snapshot_value st =
     (case consent_snapshot st of (snap, st1) \<Rightarrow>
        (JObj [(''no_auth'', JBool (cf_no_auth snap)),
               (''tools'', JObj (map (\<lambda>(k, d). (k, JStr (as_wire d))) (sort_key fst (cf_tools snap))))], st1))"

definition parse_consent_set :: "henv \<Rightarrow> json \<Rightarrow> (string, string \<times> decision \<times> bool) rust_res" where
  "parse_consent_set w payload =
     (case require_string payload ''tool_id'' of
        None \<Rightarrow> Inl ''tool_id is required''
      | Some tool_id \<Rightarrow>
          (case get_str ''decision'' payload of
             None \<Rightarrow> Inl ''decision is required''
           | Some s \<Rightarrow>
               (case (if s = ''approved'' then Some Approved else if s = ''denied'' then Some Denied else None) of
                  None \<Rightarrow> Inl (''decision must be '' @ dquote @ ''approved'' @ dquote @ '' or '' @ dquote @ ''denied'' @ dquote
                            @ ''; got '' @ he_debug w s)
                | Some d \<Rightarrow>
                    (case jget ''remember'' payload of
                       None \<Rightarrow> Inr (tool_id, d, True)
                     | Some (JBool b) \<Rightarrow> Inr (tool_id, d, b)
                     | Some _ \<Rightarrow> Inl ''remember must be a bool''))))"

definition handle_consent_decide :: "henv \<Rightarrow> json \<Rightarrow> consent_state \<Rightarrow> reply \<times> consent_state" where
  "handle_consent_decide w payload st =
     (case parse_consent_set w payload of
        Inl e \<Rightarrow> (ipc_err ''bad_request'' e, st)
      | Inr (tool_id, d, remember) \<Rightarrow>
          (case (if remember then consent_set w tool_id d st else (Inr (), set_one_time tool_id d st)) of
             (Inl e, st1) \<Rightarrow> (ipc_err ''io_error'' e, st1)
           | (Inr _, st1) \<Rightarrow>
               (case consent_snapshot_value (resolve_pending_for_tool tool_id (Some (as_wire d)) st1) of
                  (v, st2) \<Rightarrow> (Inr v, st2))))"

definition api_consent_clear :: "henv \<Rightarrow> json \<Rightarrow> consent_state \<Rightarrow> reply \<times> consent_state" where
  "api_consent_clear w payload st =
     (case require_string payload ''tool_id'' of
        None \<Rightarrow> (ipc_err ''bad_request'' ''tool_id is required'', st)
      | Some tool_id \<Rightarrow>
          (case consent_clear w tool_id st of
             (Inl e, st1) \<Rightarrow> (ipc_err ''io_error'' e, st1)
           | (Inr _, st1) \<Rightarrow>
               (case consent_snapshot_value (resolve_pending_for_tool tool_id None st1) of (v, st2) \<Rightarrow> (Inr v, st2))))"

definition api_consent_set_no_auth :: "henv \<Rightarrow> json \<Rightarrow> consent_state \<Rightarrow> reply \<times> consent_state" where
  "api_consent_set_no_auth w payload st =
     (case Option.bind (jget ''enabled'' payload) as_bool of
        None \<Rightarrow> (ipc_err ''bad_request'' ''enabled (bool) is required'', st)
      | Some enabled \<Rightarrow>
          (case set_no_auth w enabled st of
             (Inl e, st1) \<Rightarrow> (ipc_err ''io_error'' e, st1)
           | (Inr _, st1) \<Rightarrow> (case consent_snapshot_value st1 of (v, st2) \<Rightarrow> (Inr v, st2))))"

definition api_consent_reset :: "henv \<Rightarrow> consent_state \<Rightarrow> reply \<times> consent_state" where
  "api_consent_reset w st =
     (case consent_reset w st of
        (Inl e, st1) \<Rightarrow> (ipc_err ''io_error'' e, st1)
      | (Inr _, st1) \<Rightarrow> (case consent_snapshot_value (clear_pending st1) of (v, st2) \<Rightarrow> (Inr v, st2)))"

definition pending_event_chunk :: "pending_entry \<Rightarrow> json" where
  "pending_event_chunk e =
     JObj [(''type'', JStr ''pending''), (''id'', JStr (pe_id e)), (''tool'', JStr (pe_tool e)),
           (''summary'', JStr (pe_summary e)), (''default_action'', JStr (pe_default_action e)),
           (''awaiting_since'', JInt (pe_awaiting_since e))]"

text \<open>The chunk a subscriber of \<open>consent.stream_pending\<close> is sent for an event.\<close>

fun event_chunk :: "consent_event \<Rightarrow> json" where
  "event_chunk (PendingEvent e) = pending_event_chunk e"
| "event_chunk (Resolved i tool d) =
     JObj [(''type'', JStr ''resolved''), (''id'', JStr i), (''tool'', JStr tool),
           (''decision'', case d of None \<Rightarrow> JNull | Some s \<Rightarrow> JStr s)]"

end
