(* ===== verification/Tool_Registry.thy ===== *)
theory Tool_Registry
  imports Tool_Consent
begin

text \<open>
  The catalogue of the agent's tools (\<open>wylde-harness/src/tooling/registry.rs\<close>): entries,
  insertion with the derived aliases, look-up, and the alias map that the turn driver uses.
  A handler takes its surroundings and its arguments and acts on the state \<open>'s\<close> of the harness and all it may touch.
\<close>

section \<open>Entries\<close>

datatype 's handler_kind =
    Active "henv \<Rightarrow> json \<Rightarrow> 's \<Rightarrow> (ipc_error, json) rust_res \<times> 's"
  | Deferred string string

record 's tool_entry =
  te_id :: string
  te_name :: string
  te_group :: string
  te_description :: string
  te_parameters :: "json list"
  te_destructive :: bool
  te_kind :: "'s handler_kind"

definition entry_active ::
  "string \<Rightarrow> string \<Rightarrow> string \<Rightarrow> string \<Rightarrow> json list \<Rightarrow> bool
   \<Rightarrow> (henv \<Rightarrow> json \<Rightarrow> 's \<Rightarrow> (ipc_error, json) rust_res \<times> 's) \<Rightarrow> 's tool_entry" where
  "entry_active i name grp description parameters destructive handler =
     \<lparr>te_id = i, te_name = name, te_group = grp, te_description = description,
      te_parameters = parameters, te_destructive = destructive, te_kind = Active handler\<rparr>"

definition entry_deferred ::
  "string \<Rightarrow> string \<Rightarrow> string \<Rightarrow> string \<Rightarrow> json list \<Rightarrow> bool \<Rightarrow> string \<Rightarrow> string \<Rightarrow> 's tool_entry" where
  "entry_deferred i name grp description parameters destructive phase reason =
     \<lparr>te_id = i, te_name = name, te_group = grp, te_description = description,
      te_parameters = parameters, te_destructive = destructive, te_kind = Deferred phase reason\<rparr>"

definition tool_param :: "string \<Rightarrow> string \<Rightarrow> bool \<Rightarrow> string \<Rightarrow> json" where
  "tool_param name typ required description =
     JObj [(''name'', JStr name), (''type'', JStr typ), (''required'', JBool required),
           (''description'', JStr description)]"

definition tool_param_default :: "string \<Rightarrow> string \<Rightarrow> string \<Rightarrow> json \<Rightarrow> json" where
  "tool_param_default name typ description d =
     JObj [(''name'', JStr name), (''type'', JStr typ), (''required'', JBool False),
           (''description'', JStr description), (''default'', d)]"

section \<open>The registry\<close>

record 's tool_registry =
  tr_by_id :: "(string, 's tool_entry) hmap"
  tr_aliases :: "(string, string) hmap"

definition registry_empty :: "'s tool_registry" where
  "registry_empty = \<lparr>tr_by_id = [], tr_aliases = []\<rparr>"

definition replace_char :: "char \<Rightarrow> char \<Rightarrow> string \<Rightarrow> string" where
  "replace_char a b s = map (\<lambda>c. if c = a then b else c) s"

text \<open>The keys an entry can be found under, trimmed, each once, in the order of the source.\<close>

fun push_keys :: "string list \<Rightarrow> string list \<Rightarrow> string list" where
  "push_keys keys [] = keys"
| "push_keys keys (raw # raws) =
     (let trimmed = trim raw
      in push_keys (if trimmed \<noteq> [] \<and> trimmed \<notin> set keys then keys @ [trimmed] else keys) raws)"

definition alias_keys_for :: "'s tool_entry \<Rightarrow> string list" where
  "alias_keys_for e = push_keys []
     [te_id e, te_name e, replace_char (CHR ''_'') (CHR ''.'') (te_id e),
      replace_char (CHR ''.'') (CHR ''_'') (te_name e)]"

text \<open>An alias never displaces an id, and the first alias wins.\<close>

fun add_aliases :: "string \<Rightarrow> ('k, 'e) hmap \<Rightarrow> 'k list \<Rightarrow> ('k, string) hmap \<Rightarrow> ('k, string) hmap" where
  "add_aliases i by_id [] al = al"
| "add_aliases i by_id (a # as) al =
     add_aliases i by_id as
       (if hm_get by_id a \<noteq> None then al else if hm_get al a \<noteq> None then al else hm_put a i al)"

definition registry_insert :: "'s tool_entry \<Rightarrow> 's tool_registry \<Rightarrow> 's tool_registry" where
  "registry_insert entry r =
     (let i = te_id entry;
          by_id = hm_put i entry (tr_by_id r);
          aliases = filter (\<lambda>a. a \<noteq> i) (alias_keys_for entry)
      in \<lparr>tr_by_id = by_id, tr_aliases = add_aliases i by_id aliases (tr_aliases r)\<rparr>)"

definition with_only :: "'s tool_entry list \<Rightarrow> 's tool_registry" where
  "with_only entries = foldl (\<lambda>r e. registry_insert e r) registry_empty entries"

definition tool_lookup :: "'s tool_registry \<Rightarrow> string \<Rightarrow> 's tool_entry option" where
  "tool_lookup r key =
     (case hm_get (tr_by_id r) key of
        Some entry \<Rightarrow> Some entry
      | None \<Rightarrow> Option.bind (hm_get (tr_aliases r) key) (hm_get (tr_by_id r)))"

definition canonical_ids :: "'s tool_registry \<Rightarrow> string list" where
  "canonical_ids r = sort (map fst (tr_by_id r))"

definition canonical_entries :: "'s tool_registry \<Rightarrow> 's tool_entry list" where
  "canonical_entries r = List.map_filter (hm_get (tr_by_id r)) (canonical_ids r)"

definition alias_map :: "'s tool_registry \<Rightarrow> (string, string) hmap" where
  "alias_map r = foldl (\<lambda>out i. hm_put i i out) (tr_aliases r) (map fst (tr_by_id r))"

section \<open>Well-formedness\<close>

text \<open>Every entry is stored under its id and every alias leads to an entry.\<close>

definition registry_ok :: "'s tool_registry \<Rightarrow> bool" where
  "registry_ok r \<longleftrightarrow> hm_ok (tr_by_id r) \<and> hm_ok (tr_aliases r)
     \<and> (\<forall>k e. hm_get (tr_by_id r) k = Some e \<longrightarrow> te_id e = k)
     \<and> (\<forall>a i. hm_get (tr_aliases r) a = Some i \<longrightarrow> hm_get (tr_by_id r) i \<noteq> None)"

lemma registry_ok_empty [simp]: "registry_ok registry_empty"
  by (simp add: registry_ok_def registry_empty_def)

lemma add_aliases_get:
  "hm_get (add_aliases i by_id as al) k =
     (case hm_get al k of Some j \<Rightarrow> Some j
      | None \<Rightarrow> if k \<in> set as \<and> hm_get by_id k = None then Some i else None)"
  by (induction as arbitrary: al) (auto split: option.split)

lemma add_aliases_ok: "hm_ok al \<Longrightarrow> hm_ok (add_aliases i by_id as al)"
  by (induction as arbitrary: al) simp_all

lemma registry_ok_insert [wf_intros]:
  assumes "registry_ok r"
  shows "registry_ok (registry_insert e r)"
  using assms
  by (auto simp: registry_ok_def registry_insert_def Let_def add_aliases_get add_aliases_ok split: option.split_asm if_split_asm)

lemma registry_ok_with_only: "registry_ok (with_only entries)"
proof -
  have "registry_ok r \<Longrightarrow> registry_ok (foldl (\<lambda>r e. registry_insert e r) r entries)" for r :: "'a tool_registry"
    by (induction entries arbitrary: r) (simp_all add: registry_ok_insert)
  then show ?thesis by (simp add: with_only_def)
qed

lemma tool_lookup_empty [simp]: "tool_lookup registry_empty k = None"
  by (simp add: tool_lookup_def registry_empty_def)

lemma tool_lookup_in: "registry_ok r \<Longrightarrow> tool_lookup r k = Some e \<Longrightarrow> hm_get (tr_by_id r) (te_id e) = Some e"
  by (auto simp: tool_lookup_def registry_ok_def split: option.split_asm bind_splits)

lemma alias_map_get:
  "hm_get (alias_map r) k = (if hm_get (tr_by_id r) k \<noteq> None then Some k else hm_get (tr_aliases r) k)"
proof -
  have "hm_get (foldl (\<lambda>out i. hm_put i i out) al ids) k = (if k \<in> set ids then Some k else hm_get al k)" for al ids
    by (induction ids arbitrary: al) simp_all
  then show ?thesis by (simp add: alias_map_def hm_get_def map_of_eq_None_iff)
qed

text \<open>
  Inserting a tool is exact: its id finds it, a key that found a tool before still finds that tool (the
  new one when it replaces it), and of the remaining keys only the aliases of the new tool find it.
\<close>

lemma tool_lookup_insert:
  assumes "registry_ok r"
  shows "tool_lookup (registry_insert e r) k =
    (if k = te_id e then Some e
     else case tool_lookup r k of
         Some e' \<Rightarrow> Some (if te_id e' = te_id e then e else e')
       | None \<Rightarrow> if k \<in> set (alias_keys_for e) then Some e else None)"
proof (cases "hm_get (tr_by_id r) k")
  case (Some e')
  then have "te_id e' = k" using assms by (simp add: registry_ok_def)
  then show ?thesis using Some by (auto simp: tool_lookup_def registry_insert_def Let_def)
next
  case None
  show ?thesis
  proof (cases "hm_get (tr_aliases r) k")
    case (Some i)
    then obtain e' where "hm_get (tr_by_id r) i = Some e'" "te_id e' = i"
      using assms by (fastforce simp: registry_ok_def)
    then show ?thesis
      using None Some by (simp add: tool_lookup_def registry_insert_def Let_def add_aliases_get)
  next
    case None': None
    then show ?thesis
      using None by (simp add: tool_lookup_def registry_insert_def Let_def add_aliases_get)
  qed
qed

text \<open>
  The two ways a name is resolved agree: the alias map of the turn driver followed by a look-up of the
  canonical id finds the same tool as the look-up of the name itself, and a canonical id resolves to itself.
\<close>

theorem alias_map_agrees:
  assumes "registry_ok r"
  shows "tool_lookup r name = Option.bind (hm_get (alias_map r) name) (tool_lookup r)
    \<and> (\<forall>e. tool_lookup r name = Some e \<longrightarrow> hm_get (alias_map r) name = Some (te_id e) \<and> tool_lookup r (te_id e) = Some e)"
proof (cases "hm_get (tr_by_id r) name")
  case no_id: None
  show ?thesis
  proof (cases "hm_get (tr_aliases r) name")
    case None
    then show ?thesis using no_id by (simp add: alias_map_get tool_lookup_def)
  next
    case (Some i)
    then obtain e where "hm_get (tr_by_id r) i = Some e" "te_id e = i"
      using assms by (fastforce simp: registry_ok_def)
    then show ?thesis using no_id Some by (simp add: alias_map_get tool_lookup_def)
  qed
next
  case (Some e)
  then show ?thesis using assms by (auto simp: alias_map_get tool_lookup_def registry_ok_def)
qed

end
