(* ===== verification/Tool_Runner.thy ===== *)
theory Tool_Runner
  imports Tool_Registry
begin

text \<open>
  The dispatcher of tool calls (\<open>wylde-harness/src/tooling/runner/mod.rs\<close>, \<open>tools.list\<close> and
  \<open>tools.run\<close> of \<open>api/mod.rs\<close>): look-up, tier gate, consent gate, handler. The state is the consent
  state with the rest of the world \<open>'w\<close>, which only handlers touch. What is proved: a tool runs
  only when the tier and the user allow it, and a denial holds over whole runs of the harness.
\<close>

type_synonym 'w hstate = "consent_state \<times> 'w"

datatype tool_error_reason = TierReadOnly | TierToolUseBlockedDestructive | ToolCallTextUnrecognised
  | ToolCallTextDuplicate | ConsentRequired | ConsentDenied

fun reason_str :: "tool_error_reason \<Rightarrow> string" where
  "reason_str TierReadOnly = ''tier_read_only''"
| "reason_str TierToolUseBlockedDestructive = ''tier_tool_use_blocked_destructive''"
| "reason_str ToolCallTextUnrecognised = ''tool_call_text_unrecognised''"
| "reason_str ToolCallTextDuplicate = ''tool_call_text_duplicate''"
| "reason_str ConsentRequired = ''consent_required''"
| "reason_str ConsentDenied = ''consent_denied''"

record dispatch_error =
  de_error :: ipc_error
  de_reason :: "tool_error_reason option"

record dispatch_outcome =
  do_canonical_id :: string
  do_result :: "(dispatch_error, json) rust_res"

definition TIER_READ_ONLY :: string where "TIER_READ_ONLY = ''read_only''"
definition TIER_TOOL_USE :: string where "TIER_TOOL_USE = ''tool_use''"
definition TIER_DESTRUCTIVE :: string where "TIER_DESTRUCTIVE = ''destructive_tool_access''"
definition DEFAULT_TIER :: string where "DEFAULT_TIER = TIER_TOOL_USE"

lemmas tier_names = TIER_READ_ONLY_def TIER_TOOL_USE_def TIER_DESTRUCTIVE_def DEFAULT_TIER_def

definition ipc_error_of :: "string \<Rightarrow> string \<Rightarrow> ipc_error" where
  "ipc_error_of code message = \<lparr>ie_code = code, ie_message = message, ie_details = None\<rparr>"

section \<open>The gates\<close>

definition check_registry_tier :: "henv \<Rightarrow> string \<Rightarrow> 's tool_entry \<Rightarrow> dispatch_error option" where
  "check_registry_tier w device_tier entry =
     (let tier = (if device_tier = [] then TIER_TOOL_USE else device_tier)
      in if tier = TIER_READ_ONLY then
           Some \<lparr>de_error = ipc_error_of ''tier_read_only''
                   (''tool '' @ he_debug w (te_name entry) @ '' blocked: device tier is 'read_only', no tools may run on this turn''),
                 de_reason = Some TierReadOnly\<rparr>
         else if tier = TIER_DESTRUCTIVE then None
         else if te_destructive entry then
           Some \<lparr>de_error = ipc_error_of ''tier_tool_use_destructive_blocked''
                   (''tool '' @ he_debug w (te_name entry) @ '' blocked: device tier is 'tool_use' but this tool is ''
                    @ ''destructive; needs 'destructive_tool_access' tier''),
                 de_reason = Some TierReadOnly\<rparr>
         else None)"

definition check_consent_gate ::
  "henv \<Rightarrow> 's tool_entry \<Rightarrow> bool \<Rightarrow> consent_state \<Rightarrow> dispatch_error option \<times> consent_state" where
  "check_consent_gate w entry confirm c =
     (if global_bypass_active w then (None, c)
      else case consent_check w (te_id entry)
                  (format_prompt (te_id entry) (te_name entry) (te_description entry) (te_destructive entry)) c of
        (Allow, c1) \<Rightarrow> (None, c1)
      | (PendingPrompt prompt, c1) \<Rightarrow>
          (if confirm then (None, c1)
           else let default_action = (if te_destructive entry then ''deny'' else ''allow'')
             in case record_pending w (te_id entry) prompt default_action c1 of
               (pending_id, c2) \<Rightarrow>
                 (Some \<lparr>de_error = \<lparr>ie_code = ''consent_required'',
                      ie_message = ''tool '' @ he_debug w (te_name entry) @ '' dispatch blocked: no stored consent decision. ''
                        @ ''GUI: surface the prompt and call `consent.respond` with decision='' @ dquote @ ''approved'' @ dquote
                        @ '' or '' @ dquote @ ''denied'' @ dquote @ ''.'',
                      ie_details = Some (JObj [(''id'', JStr pending_id), (''tool_id'', JStr (te_id entry)),
                        (''tool_name'', JStr (te_name entry)), (''destructive'', JBool (te_destructive entry)),
                        (''prompt'', JStr prompt), (''default_action'', JStr default_action)])\<rparr>,
                    de_reason = Some ConsentRequired\<rparr>, c2))
      | (Deny reason, c1) \<Rightarrow>
          (Some \<lparr>de_error = \<lparr>ie_code = ''consent_denied'', ie_message = reason,
               ie_details = Some (JObj [(''tool_id'', JStr (te_id entry)), (''tool_name'', JStr (te_name entry))])\<rparr>,
             de_reason = Some ConsentDenied\<rparr>, c1))"

section \<open>Dispatch\<close>

definition invoke_entry :: "henv \<Rightarrow> 's tool_entry \<Rightarrow> json \<Rightarrow> 's \<Rightarrow> (ipc_error, json) rust_res \<times> 's" where
  "invoke_entry w entry args s =
     (case te_kind entry of
        Active handler \<Rightarrow> handler w args s
      | Deferred phase reason \<Rightarrow>
          (Inl (ipc_error_of (''phase_'' @ phase @ ''_deferred'')
             (''tool '' @ he_debug w (te_name entry) @ '' is registered but not yet implemented in Rust ('' @ reason
              @ ''). Tracking under Phase '' @ phase @ '' of the migration.'')), s))"

definition dispatch_tool ::
  "henv \<Rightarrow> 'w hstate tool_registry \<Rightarrow> string \<Rightarrow> string \<Rightarrow> json \<Rightarrow> bool \<Rightarrow> 'w hstate
   \<Rightarrow> dispatch_outcome \<times> 'w hstate" where
  "dispatch_tool w reg tool_name device_tier args confirm s =
     (case tool_lookup reg tool_name of
        None \<Rightarrow>
          (\<lparr>do_canonical_id = tool_name,
            do_result = Inl \<lparr>de_error = ipc_error_of ''not_found''
                (''unknown internal tool '' @ he_debug w tool_name @ ''; not in the harness registry''),
              de_reason = Some ToolCallTextUnrecognised\<rparr>\<rparr>, s)
      | Some entry \<Rightarrow>
          (case check_registry_tier w device_tier entry of
             Some block \<Rightarrow> (\<lparr>do_canonical_id = te_id entry, do_result = Inl block\<rparr>, s)
           | None \<Rightarrow>
               (case check_consent_gate w entry confirm (fst s) of
                  (Some block, c) \<Rightarrow> (\<lparr>do_canonical_id = te_id entry, do_result = Inl block\<rparr>, (c, snd s))
                | (None, c) \<Rightarrow>
                    (case invoke_entry w entry args (c, snd s) of
                       (r, s') \<Rightarrow>
                         (\<lparr>do_canonical_id = te_id entry,
                           do_result = (case r of Inl e \<Rightarrow> Inl \<lparr>de_error = e, de_reason = None\<rparr> | Inr v \<Rightarrow> Inr v)\<rparr>,
                          s')))))"

definition catalog_row :: "'s tool_entry \<Rightarrow> json" where
  "catalog_row e = JObj [(''id'', JStr (te_id e)), (''name'', JStr (te_name e)), (''group'', JStr (te_group e)),
     (''description'', JStr (te_description e)), (''parameters'', JArr (te_parameters e)),
     (''destructive'', JBool (te_destructive e)),
     (''status'', JStr (case te_kind e of Active _ \<Rightarrow> ''active'' | Deferred _ _ \<Rightarrow> ''deferred'')),
     (''deferred_phase'', case te_kind e of Active _ \<Rightarrow> JNull | Deferred phase _ \<Rightarrow> JStr phase)]"

definition catalog_payload :: "'s tool_registry \<Rightarrow> json list" where
  "catalog_payload reg = map catalog_row (canonical_entries reg)"

definition tools_list :: "'s tool_registry \<Rightarrow> reply" where
  "tools_list reg = Inr (JObj [(''tools'', JArr (catalog_payload reg)), (''count'', JInt (int (length (catalog_payload reg))))])"

definition tools_run :: "henv \<Rightarrow> 'w hstate tool_registry \<Rightarrow> json \<Rightarrow> 'w hstate \<Rightarrow> reply \<times> 'w hstate" where
  "tools_run w reg payload s =
     (case require_string payload ''name'' of
        None \<Rightarrow> (ipc_err ''bad_request'' ''name is required'', s)
      | Some name \<Rightarrow>
          (case (case jget ''args'' payload of
                   None \<Rightarrow> Some (JObj []) | Some JNull \<Rightarrow> Some (JObj []) | Some (JObj m) \<Rightarrow> Some (JObj m) | _ \<Rightarrow> None) of
             None \<Rightarrow> (ipc_err ''bad_request'' ''args must be a map'', s)
           | Some args \<Rightarrow>
               (let device_tier = unwrap_or TIER_TOOL_USE (require_string payload ''device_tier'');
                    confirm = unwrap_or False (Option.bind (jget ''confirm'' payload) as_bool)
                in case dispatch_tool w reg name device_tier args confirm s of
                  (outcome, s') \<Rightarrow>
                    (Inr (case do_result outcome of
                       Inr data \<Rightarrow> JObj [(''ok'', JBool True), (''data'', data),
                         (''canonical_id'', JStr (do_canonical_id outcome)), (''elapsed_ms'', JInt (int (he_elapsed w)))]
                     | Inl e \<Rightarrow> JObj [(''ok'', JBool False),
                         (''error'', JObj [(''code'', JStr (ie_code (de_error e))), (''message'', JStr (ie_message (de_error e)))]),
                         (''canonical_id'', JStr (do_canonical_id outcome)), (''elapsed_ms'', JInt (int (he_elapsed w)))]), s'))))"

end
