(* ===== verification/Tool_Verbs.thy ===== *)
theory Tool_Verbs
  imports Tool_Runner
begin

text \<open>
  The verb layer of the agent's tools (\<open>wylde-harness/src/tooling/resource\<close> and
  \<open>tooling/tools/verbs.rs\<close>): resource definitions, the registry with the overlay of the extensions,
  the visibility filter, the consent gate per operation, the eight verb tools, and the resources
  that the extension bridge declares (\<open>resources/extensions.rs\<close>). Handlers of built-in
  resources are functions on the state; a call over IPC is an argument.
\<close>

section \<open>Operations and requests\<close>

datatype resource_op = OpList | OpGet | OpCreate | OpUpdate | OpDelete | OpSearch | OpExecute

fun op_str :: "resource_op \<Rightarrow> string" where
  "op_str OpList = ''list''"
| "op_str OpGet = ''get''"
| "op_str OpCreate = ''create''"
| "op_str OpUpdate = ''update''"
| "op_str OpDelete = ''delete''"
| "op_str OpSearch = ''search''"
| "op_str OpExecute = ''execute''"

definition all_ops :: "resource_op list" where
  "all_ops = [OpList, OpGet, OpCreate, OpUpdate, OpDelete, OpSearch, OpExecute]"

definition from_verb :: "string \<Rightarrow> resource_op option" where
  "from_verb s = (if s = ''list'' then Some OpList else if s = ''get'' then Some OpGet
     else if s = ''create'' then Some OpCreate else if s = ''update'' then Some OpUpdate
     else if s = ''delete'' then Some OpDelete else if s = ''search'' then Some OpSearch
     else if s = ''execute'' then Some OpExecute else None)"

datatype res_scope = ScopeGlobal | ScopeWorkspace | ScopeConversation

fun scope_str :: "res_scope \<Rightarrow> string" where
  "scope_str ScopeGlobal = ''global''"
| "scope_str ScopeWorkspace = ''workspace''"
| "scope_str ScopeConversation = ''conversation''"

record tool_context =
  tc_resource_type :: string
  tc_op :: "resource_op option"
  tc_resource_id :: "string option"
  tc_device_tier :: string

definition context_for_op :: "string \<Rightarrow> resource_op \<Rightarrow> string option \<Rightarrow> tool_context" where
  "context_for_op rt op rid = \<lparr>tc_resource_type = rt, tc_op = Some op, tc_resource_id = rid, tc_device_tier = []\<rparr>"

record resource_request =
  rq_op :: "resource_op option"
  rq_resource_id :: "string option"
  rq_body :: json
  rq_filter :: json
  rq_params :: json
  rq_action :: "string option"
  rq_query :: "string option"
  rq_limit :: "nat option"
  rq_cursor :: "string option"

definition request_from_args :: "resource_op \<Rightarrow> json \<Rightarrow> resource_request" where
  "request_from_args op args =
     \<lparr>rq_op = Some op, rq_resource_id = require_string args ''resource_id'',
      rq_body = unwrap_or JNull (jget ''body'' args), rq_filter = unwrap_or JNull (jget ''filter'' args),
      rq_params = unwrap_or JNull (jget ''params'' args), rq_action = require_string args ''action'',
      rq_query = require_string args ''query'', rq_limit = Option.bind (jget ''limit'' args) as_u64,
      rq_cursor = require_string args ''cursor''\<rparr>"

section \<open>Definitions and the registry\<close>

type_synonym 's op_handler = "resource_request \<Rightarrow> tool_context \<Rightarrow> 's \<Rightarrow> (ipc_error, json) rust_res \<times> 's"

record 's resource_definition =
  rd_resource_type :: string
  rd_display_name :: string
  rd_description :: string
  rd_scope :: res_scope
  rd_identifier_fields :: "string list"
  rd_filter_fields :: "string list"
  rd_operations :: "(resource_op, 's op_handler) hmap"
  rd_destructive_ops :: "resource_op list"
  rd_describe :: json

definition op_destructive :: "'s resource_definition \<Rightarrow> resource_op \<Rightarrow> bool" where
  "op_destructive d op \<longleftrightarrow> op \<in> set (rd_destructive_ops d)"

definition op_supported :: "'s resource_definition \<Rightarrow> resource_op \<Rightarrow> bool" where
  "op_supported d op \<longleftrightarrow> hm_get (rd_operations d) op \<noteq> None"

definition supported_ops :: "'s resource_definition \<Rightarrow> resource_op list" where
  "supported_ops d = filter (op_supported d) all_ops"

definition summary_row :: "'s resource_definition \<Rightarrow> json" where
  "summary_row d = JObj [(''resource_type'', JStr (rd_resource_type d)), (''display_name'', JStr (rd_display_name d)),
     (''description'', JStr (rd_description d)), (''scope'', JStr (scope_str (rd_scope d))),
     (''ops'', JArr (map (\<lambda>x. JStr (op_str x)) (supported_ops d))),
     (''destructive_ops'', JArr (map (\<lambda>x. JStr (op_str x)) (rd_destructive_ops d)))]"

record toolset_filter =
  tf_allow :: "string list option"
  tf_scope :: res_scope

definition filter_all :: toolset_filter where
  "filter_all = \<lparr>tf_allow = None, tf_scope = ScopeGlobal\<rparr>"

definition permits :: "toolset_filter \<Rightarrow> string \<Rightarrow> res_scope \<Rightarrow> bool" where
  "permits f rt scope =
     (if (case tf_allow f of Some allow \<Rightarrow> rt \<notin> set allow | None \<Rightarrow> False) then False
      else case scope of
        ScopeGlobal \<Rightarrow> True
      | ScopeWorkspace \<Rightarrow> tf_scope f = ScopeWorkspace \<or> tf_scope f = ScopeConversation
      | ScopeConversation \<Rightarrow> tf_scope f = ScopeConversation)"

record 's resource_registry =
  rr_builtins :: "(string, 's resource_definition) hmap"
  rr_extensions :: "(string, 's resource_definition) hmap"

definition resources_empty :: "'s resource_registry" where
  "resources_empty = \<lparr>rr_builtins = [], rr_extensions = []\<rparr>"

definition register_builtin :: "'s resource_definition \<Rightarrow> 's resource_registry \<Rightarrow> 's resource_registry" where
  "register_builtin d rr = rr\<lparr>rr_builtins := hm_put (rd_resource_type d) d (rr_builtins rr)\<rparr>"

definition register_extension :: "'s resource_definition \<Rightarrow> 's resource_registry \<Rightarrow> 's resource_registry" where
  "register_extension d rr = rr\<lparr>rr_extensions := hm_put (rd_resource_type d) d (rr_extensions rr)\<rparr>"

definition unregister_extension :: "string \<Rightarrow> 's resource_registry \<Rightarrow> 's resource_registry" where
  "unregister_extension rt rr = rr\<lparr>rr_extensions := hm_del rt (rr_extensions rr)\<rparr>"

definition resource_lookup :: "'s resource_registry \<Rightarrow> string \<Rightarrow> 's resource_definition option" where
  "resource_lookup rr rt =
     (case hm_get (rr_builtins rr) rt of Some d \<Rightarrow> Some d | None \<Rightarrow> hm_get (rr_extensions rr) rt)"

definition lookup_visible :: "'s resource_registry \<Rightarrow> string \<Rightarrow> toolset_filter \<Rightarrow> 's resource_definition option" where
  "lookup_visible rr rt f =
     (case resource_lookup rr rt of
        None \<Rightarrow> None
      | Some d \<Rightarrow> if permits f (rd_resource_type d) (rd_scope d) then Some d else None)"

definition visible_rows :: "toolset_filter \<Rightarrow> (string, 's resource_definition) hmap \<Rightarrow> json list" where
  "visible_rows f m =
     map (\<lambda>kd. summary_row (snd kd))
       (filter (\<lambda>kd. permits f (rd_resource_type (snd kd)) (rd_scope (snd kd))) (sort_key fst m))"

definition summary_rows :: "'s resource_registry \<Rightarrow> toolset_filter \<Rightarrow> json list" where
  "summary_rows rr f = visible_rows f (rr_builtins rr) @ visible_rows f (rr_extensions rr)"

definition searchable_types :: "'s resource_registry \<Rightarrow> toolset_filter \<Rightarrow> string list" where
  "searchable_types rr f =
     remdups_adj (sort (map rd_resource_type
       (filter (\<lambda>d. op_supported d OpSearch \<and> permits f (rd_resource_type d) (rd_scope d))
          (hm_values (rr_builtins rr) @ hm_values (rr_extensions rr)))))"

section \<open>The consent gate of an operation\<close>

definition op_consent_gate ::
  "henv \<Rightarrow> string \<Rightarrow> resource_op \<Rightarrow> bool \<Rightarrow> bool \<Rightarrow> consent_state \<Rightarrow> dispatch_error option \<times> consent_state" where
  "op_consent_gate w rt op effective_destructive coarse_destructive c =
     (if \<not> effective_destructive \<or> coarse_destructive then (None, c)
      else if global_bypass_active w then (None, c)
      else
        let key = rt @ ''.'' @ op_str op
        in case consent_check w key (format_prompt key (''wylde_'' @ op_str op)
                     (op_str op @ '' on the '' @ rt @ '' resource'') True) c of
          (Allow, c1) \<Rightarrow> (None, c1)
        | (PendingPrompt prompt, c1) \<Rightarrow>
            (case record_pending w key prompt ''deny'' c1 of
               (pending_id, c2) \<Rightarrow>
                 (Some \<lparr>de_error = \<lparr>ie_code = ''consent_required'',
                      ie_message = ''verb dispatch of '' @ he_debug w key @ '' ('' @ op_str op @ '') blocked: no stored consent decision ''
                        @ ''for this destructive resource op. GUI: surface the prompt and call `consent.respond`.'',
                      ie_details = Some (JObj [(''id'', JStr pending_id), (''tool_id'', JStr key), (''resource_type'', JStr rt),
                        (''op'', JStr (op_str op)), (''destructive'', JBool True), (''prompt'', JStr prompt),
                        (''default_action'', JStr ''deny'')])\<rparr>,
                    de_reason = Some ConsentRequired\<rparr>, c2))
        | (Deny reason, c1) \<Rightarrow>
            (Some \<lparr>de_error = \<lparr>ie_code = ''consent_denied'', ie_message = reason,
                 ie_details = Some (JObj [(''tool_id'', JStr key), (''resource_type'', JStr rt), (''op'', JStr (op_str op))])\<rparr>,
               de_reason = Some ConsentDenied\<rparr>, c1))"

section \<open>The verb tools\<close>

definition missing_resource_type :: "resource_op \<Rightarrow> json" where
  "missing_resource_type op = JObj [(''status'', JStr ''error''),
     (''error'', JStr (''wylde_'' @ op_str op @ '' requires a 'resource_type' argument; call wylde_describe to list valid resource types''))]"

definition available_types :: "'s resource_registry \<Rightarrow> toolset_filter \<Rightarrow> json" where
  "available_types rr f =
     JArr (List.map_filter (\<lambda>r. map_option JStr (get_str ''resource_type'' r)) (summary_rows rr f))"

definition res_not_found :: "henv \<Rightarrow> string \<Rightarrow> resource_op \<Rightarrow> 's resource_registry \<Rightarrow> toolset_filter \<Rightarrow> json" where
  "res_not_found w rt op rr f = JObj [(''status'', JStr ''not_found''), (''resource_type'', JStr rt), (''op'', JStr (op_str op)),
     (''error'', JStr (''no resource type '' @ he_debug w rt @ '' is registered; call wylde_describe to list valid resource types'')),
     (''available'', available_types rr f)]"

definition unsupported_op :: "henv \<Rightarrow> string \<Rightarrow> resource_op \<Rightarrow> 's resource_definition \<Rightarrow> json" where
  "unsupported_op w rt op d = JObj [(''status'', JStr ''unsupported_op''), (''resource_type'', JStr rt), (''op'', JStr (op_str op)),
     (''error'', JStr (''resource '' @ he_debug w rt @ '' does not support the '' @ he_debug w (op_str op) @ '' op'')),
     (''supported_ops'', JArr (map (\<lambda>x. JStr (op_str x)) (supported_ops d)))]"

definition run_describe :: "henv \<Rightarrow> 's resource_registry \<Rightarrow> json \<Rightarrow> json" where
  "run_describe w rr args =
     (case require_string args ''resource_type'' of
        Some rt \<Rightarrow>
          (case lookup_visible rr rt filter_all of
             Some d \<Rightarrow> JObj [(''status'', JStr ''success''), (''resource_type'', JStr rt), (''definition'', rd_describe d)]
           | None \<Rightarrow> JObj [(''status'', JStr ''not_found''), (''resource_type'', JStr rt),
               (''error'', JStr (''no resource type '' @ he_debug w rt @ '' is registered'')),
               (''available'', available_types rr filter_all)])
      | None \<Rightarrow> JObj [(''status'', JStr ''success''), (''resources'', JArr (summary_rows rr filter_all)),
               (''count'', JInt (int (length (summary_rows rr filter_all))))])"

definition run_verb ::
  "henv \<Rightarrow> 'w hstate resource_registry \<Rightarrow> resource_op \<Rightarrow> bool \<Rightarrow> json \<Rightarrow> 'w hstate
   \<Rightarrow> (ipc_error, json) rust_res \<times> 'w hstate" where
  "run_verb w rr op coarse_destructive args s =
     (case require_string args ''resource_type'' of
        None \<Rightarrow> (Inr (missing_resource_type op), s)
      | Some rt \<Rightarrow>
          (case lookup_visible rr rt filter_all of
             None \<Rightarrow> (Inr (res_not_found w rt op rr filter_all), s)
           | Some d \<Rightarrow>
               (case hm_get (rd_operations d) op of
                  None \<Rightarrow> (Inr (unsupported_op w rt op d), s)
                | Some handler \<Rightarrow>
                    (case op_consent_gate w rt op (op_destructive d op) coarse_destructive (fst s) of
                       (Some block, c) \<Rightarrow> (Inl (de_error block), (c, snd s))
                     | (None, c) \<Rightarrow>
                         (let req = request_from_args op args
                          in handler req (context_for_op rt op (rq_resource_id req)) (c, snd s))))))"

text \<open>The fan-out of \<open>wylde_search\<close> over every searchable type, in their order.\<close>

fun fan_out :: "'s resource_registry \<Rightarrow> json \<Rightarrow> string list \<Rightarrow> 's \<Rightarrow> json list \<times> 's" where
  "fan_out rr args [] s = ([], s)"
| "fan_out rr args (t # ts) s =
     (case Option.bind (lookup_visible rr t filter_all) (\<lambda>d. hm_get (rd_operations d) OpSearch) of
        None \<Rightarrow> fan_out rr args ts s
      | Some handler \<Rightarrow>
          (case handler (request_from_args OpSearch args) (context_for_op t OpSearch None) s of
             (r, s1) \<Rightarrow> (case fan_out rr args ts s1 of
               (rs, s2) \<Rightarrow>
                 ((case r of
                     Inr v \<Rightarrow> JObj [(''resource_type'', JStr t), (''result'', v)]
                   | Inl e \<Rightarrow> JObj [(''resource_type'', JStr t), (''error'', JStr (ie_message e))]) # rs, s2))))"

definition run_search ::
  "henv \<Rightarrow> 'w hstate resource_registry \<Rightarrow> json \<Rightarrow> 'w hstate \<Rightarrow> (ipc_error, json) rust_res \<times> 'w hstate" where
  "run_search w rr args s =
     (if trim (unwrap_or [] (get_str ''resource_type'' args)) = ''*'' then
        let types = searchable_types rr filter_all
        in case fan_out rr args types s of
          (results, s1) \<Rightarrow>
            (Inr (JObj [(''status'', JStr ''success''), (''fanout'', JBool True),
               (''searched'', JArr (map JStr types)), (''results'', JArr results)]), s1)
      else run_verb w rr OpSearch False args s)"

definition verb_entries :: "'w hstate resource_registry \<Rightarrow> 'w hstate tool_entry list" where
  "verb_entries rr = [
     entry_active ''wylde_describe'' ''wylde_describe'' ''verbs''
       (''Discover Wylde resources. With no argument, returns a compact list of every resource type you can ''
        @ ''operate on (its display name, supported verbs, and scope). With `resource_type`, returns that ''
        @ ''resource's full self-description (identifier/filter fields and per-op notes). Call this first to ''
        @ ''learn what `resource_type` values the other verb tools accept '' @ em_dash @ '' the legal values are not in the ''
        @ ''always-on prompt.'')
       [tool_param ''resource_type'' ''string'' False (''Resource to describe; omit for the full list''),
        tool_param_default ''compact'' ''boolean'' (''Compact rows only (default true)'') (JBool True)]
       False (\<lambda>w args s. (Inr (run_describe w rr args), s)),
     entry_active ''wylde_list'' ''wylde_list'' ''verbs''
       (''List instances of a resource. Args: resource_type (required), optional filter object, limit, ''
        @ ''cursor. Use wylde_describe to see a resource's filter fields.'')
       [tool_param ''resource_type'' ''string'' True (''Resource type, e.g. 'memory', 'file'' @ squote),
        tool_param ''filter'' ''object'' False (''Filter predicate (resource-specific)''),
        tool_param ''limit'' ''number'' False (''Max rows''),
        tool_param ''cursor'' ''string'' False (''Pagination cursor'')]
       False (\<lambda>w args s. run_verb w rr OpList False args s),
     entry_active ''wylde_get'' ''wylde_get'' ''verbs''
       (''Fetch one instance of a resource by id. Args: resource_type (required), resource_id.'')
       [tool_param ''resource_type'' ''string'' True (''Resource type''),
        tool_param ''resource_id'' ''string'' False (''Identifier of the instance'')]
       False (\<lambda>w args s. run_verb w rr OpGet False args s),
     entry_active ''wylde_search'' ''wylde_search'' ''verbs''
       (''Search a resource (or '*' to fan out across every search-capable resource). Args: resource_type ''
        @ ''(required; '*' for all), query, optional filter, limit.'')
       [tool_param ''resource_type'' ''string'' True (''Resource type, or '*' for all searchable''),
        tool_param ''query'' ''string'' False (''Free-text query''),
        tool_param ''filter'' ''object'' False (''Filter predicate''),
        tool_param ''limit'' ''number'' False (''Max results'')]
       False (\<lambda>w args s. run_search w rr args s),
     entry_active ''wylde_create'' ''wylde_create'' ''verbs''
       (''Create a new instance of a resource. Args: resource_type (required), body object.'')
       [tool_param ''resource_type'' ''string'' True (''Resource type''),
        tool_param ''body'' ''object'' False (''Creation payload (resource-specific)'')]
       True (\<lambda>w args s. run_verb w rr OpCreate True args s),
     entry_active ''wylde_update'' ''wylde_update'' ''verbs''
       (''Update an existing instance of a resource. Args: resource_type (required), resource_id, body object.'')
       [tool_param ''resource_type'' ''string'' True (''Resource type''),
        tool_param ''resource_id'' ''string'' False (''Identifier of the instance''),
        tool_param ''body'' ''object'' False (''Fields to change'')]
       True (\<lambda>w args s. run_verb w rr OpUpdate True args s),
     entry_active ''wylde_delete'' ''wylde_delete'' ''verbs''
       (''Delete an instance (by resource_id) or matching instances (by filter). Args: resource_type ''
        @ ''(required), resource_id OR filter.'')
       [tool_param ''resource_type'' ''string'' True (''Resource type''),
        tool_param ''resource_id'' ''string'' False (''Identifier to delete''),
        tool_param ''filter'' ''object'' False (''Predicate for bulk delete'')]
       True (\<lambda>w args s. run_verb w rr OpDelete True args s),
     entry_active ''wylde_execute'' ''wylde_execute'' ''verbs''
       (''Run a named action on a resource (the verb for operations that aren't plain CRUD). Args: ''
        @ ''resource_type (required), action (required), optional params object.'')
       [tool_param ''resource_type'' ''string'' True (''Resource type''),
        tool_param ''action'' ''string'' False (''Sub-action selector, e.g. 'preload'' @ squote),
        tool_param ''params'' ''object'' False (''Action parameters'')]
       True (\<lambda>w args s. run_verb w rr OpExecute True args s)]"

definition verbs_register :: "'w hstate resource_registry \<Rightarrow> 'w hstate tool_registry \<Rightarrow> 'w hstate tool_registry" where
  "verbs_register rr reg = foldl (\<lambda>r e. registry_insert e r) reg (verb_entries rr)"

section \<open>Resources of extensions\<close>

record ext_action_spec =
  ea_name :: string
  ea_description :: string
  ea_mcp_tool :: "string option"
  ea_destructive :: bool

record ext_op_spec =
  eo_description :: string
  eo_mcp_tool :: string
  eo_destructive :: bool
  eo_tier :: string
  eo_actions :: "ext_action_spec list"
  eo_args_schema :: json
  eo_response_schema :: json

record ext_resource_spec =
  es_extension :: string
  es_resource_type :: string
  es_bare_resource_type :: string
  es_display_name :: string
  es_description :: string
  es_scope :: string
  es_identifier_fields :: "string list"
  es_filter_fields :: "string list"
  es_operations :: "(string, ext_op_spec) hmap"

definition parse_scope :: "string \<Rightarrow> res_scope" where
  "parse_scope s = (if s = ''workspace'' then ScopeWorkspace
     else if s = ''conversation'' then ScopeConversation else ScopeGlobal)"

text \<open>The members that \<open>entry(k).or_insert\<close> adds, and the arguments of an operation.\<close>

fun as_obj :: "json \<Rightarrow> (string \<times> json) list" where
  "as_obj (JObj m) = m"
| "as_obj _ = []"

definition or_insert :: "string \<Rightarrow> json option \<Rightarrow> (string \<times> json) list \<Rightarrow> (string \<times> json) list" where
  "or_insert k v m = (case v of None \<Rightarrow> m | Some x \<Rightarrow> if map_of m k = None then hm_put k x m else m)"

definition build_arguments :: "resource_op \<Rightarrow> resource_request \<Rightarrow> json" where
  "build_arguments op req =
     (let obj = as_obj (case op of OpExecute \<Rightarrow> rq_params req | OpCreate \<Rightarrow> rq_body req | OpUpdate \<Rightarrow> rq_body req
                  | OpList \<Rightarrow> rq_filter req | OpSearch \<Rightarrow> rq_filter req | OpGet \<Rightarrow> rq_body req | OpDelete \<Rightarrow> rq_body req);
          obj1 = or_insert ''resource_id'' (map_option JStr (rq_resource_id req)) obj;
          obj2 = (if op = OpSearch then or_insert ''query'' (map_option JStr (rq_query req)) obj1 else obj1);
          obj3 = (if op = OpList \<or> op = OpSearch then or_insert ''limit'' (map_option (\<lambda>n. JInt (int n)) (rq_limit req)) obj2
                  else obj2)
      in JObj obj3)"

definition known_actions :: "(string, string) hmap \<Rightarrow> json" where
  "known_actions m = JArr (map JStr (sort (map fst m)))"

definition unknown_action_envelope :: "henv \<Rightarrow> string \<Rightarrow> (string, string) hmap \<Rightarrow> json" where
  "unknown_action_envelope w action m = JObj [(''status'', JStr ''error''),
     (''error'', JStr (''unknown action '' @ he_debug w action @ '' for this resource'')), (''known_actions'', known_actions m)]"

definition missing_action_envelope :: "(string, string) hmap \<Rightarrow> json" where
  "missing_action_envelope m = JObj [(''status'', JStr ''error''),
     (''error'', JStr ''wylde_execute requires an 'action' for this resource''), (''known_actions'', known_actions m)]"

text \<open>The tool a call is bound to, or the envelope that says why there is none.\<close>

definition resolve_mcp_tool ::
  "henv \<Rightarrow> resource_op \<Rightarrow> string \<Rightarrow> (string, string) hmap \<Rightarrow> resource_request \<Rightarrow> (json, string) rust_res" where
  "resolve_mcp_tool w op default_tool action_map req =
     (if op = OpExecute then
        (case rq_action req of
           Some action \<Rightarrow>
             (case hm_get action_map action of
                Some t \<Rightarrow> if t \<noteq> [] then Inr t else if default_tool \<noteq> [] then Inr default_tool
                          else Inl (unknown_action_envelope w action action_map)
              | None \<Rightarrow> if default_tool \<noteq> [] then Inr default_tool else Inl (unknown_action_envelope w action action_map))
         | None \<Rightarrow> if default_tool \<noteq> [] then Inr default_tool else Inl (missing_action_envelope action_map))
      else Inr default_tool)"

definition make_op_handler ::
  "henv \<Rightarrow> (string \<Rightarrow> json \<Rightarrow> 's \<Rightarrow> (ipc_error, json) rust_res \<times> 's) \<Rightarrow> string \<Rightarrow> resource_op \<Rightarrow> ext_op_spec
   \<Rightarrow> 's op_handler" where
  "make_op_handler w bridge extension op spec req ctx s =
     (let default_tool = eo_mcp_tool spec;
          action_map = foldl (\<lambda>m a. hm_put (ea_name a)
            (case ea_mcp_tool a of Some t \<Rightarrow> if t \<noteq> [] then t else default_tool | None \<Rightarrow> default_tool) m) [] (eo_actions spec)
      in case resolve_mcp_tool w op default_tool action_map req of
        Inl envelope \<Rightarrow> (Inr envelope, s)
      | Inr tool \<Rightarrow>
          (if tool = [] then
             (Inr (JObj [(''status'', JStr ''error''),
                (''error'', JStr (''extension resource op '' @ he_debug w (op_str op) @ '' has no mcp_tool binding''))]), s)
           else bridge ''ext.tools.call''
             (JObj [(''extension'', JStr extension), (''tool'', JStr tool), (''arguments'', build_arguments op req)]) s))"

definition render_op :: "string \<Rightarrow> ext_op_spec \<Rightarrow> json" where
  "render_op verb op = JObj [(''verb'', JStr (''wylde_'' @ verb)), (''description'', JStr (eo_description op)),
     (''destructive'', JBool (eo_destructive op)), (''tier'', JStr (eo_tier op)), (''mcp_tool'', JStr (eo_mcp_tool op)),
     (''actions'', JArr (map (\<lambda>a. JObj [(''name'', JStr (ea_name a)), (''description'', JStr (ea_description a)),
        (''mcp_tool'', JStr (unwrap_or (eo_mcp_tool op) (ea_mcp_tool a))), (''destructive'', JBool (ea_destructive a))])
        (eo_actions op))),
     (''args_schema'', eo_args_schema op), (''response_schema'', eo_response_schema op)]"

definition render_describe :: "ext_resource_spec \<Rightarrow> json" where
  "render_describe spec = JObj [(''resource_type'', JStr (es_resource_type spec)), (''extension'', JStr (es_extension spec)),
     (''display_name'', JStr (es_display_name spec)), (''description'', JStr (es_description spec)),
     (''scope'', JStr (es_scope spec)), (''identifier_fields'', JArr (map JStr (es_identifier_fields spec))),
     (''filter_fields'', JArr (map JStr (es_filter_fields spec))),
     (''operations'', JObj (map (\<lambda>(verb, op). (verb, render_op verb op)) (sort_key fst (es_operations spec))))]"

text \<open>The operations whose key is a verb, in the order of the keys.\<close>

definition known_ops :: "ext_resource_spec \<Rightarrow> (resource_op \<times> ext_op_spec) list" where
  "known_ops spec = List.map_filter (\<lambda>(verb, op). map_option (\<lambda>r. (r, op)) (from_verb verb)) (sort_key fst (es_operations spec))"

definition build_definition ::
  "henv \<Rightarrow> (string \<Rightarrow> json \<Rightarrow> 's \<Rightarrow> (ipc_error, json) rust_res \<times> 's) \<Rightarrow> ext_resource_spec \<Rightarrow> 's resource_definition" where
  "build_definition w bridge spec =
     \<lparr>rd_resource_type = es_resource_type spec,
      rd_display_name = (if es_display_name spec = [] then es_resource_type spec else es_display_name spec),
      rd_description = es_description spec, rd_scope = parse_scope (es_scope spec),
      rd_identifier_fields = es_identifier_fields spec, rd_filter_fields = es_filter_fields spec,
      rd_operations = foldl (\<lambda>m ro. hm_put (fst ro) (make_op_handler w bridge (es_extension spec) (fst ro) (snd ro)) m)
                        [] (known_ops spec),
      rd_destructive_ops = map fst (filter (\<lambda>ro. eo_destructive (snd ro)) (known_ops spec)),
      rd_describe = render_describe spec\<rparr>"

definition register_from_specs ::
  "henv \<Rightarrow> (string \<Rightarrow> json \<Rightarrow> 's \<Rightarrow> (ipc_error, json) rust_res \<times> 's) \<Rightarrow> ext_resource_spec list
   \<Rightarrow> 's resource_registry \<Rightarrow> string list \<times> 's resource_registry" where
  "register_from_specs w bridge specs rr =
     (map es_resource_type specs, foldl (\<lambda>r spec. register_extension (build_definition w bridge spec) r) rr specs)"

definition unregister_from_specs :: "ext_resource_spec list \<Rightarrow> 's resource_registry \<Rightarrow> 's resource_registry" where
  "unregister_from_specs specs rr = foldl (\<lambda>r spec. unregister_extension (es_resource_type spec) r) rr specs"

text \<open>The reaction to a frame of \<open>ext.events\<close>; \<open>pull\<close> is the answer of \<open>ext.resources.list\<close>.\<close>

definition react_to_event ::
  "henv \<Rightarrow> (string \<Rightarrow> json \<Rightarrow> 's \<Rightarrow> (ipc_error, json) rust_res \<times> 's)
   \<Rightarrow> (string \<Rightarrow> (ipc_error, ext_resource_spec list) rust_res) \<Rightarrow> json \<Rightarrow> 's resource_registry \<Rightarrow> 's resource_registry" where
  "react_to_event w bridge pull frame rr =
     (case get_str ''extension'' frame of
        None \<Rightarrow> rr
      | Some extension \<Rightarrow>
          (let kind = unwrap_or [] (get_str ''kind'' frame)
           in if kind = ''spawn'' \<or> kind = ''enabled'' then
                (case pull extension of Inr specs \<Rightarrow> snd (register_from_specs w bridge specs rr) | Inl _ \<Rightarrow> rr)
              else if kind = ''disabled'' \<or> kind = ''restart'' \<or> kind = ''crash'' \<or> kind = ''exit'' then
                (case pull extension of Inr specs \<Rightarrow> unregister_from_specs specs rr | Inl _ \<Rightarrow> rr)
              else rr))"

end
