(* ===== verification/Tool_Consent_Safety.thy ===== *)
theory Tool_Consent_Safety
  imports Tool_Runner
begin

text \<open>
  What the gates of the tool dispatcher guarantee: the exact condition under which a handler runs,
  the permanence of a denial over runs of the harness with restarts, its one hole, and the
  prompts that subscribers see.
\<close>

section \<open>The standing decision\<close>

text \<open>The decision that the gate will act on: the global flag, else a one-time grant, else the file.\<close>

definition standing :: "string \<Rightarrow> consent_state \<Rightarrow> decision option" where
  "standing t c =
     (let f = cs_file (ensure_loaded c)
      in if cf_no_auth f then Some Approved
         else case hm_get (cs_one_time c) t of Some d \<Rightarrow> Some d | None \<Rightarrow> hm_get (cf_tools f) t)"

lemma ensure_loaded_sel [simp]:
  "cs_one_time (ensure_loaded c) = cs_one_time c" "cs_disk (ensure_loaded c) = cs_disk c"
  "cs_pending (ensure_loaded c) = cs_pending c" "cs_events (ensure_loaded c) = cs_events c"
  "cs_loaded (ensure_loaded c)" "ensure_loaded (ensure_loaded c) = ensure_loaded c"
  by (simp_all add: ensure_loaded_def split: option.split)

lemma ensure_loaded_loaded [simp]: "cs_loaded c \<Longrightarrow> ensure_loaded c = c"
  by (simp add: ensure_loaded_def)

lemma consent_check_outcome:
  "(case standing t c of
      Some Approved \<Rightarrow> fst (consent_check w t p c) = Allow
    | Some Denied \<Rightarrow> (\<exists>reason. fst (consent_check w t p c) = Deny reason)
    | None \<Rightarrow> fst (consent_check w t p c) = PendingPrompt p)"
  by (auto simp: standing_def consent_check_def Let_def split: option.split decision.split)

definition tier_permits :: "string \<Rightarrow> bool \<Rightarrow> bool" where
  "tier_permits tier destructive \<longleftrightarrow> tier \<noteq> TIER_READ_ONLY \<and> (destructive \<longrightarrow> tier = TIER_DESTRUCTIVE)"

lemma check_registry_tier_iff: "check_registry_tier w tier e = None \<longleftrightarrow> tier_permits tier (te_destructive e)"
  by (auto simp: check_registry_tier_def tier_permits_def tier_names Let_def)

definition consents :: "henv \<Rightarrow> bool \<Rightarrow> string \<Rightarrow> consent_state \<Rightarrow> bool" where
  "consents w confirm t c \<longleftrightarrow>
     global_bypass_active w \<or> standing t c = Some Approved \<or> standing t c = None \<and> confirm"

lemma check_consent_gate_iff: "fst (check_consent_gate w e confirm c) = None \<longleftrightarrow> consents w confirm (te_id e) c"
proof -
  obtain q c1 where check: "consent_check w (te_id e)
      (format_prompt (te_id e) (te_name e) (te_description e) (te_destructive e)) c = (q, c1)"
    by (metis prod.exhaust)
  note out = consent_check_outcome [where t = "te_id e" and c = c and w = w and p =
      "format_prompt (te_id e) (te_name e) (te_description e) (te_destructive e)", unfolded check fst_conv]
  show ?thesis
    unfolding check_consent_gate_def check consents_def Let_def
    using out by (cases q) (auto simp: split_def split: option.splits decision.splits)
qed


text \<open>A catalogue with one destructive tool that counts how often it ran.\<close>

definition write_tool :: "nat hstate tool_entry" where
  "write_tool = entry_active ''write_file'' ''fs.write_file'' ''fs'' ''Write a file.'' [] True
     (\<lambda>w args (c, n). (Inr JNull, (c, n + 1)))"

definition sample_henv :: henv where
  "sample_henv = \<lparr>he_bypass_flag = False, he_bypass_env = None, he_io = None, he_uuid = nat_str, he_now = 7,
     he_debug = (\<lambda>s. dquote @ s @ dquote), he_elapsed = 3\<rparr>"

lemma sample_henv_simps [simp]:
  "global_bypass_active sample_henv = False" "he_io sample_henv = None" "he_debug sample_henv s = dquote @ s @ dquote"
  by (simp_all add: sample_henv_def global_bypass_active_def)

lemma write_tool_simps [simp]:
  "te_id write_tool = ''write_file''" "te_destructive write_tool" "te_name write_tool = ''fs.write_file''"
  "te_kind write_tool = Active (\<lambda>w args (c, n). (Inr JNull, (c, n + 1)))"
  by (simp_all add: write_tool_def entry_active_def)

lemma write_tool_lookup [simp]: "tool_lookup (with_only [write_tool]) ''write_file'' = Some write_tool"
  by (simp add: with_only_def tool_lookup_insert)


section \<open>Runs of the harness\<close>

datatype harness_event = DispatchEv string string json bool | DecideEv json | ClearEv json
  | NoAuthEv json | ResetEv | RestartEv

text \<open>Each event comes with the surroundings at its time; a restart keeps the file alone.\<close>

fun harness_step :: "'w hstate tool_registry \<Rightarrow> henv \<times> harness_event \<Rightarrow> 'w hstate \<Rightarrow> 'w hstate" where
  "harness_step reg (w, DispatchEv name tier args confirm) s = snd (dispatch_tool w reg name tier args confirm s)"
| "harness_step reg (w, DecideEv p) s = (snd (handle_consent_decide w p (fst s)), snd s)"
| "harness_step reg (w, ClearEv p) s = (snd (api_consent_clear w p (fst s)), snd s)"
| "harness_step reg (w, NoAuthEv p) s = (snd (api_consent_set_no_auth w p (fst s)), snd s)"
| "harness_step reg (w, ResetEv) s = (snd (api_consent_reset w (fst s)), snd s)"
| "harness_step reg (w, RestartEv) s = (consent_new (cs_disk (fst s)), snd s)"

definition harness_run :: "'w hstate tool_registry \<Rightarrow> (henv \<times> harness_event) list \<Rightarrow> 'w hstate \<Rightarrow> 'w hstate" where
  "harness_run reg evs s = foldl (\<lambda>s ev. harness_step reg ev s) s evs"

text \<open>What takes a denial back: approving the tool, clearing it, a reset, turning authorisation off, the bypass.\<close>

fun lifts :: "string \<Rightarrow> henv \<times> harness_event \<Rightarrow> bool" where
  "lifts t (w, DispatchEv _ _ _ _) = global_bypass_active w"
| "lifts t (w, DecideEv p) = (\<exists>remember. parse_consent_set w p = Inr (t, Approved, remember))"
| "lifts t (w, ClearEv p) = (require_string p ''tool_id'' = Some t)"
| "lifts t (w, NoAuthEv p) = (Option.bind (jget ''enabled'' p) as_bool = Some True)"
| "lifts t (w, ResetEv) = True"
| "lifts t (w, RestartEv) = False"

definition denies :: "string \<Rightarrow> consent_file \<Rightarrow> bool" where
  "denies t f \<longleftrightarrow> \<not> cf_no_auth f \<and> hm_get (cf_tools f) t = Some Denied"

definition denied :: "string \<Rightarrow> consent_state \<Rightarrow> bool" where
  "denied t c \<longleftrightarrow> denies t (cs_file (ensure_loaded c)) \<and> hm_get (cs_one_time c) t \<noteq> Some Approved
     \<and> (\<exists>f. cs_disk c = Some (Some f) \<and> denies t f)"

lemma denied_standing: "denied t c \<Longrightarrow> standing t c = Some Denied"
  by (auto simp: denied_def standing_def denies_def Let_def split: option.split) (metis decision.exhaust)

lemma denied_loaded [simp]: "denied t (ensure_loaded c) = denied t c"
  by (simp add: denied_def)

lemma ensure_loaded_update [simp]:
  "ensure_loaded (c\<lparr>cs_one_time := ot\<rparr>) = (ensure_loaded c)\<lparr>cs_one_time := ot\<rparr>"
  "ensure_loaded (c\<lparr>cs_pending := ps\<rparr>) = (ensure_loaded c)\<lparr>cs_pending := ps\<rparr>"
  "ensure_loaded (c\<lparr>cs_events := es\<rparr>) = (ensure_loaded c)\<lparr>cs_events := es\<rparr>"
  by (simp_all add: ensure_loaded_def split: option.split)

lemma denied_pending [simp]: "denied t (c\<lparr>cs_pending := ps, cs_events := es\<rparr>) = denied t c"
  by (simp add: denied_def)

lemma denied_consume: "denied t c \<Longrightarrow> denied t ((ensure_loaded c)\<lparr>cs_one_time := hm_del k (cs_one_time c)\<rparr>)"
  by (simp add: denied_def)

lemma denied_check: "denied t c \<Longrightarrow> denied t (snd (consent_check w k p c))"
  by (simp add: consent_check_def Let_def denied_consume split: option.split decision.split)

lemma denied_record: "denied t c \<Longrightarrow> denied t (snd (record_pending w k p d c))"
  by (simp add: record_pending_def Let_def split: option.split)

lemma denied_resolve: "denied t c \<Longrightarrow> denied t (resolve_pending_for_tool k d c)"
  by (simp add: resolve_pending_for_tool_def Let_def)

lemma denied_snapshot: "denied t c \<Longrightarrow> denied t (snd (consent_snapshot_value c))"
  by (simp add: consent_snapshot_value_def consent_snapshot_def Let_def)

lemma denied_gate: "denied t c \<Longrightarrow> denied t (snd (check_consent_gate w e confirm c))"
  using denied_check [of t c w "te_id e"] denied_record
  by (auto simp: check_consent_gate_def Let_def split: prod.split gate_outcome.split) (metis snd_conv)+

lemma denied_persist:
  assumes "denied t c" and "denies t f"
  shows "denied t (snd (consent_persist w ((ensure_loaded c)\<lparr>cs_file := f\<rparr>)))"
  using assms by (auto simp: denied_def consent_persist_def split: option.split)

text \<open>A handler keeps the denial of \<open>t\<close>: it may ask for consent itself, as the verb tools do.\<close>

definition keeps_denial :: "string \<Rightarrow> 'w hstate tool_registry \<Rightarrow> bool" where
  "keeps_denial t reg \<longleftrightarrow> (\<forall>k e handler w args c x. tool_lookup reg k = Some e \<longrightarrow> te_kind e = Active handler
     \<longrightarrow> denied t c \<longrightarrow> denied t (fst (snd (handler w args (c, x)))))"

lemma denied_dispatch:
  assumes "denied t (fst s)" and "keeps_denial t reg"
  shows "denied t (fst (snd (dispatch_tool w reg name tier args confirm s)))"
proof (cases "tool_lookup reg name")
  case (Some e)
  obtain b c' where gate: "check_consent_gate w e confirm (fst s) = (b, c')" by fastforce
  have c': "denied t c'" using denied_gate [OF assms(1), of w e confirm] by (simp add: gate)
  show ?thesis
    using assms c' Some
    by (auto simp: dispatch_tool_def gate invoke_entry_def split_def keeps_denial_def split: option.split handler_kind.split)
qed (simp add: dispatch_tool_def assms)

lemma denied_step:
  assumes "denied t (fst s)" and "keeps_denial t reg" and "\<not> lifts t ev"
  shows "denied t (fst (harness_step reg ev s))"
proof -
  have kept: "denied t (snd (consent_persist w ((ensure_loaded (fst s))\<lparr>cs_file := f\<rparr>)))" if "denies t f" for w f
    using denied_persist [OF assms(1) that] .
  have d: "denies t (cs_file (ensure_loaded (fst s)))" using assms(1) by (simp add: denied_def)
  obtain w e where ev: "ev = (w, e)" by fastforce
  show ?thesis
  proof (cases e)
    case (DispatchEv name tier args confirm)
    then show ?thesis using denied_dispatch assms by (simp add: ev)
  next
    case (DecideEv p)
    show ?thesis
    proof (cases "parse_consent_set w p")
      case (Inr a)
      obtain k dec remember where a: "a = (k, dec, remember)" by (cases a)
      have "k = t \<Longrightarrow> dec = Denied" using assms(3) Inr by (cases dec) (auto simp: ev DecideEv a)
      moreover have "denied t (snd (consent_set w k dec (fst s)))" if "k = t \<longrightarrow> dec = Denied"
        unfolding consent_set_def Let_def by (rule kept) (use d that in \<open>auto simp: denies_def\<close>)
      moreover have "denied t (set_one_time k dec (fst s))" if "k = t \<longrightarrow> dec = Denied"
        using assms(1) that by (auto simp: denied_def set_one_time_def ensure_loaded_def split: option.splits)
      ultimately show ?thesis
        using denied_snapshot [OF denied_resolve]
        by (auto simp: ev DecideEv handle_consent_decide_def Inr a split: prod.split sum.split) (metis snd_conv)+
    qed (simp add: ev DecideEv handle_consent_decide_def assms(1))
  next
    case (ClearEv p)
    have "denied t (snd (consent_clear w k (fst s)))" if "k \<noteq> t" for k
      unfolding consent_clear_def Let_def by (rule kept) (use d that in \<open>auto simp: denies_def\<close>)
    then show ?thesis
      using assms denied_snapshot [OF denied_resolve]
      by (auto simp: ev ClearEv api_consent_clear_def split: prod.split sum.split option.split) (metis snd_conv)+
  next
    case (NoAuthEv p)
    have "denied t (snd (set_no_auth w False (fst s)))"
      unfolding set_no_auth_def Let_def by (rule kept) (use d in \<open>auto simp: denies_def\<close>)
    then show ?thesis
      using assms denied_snapshot
      by (auto simp: ev NoAuthEv api_consent_set_no_auth_def split: prod.split sum.split option.split) (metis snd_conv)+
  next
    case RestartEv
    then show ?thesis using assms(1) by (auto simp: ev denied_def consent_new_def ensure_loaded_def)
  qed (use assms(3) ev in simp)
qed

lemma denied_run:
  "denied t (fst s) \<Longrightarrow> keeps_denial t reg \<Longrightarrow> list_all (\<lambda>ev. \<not> lifts t ev) evs
     \<Longrightarrow> denied t (fst (harness_run reg evs s))"
  by (induction evs arbitrary: s) (simp_all add: harness_run_def denied_step)


definition decide_payload :: "string \<Rightarrow> string \<Rightarrow> bool \<Rightarrow> json" where
  "decide_payload t d remember = JObj [(''tool_id'', JStr t), (''decision'', JStr d), (''remember'', JBool remember)]"

lemma parse_decide_payload [simp]:
  "t \<noteq> [] \<Longrightarrow> parse_consent_set w (decide_payload t ''approved'' b) = Inr (t, Approved, b)"
  "t \<noteq> [] \<Longrightarrow> parse_consent_set w (decide_payload t ''denied'' b) = Inr (t, Denied, b)"
  by (simp_all add: parse_consent_set_def decide_payload_def require_string_def get_str_def)


text \<open>
  A one-time approval that is still unused outlives a denial: the user allows the tool once, then denies
  it for good, both succeed, and the next dispatch still runs the tool.
\<close>

theorem one_time_grant_beats_deny:
  "snd (harness_run (with_only [write_tool])
     [(sample_henv, DecideEv (decide_payload ''write_file'' ''approved'' False)),
      (sample_henv, DecideEv (decide_payload ''write_file'' ''denied'' True)),
      (sample_henv, DispatchEv ''write_file'' TIER_DESTRUCTIVE JNull False)] (consent_new None, 0)) = 1"
  by (simp add: harness_run_def handle_consent_decide_def consent_set_def set_one_time_def consent_persist_def
      consent_snapshot_value_def consent_snapshot_def resolve_pending_for_tool_def dispatch_tool_def
      check_registry_tier_def check_consent_gate_def consent_check_def invoke_entry_def consent_new_def
      consent_file_default_def ensure_loaded_def tier_names hm_put_def hm_get_def Let_def)

text \<open>A decision whose write fails is reported as an error, and in force all the same: the gate follows it
  until the next restart, the file keeps the old one, and the prompt stays pending.
\<close>

theorem failed_decision_in_force:
  assumes "parse_consent_set w p = Inr (t, d, True)" and "he_io w = Some err"
    and "\<not> cf_no_auth (cs_file (ensure_loaded c))" and "hm_get (cs_one_time c) t = None"
  shows "fst (handle_consent_decide w p c) = ipc_err ''io_error'' err
    \<and> standing t (snd (handle_consent_decide w p c)) = Some d
    \<and> consent_new (cs_disk (snd (handle_consent_decide w p c))) = consent_new (cs_disk c)
    \<and> cs_pending (snd (handle_consent_decide w p c)) = cs_pending c"
  using assms by (simp add: handle_consent_decide_def consent_set_def consent_persist_def standing_def Let_def)

theorem failed_decision_in_force_witness:
  "standing ''write_file'' (snd (handle_consent_decide (sample_henv\<lparr>he_io := Some ''disk full''\<rparr>)
     (decide_payload ''write_file'' ''approved'' True) (consent_new None))) = Some Approved"
  using failed_decision_in_force [OF parse_decide_payload(1), of "''write_file''" "sample_henv\<lparr>he_io := Some ''disk full''\<rparr>"
      "''disk full''" "consent_new None"]
  by (simp add: consent_new_def ensure_loaded_def consent_file_default_def)

section \<open>The store as a policy\<close>

text \<open>
  What the store promises, without files, loading or lists: a flag, the one-time answers and the standing
  ones.
\<close>

record policy =
  po_free :: bool
  po_once :: "string \<rightharpoonup> decision"
  po_stored :: "string \<rightharpoonup> decision"

definition policy_of_file :: "consent_file \<Rightarrow> policy" where
  "policy_of_file f = \<lparr>po_free = cf_no_auth f, po_once = Map.empty, po_stored = hm_get (cf_tools f)\<rparr>"

definition abs_policy :: "consent_state \<Rightarrow> policy" where
  "abs_policy c = (policy_of_file (cs_file (ensure_loaded c)))\<lparr>po_once := hm_get (cs_one_time c)\<rparr>"

definition policy_verdict :: "policy \<Rightarrow> string \<Rightarrow> decision option" where
  "policy_verdict q t = (if po_free q then Some Approved else case po_once q t of Some d \<Rightarrow> Some d | None \<Rightarrow> po_stored q t)"

datatype policy_op = Ask string | Once string decision | Store string decision | Forget string | Free bool | Wipe

fun policy_step :: "policy_op \<Rightarrow> policy \<Rightarrow> policy" where
  "policy_step (Ask t) q = (if po_free q then q else q\<lparr>po_once := (po_once q)(t := None)\<rparr>)"
| "policy_step (Once t d) q = q\<lparr>po_once := (po_once q)(t \<mapsto> d)\<rparr>"
| "policy_step (Store t d) q = q\<lparr>po_stored := (po_stored q)(t \<mapsto> d)\<rparr>"
| "policy_step (Forget t) q = q\<lparr>po_stored := (po_stored q)(t := None)\<rparr>"
| "policy_step (Free b) q = q\<lparr>po_free := b\<rparr>"
| "policy_step Wipe q = \<lparr>po_free = False, po_once = Map.empty, po_stored = Map.empty\<rparr>"

text \<open>The operation of the store that stands for each step.\<close>

fun store_step :: "henv \<Rightarrow> policy_op \<Rightarrow> consent_state \<Rightarrow> consent_state" where
  "store_step w (Ask t) c = snd (consent_check w t [] c)"
| "store_step w (Once t d) c = set_one_time t d c"
| "store_step w (Store t d) c = snd (consent_set w t d c)"
| "store_step w (Forget t) c = snd (consent_clear w t c)"
| "store_step w (Free b) c = snd (set_no_auth w b c)"
| "store_step w Wipe c = snd (consent_reset w c)"

lemma hm_get_fun_upd:
  "hm_get (hm_put k v m) = (hm_get m)(k \<mapsto> v)" "hm_get (hm_del k m) = (hm_get m)(k := None)" "hm_get [] = Map.empty"
  by (auto simp: fun_eq_iff)

lemma consent_persist_sel [simp]:
  "cs_file (snd (consent_persist w c)) = cs_file c" "cs_one_time (snd (consent_persist w c)) = cs_one_time c"
  "cs_loaded (snd (consent_persist w c)) = cs_loaded c"
  by (simp_all add: consent_persist_def split: option.split)

lemma abs_policy_step: "abs_policy (store_step w a c) = policy_step a (abs_policy c)"
  by (cases a)
    (auto simp: abs_policy_def policy_of_file_def consent_check_def set_one_time_def consent_set_def consent_clear_def
      set_no_auth_def consent_reset_def consent_file_default_def Let_def hm_get_fun_upd fun_upd_idem
      split: option.split decision.split)



section \<open>What subscribers see\<close>

text \<open>A subscriber keeps a list of prompts: it adds one per pending event and drops those of a resolved tool.\<close>

fun apply_event :: "pending_entry list \<Rightarrow> consent_event \<Rightarrow> pending_entry list" where
  "apply_event ps (PendingEvent e) = ps @ [e]"
| "apply_event ps (Resolved i tool d) = filter (\<lambda>e. pe_tool e \<noteq> tool) ps"

definition told :: "consent_state \<Rightarrow> consent_state \<Rightarrow> bool" where
  "told c c' \<longleftrightarrow> (\<exists>es. cs_events c' = cs_events c @ es \<and> cs_pending c' = foldl apply_event (cs_pending c) es)
     \<and> (distinct (map pe_tool (cs_pending c)) \<longrightarrow> distinct (map pe_tool (cs_pending c')))"

lemma told_trans: "told a b \<Longrightarrow> told b c \<Longrightarrow> told a c"
  by (auto simp: told_def)

lemma told_same: "cs_events c' = cs_events c \<Longrightarrow> cs_pending c' = cs_pending c \<Longrightarrow> told c c'"
  by (simp add: told_def)

lemma told_record: "told c (snd (record_pending w t p d c))"
proof (cases "List.find (\<lambda>e. pe_tool e = t) (cs_pending c)")
  case None
  then have new: "t \<notin> pe_tool ` set (cs_pending c)" by (auto simp: find_None_iff)
  show ?thesis
    unfolding told_def record_pending_def Let_def None by (rule conjI, rule exI [of _ "[_]"]) (use new in auto)
qed (simp add: record_pending_def told_same)

lemma told_resolve: "told c (resolve_pending_for_tool t d c)"
proof -
  let ?es = "map (\<lambda>e. Resolved (pe_id e) (pe_tool e) d) (filter (\<lambda>e. pe_tool e = t) (cs_pending c))"
  have "foldl apply_event ps (map (\<lambda>e. Resolved (pe_id e) (pe_tool e) d) (filter (\<lambda>e. pe_tool e = t) qs)) =
      (if \<forall>e\<in>set qs. pe_tool e \<noteq> t then ps else filter (\<lambda>e. pe_tool e \<noteq> t) ps)" for ps qs
    by (induction qs arbitrary: ps) auto
  from this [of "cs_pending c" "cs_pending c"]
  have "foldl apply_event (cs_pending c) ?es = filter (\<lambda>e. pe_tool e \<noteq> t) (cs_pending c)"
    by (metis (mono_tags, lifting) filter_True)
  then show ?thesis
    by (auto simp: told_def resolve_pending_for_tool_def Let_def distinct_map inj_on_def)
qed

lemma told_plain:
  "told c (snd (consent_check w t p c))" "told c (snd (consent_persist w (c\<lparr>cs_file := f\<rparr>)))"
  "told c (ensure_loaded c)" "told c (set_one_time t d c)" "told c (snd (consent_snapshot_value c))"
  by (auto intro!: told_same simp: consent_check_def consent_persist_def set_one_time_def Let_def
      consent_snapshot_value_def consent_snapshot_def split: option.split decision.split)

lemma told_consent_ops:
  "told c (snd (consent_set w t d c))" "told c (snd (set_no_auth w b c))" "told c (snd (consent_clear w t c))"
  by (simp_all add: consent_set_def set_no_auth_def consent_clear_def Let_def told_trans [OF told_plain(3) told_plain(2)])

lemma told_gate: "told c (snd (check_consent_gate w e confirm c))"
proof -
  let ?p = "format_prompt (te_id e) (te_name e) (te_description e) (te_destructive e)"
  obtain q c1 where check: "consent_check w (te_id e) ?p c = (q, c1)" by fastforce
  then have c1: "told c c1" using told_plain(1) [of c w "te_id e" ?p] by simp
  show ?thesis
    by (cases q) (auto simp: check_consent_gate_def check Let_def split_def c1 told_same intro: told_trans [OF c1 told_record])
qed

definition handlers_tell :: "'w hstate tool_registry \<Rightarrow> bool" where
  "handlers_tell reg \<longleftrightarrow> (\<forall>k e handler w args c x. tool_lookup reg k = Some e \<longrightarrow> te_kind e = Active handler
     \<longrightarrow> told c (fst (snd (handler w args (c, x)))))"

lemma told_dispatch:
  assumes "handlers_tell reg"
  shows "told (fst s) (fst (snd (dispatch_tool w reg name tier args confirm s)))"
proof (cases "tool_lookup reg name")
  case (Some e)
  obtain b c' where gate: "check_consent_gate w e confirm (fst s) = (b, c')" by fastforce
  have c': "told (fst s) c'" using told_gate [of "fst s" w e confirm] by (simp add: gate)
  show ?thesis
    using assms c' Some
    by (auto simp: dispatch_tool_def gate invoke_entry_def split_def handlers_tell_def told_same
        intro: told_trans [OF c'] split: option.split handler_kind.split)
qed (simp add: dispatch_tool_def told_same)

fun silent :: "henv \<times> harness_event \<Rightarrow> bool" where
  "silent (w, ResetEv) = True"
| "silent (w, RestartEv) = True"
| "silent _ = False"

lemma told_step:
  assumes "handlers_tell reg" and "\<not> silent ev"
  shows "told (fst s) (fst (harness_step reg ev s))"
proof -
  note via = told_trans [OF _ told_trans [OF told_resolve told_plain(5)]]
  obtain w e where ev: "ev = (w, e)" by fastforce
  show ?thesis
  proof (cases e)
    case (DecideEv p)
    show ?thesis
      by (auto simp: ev DecideEv handle_consent_decide_def told_same told_consent_ops split_def split: sum.split
          intro: via [OF told_consent_ops(1)] via [OF told_plain(4)])
  next
    case (ClearEv p)
    then show ?thesis
      using told_consent_ops(3) by (auto simp: ev api_consent_clear_def told_same split_def split: sum.split option.split intro: via)
  next
    case (NoAuthEv p)
    then show ?thesis
      using told_consent_ops(2) told_trans [OF _ told_plain(5)]
      by (auto simp: ev api_consent_set_no_auth_def told_same split_def split: sum.split option.split)
  qed (use assms ev told_dispatch in simp_all)
qed

text \<open>A subscriber of the prompt stream that starts from its snapshot and folds the later events into it sees
  exactly the prompts that are pending, and never two of one tool, as long as nobody resets the
  store (which drops the prompts without an event) or restarts the harness.
\<close>

theorem subscriber_sees_pending:
  assumes "handlers_tell reg" and "list_all (\<lambda>ev. \<not> silent ev) evs" and "subscribe_pending (fst s) = (n, shown)"
    and "distinct (map pe_tool shown)"
  shows "foldl apply_event shown (drop n (cs_events (fst (harness_run reg evs s)))) = cs_pending (fst (harness_run reg evs s))
    \<and> distinct (map pe_tool (cs_pending (fst (harness_run reg evs s))))"
proof -
  have "told (fst s) (fst (harness_run reg evs s))"
    using assms(2)
  proof (induction evs arbitrary: s)
    case (Cons ev evs)
    then show ?case
      using told_trans [OF told_step [OF assms(1), of ev s]] by (simp add: harness_run_def)
  qed (simp add: harness_run_def told_same)
  then show ?thesis
    using assms(3,4) by (auto simp: told_def subscribe_pending_def)
qed

theorem subscriber_sees_pending_witness:
  "let c = fst (harness_run (with_only [write_tool]) [(sample_henv, DispatchEv ''write_file'' TIER_DESTRUCTIVE JNull False)]
      (consent_new None, 0))
   in foldl apply_event [] (cs_events c) = cs_pending c"
proof -
  have tells: "handlers_tell (with_only [write_tool])"
    by (auto simp: handlers_tell_def with_only_def tool_lookup_insert told_same split: if_splits)
  have fresh: "subscribe_pending (fst (consent_new None, 0)) = (0, [])"
    by (simp add: subscribe_pending_def consent_new_def)
  show ?thesis
    using subscriber_sees_pending [OF tells _ fresh, of "[(sample_henv, DispatchEv ''write_file'' TIER_DESTRUCTIVE JNull False)]"]
    by simp
qed

end
