(* ===== verification/Tool_Verbs_Safety.thy ===== *)
theory Tool_Verbs_Safety
  imports Tool_Verbs Tool_Consent_Safety
begin

text \<open>
  What the verb layer guarantees: a destructive operation on a resource needs the consent of the
  user, except through the fan-out of the search; an extension's resources come and go without
  touching others, and those of a narrower scope cannot be reached at all.
\<close>

section \<open>The verb tools in the catalogue\<close>

definition coarse :: "resource_op \<Rightarrow> bool" where
  "coarse op \<longleftrightarrow> op \<in> {OpCreate, OpUpdate, OpDelete, OpExecute}"

definition verb_tool :: "resource_op \<Rightarrow> string" where
  "verb_tool op = ''wylde_'' @ op_str op"

lemma by_id_insert [simp]:
  "hm_get (tr_by_id (registry_insert e r)) k = (if k = te_id e then Some e else hm_get (tr_by_id r) k)"
  by (simp add: registry_insert_def Let_def)

lemma by_id_inserts:
  "distinct (map te_id es) \<Longrightarrow> e \<in> set es \<Longrightarrow>
     hm_get (tr_by_id (foldl (\<lambda>r e. registry_insert e r) reg es)) (te_id e) = Some e"
proof (induction es arbitrary: reg rule: rev_induct)
  case (snoc a es)
  then show ?case by (auto simp: image_iff)
qed simp

lemma verb_ids: "map te_id (verb_entries rr) =
  [''wylde_describe'', ''wylde_list'', ''wylde_get'', ''wylde_search'', ''wylde_create'', ''wylde_update'',
   ''wylde_delete'', ''wylde_execute'']"
  by (simp add: verb_entries_def entry_active_def)

lemma verb_entry:
  "\<exists>e \<in> set (verb_entries rr). te_id e = verb_tool op \<and> te_destructive e = coarse op
     \<and> te_kind e = Active (\<lambda>w args s. if op = OpSearch then run_search w rr args s else run_verb w rr op (coarse op) args s)"
  by (cases op) (simp_all add: verb_entries_def entry_active_def verb_tool_def coarse_def)

lemma verb_lookup:
  obtains e where "tool_lookup (verbs_register rr reg) (verb_tool op) = Some e" "te_id e = verb_tool op"
    "te_destructive e = coarse op"
    "te_kind e = Active (\<lambda>w args s. if op = OpSearch then run_search w rr args s else run_verb w rr op (coarse op) args s)"
proof -
  obtain e where e: "e \<in> set (verb_entries rr)" "te_id e = verb_tool op" "te_destructive e = coarse op"
    "te_kind e = Active (\<lambda>w args s. if op = OpSearch then run_search w rr args s else run_verb w rr op (coarse op) args s)"
    using verb_entry by blast
  have "distinct (map te_id (verb_entries rr))" by (simp add: verb_ids)
  from by_id_inserts [OF this e(1), of reg] e show ?thesis
    by (intro that) (simp_all add: verbs_register_def tool_lookup_def)
qed

section \<open>Consent to an operation\<close>

definition op_key :: "string \<Rightarrow> resource_op \<Rightarrow> string" where
  "op_key rt op = rt @ ''.'' @ op_str op"

lemma op_key_not_verb: "op_key rt op \<noteq> verb_tool op'"
proof
  assume "op_key rt op = verb_tool op'"
  then have "CHR ''.'' \<in> set (verb_tool op')" by (metis Un_iff list.set_intros(1) op_key_def set_append append_Cons)
  then show False by (cases op') (simp_all add: verb_tool_def)
qed

lemma standing_check_other:
  "k \<noteq> t \<Longrightarrow> standing k (snd (consent_check w t p c)) = standing k c"
  by (simp add: consent_check_def standing_def Let_def split: option.split decision.split)

lemma standing_gate_other:
  assumes "k \<noteq> te_id e" and "check_consent_gate w e confirm c = (None, c')"
  shows "standing k c' = standing k c"
proof -
  let ?p = "format_prompt (te_id e) (te_name e) (te_description e) (te_destructive e)"
  obtain q c1 where check: "consent_check w (te_id e) ?p c = (q, c1)" by fastforce
  have "standing k c1 = standing k c" using standing_check_other [OF assms(1), of w ?p c] by (simp add: check)
  then show ?thesis
    using assms(2)
    by (cases q) (auto simp: check_consent_gate_def check Let_def split_def split: if_split_asm)
qed

lemma op_consent_gate_iff:
  assumes "op_destructive d op" and "\<not> coarse op"
  shows "fst (op_consent_gate w rt op (op_destructive d op) (coarse op) c) = None
    \<longleftrightarrow> consents w False (op_key rt op) c"
proof -
  let ?p = "format_prompt (op_key rt op) (''wylde_'' @ op_str op) (op_str op @ '' on the '' @ rt @ '' resource'') True"
  obtain q c1 where check: "consent_check w (op_key rt op) ?p c = (q, c1)" by fastforce
  note out = consent_check_outcome [where t = "op_key rt op" and c = c and w = w and p = ?p, unfolded check fst_conv]
  show ?thesis
    using assms out check
    by (cases q) (auto simp: op_consent_gate_def consents_def op_key_def Let_def split_def
        split: option.splits decision.splits)
qed

lemma run_verb_world:
  assumes "require_string args ''resource_type'' = Some rt" and "lookup_visible rr rt filter_all = Some d"
    and "op_destructive d op" and "\<not> coarse op"
    and "snd (snd (run_verb w rr op (coarse op) args (c, x))) \<noteq> x"
  shows "consents w False (op_key rt op) c"
proof -
  obtain b c' where gate: "op_consent_gate w rt op (op_destructive d op) (coarse op) c = (b, c')" by fastforce
  have "b = None"
    using assms(5) by (cases b) (auto simp: run_verb_def assms(1,2) gate split: option.splits)
  then show ?thesis using op_consent_gate_iff [OF assms(3,4), of w rt c] by (simp add: gate)
qed


section \<open>Samples\<close>

text \<open>An extension whose search consumes what it finds, and a bridge that counts its calls.\<close>

definition purge_op :: ext_op_spec where
  "purge_op = \<lparr>eo_description = ''search and purge'', eo_mcp_tool = ''purge'', eo_destructive = True, eo_tier = ''destructive'',
     eo_actions = [], eo_args_schema = JNull, eo_response_schema = JNull\<rparr>"

definition queue_spec :: "string \<Rightarrow> ext_resource_spec" where
  "queue_spec scope = \<lparr>es_extension = ''mail'', es_resource_type = ''ext:mail:queue'', es_bare_resource_type = ''queue'',
     es_display_name = ''Queue'', es_description = ''the queue'', es_scope = scope, es_identifier_fields = [],
     es_filter_fields = [], es_operations = [(''search'', purge_op)]\<rparr>"

definition count_bridge :: "string \<Rightarrow> json \<Rightarrow> nat hstate \<Rightarrow> (ipc_error, json) rust_res \<times> nat hstate" where
  "count_bridge action payload s = (Inr JNull, (fst s, snd s + 1))"

definition queue_registry :: "nat hstate resource_registry" where
  "queue_registry = snd (register_from_specs sample_henv count_bridge [queue_spec ''global''] resources_empty)"

lemma build_definition_fields [simp]:
  "rd_resource_type (build_definition w b spec) = es_resource_type spec"
  "rd_scope (build_definition w b spec) = parse_scope (es_scope spec)"
  by (simp_all add: build_definition_def)

lemma queue_fields [simp]:
  "es_resource_type (queue_spec scope) = ''ext:mail:queue''" "es_scope (queue_spec scope) = scope"
  by (simp_all add: queue_spec_def)

lemma queue_visible:
  "lookup_visible queue_registry ''ext:mail:queue'' filter_all =
     Some (build_definition sample_henv count_bridge (queue_spec ''global''))"
  by (simp add: queue_registry_def register_from_specs_def register_extension_def resources_empty_def lookup_visible_def
      resource_lookup_def permits_def filter_all_def parse_scope_def hm_put_def hm_get_def)

lemma queue_ops: "known_ops (queue_spec scope) = [(OpSearch, purge_op)]"
  by (simp add: known_ops_def queue_spec_def from_verb_def map_filter_simps)

lemma queue_supported [simp]:
  "op_supported (build_definition w b (queue_spec scope)) OpSearch"
  by (simp add: op_supported_def build_definition_def queue_ops hm_put_def hm_get_def)

lemma queue_destructive: "op_destructive (build_definition sample_henv count_bridge (queue_spec scope)) OpSearch"
  by (simp add: op_destructive_def build_definition_def queue_ops purge_op_def)

definition search_args :: "string \<Rightarrow> json" where
  "search_args rt = JObj [(''resource_type'', JStr rt)]"

lemma search_args_simps [simp]:
  "rt \<noteq> [] \<Longrightarrow> require_string (search_args rt) ''resource_type'' = Some rt"
  "get_str ''resource_type'' (search_args rt) = Some rt"
  by (simp_all add: search_args_def require_string_def get_str_def)

lemma trim_ascii: "trim ''*'' = ''*''" "trim ''ext:mail:queue'' = ''ext:mail:queue''"
  by (simp_all add: trim_def trim_start.simps trim_end.simps ws_len_def ws_len_end_def)


text \<open>The fan-out is a hole: with \<open>resource_type\<close> \<open>*\<close> the search runs a destructive search of an extension
  that the user has denied, even under the tier that forbids destructive tools, once the verb itself is
  approved.
\<close>

theorem fan_out_skips_consent:
  "let st = harness_run (verbs_register queue_registry registry_empty)
       [(sample_henv, DecideEv (decide_payload (op_key ''ext:mail:queue'' OpSearch) ''denied'' True)),
        (sample_henv, DecideEv (decide_payload (verb_tool OpSearch) ''approved'' True)),
        (sample_henv, DispatchEv (verb_tool OpSearch) TIER_TOOL_USE (search_args ''*'') False)] (consent_new None, 0)
   in standing (op_key ''ext:mail:queue'' OpSearch) (fst st) = Some Denied \<and> snd st = 1"
proof -
  obtain e where e: "tool_lookup (verbs_register queue_registry registry_empty) (verb_tool OpSearch) = Some e"
    "te_id e = verb_tool OpSearch" "te_destructive e = coarse OpSearch"
    "te_kind e = Active (\<lambda>w args s. if OpSearch = OpSearch then run_search w queue_registry args s
        else run_verb w queue_registry OpSearch (coarse OpSearch) args s)"
    by (rule verb_lookup)
  have types: "searchable_types queue_registry filter_all = [''ext:mail:queue'']"
    by (simp add: searchable_types_def queue_registry_def register_from_specs_def register_extension_def resources_empty_def
        hm_values_def hm_put_def permits_def filter_all_def parse_scope_def hm_get_def visible_rows_def)
  have fan: "snd (fan_out queue_registry args [''ext:mail:queue''] (c, n)) = (c, n + 1)" for args c and n :: nat
    by (simp add: queue_visible build_definition_def queue_ops make_op_handler_def purge_op_def resolve_mcp_tool_def
        count_bridge_def Let_def hm_put_def hm_get_def)
  have keys: "verb_tool OpSearch = ''wylde_search''" "op_key ''ext:mail:queue'' OpSearch = ''ext:mail:queue.search''"
    by (simp_all add: verb_tool_def op_key_def)
  let ?c = "\<lparr>cs_file = \<lparr>cf_no_auth = False, cf_tools = [(''ext:mail:queue.search'', Denied), (''wylde_search'', Approved)]\<rparr>,
     cs_loaded = True, cs_one_time = [],
     cs_disk = Some (Some \<lparr>cf_no_auth = False, cf_tools = [(''ext:mail:queue.search'', Denied), (''wylde_search'', Approved)]\<rparr>),
     cs_pending = [], cs_events = []\<rparr>"
  have "harness_run (verbs_register queue_registry registry_empty)
      [(sample_henv, DecideEv (decide_payload (op_key ''ext:mail:queue'' OpSearch) ''denied'' True)),
       (sample_henv, DecideEv (decide_payload (verb_tool OpSearch) ''approved'' True))] (consent_new None, 0) = (?c, 0)"
    by (simp add: keys harness_run_def handle_consent_decide_def consent_set_def consent_persist_def consent_snapshot_value_def
        consent_snapshot_def resolve_pending_for_tool_def consent_new_def consent_file_default_def ensure_loaded_def
        hm_put_def Let_def)
  moreover have "snd (dispatch_tool sample_henv (verbs_register queue_registry registry_empty) (verb_tool OpSearch)
      TIER_TOOL_USE (search_args ''*'') False (?c, 0)) = (?c, 1)"
    using fan [of "search_args ''*''" ?c 0]
    by (simp add: dispatch_tool_def e [unfolded keys] check_registry_tier_def tier_names coarse_def check_consent_gate_def consent_check_def
        keys invoke_entry_def run_search_def trim_ascii types hm_get_def split_def del: fan_out.simps)
  ultimately show ?thesis
    by (simp add: harness_run_def keys standing_def hm_get_def)
qed

section \<open>The overlay of the extensions\<close>

lemma overlay_builtins:
  "rr_builtins (foldl (\<lambda>r spec. register_extension (build_definition w bridge spec) r) rr specs) = rr_builtins rr"
  by (induction specs arbitrary: rr) (simp_all add: register_extension_def)

lemma overlay_extensions:
  "hm_get (rr_extensions (foldl (\<lambda>r spec. register_extension (build_definition w bridge spec) r) rr specs)) rt =
    (case List.find (\<lambda>s. es_resource_type s = rt) (rev specs) of
       Some spec \<Rightarrow> Some (build_definition w bridge spec) | None \<Rightarrow> hm_get (rr_extensions rr) rt)"
proof (induction specs arbitrary: rr rule: rev_induct)
  case (snoc s specs)
  show ?case
    using snoc [of rr] by (cases "es_resource_type s = rt") (simp_all add: register_extension_def)
qed simp

lemma register_specs_lookup:
  "resource_lookup (snd (register_from_specs w bridge specs rr)) rt =
    (case hm_get (rr_builtins rr) rt of Some d \<Rightarrow> Some d
     | None \<Rightarrow> case List.find (\<lambda>s. es_resource_type s = rt) (rev specs) of
         Some spec \<Rightarrow> Some (build_definition w bridge spec) | None \<Rightarrow> hm_get (rr_extensions rr) rt)"
  by (simp add: register_from_specs_def resource_lookup_def overlay_builtins overlay_extensions split: option.split)

lemma unregister_specs_lookup:
  "resource_lookup (unregister_from_specs specs rr) rt =
    (case hm_get (rr_builtins rr) rt of Some d \<Rightarrow> Some d
     | None \<Rightarrow> if rt \<in> es_resource_type ` set specs then None else hm_get (rr_extensions rr) rt)"
  by (induction specs arbitrary: rr)
    (auto simp: unregister_from_specs_def resource_lookup_def unregister_extension_def split: option.split)

lemma find_spec_type:
  "rt \<notin> es_resource_type ` set specs \<Longrightarrow> List.find (\<lambda>s. es_resource_type s = rt) (rev specs) = None"
  by (auto simp: find_None_iff)

lemma unregister_parts [simp]:
  "rr_builtins (unregister_from_specs specs rr) = rr_builtins rr"
  "hm_get (rr_extensions (unregister_from_specs specs rr)) rt =
     (if rt \<in> es_resource_type ` set specs then None else hm_get (rr_extensions rr) rt)"
  by (induction specs arbitrary: rr) (auto simp: unregister_from_specs_def unregister_extension_def)

definition ext_frame :: "string \<Rightarrow> string \<Rightarrow> json" where
  "ext_frame kind extension = JObj [(''kind'', JStr kind), (''extension'', JStr extension)]"

lemma react_frames:
  "kind \<in> {''spawn'', ''enabled''} \<Longrightarrow> react_to_event w bridge pull (ext_frame kind x) rr =
     (case pull x of Inr specs \<Rightarrow> snd (register_from_specs w bridge specs rr) | Inl _ \<Rightarrow> rr)"
  "kind \<in> {''disabled'', ''restart'', ''crash'', ''exit''} \<Longrightarrow> react_to_event w bridge pull (ext_frame kind x) rr =
     (case pull x of Inr specs \<Rightarrow> unregister_from_specs specs rr | Inl _ \<Rightarrow> rr)"
  by (auto simp: react_to_event_def ext_frame_def get_str_def)

text \<open>The resources of an extension go with it: after its start and its end, with the same list pulled both
  times, every look-up answers what it did before, when the list reused no name. A built-in resource is
  never shadowed, whatever an extension registers.
\<close>

theorem extension_overlay_round_trip:
  assumes "kindA \<in> {''spawn'', ''enabled''}" and "kindB \<in> {''disabled'', ''restart'', ''crash'', ''exit''}"
    and "pull x = Inr specs" and "\<forall>s\<in>set specs. hm_get (rr_extensions rr) (es_resource_type s) = None"
  shows "resource_lookup (react_to_event w bridge pull (ext_frame kindB x)
           (react_to_event w bridge pull (ext_frame kindA x) rr)) rt = resource_lookup rr rt
    \<and> (hm_get (rr_builtins rr) rt = Some d \<longrightarrow>
         resource_lookup (react_to_event w bridge pull (ext_frame kindA x) rr) rt = Some d)"
proof (cases "rt \<in> es_resource_type ` set specs")
  case True
  then have "hm_get (rr_extensions rr) rt = None" using assms(4) by auto
  then show ?thesis
    using True assms(1-3)
    by (simp add: react_frames register_specs_lookup)
      (simp add: resource_lookup_def register_from_specs_def overlay_builtins split: option.split)
next
  case False
  then show ?thesis
    using assms(1-3) find_spec_type [OF False]
    by (simp add: react_frames register_specs_lookup)
      (simp add: resource_lookup_def register_from_specs_def overlay_builtins overlay_extensions split: option.split)
qed

theorem extension_overlay_round_trip_witness:
  "resource_lookup (react_to_event sample_henv count_bridge (\<lambda>_. Inr [queue_spec ''global'']) (ext_frame ''crash'' ''mail'')
     (react_to_event sample_henv count_bridge (\<lambda>_. Inr [queue_spec ''global'']) (ext_frame ''spawn'' ''mail'') resources_empty))
     ''ext:mail:queue'' = None"
  using extension_overlay_round_trip [where kindA = "''spawn''" and kindB = "''crash''" and w = sample_henv
      and bridge = count_bridge and pull = "\<lambda>_. Inr [queue_spec ''global'']" and x = "''mail''" and rr = resources_empty
      and specs = "[queue_spec ''global'']" and rt = "''ext:mail:queue''"]
  by (simp add: resources_empty_def resource_lookup_def hm_get_def)

text \<open>
  The verbs use the filter of the global scope only, so a resource of a workspace or a conversation is
  registered but cannot be reached: every verb answers that it is not found, no handler runs, the fan-out of
  the search leaves it out and the description does not list it.
\<close>

theorem scoped_resource_unreachable:
  assumes "resource_lookup rr rt = Some d" and "rd_scope d \<noteq> ScopeGlobal"
    and "require_string args ''resource_type'' = Some rt"
  shows "run_verb w rr op coarsely args s = (Inr (res_not_found w rt op rr filter_all), s)
    \<and> jget ''status'' (run_describe w rr args) = Some (JStr ''not_found'')
    \<and> (rt \<in> set (searchable_types rr filter_all) \<longrightarrow>
         (\<exists>d'\<in>set (hm_values (rr_builtins rr) @ hm_values (rr_extensions rr)). rd_resource_type d' = rt \<and> rd_scope d' = ScopeGlobal))"
proof -
  have hidden: "lookup_visible rr rt filter_all = None"
    using assms(1,2) by (cases "rd_scope d") (simp_all add: lookup_visible_def permits_def filter_all_def)
  have "rd_scope d' = ScopeGlobal" if "permits filter_all t (rd_scope d')" for t and d' :: "'a hstate resource_definition"
    using that by (cases "rd_scope d'") (simp_all add: permits_def filter_all_def)
  then show ?thesis
    using assms(3) hidden by (auto simp: run_verb_def run_describe_def searchable_types_def)
qed

theorem scoped_resource_unreachable_witness:
  "run_verb sample_henv (snd (register_from_specs sample_henv count_bridge [queue_spec ''workspace''] resources_empty)) OpSearch False
     (search_args ''ext:mail:queue'') (consent_new None, 0) =
   (Inr (res_not_found sample_henv ''ext:mail:queue'' OpSearch
      (snd (register_from_specs sample_henv count_bridge [queue_spec ''workspace''] resources_empty)) filter_all), (consent_new None, 0))"
  by (rule scoped_resource_unreachable [where d = "build_definition sample_henv count_bridge (queue_spec ''workspace'')", THEN conjunct1])
    (simp_all add: register_specs_lookup resources_empty_def hm_get_def parse_scope_def)

end
