(* ===== verification/Chat_Context.thy ===== *)
theory Chat_Context
  imports Prelude
begin

text \<open>
  The context that a turn adds to its prompt and the budget it must fit (\<open>wylde-harness/src/turn\<close>:
  the slots of \<open>context_gather.rs\<close>, their rendering in \<open>prompt_assembly.rs\<close>, the eviction of
  \<open>token_budget.rs\<close>, the budget of \<open>chat_options.rs\<close>, and the rules of the user profile). Where the slots come from (stores,
  services, ranking) is input. The two loops of the eviction are total functions: each step removes one
  unit of a finite supply.
\<close>

section \<open>The slots\<close>

record neighbor_line =
  nl_hop :: "32 word"
  nl_text :: string

record symbol_block =
  sb_symbol_id :: string
  sb_focal :: string
  sb_neighbors :: "neighbor_line list"

record history_message =
  hm_role :: string
  hm_content :: string

record anchor_block =
  ab_identifier :: string
  ab_text :: string

record chat_context =
  cc_user_profile :: string
  cc_short_term :: "string list"
  cc_summary :: "string option"
  cc_long_term :: "string list"
  cc_workspace_memory :: "string list"
  cc_anchors :: "anchor_block list"
  cc_rag :: "string list"
  cc_concepts :: "string list"
  cc_notes :: "string list"
  cc_persona :: "string option"
  cc_symbols :: "symbol_block list"
  cc_history :: "history_message list"

section \<open>Rendering\<close>

definition nl :: string where
  "nl = [CHR 0x0A]"

definition render_section :: "string \<Rightarrow> string \<Rightarrow> string" where
  "render_section header body = ''### '' @ header @ nl @ body"

definition render_symbol_block :: "symbol_block \<Rightarrow> string" where
  "render_symbol_block b = foldl (\<lambda>out n. out @ nl @ nl_text n) (sb_focal b) (sb_neighbors b)"

definition trimmed :: "string list \<Rightarrow> string list" where
  "trimmed ss = filter (\<lambda>s. s \<noteq> []) (map trim ss)"

definition gap_if :: "string \<Rightarrow> string" where
  "gap_if body = (if body = [] then [] else nl @ nl)"

definition workspace_body :: "chat_context \<Rightarrow> string" where
  "workspace_body ctx =
     (let b1 = (case cc_persona ctx of Some p \<Rightarrow> if trim p = [] then [] else ''## Persona'' @ nl @ trim p | None \<Rightarrow> []);
          notes = trimmed (cc_notes ctx);
          b2 = (if notes = [] then b1
                else foldl (\<lambda>b n. b @ nl @ ''- '' @ n) (b1 @ gap_if b1 @ ''## Workspace memory'') notes);
          rag = trimmed (cc_rag ctx)
      in if rag = [] then b2 else foldl (\<lambda>b r. b @ nl @ nl @ r) (b2 @ gap_if b2 @ ''## Workspace files'') rag)"

definition section_if :: "bool \<Rightarrow> string \<Rightarrow> string \<Rightarrow> string list" where
  "section_if present header body = (if present then [render_section header body] else [])"

definition render_sections :: "chat_context \<Rightarrow> string list" where
  "render_sections ctx =
     (let concepts = trimmed (cc_concepts ctx);
          ws = workspace_body ctx;
          symbols = join_strs (nl @ nl) (map render_symbol_block (cc_symbols ctx))
      in section_if (trim (cc_user_profile ctx) \<noteq> []) ''User profile'' (trim (cc_user_profile ctx))
       @ section_if (cc_short_term ctx \<noteq> []) ''Conversation memory'' (join_strs nl (cc_short_term ctx))
       @ (case cc_summary ctx of
            Some summary \<Rightarrow> section_if (trim summary \<noteq> []) ''Conversation summary'' (trim summary) | None \<Rightarrow> [])
       @ section_if (cc_long_term ctx \<noteq> []) ''Long-term memory'' (join_strs nl (cc_long_term ctx))
       @ section_if (cc_workspace_memory ctx \<noteq> []) ''Workspace insights'' (join_strs nl (cc_workspace_memory ctx))
       @ section_if (cc_anchors ctx \<noteq> []) ''Vocabulary'' (join_strs nl (map (\<lambda>a. ''- '' @ ab_text a) (cc_anchors ctx)))
       @ section_if (concepts \<noteq> []) ''Concepts'' (join_strs (nl @ nl) concepts)
       @ section_if ((cc_persona ctx \<noteq> None \<or> cc_notes ctx \<noteq> [] \<or> cc_rag ctx \<noteq> []) \<and> ws \<noteq> []) ''Workspace context'' ws
       @ section_if (cc_symbols ctx \<noteq> [] \<and> trim symbols \<noteq> []) ''Code graph context'' symbols)"

definition render_context :: "chat_context \<Rightarrow> string" where
  "render_context ctx =
     (let sections = render_sections ctx
      in if sections = [] then [] else nl @ nl @ join_strs (nl @ nl) sections)"

section \<open>Estimates\<close>

definition CLASSIFY_SAMPLE_CHARS :: nat where "CLASSIFY_SAMPLE_CHARS = 2000"
definition CODE_SIGNAL_PERCENT :: nat where "CODE_SIGNAL_PERCENT = 5"

definition CODE_SIGNAL_CHARS :: string where
  "CODE_SIGNAL_CHARS = ''{}();_=<>[]#/'' @ [CHR 0x5C]"

definition chars_per_token :: "string \<Rightarrow> nat" where
  "chars_per_token s =
     (let sample = take_chars CLASSIFY_SAMPLE_CHARS s;
          total = n_chars sample;
          signals = length (filter (\<lambda>c. c \<in> set CODE_SIGNAL_CHARS) sample)
      in if total = 0 then 4 else if CODE_SIGNAL_PERCENT \<le> signals * 100 div total then 3 else 4)"

definition estimate_tokens :: "string \<Rightarrow> nat" where
  "estimate_tokens s = (n_chars s + chars_per_token s - 1) div chars_per_token s"

definition HISTORY_MSG_OVERHEAD :: nat where "HISTORY_MSG_OVERHEAD = 4"

definition history_tokens :: "chat_context \<Rightarrow> nat" where
  "history_tokens ctx = sum_list (map (\<lambda>m. estimate_tokens (hm_content m) + HISTORY_MSG_OVERHEAD) (cc_history ctx))"

definition context_tokens :: "chat_context \<Rightarrow> nat" where
  "context_tokens ctx = estimate_tokens (render_context ctx) + history_tokens ctx"

section \<open>Working memory\<close>

definition WORKING_MEMORY_MAX_ENTRIES :: nat where "WORKING_MEMORY_MAX_ENTRIES = 40"
definition WORKING_MEMORY_MAX_TOKENS :: nat where "WORKING_MEMORY_MAX_TOKENS = 2000"
definition WORKING_MEMORY_DEGRADE_FLOOR :: nat where "WORKING_MEMORY_DEGRADE_FLOOR = 5"

definition OMISSION_TAIL :: string where
  "OMISSION_TAIL = '' older working-memory entries omitted (injection cap)]''"

definition omission_marker :: "nat \<Rightarrow> string" where
  "omission_marker n = ''- ['' @ nat_str n @ OMISSION_TAIL"

text \<open>The loop that moves \<open>start\<close> to the first suffix that fits, or to the last line.\<close>

fun fit_suffix :: "string list \<Rightarrow> string list" where
  "fit_suffix [] = []"
| "fit_suffix (l # ls) =
     (if ls \<noteq> [] \<and> WORKING_MEMORY_MAX_TOKENS < sum_list (map estimate_tokens (l # ls)) then fit_suffix ls else l # ls)"

definition cap_short_term :: "string list \<Rightarrow> string list" where
  "cap_short_term lines =
     (let kept = (if WORKING_MEMORY_MAX_ENTRIES < length lines
                  then drop (length lines - WORKING_MEMORY_MAX_ENTRIES) lines else lines);
          out = fit_suffix kept;
          omitted = length lines - length out
      in if 0 < omitted then omission_marker omitted # out else out)"

definition parse_omission_marker :: "string option \<Rightarrow> nat option" where
  "parse_omission_marker line =
     (case line of None \<Rightarrow> None
      | Some l \<Rightarrow> Option.bind (strip_prefix ''- ['' l) (\<lambda>rest.
          Option.bind (find_sub OMISSION_TAIL rest) (\<lambda>i. parse_usize (take i rest))))"

definition degrade_short_term_once :: "string list \<Rightarrow> bool \<times> string list" where
  "degrade_short_term_once lines =
     (let omitted = parse_omission_marker (case lines of [] \<Rightarrow> None | l # _ \<Rightarrow> Some l);
          real = length lines - (if omitted = None then 0 else 1)
      in if real \<le> WORKING_MEMORY_DEGRADE_FLOOR then (False, lines)
         else case omitted of
           Some n \<Rightarrow> (True, omission_marker (u64_add n 1) # drop 2 lines)
         | None \<Rightarrow> (True, omission_marker 1 # drop 1 lines))"

section \<open>The rules of the profile\<close>

definition RULES_DEGRADE_STEPS :: "nat list" where "RULES_DEGRADE_STEPS = [4000, 1000, 0]"
definition RULES_HEADER :: string where "RULES_HEADER = ''User rules (follow verbatim):''"

definition RULES_DEGRADE_MARKER :: string where
  "RULES_DEGRADE_MARKER = ''[user rules truncated to fit the model's context window '' @ em_dash @ '' shorten them in Settings]''"

fun rules_step :: "nat list \<Rightarrow> nat \<Rightarrow> string \<Rightarrow> string \<Rightarrow> bool \<times> string" where
  "rules_step [] pos body block = (False, block)"
| "rules_step (step # steps) pos body block =
     (if step = 0 then (True, trim_end_char (CHR 0x0A) (take pos block))
      else if n_chars body \<le> step + (n_chars RULES_DEGRADE_MARKER + 1) then rules_step steps pos body block
      else (True, take (pos + length RULES_HEADER) block @ nl @ take_chars step body @ nl @ RULES_DEGRADE_MARKER))"

definition degrade_rules_once :: "string \<Rightarrow> bool \<times> string" where
  "degrade_rules_once block =
     (case find_sub RULES_HEADER block of
        None \<Rightarrow> (False, block)
      | Some pos \<Rightarrow>
          rules_step RULES_DEGRADE_STEPS pos (dropWhile (\<lambda>c. c = CHR 0x0A) (drop (pos + length RULES_HEADER) block)) block)"

section \<open>Eviction\<close>

text \<open>The neighbour line to drop: of the greatest hop, the first of them in the order of blocks and lines.\<close>

fun deepest_line :: "nat \<Rightarrow> nat \<Rightarrow> neighbor_line list \<Rightarrow> (nat \<times> nat \<times> 32 word) option \<Rightarrow> (nat \<times> nat \<times> 32 word) option" where
  "deepest_line bi li [] best = best"
| "deepest_line bi li (n # ns) best =
     deepest_line bi (li + 1) ns
       (case best of Some (b, l, h) \<Rightarrow> if nl_hop n \<le> h then best else Some (bi, li, nl_hop n)
        | None \<Rightarrow> Some (bi, li, nl_hop n))"

fun deepest_hop :: "nat \<Rightarrow> symbol_block list \<Rightarrow> (nat \<times> nat \<times> 32 word) option \<Rightarrow> (nat \<times> nat \<times> 32 word) option" where
  "deepest_hop bi [] best = best"
| "deepest_hop bi (b # bs) best = deepest_hop (bi + 1) bs (deepest_line bi 0 (sb_neighbors b) best)"

definition remove_nth :: "nat \<Rightarrow> 'a list \<Rightarrow> 'a list" where
  "remove_nth i xs = take i xs @ drop (i + 1) xs"

definition drop_deepest_symbol_hop :: "symbol_block list \<Rightarrow> symbol_block list option" where
  "drop_deepest_symbol_hop blocks =
     map_option (\<lambda>(bi, li, h). blocks[bi := (blocks ! bi)\<lparr>sb_neighbors := remove_nth li (sb_neighbors (blocks ! bi))\<rparr>])
       (deepest_hop 0 blocks None)"

definition drop_one_lowest_priority :: "chat_context \<Rightarrow> chat_context option" where
  "drop_one_lowest_priority ctx =
     (if cc_rag ctx \<noteq> [] then Some (ctx\<lparr>cc_rag := butlast (cc_rag ctx)\<rparr>)
      else if cc_concepts ctx \<noteq> [] then Some (ctx\<lparr>cc_concepts := butlast (cc_concepts ctx)\<rparr>)
      else if cc_summary ctx \<noteq> None then Some (ctx\<lparr>cc_summary := None\<rparr>)
      else if cc_long_term ctx \<noteq> [] then Some (ctx\<lparr>cc_long_term := butlast (cc_long_term ctx)\<rparr>)
      else if cc_workspace_memory ctx \<noteq> [] then Some (ctx\<lparr>cc_workspace_memory := butlast (cc_workspace_memory ctx)\<rparr>)
      else if cc_notes ctx \<noteq> [] then Some (ctx\<lparr>cc_notes := butlast (cc_notes ctx)\<rparr>)
      else case drop_deepest_symbol_hop (cc_symbols ctx) of
        Some blocks \<Rightarrow> Some (ctx\<lparr>cc_symbols := blocks\<rparr>)
      | None \<Rightarrow>
          (if cc_symbols ctx \<noteq> [] then Some (ctx\<lparr>cc_symbols := butlast (cc_symbols ctx)\<rparr>)
           else if cc_persona ctx \<noteq> None then Some (ctx\<lparr>cc_persona := None\<rparr>)
           else if cc_history ctx \<noteq> [] then Some (ctx\<lparr>cc_history := drop (min 2 (length (cc_history ctx))) (cc_history ctx)\<rparr>)
           else None))"

definition degrade_one_tier7 :: "chat_context \<Rightarrow> chat_context option" where
  "degrade_one_tier7 ctx =
     (case degrade_short_term_once (cc_short_term ctx) of
        (True, lines) \<Rightarrow> Some (ctx\<lparr>cc_short_term := lines\<rparr>)
      | (False, _) \<Rightarrow>
          (case degrade_rules_once (cc_user_profile ctx) of
             (True, block) \<Rightarrow> Some (ctx\<lparr>cc_user_profile := block\<rparr>)
           | (False, _) \<Rightarrow>
               (if cc_anchors ctx \<noteq> [] then Some (ctx\<lparr>cc_anchors := butlast (cc_anchors ctx)\<rparr>) else None)))"

definition tier7_degrade_enabled :: "string option \<Rightarrow> string option \<Rightarrow> bool" where
  "tier7_degrade_enabled budget_env degrade_env =
     (if (case budget_env of Some v \<Rightarrow> trim v \<noteq> [] | None \<Rightarrow> False) then False
      else case degrade_env of
        Some v \<Rightarrow> to_ascii_lowercase (trim v) \<notin> {''off'', ''0'', ''false''}
      | None \<Rightarrow> True)"

end
