(* ===== verification/Chat_Budget.thy ===== *)
theory Chat_Budget
  imports Chat_Context "HOL-Library.Sublist"
begin

text \<open>
  The eviction of the token budget (\<open>turn/token_budget.rs\<close>) and the slot budget it is given
  (\<open>turn/chat_options.rs\<close>). The supplies that bound the two loops come first, then the loops
  and what they guarantee: the order of the ladder, the least number of drops, what is never
  dropped, and a marker that tells how many lines are missing.
\<close>

section \<open>The supply of working memory\<close>

lemma parse_omission_marker [simp]:
  assumes "n < 2 ^ 64"
  shows "parse_omission_marker (Some (omission_marker n)) = Some n"
proof -
  let ?s = "nat_str n @ OMISSION_TAIL"
  have tail: "hd OMISSION_TAIL = CHR '' ''" "OMISSION_TAIL \<noteq> []" by (simp_all add: OMISSION_TAIL_def)
  have "\<not> starts_with (drop j ?s) OMISSION_TAIL" if "j < length (nat_str n)" for j
  proof
    assume "starts_with (drop j ?s) OMISSION_TAIL"
    then obtain t where "drop j ?s = OMISSION_TAIL @ t" using starts_withE by blast
    then have "nat_str n ! j = hd OMISSION_TAIL"
      using that tail(2) by (metis append_Nil hd_append2 hd_drop_conv_nth length_append nth_append trans_less_add1)
    moreover have "is_digit (nat_str n ! j)" using nat_str_digits [of n] that by (simp add: list_all_length)
    ultimately show False by (simp add: tail is_digit_def)
  qed
  moreover have "find_sub OMISSION_TAIL OMISSION_TAIL = Some 0"
    by (simp add: OMISSION_TAIL_def starts_with_def)
  ultimately have "find_sub OMISSION_TAIL ?s = Some (length (nat_str n))"
    using find_sub_shift [of "length (nat_str n)" ?s OMISSION_TAIL] by simp
  then show ?thesis
    using assms by (simp add: parse_omission_marker_def omission_marker_def strip_prefix_def starts_with_def parse_nat_str)
qed

lemma parse_omission_none [simp]: "parse_omission_marker None = None"
  by (simp add: parse_omission_marker_def)

definition real_lines :: "string list \<Rightarrow> nat" where
  "real_lines ls =
     length ls - (if parse_omission_marker (case ls of [] \<Rightarrow> None | l # _ \<Rightarrow> Some l) = None then 0 else 1)"

lemma degrade_short_term_real:
  assumes "degrade_short_term_once ls = (True, ls')"
  shows "real_lines ls' = real_lines ls - 1" "WORKING_MEMORY_DEGRADE_FLOOR < real_lines ls"
proof -
  have wrap: "u64_add n 1 < 2 ^ 64" for n by (simp add: u64_add_def)
  show "real_lines ls' = real_lines ls - 1" "WORKING_MEMORY_DEGRADE_FLOOR < real_lines ls"
    using assms parse_omission_marker [OF wrap] parse_omission_marker [of 1]
    by (cases "parse_omission_marker (case ls of [] \<Rightarrow> None | l # _ \<Rightarrow> Some l)";
        auto simp: degrade_short_term_once_def real_lines_def Let_def split: if_splits)+
qed

lemma degrade_short_term_less: "degrade_short_term_once ls = (True, ls') \<Longrightarrow> real_lines ls' < real_lines ls"
  using degrade_short_term_real [of ls ls'] by simp

section \<open>The supply of rules\<close>

definition marker_len :: nat where
  "marker_len = n_chars RULES_DEGRADE_MARKER + 1"

definition rules_body :: "string \<Rightarrow> nat \<Rightarrow> string" where
  "rules_body block pos = dropWhile (\<lambda>c. c = CHR 0x0A) (drop (pos + length RULES_HEADER) block)"

definition rules_rank :: "string \<Rightarrow> nat" where
  "rules_rank block =
     (case find_sub RULES_HEADER block of
        None \<Rightarrow> 0
      | Some pos \<Rightarrow>
          (let n = n_chars (rules_body block pos)
           in if 4000 + marker_len < n then 3 else if 1000 + marker_len < n then 2 else 1))"

lemma n_chars_append [simp]: "n_chars (s @ t) = n_chars s + n_chars t"
  by (simp add: n_chars_def)

lemma n_chars_cont: "n_chars (takeWhile utf8_cont s) = 0"
  by (induction s) (simp_all add: n_chars_def)

lemma n_chars_take: "n_chars (take_chars n s) \<le> n"
proof (induction n s rule: take_chars.induct)
  case (3 n c s)
  have "n_chars (c # takeWhile utf8_cont s) \<le> 1"
    using n_chars_cont [of s] by (simp add: n_chars_def)
  then show ?case unfolding take_chars.simps n_chars_append using 3 by linarith
qed (simp_all add: n_chars_def)

lemma n_chars_dropWhile: "n_chars (dropWhile P s) \<le> n_chars s"
  by (metis le_add2 n_chars_append takeWhile_dropWhile_id)

lemma rules_header: "RULES_HEADER \<noteq> []" "last RULES_HEADER \<noteq> CHR 0x0A"
  by (simp_all add: RULES_HEADER_def)

lemma header_kept:
  "find_sub RULES_HEADER block = Some pos \<Longrightarrow> find_sub RULES_HEADER (take (pos + length RULES_HEADER) block @ t) = Some pos"
proof -
  assume found: "find_sub RULES_HEADER block = Some pos"
  note occ = find_sub_Some [OF rules_header(1) found]
  let ?b = "take (pos + length RULES_HEADER) block"
  have "starts_with (drop pos ?b) RULES_HEADER"
    using occ(1,2) by (simp add: starts_with_def drop_take)
  moreover have "\<not> starts_with (drop j ?b) RULES_HEADER" if "j < pos" for j
    using occ(3) [OF that] occ(1) that by (auto simp: starts_with_def drop_take min_def split: if_splits)
  ultimately have "find_sub RULES_HEADER ?b = Some pos"
    using find_sub_shift [of pos ?b RULES_HEADER] occ(1) rules_header(1)
    by (cases "drop pos ?b") (auto simp: starts_with_def)
  then show ?thesis using find_sub_append [OF rules_header(1)] by blast
qed

lemma header_gone:
  assumes "find_sub RULES_HEADER block = Some pos"
  shows "find_sub RULES_HEADER (trim_end_char c (take pos block)) = None"
proof -
  obtain n where n: "trim_end_char c (take pos block) = take n block" "n \<le> pos"
  proof
    show "trim_end_char c (take pos block)
        = take (min (length (take pos block) - length (takeWhile (\<lambda>x. x = c) (rev (take pos block)))) pos) block"
      unfolding trim_end_char_def by (simp add: dropWhile_eq_drop rev_drop del: length_take)
  qed simp
  have "\<not> starts_with (drop j (take n block)) RULES_HEADER" for j
  proof
    assume occ: "starts_with (drop j (take n block)) RULES_HEADER"
    then obtain t where t: "drop j (take n block) = RULES_HEADER @ t" using starts_withE by blast
    then have "j < n" using rules_header(1) by (cases "j < n") auto
    moreover have "n \<le> length block \<or> drop n block = []" by auto
    then have "drop j block = drop j (take n block) @ drop n block"
      using \<open>j < n\<close> drop_append [of j "take n block" "drop n block"] by auto
    then have "drop j block = RULES_HEADER @ t @ drop n block" by (simp add: t)
    ultimately show False
      using find_sub_Some(3) [OF rules_header(1) assms, of j] n(2) by simp
  qed
  then show ?thesis by (simp add: n find_sub_None [OF rules_header(1)])
qed

lemma degrade_rules_rank:
  assumes "degrade_rules_once block = (True, block')"
  shows "rules_rank block' < rules_rank block"
proof -
  obtain pos where pos: "find_sub RULES_HEADER block = Some pos"
    using assms by (cases "find_sub RULES_HEADER block") (simp_all add: degrade_rules_once_def)
  let ?body = "rules_body block pos"
  have cut: "rules_rank (take (pos + length RULES_HEADER) block @ nl @ take_chars k ?body @ nl @ RULES_DEGRADE_MARKER)
      \<le> (if 1000 < k then 2 else 1)" if "k \<le> 4000" for k
  proof -
    let ?new = "take (pos + length RULES_HEADER) block @ nl @ take_chars k ?body @ nl @ RULES_DEGRADE_MARKER"
    have len: "length (take (pos + length RULES_HEADER) block) = pos + length RULES_HEADER"
      using find_sub_bound [OF pos] by simp
    have "rules_body ?new pos = dropWhile (\<lambda>c. c = CHR 0x0A) (take_chars k ?body @ nl @ RULES_DEGRADE_MARKER)"
      unfolding rules_body_def using len by (simp add: nl_def)
    then have "n_chars (rules_body ?new pos) \<le> n_chars (take_chars k ?body @ nl @ RULES_DEGRADE_MARKER)"
      using n_chars_dropWhile by metis
    also have "\<dots> \<le> k + marker_len"
      using n_chars_take [of k ?body] by (simp add: marker_len_def nl_def n_chars_def utf8_cont_def)
    finally show ?thesis
      using that header_kept [OF pos] by (auto simp: rules_rank_def Let_def)
  qed
  have gone: "find_sub RULES_HEADER (trim_end_char (CHR 0x0A) (take pos block)) = None"
    using header_gone [OF pos] .
  show ?thesis
    using assms cut [of 4000] cut [of 1000] gone
    by (auto simp: degrade_rules_once_def pos RULES_DEGRADE_STEPS_def rules_rank_def Let_def marker_len_def rules_body_def
        split: if_splits)
qed

section \<open>The ladder\<close>

text \<open>
  What can be dropped, as one counter per rung, the lowest first: snippets, concepts, the summary, long-term
  and workspace memory, notes, neighbour lines, symbol blocks, the persona and pairs of the history.
\<close>

definition n_lines :: "symbol_block list \<Rightarrow> nat" where
  "n_lines bs = sum_list (map (\<lambda>b. length (sb_neighbors b)) bs)"

definition ladder :: "chat_context \<Rightarrow> nat list" where
  "ladder ctx = [length (cc_rag ctx), length (cc_concepts ctx), (if cc_summary ctx = None then 0 else 1),
     length (cc_long_term ctx), length (cc_workspace_memory ctx), length (cc_notes ctx), n_lines (cc_symbols ctx),
     length (cc_symbols ctx), (if cc_persona ctx = None then 0 else 1), (length (cc_history ctx) + 1) div 2]"

text \<open>One step down: the first counter that is not zero goes down by one.\<close>

fun step_down :: "nat list \<Rightarrow> nat list option" where
  "step_down [] = None"
| "step_down (0 # ns) = map_option ((#) 0) (step_down ns)"
| "step_down (Suc n # ns) = Some (n # ns)"

lemma deepest_line_keeps:
  "deepest_line bi li ns best = Some (b, l, h) \<Longrightarrow>
     best = Some (b, l, h) \<or> b = bi \<and> li \<le> l \<and> l < li + length ns \<and> nl_hop (ns ! (l - li)) = h"
proof (induction bi li ns best rule: deepest_line.induct)
  case (2 bi li n ns best)
  then show ?case
    by (fastforce simp: nth_Cons' split: option.splits if_splits)
qed simp

lemma deepest_line_none: "deepest_line bi li ns best = None \<longleftrightarrow> ns = [] \<and> best = None"
  by (induction bi li ns best rule: deepest_line.induct) (auto split: option.splits)

lemma deepest_hop_none: "deepest_hop bi bs best = None \<longleftrightarrow> n_lines bs = 0 \<and> best = None"
  by (induction bi bs best rule: deepest_hop.induct) (auto simp: n_lines_def deepest_line_none)

lemma deepest_hop_keeps:
  "deepest_hop bi bs best = Some (b, l, h) \<Longrightarrow>
     best = Some (b, l, h) \<or> bi \<le> b \<and> b < bi + length bs \<and> l < length (sb_neighbors (bs ! (b - bi)))
       \<and> nl_hop (sb_neighbors (bs ! (b - bi)) ! l) = h"
proof (induction bi bs best rule: deepest_hop.induct)
  case (2 bi blk bs best)
  then consider "deepest_line bi 0 (sb_neighbors blk) best = Some (b, l, h)"
    | "bi + 1 \<le> b" "b < bi + 1 + length bs" "l < length (sb_neighbors (bs ! (b - (bi + 1))))"
      "nl_hop (sb_neighbors (bs ! (b - (bi + 1))) ! l) = h"
    by auto
  then show ?case
  proof cases
    case 1
    then show ?thesis using deepest_line_keeps [OF 1] by auto
  next
    case 2
    then show ?thesis by (auto simp: nth_Cons')
  qed
qed simp

lemma n_lines_update:
  "b < length bs \<Longrightarrow> l < length (sb_neighbors (bs ! b)) \<Longrightarrow>
     Suc (n_lines (bs[b := (bs ! b)\<lparr>sb_neighbors := remove_nth l (sb_neighbors (bs ! b))\<rparr>])) = n_lines bs"
proof (induction bs arbitrary: b)
  case (Cons x bs)
  then show ?case
    by (cases b) (auto simp: n_lines_def remove_nth_def)
qed simp

lemma n_lines_Nil [simp]: "n_lines [] = 0"
  by (simp add: n_lines_def)

lemma n_lines_butlast: "n_lines bs = 0 \<Longrightarrow> n_lines (butlast bs) = 0"
  by (auto simp: n_lines_def dest: in_set_butlastD)

lemma step_down_Cons:
  "step_down (n # ns) = (if n = 0 then map_option ((#) 0) (step_down ns) else Some ((n - 1) # ns))"
  by (cases n) simp_all

lemma drop_deepest_lines:
  "drop_deepest_symbol_hop bs = None \<longleftrightarrow> n_lines bs = 0"
  "drop_deepest_symbol_hop bs = Some bs' \<Longrightarrow> Suc (n_lines bs') = n_lines bs \<and> length bs' = length bs"
proof -
  show "drop_deepest_symbol_hop bs = None \<longleftrightarrow> n_lines bs = 0"
    by (simp add: drop_deepest_symbol_hop_def deepest_hop_none)
  assume "drop_deepest_symbol_hop bs = Some bs'"
  then obtain b l h where d: "deepest_hop 0 bs None = Some (b, l, h)"
    "bs' = bs[b := (bs ! b)\<lparr>sb_neighbors := remove_nth l (sb_neighbors (bs ! b))\<rparr>]"
    by (auto simp: drop_deepest_symbol_hop_def)
  then show "Suc (n_lines bs') = n_lines bs \<and> length bs' = length bs"
    using deepest_hop_keeps [OF d(1)] n_lines_update [of b bs l] by simp
qed

lemma drop_one_ladder:
  "map_option ladder (drop_one_lowest_priority ctx) = step_down (ladder ctx)"
proof (cases "drop_deepest_symbol_hop (cc_symbols ctx)")
  case None
  have "n_lines (cc_symbols ctx) = 0" "n_lines (butlast (cc_symbols ctx)) = 0"
    using None drop_deepest_lines(1) [of "cc_symbols ctx"] n_lines_butlast [of "cc_symbols ctx"] by simp_all
  moreover have "(length (drop (min 2 n) h) + 1) div 2 = (length h + 1) div 2 - 1" if "n = length h" for n and h :: "history_message list"
    using that by (cases h rule: remdups_adj.cases) auto
  moreover have pairs: "(length h + 1) div 2 = 0 \<longleftrightarrow> h = []" for h :: "history_message list" by (cases h) auto
  ultimately show ?thesis
    using pairs by (auto simp: drop_one_lowest_priority_def ladder_def step_down_Cons None)
next
  case (Some bs')
  then have "n_lines (cc_symbols ctx) \<noteq> 0" "n_lines bs' = n_lines (cc_symbols ctx) - 1" "length bs' = length (cc_symbols ctx)"
    using drop_deepest_lines(2) [OF Some] by auto
  then show ?thesis
    by (simp add: drop_one_lowest_priority_def ladder_def step_down_Cons Some)
qed

text \<open>
  The eviction goes down the ladder one unit at a time: a drop takes exactly one unit from the lowest
  rung that has any, and there is nothing to drop exactly when every rung is empty.
\<close>

theorem drop_steps_down_ladder:
  "map_option ladder (drop_one_lowest_priority ctx) = step_down (ladder ctx)
   \<and> (drop_one_lowest_priority ctx = None \<longleftrightarrow> (\<forall>n \<in> set (ladder ctx). n = 0))"
proof -
  have "step_down ns = None \<longleftrightarrow> (\<forall>n \<in> set ns. n = 0)" for ns
    by (induction ns rule: step_down.induct) auto
  then show ?thesis using drop_one_ladder [of ctx] by (metis map_option_is_None)
qed

section \<open>The loops\<close>

lemma step_down_sum: "step_down ns = Some ns' \<Longrightarrow> Suc (sum_list ns') = sum_list ns"
  by (induction ns arbitrary: ns' rule: step_down.induct) auto

lemma step_down_none: "step_down ns = None \<longleftrightarrow> sum_list ns = 0"
  by (induction ns rule: step_down.induct) auto

lemma drop_one_sum:
  "drop_one_lowest_priority ctx = Some ctx' \<Longrightarrow> Suc (sum_list (ladder ctx')) = sum_list (ladder ctx)"
  "drop_one_lowest_priority ctx = None \<longleftrightarrow> sum_list (ladder ctx) = 0"
proof -
  have step: "map_option ladder (drop_one_lowest_priority ctx) = step_down (ladder ctx)"
    by (rule drop_one_ladder)
  then show "drop_one_lowest_priority ctx = Some ctx' \<Longrightarrow> Suc (sum_list (ladder ctx')) = sum_list (ladder ctx)"
    using step_down_sum [of "ladder ctx" "ladder ctx'"] by simp
  show "drop_one_lowest_priority ctx = None \<longleftrightarrow> sum_list (ladder ctx) = 0"
    using step step_down_none [of "ladder ctx"] by (metis map_option_is_None)
qed

function evict_loop :: "nat \<Rightarrow> chat_context \<Rightarrow> chat_context \<times> bool" where
  "evict_loop max_tokens ctx =
     (if context_tokens ctx \<le> max_tokens then (ctx, True)
      else case drop_one_lowest_priority ctx of
        None \<Rightarrow> (ctx, False)
      | Some ctx' \<Rightarrow> evict_loop max_tokens ctx')"
  by pat_completeness auto
termination
  by (relation "measure (\<lambda>(m, ctx). sum_list (ladder ctx))") (auto dest: drop_one_sum(1))

declare evict_loop.simps [simp del]

definition tier7_supply :: "chat_context \<Rightarrow> nat" where
  "tier7_supply ctx = real_lines (cc_short_term ctx) + rules_rank (cc_user_profile ctx) + length (cc_anchors ctx)"

lemma degrade_one_supply: "degrade_one_tier7 ctx = Some ctx' \<Longrightarrow> tier7_supply ctx' < tier7_supply ctx"
  by (auto simp: degrade_one_tier7_def tier7_supply_def dest: degrade_short_term_less degrade_rules_rank
      split: prod.splits bool.splits if_splits)

function degrade_loop :: "nat \<Rightarrow> bool \<Rightarrow> chat_context \<Rightarrow> chat_context \<times> bool" where
  "degrade_loop target changed ctx =
     (if context_tokens ctx \<le> target then (ctx, changed)
      else case degrade_one_tier7 ctx of
        None \<Rightarrow> (ctx, changed)
      | Some ctx' \<Rightarrow> degrade_loop target True ctx')"
  by pat_completeness auto
termination
  by (relation "measure (\<lambda>(t, b, ctx). tier7_supply ctx)") (auto dest: degrade_one_supply)

declare degrade_loop.simps [simp del]

definition degrade_tier7 :: "nat \<Rightarrow> chat_context \<Rightarrow> chat_context \<times> bool" where
  "degrade_tier7 max_tokens ctx = degrade_loop (max_tokens - max_tokens div 10) False ctx"

text \<open>The eviction: the context that is left and whether the degrade pass shrank it.\<close>

definition evict :: "string option \<Rightarrow> string option \<Rightarrow> nat \<Rightarrow> chat_context \<Rightarrow> chat_context \<times> bool" where
  "evict budget_env degrade_env max_tokens ctx =
     (case evict_loop max_tokens ctx of
        (ctx1, True) \<Rightarrow> (ctx1, False)
      | (ctx1, False) \<Rightarrow>
          (if tier7_degrade_enabled budget_env degrade_env then degrade_tier7 max_tokens ctx1 else (ctx1, False)))"

section \<open>What the eviction guarantees\<close>

fun dropped :: "nat \<Rightarrow> chat_context \<Rightarrow> chat_context" where
  "dropped 0 ctx = ctx"
| "dropped (Suc n) ctx = (case drop_one_lowest_priority ctx of Some ctx' \<Rightarrow> dropped n ctx' | None \<Rightarrow> ctx)"

lemma evict_loop_least:
  "evict_loop m ctx = (c, fits) \<Longrightarrow>
     (\<exists>n. c = dropped n ctx \<and> (\<forall>k<n. m < context_tokens (dropped k ctx)))
     \<and> (if fits then context_tokens c \<le> m else m < context_tokens c \<and> sum_list (ladder c) = 0)"
proof (induction m ctx rule: evict_loop.induct)
  case (1 m ctx)
  show ?case
  proof (cases "context_tokens ctx \<le> m")
    case True
    then show ?thesis using "1.prems" by (auto simp: evict_loop.simps [of m ctx] intro: exI [of _ 0])
  next
    case False
    show ?thesis
    proof (cases "drop_one_lowest_priority ctx")
      case None
      then show ?thesis
        using "1.prems" False drop_one_sum(2) [of ctx]
        by (auto simp: evict_loop.simps [of m ctx] intro: exI [of _ 0])
    next
      case (Some ctx')
      then have run: "evict_loop m ctx' = (c, fits)" using "1.prems" False by (simp add: evict_loop.simps [of m ctx])
      obtain n where n: "c = dropped n ctx'" "\<forall>k<n. m < context_tokens (dropped k ctx')"
        using "1.IH" [OF False Some run] by blast
      have "m < context_tokens (dropped k ctx)" if "k < Suc n" for k
        using that n(2) False Some by (cases k) auto
      then have "\<exists>n. c = dropped n ctx \<and> (\<forall>k<n. m < context_tokens (dropped k ctx))"
        using n(1) Some by (intro exI [of _ "Suc n"]) simp
      then show ?thesis using "1.IH" [OF False Some run] by blast
    qed
  qed
qed

text \<open>What a drop leaves of a slot: its best-ranked part, the newest part of the history, and all of tier 7.\<close>

definition survives :: "chat_context \<Rightarrow> chat_context \<Rightarrow> bool" where
  "survives c ctx \<longleftrightarrow> cc_user_profile c = cc_user_profile ctx \<and> cc_short_term c = cc_short_term ctx
     \<and> cc_anchors c = cc_anchors ctx \<and> prefix (cc_rag c) (cc_rag ctx) \<and> prefix (cc_concepts c) (cc_concepts ctx)
     \<and> prefix (cc_long_term c) (cc_long_term ctx) \<and> prefix (cc_workspace_memory c) (cc_workspace_memory ctx)
     \<and> prefix (cc_notes c) (cc_notes ctx) \<and> suffix (cc_history c) (cc_history ctx)
     \<and> cc_summary c \<in> {cc_summary ctx, None} \<and> cc_persona c \<in> {cc_persona ctx, None}"

lemma survives_refl: "survives ctx ctx"
  by (simp add: survives_def)

lemma survives_trans: "survives a b \<Longrightarrow> survives b c \<Longrightarrow> survives a c"
  unfolding survives_def by (auto intro: prefix_order.trans suffix_order.trans)

lemma survives_drop: "drop_one_lowest_priority ctx = Some ctx' \<Longrightarrow> survives ctx' ctx"
  by (auto simp: drop_one_lowest_priority_def survives_def prefixeq_butlast suffix_drop split: if_splits option.splits)

lemma survives_dropped: "survives (dropped n ctx) ctx"
  by (induction n arbitrary: ctx)
    (auto simp: survives_refl split: option.split intro: survives_trans survives_drop)

lemma degrade_loop_end:
  "degrade_loop t b ctx = (c, b') \<Longrightarrow> (context_tokens c \<le> t \<or> degrade_one_tier7 c = None) \<and> ladder c = ladder ctx
     \<and> (b \<longrightarrow> b') \<and> (b' \<or> c = ctx)"
proof (induction t b ctx rule: degrade_loop.induct)
  case (1 t b ctx)
  show ?case
  proof (cases "context_tokens ctx \<le> t \<or> degrade_one_tier7 ctx = None")
    case True
    then show ?thesis using "1.prems" by (auto simp: degrade_loop.simps [of t b ctx] split: if_splits)
  next
    case False
    then obtain ctx' where step: "degrade_one_tier7 ctx = Some ctx'" "\<not> context_tokens ctx \<le> t" by auto
    then have "ladder ctx' = ladder ctx"
      by (auto simp: degrade_one_tier7_def ladder_def split: prod.splits bool.splits if_splits)
    then show ?thesis
      using "1.IH" [OF step(2,1)] "1.prems" step by (auto simp: degrade_loop.simps [of t b ctx])
  qed
qed


definition blank_context :: chat_context where
  "blank_context = \<lparr>cc_user_profile = [], cc_short_term = [], cc_summary = None, cc_long_term = [], cc_workspace_memory = [],
     cc_anchors = [], cc_rag = [], cc_concepts = [], cc_notes = [], cc_persona = None, cc_symbols = [], cc_history = []\<rparr>"

lemma blank_tokens: "context_tokens blank_context = 0"
  by code_simp

lemma snippet_tokens: "0 < context_tokens (blank_context\<lparr>cc_rag := [''x'']\<rparr>)"
  by code_simp


section \<open>The omission marker\<close>

text \<open>The lines shown of the working memory: all, or the newest behind a marker that counts the others.\<close>

definition honest_lines :: "string list \<Rightarrow> string list \<Rightarrow> bool" where
  "honest_lines orig ls \<longleftrightarrow>
     (\<exists>k \<le> length orig. ls = (if k = 0 then orig else omission_marker k # drop k orig) \<and> (orig \<noteq> [] \<longrightarrow> k < length orig))"

lemma fit_suffix_drop: "\<exists>k. fit_suffix ls = drop k ls \<and> k \<le> length ls \<and> (ls \<noteq> [] \<longrightarrow> k < length ls)"
proof (induction ls)
  case (Cons l ls)
  then obtain k where "fit_suffix ls = drop k ls" "k \<le> length ls" "ls \<noteq> [] \<longrightarrow> k < length ls" by blast
  then show ?case
    by (cases "ls \<noteq> [] \<and> WORKING_MEMORY_MAX_TOKENS < sum_list (map estimate_tokens (l # ls))")
      (auto intro: exI [of _ "Suc k"] exI [of _ 0])
qed simp

text \<open>
  The marker tells the truth: after the injection cap and after every step of the degrade pass the model sees
  the newest lines, at least the last one, and when lines are missing a marker with their exact number; a step
  of the pass drops one line and leaves at least five.
\<close>

theorem omission_marker_honest:
  assumes "length orig < 2 ^ 64" and "\<forall>l \<in> set orig. parse_omission_marker (Some l) = None"
  shows "honest_lines orig (cap_short_term orig)
    \<and> (honest_lines orig ls \<and> degrade_short_term_once ls = (True, ls') \<longrightarrow>
         honest_lines orig ls' \<and> WORKING_MEMORY_DEGRADE_FLOOR \<le> real_lines ls' \<and> real_lines ls' = real_lines ls - 1)"
proof -
  define kept where "kept = (if WORKING_MEMORY_MAX_ENTRIES < length orig
    then drop (length orig - WORKING_MEMORY_MAX_ENTRIES) orig else orig)"
  obtain i where i: "kept = drop i orig" "i \<le> length orig" "orig \<noteq> [] \<longrightarrow> i < length orig"
    by (rule that [of "length orig - WORKING_MEMORY_MAX_ENTRIES"]) (auto simp: kept_def WORKING_MEMORY_MAX_ENTRIES_def)
  obtain j where j: "fit_suffix kept = drop j kept" "j \<le> length kept" "kept \<noteq> [] \<longrightarrow> j < length kept"
    using fit_suffix_drop by blast
  have cut: "fit_suffix kept = drop (i + j) orig" "i + j \<le> length orig" "orig \<noteq> [] \<longrightarrow> i + j < length orig"
    using i j by (auto simp: drop_drop add.commute)
  then have "cap_short_term orig = (if i + j = 0 then orig else omission_marker (i + j) # drop (i + j) orig)"
    by (cases "orig = []") (auto simp: cap_short_term_def Let_def kept_def [symmetric])
  then have cap: "honest_lines orig (cap_short_term orig)"
    unfolding honest_lines_def using cut(2,3) by blast
  have step: "honest_lines orig ls' \<and> WORKING_MEMORY_DEGRADE_FLOOR \<le> real_lines ls'"
    if honest: "honest_lines orig ls" and step: "degrade_short_term_once ls = (True, ls')"
  proof -
    obtain k where k: "k \<le> length orig" "ls = (if k = 0 then orig else omission_marker k # drop k orig)"
      using honest by (auto simp: honest_lines_def)
    have marker: "parse_omission_marker (case ls of [] \<Rightarrow> None | l # _ \<Rightarrow> Some l) = (if k = 0 then None else Some k)"
      using k assms by (auto split: list.split)
    have "real_lines ls = length (drop k orig)"
      using marker k(2) by (simp add: real_lines_def)
    then have enough: "WORKING_MEMORY_DEGRADE_FLOOR < length (drop k orig)"
      using degrade_short_term_real(2) [OF step] by simp
    then have k1: "k + 1 < length orig" by (simp add: WORKING_MEMORY_DEGRADE_FLOOR_def)
    then have "u64_add k 1 = k + 1" using assms(1) by (simp add: u64_add_def)
    then have "ls' = omission_marker (k + 1) # drop (k + 1) orig"
      using step marker k(2) enough by (auto simp: degrade_short_term_once_def Let_def drop_Suc split: if_splits)
    then have "honest_lines orig ls'"
      unfolding honest_lines_def using k1 by (intro exI [of _ "k + 1"]) simp
    moreover have "WORKING_MEMORY_DEGRADE_FLOOR \<le> real_lines ls'"
      using degrade_short_term_real [OF step] by simp
    ultimately show ?thesis by simp
  qed
  show ?thesis using cap step degrade_short_term_real(1) [of ls ls'] by blast
qed

theorem omission_marker_honest_witness:
  "honest_lines (replicate 50 ''ab'') (cap_short_term (replicate 50 ''ab''))"
  using omission_marker_honest [of "replicate 50 ''ab''"]
  by (simp add: parse_omission_marker_def strip_prefix_def starts_with_def)

section \<open>Ties\<close>

text \<open>Of the lines with the greatest hop the first one goes, not the last.\<close>

theorem equal_hops_drop_first:
  "drop_deepest_symbol_hop [\<lparr>sb_symbol_id = ''s'', sb_focal = ''f'',
      sb_neighbors = [\<lparr>nl_hop = 2, nl_text = ''a''\<rparr>, \<lparr>nl_hop = 2, nl_text = ''b''\<rparr>]\<rparr>]
   = Some [\<lparr>sb_symbol_id = ''s'', sb_focal = ''f'', sb_neighbors = [\<lparr>nl_hop = 2, nl_text = ''b''\<rparr>]\<rparr>]"
  by (simp add: drop_deepest_symbol_hop_def remove_nth_def)

section \<open>The budget of the slots\<close>

definition DEFAULT_TOKEN_BUDGET :: nat where "DEFAULT_TOKEN_BUDGET = 100000"
definition OLLAMA_FALLBACK_NUM_CTX :: nat where "OLLAMA_FALLBACK_NUM_CTX = 4096"
definition RESPONSE_RESERVE_TOKENS :: nat where "RESPONSE_RESERVE_TOKENS = 1024"
definition MIN_SLOT_BUDGET :: nat where "MIN_SLOT_BUDGET = 256"

definition positive :: "nat option \<Rightarrow> nat option" where
  "positive n = (case n of Some k \<Rightarrow> if 0 < k then Some k else None | None \<Rightarrow> None)"

definition env_slot_budget :: "string option \<Rightarrow> nat option" where
  "env_slot_budget budget_env = positive (Option.bind budget_env (\<lambda>s. parse_usize (trim s)))"

text \<open>\<open>options\<close> are the overrides of the user for the model.\<close>

definition response_reserve :: "json \<Rightarrow> nat" where
  "response_reserve options = unwrap_or RESPONSE_RESERVE_TOKENS (positive (Option.bind (jget ''num_predict'' options) as_u64))"

text \<open>The cache of the declared windows, and the reply of the service that is asked on a miss.\<close>

definition declared_num_ctx ::
  "(json \<Rightarrow> reply) \<Rightarrow> string \<Rightarrow> (string \<times> nat option) list \<Rightarrow> nat option \<times> (string \<times> nat option) list" where
  "declared_num_ctx ask model cache =
     (case map_of cache model of
        Some cached \<Rightarrow> (Some (unwrap_or OLLAMA_FALLBACK_NUM_CTX cached), cache)
      | None \<Rightarrow>
          (case ask (JObj [(''model'', JStr model)]) of
             Inr v \<Rightarrow>
               (let declared = positive (Option.bind (jget ''num_ctx'' v) as_u64)
                in (Some (unwrap_or OLLAMA_FALLBACK_NUM_CTX declared), AList.update model declared cache))
           | Inl e \<Rightarrow> (None, cache)))"

definition effective_num_ctx ::
  "(json \<Rightarrow> reply) \<Rightarrow> json \<Rightarrow> string \<Rightarrow> (string \<times> nat option) list \<Rightarrow> nat option \<times> (string \<times> nat option) list" where
  "effective_num_ctx ask options model cache =
     (case positive (Option.bind (jget ''num_ctx'' options) as_u64) of
        Some n \<Rightarrow> (Some n, cache) | None \<Rightarrow> declared_num_ctx ask model cache)"

definition slot_budget ::
  "string option \<Rightarrow> (json \<Rightarrow> reply) \<Rightarrow> json \<Rightarrow> string \<Rightarrow> string \<Rightarrow> string \<Rightarrow> (string \<times> nat option) list
   \<Rightarrow> nat \<times> (string \<times> nat option) list" where
  "slot_budget budget_env ask options model base_prompt user_message cache =
     (case env_slot_budget budget_env of
        Some b \<Rightarrow> (b, cache)
      | None \<Rightarrow>
          (case effective_num_ctx ask options model cache of
             (None, cache1) \<Rightarrow> (DEFAULT_TOKEN_BUDGET, cache1)
           | (Some num_ctx, cache1) \<Rightarrow>
               (let fixed = estimate_tokens base_prompt + estimate_tokens user_message
                in (max (num_ctx - u64_add fixed (response_reserve options)) MIN_SLOT_BUDGET, cache1))))"

text \<open>
  The budget leaves room: when the window of the model is known and the budget is above its floor, the
  slots, the base prompt, the message and the reserve for the reply fit into the window together. It
  needs the sum of the fixed costs and the reserve to stay below \<open>2 ^ 64\<close>.
\<close>

theorem slot_budget_leaves_room:
  assumes "slot_budget None ask options model base_prompt user_message cache = (b, cache')"
    and "effective_num_ctx ask options model cache = (Some num_ctx, cache')"
    and "estimate_tokens base_prompt + estimate_tokens user_message + response_reserve options < 2 ^ 64"
    and "MIN_SLOT_BUDGET < b"
  shows "b + estimate_tokens base_prompt + estimate_tokens user_message + response_reserve options = num_ctx"
  using assms by (auto simp: slot_budget_def env_slot_budget_def positive_def Let_def u64_add_def max_def split: if_splits)

lemma four_chars: "estimate_tokens ''abcd'' = 1"
  by code_simp

theorem slot_budget_leaves_room_witness:
  "fst (slot_budget None (\<lambda>_. Inr JNull) (JObj [(''num_ctx'', JInt 8192)]) ''m'' ''abcd'' ''abcd'' []) + 1 + 1 + 1024 = 8192"
proof -
  let ?o = "JObj [(''num_ctx'', JInt 8192)]"
  have run: "slot_budget None (\<lambda>_. Inr JNull) ?o ''m'' ''abcd'' ''abcd'' [] = (7166, [])"
    by (simp add: slot_budget_def env_slot_budget_def effective_num_ctx_def positive_def response_reserve_def four_chars
        u64_add_def RESPONSE_RESERVE_TOKENS_def MIN_SLOT_BUDGET_def)
  have "7166 + estimate_tokens ''abcd'' + estimate_tokens ''abcd'' + response_reserve ?o = 8192"
    by (rule slot_budget_leaves_room [OF run])
      (simp_all add: effective_num_ctx_def positive_def four_chars response_reserve_def RESPONSE_RESERVE_TOKENS_def MIN_SLOT_BUDGET_def)
  then show ?thesis by (simp add: run)
qed

text \<open>A reserve near \<open>2 ^ 64\<close> wraps the sum, and the budget is the whole window.\<close>

theorem huge_reserve_wraps:
  "fst (slot_budget None ask (JObj [(''num_ctx'', JInt 8192), (''num_predict'', JInt (2 ^ 64 - 2))]) model ''abcd'' ''abcd'' []) = 8192"
  by (simp add: slot_budget_def env_slot_budget_def effective_num_ctx_def positive_def response_reserve_def four_chars
      u64_add_def MIN_SLOT_BUDGET_def)

end
