(* ===== verification/Chat_Events.thy ===== *)
theory Chat_Events
  imports Tool_Runner "HOL-Library.Sublist"
begin

text \<open>
  The events of a turn, the registry of turns and the two streams of events
  (\<open>wylde-harness/src/events.rs\<close>, \<open>state.rs\<close>, the streaming handlers of \<open>turn/actions.rs\<close>). A handle
  is shared by the driver of its turn, its subscribers and the cancel action, so the registry maps turn
  ids to addresses in a store of handles. What is proved: a cancel is acknowledged exactly once, a
  subscriber sees a prefix of the events and never sleeps on unread ones, and two races of the code.
\<close>

section \<open>Events\<close>

datatype turn_phase = GatheringContext | Generating | RunningTools | Planning | Reflecting | Replanning

datatype step_stage = Retrieval | Routing | Injection | Memory | SymbolStage | Notice | Reasoning

datatype abort_reason = Cancelled | AbortError | ToolLoopLimit | PlanPrecondition

datatype turn_event =
    Token string string
  | Thinking string string
  | Phase string turn_phase
  | Usage string "nat option" nat bool
  | StepEv string step_stage string "string option"
  | TurnComplete string string
  | TurnAborted string abort_reason "string option"

datatype memory_write_source = LlmTool | Auto

datatype memory_write_scope = LongTerm | Workspace | ShortTerm

text \<open>The fields of an event in the order of the source, \<open>turn_id\<close> and \<open>call_id\<close> first.\<close>

datatype tool_event =
    ToolDispatched string string string json
  | ToolResult string string string json real
  | ToolError string string string string "tool_error_reason option" real
  | MemoryWritten string memory_write_source memory_write_scope string string "real option" int
      "string option" "string option"
  | ToolWarning string string "json list" bool nat

section \<open>Their form on the wire\<close>

fun phase_str :: "turn_phase \<Rightarrow> string" where
  "phase_str GatheringContext = ''gathering_context''"
| "phase_str Generating = ''generating''"
| "phase_str RunningTools = ''running_tools''"
| "phase_str Planning = ''planning''"
| "phase_str Reflecting = ''reflecting''"
| "phase_str Replanning = ''replanning''"

fun stage_str :: "step_stage \<Rightarrow> string" where
  "stage_str Retrieval = ''retrieval''"
| "stage_str Routing = ''routing''"
| "stage_str Injection = ''injection''"
| "stage_str Memory = ''memory''"
| "stage_str SymbolStage = ''symbol''"
| "stage_str Notice = ''notice''"
| "stage_str Reasoning = ''reasoning''"

fun abort_str :: "abort_reason \<Rightarrow> string" where
  "abort_str Cancelled = ''cancelled''"
| "abort_str AbortError = ''error''"
| "abort_str ToolLoopLimit = ''tool_loop_limit''"
| "abort_str PlanPrecondition = ''plan_precondition''"

fun source_str :: "memory_write_source \<Rightarrow> string" where
  "source_str LlmTool = ''llm_tool''"
| "source_str Auto = ''auto''"

fun scope_str :: "memory_write_scope \<Rightarrow> string" where
  "scope_str LongTerm = ''long_term''"
| "scope_str Workspace = ''workspace''"
| "scope_str ShortTerm = ''short_term''"

text \<open>A member that \<open>skip_serializing_if\<close> leaves out, and one that is written as null.\<close>

definition skip_none :: "string \<Rightarrow> json option \<Rightarrow> (string \<times> json) list" where
  "skip_none k v = (case v of Some j \<Rightarrow> [(k, j)] | None \<Rightarrow> [])"

definition null_none :: "('a \<Rightarrow> json) \<Rightarrow> 'a option \<Rightarrow> json" where
  "null_none f v = (case v of Some x \<Rightarrow> f x | None \<Rightarrow> JNull)"

definition event_obj :: "string \<Rightarrow> string \<Rightarrow> (string \<times> json) list \<Rightarrow> json" where
  "event_obj typ turn ms = JObj ((''type'', JStr typ) # (''turn_id'', JStr turn) # ms)"

fun turn_event_json :: "turn_event \<Rightarrow> json" where
  "turn_event_json (Token t s) = event_obj ''token'' t [(''text'', JStr s)]"
| "turn_event_json (Thinking t s) = event_obj ''thinking'' t [(''text'', JStr s)]"
| "turn_event_json (Phase t p) = event_obj ''phase'' t [(''phase'', JStr (phase_str p))]"
| "turn_event_json (Usage t p c d) = event_obj ''usage'' t
     (skip_none ''prompt_tokens'' (map_option (\<lambda>n. JInt (int n)) p)
        @ [(''completion_tokens'', JInt (int c)), (''done'', JBool d)])"
| "turn_event_json (StepEv t st s d) = event_obj ''step'' t
     ([(''stage'', JStr (stage_str st)), (''summary'', JStr s)] @ skip_none ''detail'' (map_option JStr d))"
| "turn_event_json (TurnComplete t s) = event_obj ''turn_complete'' t [(''final_message'', JStr s)]"
| "turn_event_json (TurnAborted t r e) = event_obj ''turn_aborted'' t
     ((''reason'', JStr (abort_str r)) # skip_none ''error'' (map_option JStr e))"

fun tool_event_json :: "tool_event \<Rightarrow> json" where
  "tool_event_json (ToolDispatched t c n a) = event_obj ''tool_dispatched'' t
     [(''call_id'', JStr c), (''name'', JStr n), (''args'', a)]"
| "tool_event_json (ToolResult t c n out d) = event_obj ''tool_result'' t
     [(''call_id'', JStr c), (''name'', JStr n), (''output'', out), (''duration_ms'', JFloat d)]"
| "tool_event_json (ToolError t c n e r d) = event_obj ''tool_error'' t
     ([(''call_id'', JStr c), (''name'', JStr n), (''error'', JStr e)]
        @ skip_none ''reason'' (map_option (\<lambda>r. JStr (reason_str r)) r) @ [(''duration_ms'', JFloat d)])"
| "tool_event_json (MemoryWritten t src sc m b imp ts c n) = event_obj ''memory_written'' t
     ([(''source'', JStr (source_str src)), (''scope'', JStr (scope_str sc)), (''memory_id'', JStr m),
       (''body'', JStr b), (''importance'', null_none JFloat imp), (''timestamp_ms'', JInt ts)]
        @ skip_none ''call_id'' (map_option JStr c) @ skip_none ''tool'' (map_option JStr n))"
| "tool_event_json (ToolWarning t src fs tr n) = event_obj ''tool_warning'' t
     [(''source'', JStr src), (''findings'', JArr fs), (''truncated'', JBool tr), (''files_checked'', JInt (int n))]"

section \<open>Handles\<close>

record turn_handle =
  th_turn_id :: string
  th_conversation_id :: string
  th_cancelled :: bool
  th_done :: bool
  th_turn_events :: "turn_event list"
  th_tool_events :: "tool_event list"

definition turn_handle_new :: "string \<Rightarrow> string \<Rightarrow> turn_handle" where
  "turn_handle_new t c = \<lparr>th_turn_id = t, th_conversation_id = c, th_cancelled = False, th_done = False,
     th_turn_events = [], th_tool_events = []\<rparr>"

definition push_turn_event :: "turn_event \<Rightarrow> turn_handle \<Rightarrow> turn_handle" where
  "push_turn_event ev h = h\<lparr>th_turn_events := th_turn_events h @ [ev]\<rparr>"

definition push_tool_event :: "tool_event \<Rightarrow> turn_handle \<Rightarrow> turn_handle" where
  "push_tool_event ev h = h\<lparr>th_tool_events := th_tool_events h @ [ev]\<rparr>"

definition mark_done :: "turn_handle \<Rightarrow> turn_handle" where
  "mark_done h = h\<lparr>th_done := True\<rparr>"

section \<open>The registry\<close>

text \<open>A handle lives in the heap as long as somebody holds it; the registry finds it by its turn id.\<close>

record turns =
  tt_heap :: "turn_handle list"
  tt_reg :: "(string, nat) hmap"

definition register_turn :: "string \<Rightarrow> string \<Rightarrow> turns \<Rightarrow> nat \<times> turns" where
  "register_turn t c ts =
     (length (tt_heap ts), \<lparr>tt_heap = tt_heap ts @ [turn_handle_new t c], tt_reg = hm_put t (length (tt_heap ts)) (tt_reg ts)\<rparr>)"

definition get_turn :: "string \<Rightarrow> turns \<Rightarrow> nat option" where
  "get_turn t ts = hm_get (tt_reg ts) t"

definition cancel_turn :: "string \<Rightarrow> turns \<Rightarrow> bool \<times> turns" where
  "cancel_turn t ts =
     (case get_turn t ts of
        None \<Rightarrow> (False, ts)
      | Some a \<Rightarrow>
          (if th_cancelled (tt_heap ts ! a) then (False, ts)
           else (True, ts\<lparr>tt_heap := (tt_heap ts)[a := (tt_heap ts ! a)\<lparr>th_cancelled := True\<rparr>]\<rparr>)))"

definition remove_turn :: "string \<Rightarrow> turns \<Rightarrow> turns" where
  "remove_turn t ts = ts\<lparr>tt_reg := hm_del t (tt_reg ts)\<rparr>"

definition clear_all_turns :: "turns \<Rightarrow> turns" where
  "clear_all_turns ts = ts\<lparr>tt_reg := []\<rparr>"

definition turns_ok :: "turns \<Rightarrow> bool" where
  "turns_ok ts \<longleftrightarrow> hm_ok (tt_reg ts) \<and>
     (\<forall>t a. hm_get (tt_reg ts) t = Some a \<longrightarrow> a < length (tt_heap ts) \<and> th_turn_id (tt_heap ts ! a) = t)"

lemma turns_ok_register [wf_intros]: "turns_ok ts \<Longrightarrow> turns_ok (snd (register_turn t c ts))"
  by (auto simp: turns_ok_def register_turn_def nth_append turn_handle_new_def less_Suc_eq split: if_splits)

lemma nth_update: "xs[i := y] ! j = (if i = j \<and> j < length xs then y else xs ! j)"
  by (cases "i < length xs") (auto simp: nth_list_update list_update_beyond)

lemma turns_ok_cancel [wf_intros]: "turns_ok ts \<Longrightarrow> turns_ok (snd (cancel_turn t ts))"
  by (auto simp: turns_ok_def cancel_turn_def nth_update split: option.split)

lemma turns_ok_remove [wf_intros]: "turns_ok ts \<Longrightarrow> turns_ok (remove_turn t ts)"
  by (auto simp: turns_ok_def remove_turn_def split: if_splits)

section \<open>The pipe actions on it\<close>

definition string_field :: "json \<Rightarrow> string \<Rightarrow> (ipc_error, string) rust_res" where
  "string_field payload key =
     (case jget key payload of
        Some (JStr s) \<Rightarrow>
          if s = [] then Inl (ipc_error_of ''bad_request'' (key @ '' is required (non-empty string)'')) else Inr s
      | _ \<Rightarrow> Inl (ipc_error_of ''bad_request'' (key @ '' is required (non-empty string)'')))"

definition optional_string :: "json \<Rightarrow> string \<Rightarrow> string option" where
  "optional_string payload key =
     (case get_str key payload of Some s \<Rightarrow> if s = [] then None else Some s | None \<Rightarrow> None)"

definition handle_cancel :: "json \<Rightarrow> turns \<Rightarrow> reply \<times> turns" where
  "handle_cancel payload ts =
     (case string_field payload ''turn_id'' of
        Inl e \<Rightarrow> (Inl e, ts)
      | Inr t \<Rightarrow> (case cancel_turn t ts of
          (cancelled, ts') \<Rightarrow> (Inr (JObj [(''turn_id'', JStr t), (''cancelled'', JBool cancelled)]), ts')))"

text \<open>The opening of both streams: the error that is sent, or the handle that is followed.\<close>

definition open_stream :: "henv \<Rightarrow> json \<Rightarrow> turns \<Rightarrow> (ipc_error, nat) rust_res" where
  "open_stream w payload ts =
     (case string_field payload ''turn_id'' of
        Inl e \<Rightarrow> Inl e
      | Inr t \<Rightarrow> (case get_turn t ts of
          None \<Rightarrow> Inl (ipc_error_of ''not_found'' (''turn '' @ he_debug w t @ '' not found''))
        | Some a \<Rightarrow> Inr a))"

section \<open>A subscriber\<close>

datatype stream_source = TurnSource | ToolSource

fun stream_buffer :: "stream_source \<Rightarrow> turn_handle \<Rightarrow> json list" where
  "stream_buffer TurnSource h = map turn_event_json (th_turn_events h)"
| "stream_buffer ToolSource h = map tool_event_json (th_tool_events h)"

text \<open>
  The loop of \<open>stream_events\<close>: at its head it arms the wake-up, then it reads the buffer behind its
  cursor, sends chunk by chunk, looks whether the turn is done, and sleeps.
\<close>

datatype stream_pc = LoopHead | Armed | Sending "json list" | Sleeping | Returned bool

record stream_sys =
  ss_handle :: turn_handle
  ss_notifies :: nat
  ss_pc :: stream_pc
  ss_cursor :: nat
  ss_sent :: "json list"
  ss_woken :: bool

text \<open>
  The driver appends and, as a step of its own, wakes: \<open>ss_notifies\<close> counts the wake-ups due.
  A wake-up reaches the subscriber once it is armed. It appends nothing after \<open>mark_done\<close>. The client may
  go away at any chunk; then the subscriber returns \<open>True\<close>.
\<close>

inductive stream_step :: "stream_source \<Rightarrow> stream_sys \<Rightarrow> stream_sys \<Rightarrow> bool" for src where
  push_turn: "\<not> th_done (ss_handle s)
    \<Longrightarrow> stream_step src s (s\<lparr>ss_handle := push_turn_event ev (ss_handle s), ss_notifies := ss_notifies s + 1\<rparr>)"
| push_tool: "\<not> th_done (ss_handle s)
    \<Longrightarrow> stream_step src s (s\<lparr>ss_handle := push_tool_event tev (ss_handle s), ss_notifies := ss_notifies s + 1\<rparr>)"
| finished: "stream_step src s (s\<lparr>ss_handle := mark_done (ss_handle s), ss_notifies := ss_notifies s + 1\<rparr>)"
| cancel: "stream_step src s (s\<lparr>ss_handle := (ss_handle s)\<lparr>th_cancelled := True\<rparr>, ss_notifies := ss_notifies s + 1\<rparr>)"
| notify: "ss_notifies s = Suc n
    \<Longrightarrow> stream_step src s (s\<lparr>ss_notifies := n, ss_woken := ss_pc s \<noteq> LoopHead \<or> ss_woken s\<rparr>)"
| arm: "ss_pc s = LoopHead \<Longrightarrow> stream_step src s (s\<lparr>ss_pc := Armed, ss_woken := False\<rparr>)"
| read: "ss_pc s = Armed
    \<Longrightarrow> stream_step src s (s\<lparr>ss_pc := Sending (drop (ss_cursor s) (stream_buffer src (ss_handle s)))\<rparr>)"
| send: "ss_pc s = Sending (c # cs)
    \<Longrightarrow> stream_step src s (s\<lparr>ss_pc := Sending cs, ss_cursor := ss_cursor s + 1, ss_sent := ss_sent s @ [c]\<rparr>)"
| client_gone: "ss_pc s = Sending (c # cs)
    \<Longrightarrow> stream_step src s (s\<lparr>ss_pc := Returned True, ss_cursor := ss_cursor s + 1\<rparr>)"
| check_done: "ss_pc s = Sending [] \<Longrightarrow> th_done (ss_handle s)
    \<Longrightarrow> stream_step src s (s\<lparr>ss_pc := Returned False\<rparr>)"
| sleep: "ss_pc s = Sending [] \<Longrightarrow> \<not> th_done (ss_handle s) \<Longrightarrow> stream_step src s (s\<lparr>ss_pc := Sleeping\<rparr>)"
| wake: "ss_pc s = Sleeping \<Longrightarrow> ss_woken s \<Longrightarrow> stream_step src s (s\<lparr>ss_pc := LoopHead\<rparr>)"

definition stream_start :: "turn_handle \<Rightarrow> stream_sys" where
  "stream_start h = \<lparr>ss_handle = h, ss_notifies = 0, ss_pc = LoopHead, ss_cursor = 0, ss_sent = [], ss_woken = False\<rparr>"

inductive_cases stream_stepE: "stream_step src s s'"

inductive stream_reach :: "stream_source \<Rightarrow> turn_handle \<Rightarrow> stream_sys \<Rightarrow> bool" for src h where
  start: "stream_reach src h (stream_start h)"
| step: "stream_reach src h s \<Longrightarrow> stream_step src s s' \<Longrightarrow> stream_reach src h s'"

section \<open>What a subscriber sees\<close>

lemma stream_buffer_push:
  "stream_buffer src (push_turn_event ev h) =
     stream_buffer src h @ (case src of TurnSource \<Rightarrow> [turn_event_json ev] | ToolSource \<Rightarrow> [])"
  "stream_buffer src (push_tool_event tev h) =
     stream_buffer src h @ (case src of TurnSource \<Rightarrow> [] | ToolSource \<Rightarrow> [tool_event_json tev])"
  "stream_buffer src (mark_done h) = stream_buffer src h"
  "stream_buffer src (h\<lparr>th_cancelled := b\<rparr>) = stream_buffer src h"
  by (cases src; simp add: push_turn_event_def push_tool_event_def mark_done_def)+

lemma push_done [simp]:
  "th_done (push_turn_event ev h) = th_done h" "th_done (push_tool_event tev h) = th_done h" "th_done (mark_done h)"
  by (simp_all add: push_turn_event_def push_tool_event_def mark_done_def)

text \<open>
  The invariant: what was sent and what is being sent are a prefix of the buffer, the cursor counts
  the chunks, and while no wake-up came or is due they are all of it.
\<close>

definition stream_inv :: "stream_source \<Rightarrow> stream_sys \<Rightarrow> bool" where
  "stream_inv src s \<longleftrightarrow>
     (let buf = stream_buffer src (ss_handle s); quiet = (\<not> ss_woken s \<and> ss_notifies s = 0)
      in case ss_pc s of
        Sending cs \<Rightarrow> ss_cursor s = length (ss_sent s) \<and> prefix (ss_sent s @ cs) buf \<and> (quiet \<longrightarrow> ss_sent s @ cs = buf)
      | Sleeping \<Rightarrow> ss_cursor s = length (ss_sent s) \<and> prefix (ss_sent s) buf
          \<and> (quiet \<longrightarrow> ss_sent s = buf \<and> \<not> th_done (ss_handle s))
      | Returned gone \<Rightarrow> prefix (ss_sent s) buf \<and> (\<not> gone \<longrightarrow> th_done (ss_handle s))
      | _ \<Rightarrow> ss_cursor s = length (ss_sent s) \<and> prefix (ss_sent s) buf)"

lemma prefix_drop: "prefix xs ys \<Longrightarrow> xs @ drop (length xs) ys = ys"
  by (auto simp: prefix_def)

lemma stream_inv_start: "stream_inv src (stream_start h)"
  by (simp add: stream_inv_def stream_start_def)

lemma stream_inv_step: "stream_step src s s' \<Longrightarrow> stream_inv src s \<Longrightarrow> stream_inv src s'"
  by (erule stream_stepE; cases "ss_pc s"; simp add: stream_inv_def Let_def stream_buffer_push prefix_drop)
    (auto dest: append_prefixD)

lemma stream_reach_inv: "stream_reach src h s \<Longrightarrow> stream_inv src s"
  by (induction rule: stream_reach.induct) (auto intro: stream_inv_start stream_inv_step)

text \<open>C32: A subscriber sees a prefix of the events of its turn, in order and each once; when it sleeps and no wake-up
  is due, it has seen them all and the turn goes on.
\<close>

theorem subscriber_follows_turn:
  assumes "stream_reach src h s"
  shows "prefix (ss_sent s) (stream_buffer src (ss_handle s))
    \<and> (ss_pc s = Sleeping \<and> \<not> ss_woken s \<and> ss_notifies s = 0
        \<longrightarrow> ss_sent s = stream_buffer src (ss_handle s) \<and> \<not> th_done (ss_handle s))"
  using stream_reach_inv [OF assms] by (auto simp: stream_inv_def Let_def split: stream_pc.splits dest: append_prefixD)

definition sample_handle :: turn_handle where
  "sample_handle = push_turn_event (Token ''t'' ''Hi'') (turn_handle_new ''t'' ''c'')"

lemma sample_reach_sleep:
  "stream_reach TurnSource sample_handle
     \<lparr>ss_handle = sample_handle, ss_notifies = 0, ss_pc = Sleeping, ss_cursor = 1,
      ss_sent = [turn_event_json (Token ''t'' ''Hi'')], ss_woken = False\<rparr>"
proof -
  let ?s = "\<lambda>pc n cs. \<lparr>ss_handle = sample_handle, ss_notifies = 0, ss_pc = pc, ss_cursor = n, ss_sent = cs, ss_woken = False\<rparr>"
  let ?c = "turn_event_json (Token ''t'' ''Hi'')"
  have "stream_reach TurnSource sample_handle (?s LoopHead 0 [])"
    using stream_reach.start [of TurnSource sample_handle] by (simp only: stream_start_def)
  then have "stream_reach TurnSource sample_handle (?s Armed 0 [])"
    by (rule stream_reach.step) (use stream_step.arm [of "?s LoopHead 0 []" TurnSource] in simp)
  then have "stream_reach TurnSource sample_handle (?s (Sending [?c]) 0 [])"
    by (rule stream_reach.step) (use stream_step.read [of "?s Armed 0 []" TurnSource]
        in \<open>simp add: sample_handle_def push_turn_event_def turn_handle_new_def\<close>)
  then have "stream_reach TurnSource sample_handle (?s (Sending []) 1 [?c])"
    by (rule stream_reach.step) (use stream_step.send [of "?s (Sending [?c]) 0 []" ?c "[]" TurnSource] in simp)
  then show ?thesis
    by (rule stream_reach.step) (use stream_step.sleep [of "?s (Sending []) 1 [?c]" TurnSource]
        in \<open>simp add: sample_handle_def turn_handle_new_def\<close>)
qed

theorem subscriber_follows_turn_witness:
  "stream_buffer TurnSource sample_handle = [turn_event_json (Token ''t'' ''Hi'')]"
  using subscriber_follows_turn [OF sample_reach_sleep] by simp

lemma send_all:
  "ss_pc s = Sending cs
     \<Longrightarrow> (stream_step src)\<^sup>*\<^sup>* s (s\<lparr>ss_pc := Sending [], ss_cursor := ss_cursor s + length cs, ss_sent := ss_sent s @ cs\<rparr>)"
proof (induction cs arbitrary: s)
  case (Cons c cs)
  let ?s = "s\<lparr>ss_pc := Sending cs, ss_cursor := ss_cursor s + 1, ss_sent := ss_sent s @ [c]\<rparr>"
  have "stream_step src s ?s" by (rule stream_step.send [OF Cons.prems])
  then show ?case using Cons.IH [of ?s] by (simp add: converse_rtranclp_into_rtranclp)
next
  case Nil
  then have "s\<lparr>ss_pc := Sending []\<rparr> = s" by (cases s) simp
  then show ?case by simp
qed

lemma read_all:
  assumes "stream_inv src s" and "th_done (ss_handle s)" and "ss_pc s = Armed"
  shows "\<exists>s'. (stream_step src)\<^sup>*\<^sup>* s s' \<and> ss_pc s' = Returned False \<and> ss_handle s' = ss_handle s
    \<and> ss_sent s' = stream_buffer src (ss_handle s)"
proof -
  let ?buf = "stream_buffer src (ss_handle s)"
  let ?s1 = "s\<lparr>ss_pc := Sending (drop (ss_cursor s) ?buf)\<rparr>"
  let ?s2 = "?s1\<lparr>ss_pc := Sending [], ss_cursor := ss_cursor s + length (drop (ss_cursor s) ?buf), ss_sent := ?buf\<rparr>"
  have "ss_sent s @ drop (ss_cursor s) ?buf = ?buf"
    using assms(1,3) by (auto simp: stream_inv_def Let_def intro: prefix_drop)
  moreover have "stream_step src s ?s1" by (rule stream_step.read [OF assms(3)])
  ultimately have "(stream_step src)\<^sup>*\<^sup>* s ?s2"
    using send_all [of ?s1 "drop (ss_cursor s) ?buf" src] by (simp add: converse_rtranclp_into_rtranclp)
  also have "stream_step src ?s2 (?s2\<lparr>ss_pc := Returned False\<rparr>)"
    using assms(2) by (intro stream_step.check_done) simp_all
  finally show ?thesis by (intro exI [of _ "?s2\<lparr>ss_pc := Returned False\<rparr>"]) simp
qed

text \<open>Once the turn is done and its wake-ups came, a subscriber that has still to read its buffer once more
  delivers all the rest, by its own steps alone, and returns.
\<close>

theorem subscriber_completes:
  assumes "stream_reach src h s" and "th_done (ss_handle s)" and "ss_notifies s = 0"
    and "ss_pc s \<in> {LoopHead, Armed, Sleeping}"
  shows "\<exists>s'. (stream_step src)\<^sup>*\<^sup>* s s' \<and> ss_pc s' = Returned False
    \<and> ss_sent s' = stream_buffer src (ss_handle s)"
proof -
  note inv = stream_reach_inv [OF assms(1)]
  let ?armed = "s\<lparr>ss_pc := Armed, ss_woken := False\<rparr>"
  let ?head = "s\<lparr>ss_pc := LoopHead\<rparr>"
  consider (armed) "ss_pc s = Armed" | (head) "ss_pc s = LoopHead" | (sleeping) "ss_pc s = Sleeping" using assms(4) by auto
  then show ?thesis
  proof cases
    case armed
    then show ?thesis using read_all [OF inv assms(2)] by blast
  next
    case head
    have step: "stream_step src s ?armed" by (rule stream_step.arm [OF head])
    show ?thesis
      using read_all [OF stream_inv_step [OF step inv]] assms(2) step by (auto intro: converse_rtranclp_into_rtranclp)
  next
    case sleeping
    then have "ss_woken s" using inv assms(2,3) by (auto simp: stream_inv_def Let_def)
    then have step1: "stream_step src s ?head" using sleeping by (intro stream_step.wake)
    have step2: "stream_step src ?head ?armed" using stream_step.arm [of ?head src] by simp
    show ?thesis
      using read_all [OF stream_inv_step [OF step2 stream_inv_step [OF step1 inv]]] assms(2) step1 step2
      by (auto intro: converse_rtranclp_into_rtranclp)
  qed
qed

theorem subscriber_completes_witness:
  "\<exists>s'. (stream_step TurnSource)\<^sup>*\<^sup>* (stream_start (mark_done sample_handle)) s' \<and> ss_pc s' = Returned False
     \<and> ss_sent s' = [turn_event_json (Token ''t'' ''Hi'')]"
  using subscriber_completes [OF stream_reach.start [of TurnSource "mark_done sample_handle"]]
  by (simp add: stream_start_def) (simp add: sample_handle_def mark_done_def push_turn_event_def turn_handle_new_def)

text \<open>
  The end may be lost: the driver appends its last event and is done between the read of the buffer and the
  look at the flag, and the subscriber returns without the event.
\<close>

theorem subscriber_may_miss_the_end:
  "\<exists>s. stream_reach TurnSource (turn_handle_new ''t'' ''c'') s \<and> ss_pc s = Returned False \<and> ss_sent s = []
     \<and> stream_buffer TurnSource (ss_handle s) = [turn_event_json (TurnComplete ''t'' ''Hi'')]"
proof -
  let ?h = "turn_handle_new ''t'' ''c''"
  let ?h1 = "push_turn_event (TurnComplete ''t'' ''Hi'') ?h"
  let ?s = "\<lambda>h n pc. \<lparr>ss_handle = h, ss_notifies = n, ss_pc = pc, ss_cursor = 0, ss_sent = [], ss_woken = False\<rparr>"
  have "stream_reach TurnSource ?h (?s ?h 0 LoopHead)"
    using stream_reach.start [of TurnSource ?h] by (simp only: stream_start_def)
  then have "stream_reach TurnSource ?h (?s ?h 0 Armed)"
    by (rule stream_reach.step) (use stream_step.arm [of "?s ?h 0 LoopHead" TurnSource] in simp)
  then have "stream_reach TurnSource ?h (?s ?h 0 (Sending []))"
    by (rule stream_reach.step) (use stream_step.read [of "?s ?h 0 Armed" TurnSource] in \<open>simp add: turn_handle_new_def\<close>)
  then have "stream_reach TurnSource ?h (?s ?h1 1 (Sending []))"
    by (rule stream_reach.step)
      (use stream_step.push_turn [of "?s ?h 0 (Sending [])" TurnSource "TurnComplete ''t'' ''Hi''"] in \<open>simp add: turn_handle_new_def\<close>)
  then have "stream_reach TurnSource ?h (?s (mark_done ?h1) 2 (Sending []))"
    by (rule stream_reach.step) (use stream_step.finished [of TurnSource "?s ?h1 1 (Sending [])"] in \<open>simp add: numeral_2_eq_2\<close>)
  then have "stream_reach TurnSource ?h (?s (mark_done ?h1) 2 (Returned False))"
    by (rule stream_reach.step) (use stream_step.check_done [of "?s (mark_done ?h1) 2 (Sending [])" TurnSource] in simp)
  then show ?thesis
    by (intro exI [of _ "?s (mark_done ?h1) 2 (Returned False)"])
      (simp add: mark_done_def push_turn_event_def turn_handle_new_def)
qed

section \<open>Cancelling\<close>

text \<open>
  A cancel succeeds exactly when the turn is registered and not cancelled yet; it sets the flag of
  that turn, changes no other handle, and never succeeds twice for a turn.
\<close>

theorem cancel_succeeds_once:
  assumes "turns_ok ts"
  shows "fst (cancel_turn t ts) \<longleftrightarrow> (\<exists>a. get_turn t ts = Some a \<and> \<not> th_cancelled (tt_heap ts ! a))"
    and "\<not> fst (cancel_turn t (snd (cancel_turn t ts)))"
    and "tt_reg (snd (cancel_turn t ts)) = tt_reg ts"
    and "tt_heap (snd (cancel_turn t ts)) ! b
      = (if get_turn t ts = Some b then (tt_heap ts ! b)\<lparr>th_cancelled := True\<rparr> else tt_heap ts ! b)"
  using assms by (auto simp: cancel_turn_def get_turn_def turns_ok_def nth_update split: option.split)

text \<open>
  A turn id that is used again while its first turn runs: the end of the first turn removes the slot of the
  second, which nobody can cancel or follow from then on.
\<close>

theorem reused_id_orphans_turn:
  "(case register_turn t c ts of (a, ts1) \<Rightarrow>
    case register_turn t c' ts1 of (b, ts2) \<Rightarrow>
      get_turn t ts2 = Some b \<and> a \<noteq> b \<and> \<not> th_done (tt_heap (remove_turn t ts2) ! b)
      \<and> fst (cancel_turn t (remove_turn t ts2)) = False)"
  by (simp add: register_turn_def get_turn_def remove_turn_def cancel_turn_def turn_handle_new_def nth_append)

end
