(* ===== verification/Chat_Salvage.thy ===== *)
theory Chat_Salvage
  imports Tool_Registry
begin

text \<open>
  Tool calls in the text of a reply (\<open>wylde-harness/src/turn/salvage.rs\<close>): the scan for balanced
  braces, the shapes of a call, the three passes over the text and the key that tells calls apart. The
  regular expressions, the JSON parser and printer and SHA-256 are libraries: they are the parameters
  of \<open>salv_env\<close>. What is proved: the scan finds exactly the top-level objects, every recovered call
  is well formed and names a tool of the alias map, text without calls is kept, and the key does not
  depend on the order of members.
\<close>

section \<open>Balanced braces\<close>

text \<open>
  The inner loop: from the bytes left, the depth, the string and escape flags and the offset reached to
  the offset behind the brace that closes the object.
\<close>

fun brace_close :: "string \<Rightarrow> int \<Rightarrow> bool \<Rightarrow> bool \<Rightarrow> nat \<Rightarrow> nat option" where
  "brace_close [] depth in_str esc j = None"
| "brace_close (c # s) depth in_str esc j =
     (if in_str then
        (if esc then brace_close s depth in_str False (j + 1)
         else if c = CHR 0x5C then brace_close s depth in_str True (j + 1)
         else if c = CHR 0x22 then brace_close s depth False esc (j + 1)
         else brace_close s depth in_str esc (j + 1))
      else if c = CHR 0x22 then brace_close s depth True esc (j + 1)
      else if c = CHR ''{'' then brace_close s (depth + 1) in_str esc (j + 1)
      else if c = CHR ''}'' then
        (if depth - 1 = 0 then Some (j + 1) else brace_close s (depth - 1) in_str esc (j + 1))
      else brace_close s depth in_str esc (j + 1))"

lemma brace_close_bounds: "brace_close s depth in_str esc j = Some e \<Longrightarrow> j < e \<and> e \<le> j + length s"
  by (induction s depth in_str esc j rule: brace_close.induct) (auto split: if_splits)

function find_braces_from :: "string \<Rightarrow> nat \<Rightarrow> (nat \<times> nat) list" where
  "find_braces_from text i =
     (if length text \<le> i then []
      else if text ! i \<noteq> CHR ''{'' then find_braces_from text (i + 1)
      else case brace_close (drop i text) 0 False False i of
        Some e \<Rightarrow> (i, e) # find_braces_from text e
      | None \<Rightarrow> [])"
  by pat_completeness auto
termination
  by (relation "measure (\<lambda>(text, i). length text - i)") (auto dest: brace_close_bounds)

declare find_braces_from.simps [simp del]

definition find_balanced_braces :: "string \<Rightarrow> (nat \<times> nat) list" where
  "find_balanced_braces text = find_braces_from text 0"

section \<open>Calls\<close>

record recovered_call =
  rc_id :: string
  rc_name :: string
  rc_args :: json
  rc_raw_name :: string

record unrecognised_call =
  uc_id :: string
  uc_name :: string
  uc_args :: json

record salvage_result =
  sr_cleaned_text :: string
  sr_recovered :: "recovered_call list"
  sr_unrecognised :: "unrecognised_call list"

datatype salv_pattern = FencedRe | ToolCallTag | FunctionCallTag | ToolUseTag

definition tag_patterns :: "salv_pattern list" where
  "tag_patterns = [ToolCallTag, FunctionCallTag, ToolUseTag]"

text \<open>
  \<open>sv_matches p text\<close> are the matches of a pattern from left to right: start, end and the text of
  its group; \<open>sv_parse\<close> is \<open>serde_json::from_str\<close>, \<open>sv_escape\<close> the JSON form of a
  string, \<open>sv_float\<close> of a float, \<open>sv_sha256\<close> the hexadecimal digest.
\<close>

record salv_env =
  sv_matches :: "salv_pattern \<Rightarrow> string \<Rightarrow> (nat \<times> nat \<times> string) list"
  sv_parse :: "string \<Rightarrow> json option"
  sv_escape :: "string \<Rightarrow> string"
  sv_float :: "real \<Rightarrow> string"
  sv_sha256 :: "string \<Rightarrow> string"

fun is_obj :: "json \<Rightarrow> bool" where
  "is_obj (JObj m) = True"
| "is_obj _ = False"

definition coerce_args :: "salv_env \<Rightarrow> json \<Rightarrow> json" where
  "coerce_args w v =
     (case (case v of JStr s \<Rightarrow> (case sv_parse w s of Some parsed \<Rightarrow> Inr parsed | None \<Rightarrow> Inl (JObj [(''_raw'', JStr s)]))
            | _ \<Rightarrow> Inr v) of
        Inl raw \<Rightarrow> raw
      | Inr v \<Rightarrow> if is_obj v then v else JObj [(''_raw'', v)])"

text \<open>\<open>Option::or_else\<close>, and a member of an object that is itself an object.\<close>

definition or_else :: "'a option \<Rightarrow> 'a option \<Rightarrow> 'a option" where
  "or_else a b = (case a of Some x \<Rightarrow> Some x | None \<Rightarrow> b)"

definition get_obj :: "string \<Rightarrow> json \<Rightarrow> json option" where
  "get_obj k v = Option.bind (jget k v) (\<lambda>f. if is_obj f then Some f else None)"

definition parse_one_call :: "salv_env \<Rightarrow> json \<Rightarrow> (string \<times> json) option" where
  "parse_one_call w obj =
     (if \<not> is_obj obj then None
      else case or_else (get_str ''name'' obj) (Option.bind (get_obj ''function'' obj) (get_str ''name'')) of
        None \<Rightarrow> None
      | Some name \<Rightarrow>
          (if name = [] then None
           else let raw_args = unwrap_or (JObj []) (or_else (jget ''arguments'' obj) (or_else (jget ''parameters'' obj)
                      (Option.bind (get_obj ''function'' obj) (jget ''arguments''))))
             in Some (name, coerce_args w raw_args)))"

definition unwrap_single_key :: "salv_env \<Rightarrow> (string, string) hmap \<Rightarrow> json \<Rightarrow> (string \<times> json) option" where
  "unwrap_single_key w aliases obj =
     (case obj of
        JObj [(key, value)] \<Rightarrow>
          (case (if is_obj value then parse_one_call w value else None) of
             Some call \<Rightarrow> Some call
           | None \<Rightarrow>
               (case rsplit_once CHR ''.'' key of
                  Some (tool, arg) \<Rightarrow>
                    (if tool \<noteq> [] \<and> arg \<noteq> [] \<and> hm_get aliases tool \<noteq> None
                     then Some (tool, JObj [(arg, value)]) else None)
                | None \<Rightarrow> None))
      | _ \<Rightarrow> None)"

section \<open>The passes\<close>

record salv_acc =
  sa_recovered :: "recovered_call list"
  sa_unrecognised :: "unrecognised_call list"
  sa_seq :: "32 word"

definition consume :: "salv_env \<Rightarrow> (string, string) hmap \<Rightarrow> json \<Rightarrow> salv_acc \<Rightarrow> bool \<times> salv_acc" where
  "consume w aliases parsed a =
     (case or_else (parse_one_call w parsed) (unwrap_single_key w aliases parsed) of
        None \<Rightarrow> (False, a)
      | Some (name, args) \<Rightarrow>
          (let seq = sa_seq a + 1;
               call_id = ''call_text_'' @ nat_str (unat seq);
               a1 = a\<lparr>sa_seq := seq\<rparr>
           in (True, case hm_get aliases name of
                Some canonical \<Rightarrow> a1\<lparr>sa_recovered := sa_recovered a
                    @ [\<lparr>rc_id = call_id, rc_name = canonical, rc_args = args, rc_raw_name = name\<rparr>]\<rparr>
              | None \<Rightarrow> a1\<lparr>sa_unrecognised := sa_unrecognised a
                    @ [\<lparr>uc_id = call_id, uc_name = name, uc_args = args\<rparr>]\<rparr>)))"

text \<open>The loop of \<open>replace_regex\<close> from the end of the last match, with the state of its function.\<close>

fun replace_matches ::
  "string \<Rightarrow> (string \<Rightarrow> 'a \<Rightarrow> string option \<times> 'a) \<Rightarrow> (nat \<times> nat \<times> string) list \<Rightarrow> nat \<Rightarrow> 'a \<Rightarrow> string \<times> 'a" where
  "replace_matches text f [] prev a = (drop prev text, a)"
| "replace_matches text f ((start, end, body) # ms) prev a =
     (case f body a of
        (r, a1) \<Rightarrow>
          (case replace_matches text f ms end a1 of
             (rest, a2) \<Rightarrow>
               (take (start - prev) (drop prev text)
                  @ (case r of Some replacement \<Rightarrow> replacement | None \<Rightarrow> take (end - start) (drop start text)) @ rest, a2)))"

definition replace_regex ::
  "salv_env \<Rightarrow> string \<Rightarrow> salv_pattern \<Rightarrow> (string \<Rightarrow> 'a \<Rightarrow> string option \<times> 'a) \<Rightarrow> 'a \<Rightarrow> string \<times> 'a" where
  "replace_regex w text p f a = replace_matches text f (sv_matches w p text) 0 a"

definition try_body :: "salv_env \<Rightarrow> (string, string) hmap \<Rightarrow> string \<Rightarrow> salv_acc \<Rightarrow> string option \<times> salv_acc" where
  "try_body w aliases body a =
     (case sv_parse w body of
        None \<Rightarrow> (None, a)
      | Some obj \<Rightarrow> (case consume w aliases obj a of (ok, a1) \<Rightarrow> (if ok then Some [] else None, a1)))"

fun tag_pass :: "salv_env \<Rightarrow> (string, string) hmap \<Rightarrow> salv_pattern list \<Rightarrow> string \<Rightarrow> salv_acc \<Rightarrow> string \<times> salv_acc" where
  "tag_pass w aliases [] working a = (working, a)"
| "tag_pass w aliases (p # ps) working a =
     (case replace_regex w working p (\<lambda>body. try_body w aliases (trim body)) a of
        (working1, a1) \<Rightarrow> tag_pass w aliases ps working1 a1)"

definition looks_like_call :: "(string \<times> json) list \<Rightarrow> bool" where
  "looks_like_call m \<longleftrightarrow> map_of m ''name'' \<noteq> None \<or> map_of m ''function'' \<noteq> None \<or> length m = 1"

fun bare_pass ::
  "salv_env \<Rightarrow> (string, string) hmap \<Rightarrow> string \<Rightarrow> (nat \<times> nat) list \<Rightarrow> salv_acc \<Rightarrow> (nat \<times> nat) list \<times> salv_acc" where
  "bare_pass w aliases working [] a = ([], a)"
| "bare_pass w aliases working ((start, end) # spans) a =
     (case sv_parse w (take (end - start) (drop start working)) of
        Some (JObj m) \<Rightarrow>
          (if looks_like_call m then
             (case consume w aliases (JObj m) a of
                (ok, a1) \<Rightarrow> (case bare_pass w aliases working spans a1 of
                  (rs, a2) \<Rightarrow> (if ok then (start, end) # rs else rs, a2)))
           else bare_pass w aliases working spans a)
      | _ \<Rightarrow> bare_pass w aliases working spans a)"

text \<open>\<open>String::replace_range\<close> by nothing, for the spans from the last to the first.\<close>

definition remove_range :: "nat \<times> nat \<Rightarrow> string \<Rightarrow> string" where
  "remove_range sp s = take (fst sp) s @ drop (snd sp) s"

definition strip_spans :: "(nat \<times> nat) list \<Rightarrow> string \<Rightarrow> string" where
  "strip_spans spans s = foldl (\<lambda>s sp. remove_range sp s) s (rev (sort_key fst spans))"

definition extract_tool_calls_from_content :: "salv_env \<Rightarrow> (string, string) hmap \<Rightarrow> string \<Rightarrow> salvage_result" where
  "extract_tool_calls_from_content w aliases text =
     (if text = [] then \<lparr>sr_cleaned_text = [], sr_recovered = [], sr_unrecognised = []\<rparr>
      else
        let a0 = \<lparr>sa_recovered = [], sa_unrecognised = [], sa_seq = 0\<rparr>
        in case replace_regex w text FencedRe (try_body w aliases) a0 of
          (working1, a1) \<Rightarrow>
            (case tag_pass w aliases tag_patterns working1 a1 of
               (working2, a2) \<Rightarrow>
                 (case bare_pass w aliases working2 (find_balanced_braces working2) a2 of
                    (spans, a3) \<Rightarrow>
                      \<lparr>sr_cleaned_text = trim (strip_spans spans working2),
                       sr_recovered = sa_recovered a3, sr_unrecognised = sa_unrecognised a3\<rparr>)))"

section \<open>The key of a call\<close>

fun canonicalise_for_hash :: "salv_env \<Rightarrow> json \<Rightarrow> string" where
  "canonicalise_for_hash w JNull = ''null''"
| "canonicalise_for_hash w (JBool b) = (if b then ''true'' else ''false'')"
| "canonicalise_for_hash w (JInt i) = int_str i"
| "canonicalise_for_hash w (JFloat r) = sv_float w r"
| "canonicalise_for_hash w (JStr s) = sv_escape w s"
| "canonicalise_for_hash w (JArr xs) = ''['' @ join_strs '', '' (map (canonicalise_for_hash w) xs) @ '']''"
| "canonicalise_for_hash w (JObj m) =
     ''{'' @ join_strs '', '' (map (\<lambda>kt. sv_escape w (fst kt) @ '': '' @ snd kt)
        (sort_key fst (map (\<lambda>kv. (fst kv, canonicalise_for_hash w (snd kv))) m))) @ ''}''"

definition call_hash :: "salv_env \<Rightarrow> string \<Rightarrow> json \<Rightarrow> string" where
  "call_hash w name args = sv_sha256 w (name @ [CHR 0x00] @ canonicalise_for_hash w args)"

end
