(* ===== verification/Chat_Round.thy ===== *)
theory Chat_Round
  imports Chat_Events Chat_Salvage
begin

text \<open>
  One tool call of a turn (\<open>wylde-harness/src/turn/tool_round.rs\<close>, \<open>dispatch.rs\<close>): the check for
  duplicates, the tier gate, the route to an extension or to the registry, the events, the summary row and
  the message for the next round. The pipe to other services is a parameter that may change all the
  state: while the driver waits, other actions run (a user answers a consent prompt).
\<close>

section \<open>The surroundings of a turn\<close>

record harness_config =
  hc_default_model :: string
  hc_max_tool_loops :: nat
  hc_ollama_service :: string
  hc_extension_bridge_service :: string
  hc_mcp_namespaces :: "string list"
  hc_default_chat_priority :: int

text \<open>
  \<open>tv_ipc service action payload\<close> is \<open>ipc::call_action\<close>; \<open>tv_henv n\<close> and \<open>tv_now_ms n\<close> are the
  surroundings and the clock when the turn has \<open>n\<close> tool events; \<open>tv_to_string\<close> is \<open>serde_json::to_string\<close>.
\<close>

record 'w turn_env =
  tv_cfg :: harness_config
  tv_reg :: "'w hstate tool_registry"
  tv_ipc :: "string \<Rightarrow> string \<Rightarrow> json \<Rightarrow> 'w hstate \<Rightarrow> (ipc_error, json) rust_res \<times> 'w hstate"
  tv_henv :: "nat \<Rightarrow> henv"
  tv_now_ms :: "nat \<Rightarrow> int"
  tv_to_string :: "json \<Rightarrow> string"
  tv_salv :: salv_env

section \<open>Tiers\<close>

definition MAX_TOOL_LOOPS :: nat where "MAX_TOOL_LOOPS = 8"

definition MEMORY_WRITE_TOOL_IDS :: "string list" where
  "MEMORY_WRITE_TOOL_IDS = [''memory_long_term_save'', ''memory_workspace_save'', ''memory_update'']"

definition normalise_device_tier :: "string option \<Rightarrow> string" where
  "normalise_device_tier tier =
     (case tier of
        Some t \<Rightarrow> if t = TIER_READ_ONLY then TIER_READ_ONLY else if t = TIER_TOOL_USE then TIER_TOOL_USE
                  else if t = TIER_DESTRUCTIVE then TIER_DESTRUCTIVE else DEFAULT_TIER
      | None \<Rightarrow> DEFAULT_TIER)"

definition check_tier_gate ::
  "henv \<Rightarrow> string \<Rightarrow> string \<Rightarrow> 's tool_registry \<Rightarrow> (tool_error_reason \<times> string) option" where
  "check_tier_gate w device_tier tool_name reg =
     (let tier = (if device_tier = [] then DEFAULT_TIER else device_tier)
      in if tier = TIER_READ_ONLY then
           Some (TierReadOnly, ''tool '' @ he_debug w tool_name
             @ '' blocked: device tier is 'read_only', no tools may run on this turn'')
         else if tier = TIER_DESTRUCTIVE then None
         else Option.bind (tool_lookup reg tool_name) (\<lambda>entry.
           if te_destructive entry then
             Some (TierReadOnly, ''tool '' @ he_debug w tool_name @ '' blocked: device tier is 'tool_use' but ''
               @ he_debug w (te_name entry) @ '' is destructive; needs 'destructive_tool_access' tier'')
           else None))"

section \<open>Calls, summaries and the state of the rounds\<close>

record tool_call =
  cl_id :: string
  cl_name :: string
  cl_args :: json

definition call_of_recovered :: "recovered_call \<Rightarrow> tool_call" where
  "call_of_recovered r = \<lparr>cl_id = rc_id r, cl_name = rc_name r, cl_args = rc_args r\<rparr>"

definition summary_ok :: "string \<Rightarrow> string \<Rightarrow> nat \<Rightarrow> json" where
  "summary_ok call_id name duration =
     JObj [(''call_id'', JStr call_id), (''name'', JStr name), (''ok'', JBool True), (''duration_ms'', JInt (int duration))]"

definition summary_err :: "string \<Rightarrow> string \<Rightarrow> nat \<Rightarrow> string \<Rightarrow> tool_error_reason option \<Rightarrow> json" where
  "summary_err call_id name duration error reason =
     JObj ([(''call_id'', JStr call_id), (''name'', JStr name), (''ok'', JBool False),
            (''duration_ms'', JInt (int duration)), (''error'', JStr error)]
        @ (case reason of Some r \<Rightarrow> [(''reason'', JStr (reason_str r))] | None \<Rightarrow> []))"

record round_state =
  rs_dispatched_hashes :: "string set"
  rs_summaries :: "json list"
  rs_rounds :: nat

definition round_state_new :: round_state where
  "round_state_new = \<lparr>rs_dispatched_hashes = {}, rs_summaries = [], rs_rounds = 0\<rparr>"

definition push_summary :: "json \<Rightarrow> round_state \<Rightarrow> round_state" where
  "push_summary row rs = rs\<lparr>rs_summaries := rs_summaries rs @ [row]\<rparr>"

text \<open>What a turn carries from call to call: its handle, the state of its rounds, the state of the harness.\<close>

record 'w turn_st =
  tn_handle :: turn_handle
  tn_round :: round_state
  tn_world :: "'w hstate"

section \<open>Duplicates\<close>

definition dedupe_and_maybe_emit :: "'w turn_env \<Rightarrow> tool_call \<Rightarrow> 'w turn_st \<Rightarrow> bool \<times> 'w turn_st" where
  "dedupe_and_maybe_emit v call st =
     (let h = call_hash (tv_salv v) (cl_name call) (cl_args call);
          handle = tn_handle st; rs = tn_round st; w = tv_henv v (length (th_tool_events handle))
      in if h \<in> rs_dispatched_hashes rs then
           (True, st\<lparr>tn_handle := push_tool_event (ToolError (th_turn_id handle) (cl_id call) (cl_name call)
                (''duplicate tool call '' @ he_debug w (cl_name call) @ '' suppressed (same args as a prior call this turn)'')
                (Some ToolCallTextDuplicate) 0) handle,
              tn_round := push_summary (summary_err (cl_id call) (cl_name call) 0 ''duplicate tool call suppressed''
                (Some ToolCallTextDuplicate)) rs\<rparr>)
         else (False, st\<lparr>tn_round := rs\<lparr>rs_dispatched_hashes := insert h (rs_dispatched_hashes rs)\<rparr>\<rparr>))"

section \<open>Routes\<close>

datatype tool_route = Internal | McpExtension

definition tool_route_of :: "harness_config \<Rightarrow> string \<Rightarrow> tool_route" where
  "tool_route_of cfg tool_name =
     (case split_once CHR ''.'' tool_name of
        None \<Rightarrow> Internal
      | Some (ns, _) \<Rightarrow> if ns \<in> set (hc_mcp_namespaces cfg) then McpExtension else Internal)"

definition split_mcp_name :: "string \<Rightarrow> string \<times> string" where
  "split_mcp_name tool_name = (case split_once CHR ''.'' tool_name of Some (ns, t) \<Rightarrow> (ns, t) | None \<Rightarrow> ([], tool_name))"

definition call_mcp_extension ::
  "'w turn_env \<Rightarrow> henv \<Rightarrow> string \<Rightarrow> json \<Rightarrow> 'w hstate \<Rightarrow> (ipc_error, json) rust_res \<times> 'w hstate" where
  "call_mcp_extension v w tool_name args s =
     (case split_mcp_name tool_name of
        (extension, tool) \<Rightarrow>
          (if extension = [] then
             (Inl (ipc_error_of ''bad_request'' (''MCP tool name '' @ he_debug w tool_name
                @ '' missing namespace prefix (expected `<extension>.<tool>`)'')), s)
           else tv_ipc v (hc_extension_bridge_service (tv_cfg v)) ''ext.tools.call''
             (JObj [(''extension'', JStr extension), (''tool'', JStr tool), (''arguments'', args)]) s))"

definition call_internal ::
  "'w turn_env \<Rightarrow> henv \<Rightarrow> string \<Rightarrow> string \<Rightarrow> json \<Rightarrow> 'w hstate \<Rightarrow> dispatch_outcome \<times> 'w hstate" where
  "call_internal v w tool_name device_tier args s = dispatch_tool w (tv_reg v) tool_name device_tier args False s"

section \<open>Results\<close>

definition tool_message :: "string \<Rightarrow> string \<Rightarrow> string \<Rightarrow> json" where
  "tool_message call_id name body =
     JObj [(''role'', JStr ''tool''), (''tool_call_id'', JStr call_id), (''name'', JStr name), (''content'', JStr body)]"

definition stringify_output :: "'w turn_env \<Rightarrow> json \<Rightarrow> string" where
  "stringify_output v j = (case j of JStr s \<Rightarrow> s | _ \<Rightarrow> tv_to_string v j)"

definition ellipsis :: string where
  "ellipsis = [CHR 0xE2, CHR 0x80, CHR 0xA6]"

definition truncate_preview :: "string \<Rightarrow> nat \<Rightarrow> string" where
  "truncate_preview s n = (if n_chars s \<le> n then s else trim_end (take_chars n s) @ ellipsis)"

definition memory_scope_of :: "tool_call \<Rightarrow> memory_write_scope" where
  "memory_scope_of call =
     (if cl_name call = ''memory_workspace_save'' then Workspace
      else if cl_name call = ''memory_update'' then
        (case get_str ''scope'' (cl_args call) of
           Some sc \<Rightarrow> if sc = ''workspace'' then Workspace else if sc = ''short_term'' then ShortTerm else LongTerm
         | None \<Rightarrow> LongTerm)
      else LongTerm)"

definition maybe_emit_memory_written :: "'w turn_env \<Rightarrow> tool_call \<Rightarrow> json \<Rightarrow> turn_handle \<Rightarrow> turn_handle" where
  "maybe_emit_memory_written v call output handle =
     (if cl_name call \<notin> set MEMORY_WRITE_TOOL_IDS then handle
      else case get_obj ''memory'' output of
        None \<Rightarrow> handle
      | Some record \<Rightarrow>
          (let memory_id = unwrap_or [] (get_str ''id'' record)
           in if memory_id = [] then handle
              else push_tool_event (MemoryWritten (th_turn_id handle) LlmTool (memory_scope_of call) memory_id
                (truncate_preview (unwrap_or [] (get_str ''body'' record)) 200)
                (Option.bind (jget ''importance'' record) as_f64)
                (tv_now_ms v (length (th_tool_events handle))) (Some (cl_id call)) (Some (cl_name call))) handle))"

section \<open>One call\<close>

text \<open>The match on the route, with the reason of a refusal by the dispatcher.\<close>

definition call_routed ::
  "'w turn_env \<Rightarrow> henv \<Rightarrow> string \<Rightarrow> tool_call \<Rightarrow> 'w hstate
   \<Rightarrow> ((ipc_error, json) rust_res \<times> tool_error_reason option) \<times> 'w hstate" where
  "call_routed v w device_tier call s =
     (case tool_route_of (tv_cfg v) (cl_name call) of
        McpExtension \<Rightarrow> (case call_mcp_extension v w (cl_name call) (cl_args call) s of (r, s') \<Rightarrow> ((r, None), s'))
      | Internal \<Rightarrow>
          (case call_internal v w (cl_name call) device_tier (cl_args call) s of
             (outcome, s') \<Rightarrow>
               ((case do_result outcome of Inr j \<Rightarrow> (Inr j, None) | Inl e \<Rightarrow> (Inl (de_error e), de_reason e)), s')))"

definition run_one_tool :: "'w turn_env \<Rightarrow> string \<Rightarrow> tool_call \<Rightarrow> 'w turn_st \<Rightarrow> json \<times> 'w turn_st" where
  "run_one_tool v device_tier call st =
     (let tid = th_turn_id (tn_handle st); cid = cl_id call; name = cl_name call;
          w = tv_henv v (length (th_tool_events (tn_handle st)));
          h1 = push_tool_event (ToolDispatched tid cid name (cl_args call)) (tn_handle st)
      in case check_tier_gate w device_tier name (tv_reg v) of
        Some (reason, error) \<Rightarrow>
          (tool_message cid name (''[tier_blocked] '' @ error),
           st\<lparr>tn_handle := push_tool_event (ToolError tid cid name error (Some reason) 0) h1,
              tn_round := push_summary (summary_err cid name 0 error (Some reason)) (tn_round st)\<rparr>)
      | None \<Rightarrow>
          (case call_routed v w device_tier call (tn_world st) of
             ((Inr output, _), s') \<Rightarrow>
               (tool_message cid name (stringify_output v output),
                st\<lparr>tn_handle := maybe_emit_memory_written v call output
                     (push_tool_event (ToolResult tid cid name output (real (he_elapsed w))) h1),
                   tn_round := push_summary (summary_ok cid name (he_elapsed w)) (tn_round st), tn_world := s'\<rparr>)
           | ((Inl err, reason), s') \<Rightarrow>
               (let msg = ie_code err @ '': '' @ ie_message err
                in (tool_message cid name (''[error] '' @ msg),
                    st\<lparr>tn_handle := push_tool_event (ToolError tid cid name msg reason (real (he_elapsed w))) h1,
                       tn_round := push_summary (summary_err cid name (he_elapsed w) msg reason) (tn_round st), tn_world := s'\<rparr>))))"

text \<open>The inner loop of both drivers over the calls of a round: the messages grow by the tools' answers.\<close>

fun run_calls :: "'w turn_env \<Rightarrow> string \<Rightarrow> tool_call list \<Rightarrow> json list \<Rightarrow> 'w turn_st \<Rightarrow> json list \<times> 'w turn_st" where
  "run_calls v tier [] messages st = (messages, st)"
| "run_calls v tier (call # calls) messages st =
     (case dedupe_and_maybe_emit v call st of
        (True, st1) \<Rightarrow> run_calls v tier calls messages st1
      | (False, st1) \<Rightarrow>
          (case run_one_tool v tier call st1 of
             (msg, st2) \<Rightarrow> run_calls v tier calls (messages @ [msg]) st2))"

end
