(* ===== verification/Chat_Turn.thy ===== *)
theory Chat_Turn
  imports Chat_Round Chat_Context
begin

text \<open>
  The synchronous turn \<open>chat.run_turn\<close> (\<open>handle_run_turn\<close> and its helpers in
  \<open>wylde-harness/src/turn/actions.rs\<close>): the opening messages, the decoding of native and salvaged
  calls, the loop of at most eight rounds, the reply; and \<open>chat.complete\<close>. What the context
  gather found, the base prompt, the tool field and the options of the model are inputs.
\<close>

section \<open>Decoding the calls of a reply\<close>

definition build_alias_map :: "harness_config \<Rightarrow> 's tool_registry \<Rightarrow> (string, string) hmap" where
  "build_alias_map cfg reg =
     foldl (\<lambda>m ns. if hm_get m ns = None then hm_put ns ns m else m) (alias_map reg) (hc_mcp_namespaces cfg)"

definition coerce_native_args :: "salv_env \<Rightarrow> json \<Rightarrow> json" where
  "coerce_native_args w v =
     (let v1 = (case v of JStr s \<Rightarrow> unwrap_or JNull (sv_parse w s) | _ \<Rightarrow> v)
      in if is_obj v1 then v1 else JObj [])"

text \<open>The loop of \<open>native_tool_calls\<close> from index \<open>i\<close>; entries without a name are skipped.\<close>

fun native_calls_from :: "salv_env \<Rightarrow> (string, string) hmap \<Rightarrow> nat \<Rightarrow> json list \<Rightarrow> tool_call list" where
  "native_calls_from w aliases i [] = []"
| "native_calls_from w aliases i (tc # tcs) =
     (let func = unwrap_or tc (jget ''function'' tc)
      in (case optional_string func ''name'' of
            None \<Rightarrow> []
          | Some name \<Rightarrow>
              [\<lparr>cl_id = unwrap_or (''call_native_'' @ nat_str (i + 1)) (optional_string tc ''id''),
                cl_name = unwrap_or name (hm_get aliases name),
                cl_args = coerce_native_args w (unwrap_or (JObj []) (jget ''arguments'' func))\<rparr>])
         @ native_calls_from w aliases (i + 1) tcs)"

definition native_tool_calls :: "salv_env \<Rightarrow> (string, string) hmap \<Rightarrow> json list \<Rightarrow> tool_call list" where
  "native_tool_calls w aliases tool_calls = native_calls_from w aliases 0 tool_calls"

fun as_array :: "json \<Rightarrow> json list option" where
  "as_array (JArr xs) = Some xs"
| "as_array _ = None"

definition extract_native_tool_calls :: "json \<Rightarrow> json list" where
  "extract_native_tool_calls owner =
     unwrap_or [] (Option.bind (Option.bind (jget ''message'' owner) (jget ''tool_calls'')) as_array)"

definition recovered_to_calls :: "salvage_result \<Rightarrow> tool_call list" where
  "recovered_to_calls salvage = map call_of_recovered (sr_recovered salvage)"

definition tool_calls_wire :: "tool_call list \<Rightarrow> json list" where
  "tool_calls_wire calls = map (\<lambda>c. JObj [(''id'', JStr (cl_id c)),
     (''function'', JObj [(''name'', JStr (cl_name c)), (''arguments'', cl_args c)])]) calls"

definition extract_assistant_content :: "json \<Rightarrow> string" where
  "extract_assistant_content upstream =
     unwrap_or [] (Option.bind (Option.bind (jget ''message'' upstream) (jget ''content'')) as_str)"

definition emit_unrecognised :: "'w turn_env \<Rightarrow> salvage_result \<Rightarrow> turn_handle \<Rightarrow> turn_handle" where
  "emit_unrecognised v salvage handle = foldl (\<lambda>h u.
     push_tool_event (ToolError (th_turn_id h) (uc_id u) (uc_name u)
       (''model emitted tool call '' @ he_debug (tv_henv v (length (th_tool_events h))) (uc_name u)
         @ '' in content but the name doesn't resolve to a known tool'')
       (Some ToolCallTextUnrecognised) 0) h) handle (sr_unrecognised salvage)"

section \<open>Messages\<close>

definition chat_message :: "string \<Rightarrow> string \<Rightarrow> json" where
  "chat_message role body = JObj [(''role'', JStr role), (''content'', JStr body)]"

definition initial_messages :: "string \<Rightarrow> json list \<Rightarrow> string \<Rightarrow> string \<Rightarrow> json list" where
  "initial_messages base_system_prompt history user_message workspace_slots =
     (let slots = trim workspace_slots;
          user_content = (if slots = [] then user_message
                          else slots @ nl @ nl @ ''### User message'' @ nl @ user_message)
      in [chat_message ''system'' base_system_prompt] @ history @ [chat_message ''user'' user_content])"

definition WORKSPACES_UNAVAILABLE_NOTICE :: string where
  "WORKSPACES_UNAVAILABLE_NOTICE = ''Workspaces unavailable; using base context.''"

definition apply_degraded_notice :: "string \<Rightarrow> bool \<Rightarrow> string" where
  "apply_degraded_notice str degraded =
     (if \<not> degraded then str else if trim str = [] then WORKSPACES_UNAVAILABLE_NOTICE
      else WORKSPACES_UNAVAILABLE_NOTICE @ nl @ nl @ str)"

definition resolve_model :: "json \<Rightarrow> harness_config \<Rightarrow> string" where
  "resolve_model payload cfg = unwrap_or (hc_default_model cfg) (optional_string payload ''model'')"

section \<open>The depth of reasoning\<close>

datatype depth = Fast | Think | ThinkHarder | Ultrathink

definition depth_parse :: "string \<Rightarrow> depth option" where
  "depth_parse s =
     (let t = to_ascii_lowercase (trim s)
      in if t = ''fast'' then Some Fast else if t = ''think'' then Some Think
         else if t = ''think_harder'' \<or> t = ''think-harder'' \<or> t = ''deep'' then Some ThinkHarder
         else if t = ''ultrathink'' then Some Ultrathink else None)"

definition depth_plans :: "depth \<Rightarrow> bool" where
  "depth_plans d \<longleftrightarrow> d \<noteq> Fast"

definition resolve_depth :: "depth \<Rightarrow> json \<Rightarrow> depth" where
  "resolve_depth default_depth payload = unwrap_or default_depth (Option.bind (get_str ''depth'' payload) depth_parse)"

section \<open>The loop of rounds\<close>

text \<open>
  What the turn is given besides its payload: a fresh id, the configured depth, the base prompt, the tools, the
  options of the model and what the gather found; \<open>ti_post_turn\<close> are the hooks after a completed turn.
\<close>

record 'w turn_input =
  ti_fresh_id :: string
  ti_default_depth :: depth
  ti_base_prompt :: string
  ti_tools :: "json list"
  ti_options :: "(string \<times> json) list"
  ti_history :: "json list"
  ti_slots :: string
  ti_steps :: "(step_stage \<times> string \<times> string option) list"
  ti_degraded :: bool
  ti_post_turn :: "string \<Rightarrow> string option \<Rightarrow> string \<Rightarrow> string \<Rightarrow> string \<Rightarrow> 'w hstate \<Rightarrow> 'w hstate"

definition chat_body :: "'w turn_env \<Rightarrow> 'w turn_input \<Rightarrow> string \<Rightarrow> bool \<Rightarrow> json list \<Rightarrow> json" where
  "chat_body v ti model stream messages = JObj
     ([(''model'', JStr model), (''messages'', JArr messages), (''tools'', JArr (ti_tools ti)),
       (''priority'', JInt (hc_default_chat_priority (tv_cfg v))), (''stream'', JBool stream), (''keep_alive'', JStr ''24h'')]
      @ (if ti_options ti = [] then [] else [(''options'', JObj (ti_options ti))]))"

text \<open>How the loop ends: completed, aborted by an error, or neither when its rounds ran out.\<close>

record loop_result =
  lr_final_text :: string
  lr_completed :: bool
  lr_abort :: "(abort_reason \<times> string) option"

text \<open>The calls of a reply, native first, and the state after its unrecognised calls were reported.\<close>

definition decode_reply ::
  "'w turn_env \<Rightarrow> (string, string) hmap \<Rightarrow> string \<Rightarrow> json list \<Rightarrow> turn_handle \<Rightarrow> string \<times> tool_call list \<times> turn_handle" where
  "decode_reply v aliases raw_text native_raw handle =
     (let salvage = extract_tool_calls_from_content (tv_salv v) aliases raw_text
      in (sr_cleaned_text salvage, native_tool_calls (tv_salv v) aliases native_raw @ recovered_to_calls salvage,
          emit_unrecognised v salvage handle))"

definition assistant_message :: "string \<Rightarrow> tool_call list \<Rightarrow> json" where
  "assistant_message cleaned calls = JObj [(''role'', JStr ''assistant''), (''content'', JStr cleaned),
     (''tool_calls'', JArr (tool_calls_wire calls))]"

text \<open>\<open>run_rounds\<close> with \<open>k\<close> of the rounds left.\<close>

fun run_rounds ::
  "'w turn_env \<Rightarrow> 'w turn_input \<Rightarrow> string \<Rightarrow> string \<Rightarrow> nat \<Rightarrow> json list \<Rightarrow> string \<Rightarrow> 'w turn_st
   \<Rightarrow> loop_result \<times> 'w turn_st" where
  "run_rounds v ti model tier 0 messages final_text st =
     (\<lparr>lr_final_text = final_text, lr_completed = False, lr_abort = None\<rparr>, st)"
| "run_rounds v ti model tier (Suc k) messages final_text st =
     (let st1 = st\<lparr>tn_round := (tn_round st)\<lparr>rs_rounds := MAX_TOOL_LOOPS - k\<rparr>\<rparr>
      in case tv_ipc v (hc_ollama_service (tv_cfg v)) ''ollama.chat'' (chat_body v ti model False messages) (tn_world st1) of
        (Inl e, s') \<Rightarrow>
          (\<lparr>lr_final_text = final_text, lr_completed = False,
            lr_abort = Some (AbortError, ie_code e @ '': '' @ ie_message e)\<rparr>, st1\<lparr>tn_world := s'\<rparr>)
      | (Inr upstream, s') \<Rightarrow>
          (case decode_reply v (build_alias_map (tv_cfg v) (tv_reg v)) (extract_assistant_content upstream)
               (extract_native_tool_calls upstream) (tn_handle st1) of
             (cleaned, calls, h) \<Rightarrow>
               (let st2 = st1\<lparr>tn_handle := h, tn_world := s'\<rparr>
                in if calls = [] then (\<lparr>lr_final_text = cleaned, lr_completed = True, lr_abort = None\<rparr>, st2)
                   else case run_calls v tier calls (messages @ [assistant_message cleaned calls]) st2 of
                     (messages1, st3) \<Rightarrow> run_rounds v ti model tier k messages1 cleaned st3)))"

section \<open>The turn\<close>

definition push_steps :: "(step_stage \<times> string \<times> string option) list \<Rightarrow> turn_handle \<Rightarrow> turn_handle" where
  "push_steps steps handle =
     foldl (\<lambda>h (stage, summary, detail). push_turn_event (StepEv (th_turn_id h) stage summary detail) h) handle steps"

definition turn_tier :: "json \<Rightarrow> string" where
  "turn_tier payload = normalise_device_tier (optional_string payload ''device_tier'')"

text \<open>The reply of a turn from what its loop ended with.\<close>

definition turn_reply :: "string \<Rightarrow> string \<Rightarrow> depth \<Rightarrow> bool \<Rightarrow> json list \<Rightarrow> loop_result \<Rightarrow> json" where
  "turn_reply turn_id conversation_id d degraded summary r =
     (let abort = (if \<not> lr_completed r \<and> lr_abort r = None
                   then Some (ToolLoopLimit, ''exceeded '' @ nat_str MAX_TOOL_LOOPS
                                @ '' tool-call iterations without a final response'')
                   else lr_abort r)
      in JObj ([(''turn_id'', JStr turn_id), (''conversation_id'', JStr conversation_id),
                (''final_message'', JStr (apply_degraded_notice (lr_final_text r) degraded)),
                (''tool_calls_summary'', JArr summary), (''aborted'', JBool (abort \<noteq> None)),
                (''abort_reason'', null_none (\<lambda>a. JStr (abort_str (fst a))) abort),
                (''abort_error'', null_none (\<lambda>a. JStr (snd a)) abort)]
               @ (if depth_plans d then [(''depth_ignored'', JBool True)] else [])))"

definition run_turn_loop ::
  "'w turn_env \<Rightarrow> 'w turn_input \<Rightarrow> json \<Rightarrow> string \<Rightarrow> turn_handle \<Rightarrow> 'w hstate \<Rightarrow> loop_result \<times> 'w turn_st" where
  "run_turn_loop v ti payload user_message handle s =
     run_rounds v ti (resolve_model payload (tv_cfg v)) (turn_tier payload) MAX_TOOL_LOOPS
       (initial_messages (ti_base_prompt ti) (ti_history ti) user_message (ti_slots ti)) []
       \<lparr>tn_handle = push_steps (ti_steps ti) handle, tn_round = round_state_new, tn_world = s\<rparr>"

text \<open>
  The handler works on the registry of turns and on the state of the harness. The handle that it registers
  is its own until the end: a cancel meanwhile sets a flag that this driver never reads.
\<close>

definition handle_run_turn ::
  "'w turn_env \<Rightarrow> 'w turn_input \<Rightarrow> json \<Rightarrow> turns \<Rightarrow> 'w hstate \<Rightarrow> reply \<times> turns \<times> 'w hstate" where
  "handle_run_turn v ti payload ts s =
     (case string_field payload ''user_message'' of
        Inl e \<Rightarrow> (Inl e, ts, s)
      | Inr user_message \<Rightarrow>
          (case string_field payload ''conversation_id'' of
             Inl e \<Rightarrow> (Inl e, ts, s)
           | Inr conversation_id \<Rightarrow>
               (let model = resolve_model payload (tv_cfg v) in
                if model = [] then
                  (ipc_err ''bad_request'' ''model is required (none provided and WYLDE_DEFAULT_MODEL is unset)'', ts, s)
                else
                  let turn_id = unwrap_or (ti_fresh_id ti) (optional_string payload ''turn_id'');
                      d = resolve_depth (ti_default_depth ti) payload
                  in case register_turn turn_id conversation_id ts of
                    (a, ts1) \<Rightarrow>
                      (case run_turn_loop v ti payload user_message (tt_heap ts1 ! a) s of
                         (r, st) \<Rightarrow>
                           (let ts2 = remove_turn turn_id (ts1\<lparr>tt_heap := (tt_heap ts1)[a := mark_done (tn_handle st)]\<rparr>);
                                s2 = (if lr_completed r
                                      then ti_post_turn ti conversation_id (optional_string payload ''workspace_id'') model
                                             user_message (lr_final_text r) (tn_world st)
                                      else tn_world st)
                            in (Inr (turn_reply turn_id conversation_id d (ti_degraded ti) (rs_summaries (tn_round st)) r), ts2, s2))))))"

section \<open>The single completion\<close>

definition as_i64 :: "json \<Rightarrow> int option" where
  "as_i64 v = (case v of JInt i \<Rightarrow> if - (2 ^ 63) \<le> i \<and> i < 2 ^ 63 then Some i else None | _ \<Rightarrow> None)"

definition handle_complete :: "'w turn_env \<Rightarrow> 'w turn_input \<Rightarrow> json \<Rightarrow> 'w hstate \<Rightarrow> reply \<times> 'w hstate" where
  "handle_complete v ti payload s =
     (case string_field payload ''prompt'' of
        Inl e \<Rightarrow> (Inl e, s)
      | Inr prompt \<Rightarrow>
          (let model = resolve_model payload (tv_cfg v) in
           if model = [] then
             (ipc_err ''bad_request'' ''model is required (none provided and WYLDE_DEFAULT_MODEL is unset)'', s)
           else
             let options = (case Option.bind (jget ''max_tokens'' payload) as_i64 of
                              Some n \<Rightarrow> if 0 < n then AList.update ''num_predict'' (JInt n) (ti_options ti) else ti_options ti
                            | None \<Rightarrow> ti_options ti);
                 body = JObj ([(''model'', JStr model), (''messages'', JArr [chat_message ''user'' prompt]),
                     (''priority'', JInt (hc_default_chat_priority (tv_cfg v))), (''stream'', JBool False),
                     (''keep_alive'', JStr ''24h'')] @ (if options = [] then [] else [(''options'', JObj options)]))
             in case tv_ipc v (hc_ollama_service (tv_cfg v)) ''ollama.chat'' body s of
               (Inl e, s') \<Rightarrow> (ipc_err ''chat_failed'' (ie_code e @ '': '' @ ie_message e), s')
             | (Inr upstream, s') \<Rightarrow>
                 (let prompt_tokens = unwrap_or 0 (Option.bind (jget ''prompt_eval_count'' upstream) as_u64);
                      completion_tokens = unwrap_or 0 (Option.bind (jget ''eval_count'' upstream) as_u64)
                  in (Inr (JObj [(''text'', JStr (extract_assistant_content upstream)),
                       (''model_used'', JStr (unwrap_or model (optional_string upstream ''model''))),
                       (''tokens_used'', JInt (int (u64_add prompt_tokens completion_tokens))),
                       (''prompt_tokens'', JInt (int prompt_tokens)),
                       (''completion_tokens'', JInt (int completion_tokens))]), s'))))"

end
