(* ===== verification/Chat_Think.thy ===== *)
theory Chat_Think
  imports Prelude
begin

text \<open>
  The splitter that takes the reasoning of a model out of its streamed reply
  (\<open>wylde-harness/src/turn/think_stream.rs\<close>): text between \<open><think>\<close> and \<open></think>\<close> goes to the thinking
  stream, the rest to the answer, and a tail that may begin a marker waits for the next piece. What is
  proved: however the stream is cut into pieces, the result is that of the split of the whole text, and
  text without the opening marker passes unchanged.
\<close>

definition OPEN :: string where
  "OPEN = ''<think>''"

definition CLOSE :: string where
  "CLOSE = ''</think>''"

record think_delta =
  td_answer :: string
  td_thinking :: string

definition delta_is_empty :: "think_delta \<Rightarrow> bool" where
  "delta_is_empty d \<longleftrightarrow> td_answer d = [] \<and> td_thinking d = []"

definition delta_default :: think_delta where
  "delta_default = \<lparr>td_answer = [], td_thinking = []\<rparr>"

record think_splitter =
  ts_in_think :: bool
  ts_hold :: string

definition splitter_new :: think_splitter where
  "splitter_new = \<lparr>ts_in_think = False, ts_hold = []\<rparr>"

definition think_marker :: "bool \<Rightarrow> string" where
  "think_marker in_think = (if in_think then CLOSE else OPEN)"

definition route_text :: "bool \<Rightarrow> string \<Rightarrow> think_delta \<Rightarrow> think_delta" where
  "route_text in_think s d =
     (if s = [] then d
      else if in_think then d\<lparr>td_thinking := td_thinking d @ s\<rparr> else d\<lparr>td_answer := td_answer d @ s\<rparr>)"

text \<open>The loop \<open>for keep in (1..=max).rev()\<close>.\<close>

fun partial_from :: "nat \<Rightarrow> string \<Rightarrow> string \<Rightarrow> nat" where
  "partial_from 0 s marker = 0"
| "partial_from (Suc k) s marker =
     (if is_char_boundary s (length s - Suc k) \<and> starts_with marker (drop (length s - Suc k) s) then Suc k
      else partial_from k s marker)"

definition partial_marker_len :: "string \<Rightarrow> string \<Rightarrow> nat" where
  "partial_marker_len s marker = partial_from (min (length marker - 1) (length s)) s marker"

text \<open>The loop of \<open>push\<close> over what is left of the buffer: the state, what is held back and the delta.\<close>

function push_loop :: "bool \<Rightarrow> string \<Rightarrow> think_delta \<Rightarrow> bool \<times> string \<times> think_delta" where
  "push_loop in_think rest d =
     (let marker = think_marker in_think
      in case find_sub marker rest of
        Some idx \<Rightarrow>
          push_loop (\<not> in_think) (drop (idx + length marker) rest) (route_text in_think (take idx rest) d)
      | None \<Rightarrow>
          (let split = length rest - partial_marker_len rest marker
           in (in_think, drop split rest, route_text in_think (take split rest) d)))"
  by pat_completeness auto
termination
proof (relation "measure (\<lambda>(in_think, rest, d). length rest)")
  fix in_think rest d marker idx
  assume "marker = think_marker in_think" "find_sub marker rest = Some idx"
  then show "((\<not> in_think, drop (idx + length marker) rest, route_text in_think (take idx rest) d), in_think, rest, d)
      \<in> measure (\<lambda>(in_think, rest, d). length rest)"
    using find_sub_bound [of marker rest idx] by (auto simp: think_marker_def OPEN_def CLOSE_def split: if_splits)
qed simp

declare push_loop.simps [simp del]

definition splitter_push :: "string \<Rightarrow> think_splitter \<Rightarrow> think_delta \<times> think_splitter" where
  "splitter_push piece sp =
     (case push_loop (ts_in_think sp) (ts_hold sp @ piece) delta_default of
        (in_think, hold, d) \<Rightarrow> (d, \<lparr>ts_in_think = in_think, ts_hold = hold\<rparr>))"

definition splitter_finish :: "think_splitter \<Rightarrow> think_delta \<times> think_splitter" where
  "splitter_finish sp = (route_text (ts_in_think sp) (ts_hold sp) delta_default, sp\<lparr>ts_hold := []\<rparr>)"

section \<open>The split of a whole text\<close>

text \<open>The deltas of a stream, added up, with the tail at its end.\<close>

definition delta_add :: "think_delta \<Rightarrow> think_delta \<Rightarrow> think_delta" where
  "delta_add a b = \<lparr>td_answer = td_answer a @ td_answer b, td_thinking = td_thinking a @ td_thinking b\<rparr>"

fun split_stream :: "think_splitter \<Rightarrow> string list \<Rightarrow> think_delta" where
  "split_stream sp [] = fst (splitter_finish sp)"
| "split_stream sp (p # ps) = delta_add (fst (splitter_push p sp)) (split_stream (snd (splitter_push p sp)) ps)"

text \<open>The specification: cut the whole text at its markers, alternately opening and closing.\<close>

function split_whole :: "bool \<Rightarrow> string \<Rightarrow> think_delta" where
  "split_whole in_think s =
     (case find_sub (think_marker in_think) s of
        None \<Rightarrow> route_text in_think s delta_default
      | Some i \<Rightarrow> delta_add (route_text in_think (take i s) delta_default)
          (split_whole (\<not> in_think) (drop (i + length (think_marker in_think)) s)))"
  by pat_completeness auto
termination
proof (relation "measure (\<lambda>(in_think, s). length s)")
  fix in_think s i
  assume "find_sub (think_marker in_think) s = Some i"
  then show "((\<not> in_think, drop (i + length (think_marker in_think)) s), in_think, s) \<in> measure (\<lambda>(in_think, s). length s)"
    using find_sub_bound [of "think_marker in_think" s i] by (auto simp: think_marker_def OPEN_def CLOSE_def split: if_splits)
qed simp

declare split_whole.simps [simp del]

section \<open>What is held back\<close>

lemma partial_from_max:
  "1 \<le> k \<Longrightarrow> k \<le> n \<Longrightarrow> is_char_boundary s (length s - k) \<Longrightarrow> starts_with m (drop (length s - k) s) \<Longrightarrow>
     k \<le> partial_from n s m"
  by (induction n s m rule: partial_from.induct) (auto simp: le_Suc_eq)

lemma partial_from_le: "partial_from n s m \<le> n"
  by (induction n s m rule: partial_from.induct) auto

lemma marker_facts: "think_marker b \<noteq> []" "hd (think_marker b) = CHR ''<''" "0 < length (think_marker b)"
  by (simp_all add: think_marker_def OPEN_def CLOSE_def)

lemma held_back:
  assumes "find_sub (think_marker b) s = None" and "j < length s - partial_marker_len s (think_marker b)"
  shows "\<not> starts_with (drop j (s @ tl0)) (think_marker b)"
proof
  let ?m = "think_marker b" and ?t = "drop j s"
  assume occ: "starts_with (drop j (s @ tl0)) ?m"
  have j: "j < length s" using assms(2) by simp
  then have occ': "starts_with (?t @ tl0) ?m" using occ by simp
  have "\<not> starts_with ?t ?m" using assms(1) find_sub_None [OF marker_facts(1)] by blast
  then have short: "length ?t < length ?m"
    using occ' starts_with_append_same [of ?m ?t tl0] by (meson linorder_not_le)
  have "?m = take (length ?m) (?t @ tl0)" using occ' by (simp add: starts_with_def)
  then have t: "take (length ?t) ?m = ?t"
    using short by (metis append_eq_conv_conj less_imp_le_nat min.absorb2 take_take min.commute)
  then have pre: "starts_with ?m ?t" by (simp add: starts_with_def)
  have "s ! j = hd ?t" using j by (simp add: hd_drop_conv_nth)
  also have "\<dots> = CHR ''<''" using t j marker_facts [of b] by (metis Cons_nth_drop_Suc hd_take length_greater_0_conv list.distinct(1))
  finally have "is_char_boundary s j" using j by (simp add: is_char_boundary_def utf8_cont_def)
  then have "length s - j \<le> partial_marker_len s ?m"
    unfolding partial_marker_len_def using j short pre by (intro partial_from_max) auto
  then show False using assms(2) by simp
qed

section \<open>The cut does not matter\<close>

lemma delta_add_assoc: "delta_add (delta_add a b) c = delta_add a (delta_add b c)"
  by (simp add: delta_add_def)

lemma delta_add_default [simp]: "delta_add delta_default a = a" "delta_add a delta_default = a"
  by (simp_all add: delta_add_def delta_default_def)

lemma route_text_acc: "route_text b s d = delta_add d (route_text b s delta_default)"
  by (simp add: route_text_def delta_add_def delta_default_def)

lemma route_text_append:
  "route_text b (s @ t) delta_default = delta_add (route_text b s delta_default) (route_text b t delta_default)"
  by (simp add: route_text_def delta_add_def delta_default_def)

lemma split_whole_cut:
  assumes "k \<le> length s" and "\<forall>j<k. \<not> starts_with (drop j s) (think_marker b)"
  shows "split_whole b s = delta_add (route_text b (take k s) delta_default) (split_whole b (drop k s))"
proof -
  have "take (k + i) s = take k s @ take i (drop k s)" for i by (simp add: take_add)
  then show ?thesis
    using find_sub_shift [OF assms] route_text_append [of b "take k s" "drop k s"]
    by (subst (1 2) split_whole.simps)
      (auto simp: route_text_append delta_add_assoc drop_drop ac_simps split: option.split)
qed

lemma push_loop_whole:
  "push_loop b rest d = (b', h, d') \<Longrightarrow>
     delta_add d (split_whole b (rest @ tl0)) = delta_add d' (split_whole b' (h @ tl0)) \<and> length h < length (think_marker b')"
proof (induction b rest d arbitrary: b' h d' rule: push_loop.induct)
  case (1 b rest d)
  let ?m = "think_marker b"
  show ?case
  proof (cases "find_sub ?m rest")
    case None
    let ?k = "length rest - partial_marker_len rest ?m"
    have eq: "b' = b" "h = drop ?k rest" "d' = route_text b (take ?k rest) d"
      using "1.prems" None by (auto simp: push_loop.simps [of b rest d] Let_def)
    have "split_whole b (rest @ tl0) = delta_add (route_text b (take ?k rest) delta_default) (split_whole b (drop ?k rest @ tl0))"
      using split_whole_cut [of ?k "rest @ tl0" b] held_back [OF None] by simp
    moreover have "partial_marker_len rest ?m \<le> length ?m - 1"
      using partial_from_le [of "min (length ?m - 1) (length rest)" rest ?m] by (simp add: partial_marker_len_def)
    then have "partial_marker_len rest ?m < length ?m"
      using marker_facts(3) [of b] by linarith
    ultimately show ?thesis
      by (simp add: eq route_text_acc [of b _ d] delta_add_assoc)
  next
    case (Some i)
    have run: "push_loop (\<not> b) (drop (i + length ?m) rest) (route_text b (take i rest) d) = (b', h, d')"
      using "1.prems" Some by (simp add: push_loop.simps [of b rest d])
    have "i + length ?m \<le> length rest" using find_sub_bound [OF Some] .
    then have "split_whole b (rest @ tl0) = delta_add (route_text b (take i rest) delta_default)
        (split_whole (\<not> b) (drop (i + length ?m) rest @ tl0))"
      using find_sub_append [OF marker_facts(1) Some, of tl0] by (subst split_whole.simps) simp
    then show ?thesis
      using "1.IH" [OF refl Some run] by (simp add: route_text_acc [of b _ d] delta_add_assoc)
  qed
qed

lemma split_stream_whole:
  "length (ts_hold sp) < length (think_marker (ts_in_think sp)) \<Longrightarrow>
     split_stream sp pieces = split_whole (ts_in_think sp) (ts_hold sp @ concat pieces)"
proof (induction pieces arbitrary: sp)
  case Nil
  then have "find_sub (think_marker (ts_in_think sp)) (ts_hold sp) = None"
    using find_sub_bound by (cases "find_sub (think_marker (ts_in_think sp)) (ts_hold sp)") fastforce+
  then show ?case by (subst split_whole.simps) (simp add: splitter_finish_def)
next
  case (Cons p pieces)
  obtain b' h d' where run: "push_loop (ts_in_think sp) (ts_hold sp @ p) delta_default = (b', h, d')" by (metis prod.exhaust)
  then show ?case
    using push_loop_whole [OF run, of "concat pieces"] Cons.IH [of "\<lparr>ts_in_think = b', ts_hold = h\<rparr>"]
    by (simp add: splitter_push_def)
qed

text \<open>C30: The cut of the stream does not matter: whatever the pieces, also with a marker cut in two, the answer and
  the thinking that the splitter gives out are those of the whole text cut at its markers.
\<close>

theorem split_ignores_chunking: "split_stream splitter_new pieces = split_whole False (concat pieces)"
  using split_stream_whole [of splitter_new pieces] by (simp add: splitter_new_def think_marker_def OPEN_def)

text \<open>A reply without the opening marker passes byte for byte, and nothing is called thinking.\<close>

theorem plain_reply_unchanged:
  assumes "find_sub OPEN (concat pieces) = None"
  shows "split_stream splitter_new pieces = \<lparr>td_answer = concat pieces, td_thinking = []\<rparr>"
  using assms split_stream_whole [of splitter_new pieces]
  by (simp add: splitter_new_def split_whole.simps [of False] think_marker_def route_text_def delta_default_def OPEN_def)

theorem plain_reply_unchanged_witness:
  "split_stream splitter_new [''a <thin'', ''g> b''] = \<lparr>td_answer = ''a <thing> b'', td_thinking = []\<rparr>"
  by (subst plain_reply_unchanged) (simp_all add: OPEN_def starts_with_def)

end
