(* ===== verification/Chat_Stream.thy ===== *)
theory Chat_Stream
  imports Chat_Turn Chat_Think
begin

text \<open>
  The streaming driver \<open>drive_streaming_turn\<close> (\<open>wylde-harness/src/turn/actions.rs\<close>) with the
  reasoning tier switched off, its default: planning, reflection and escalation then do nothing. A stream is the
  list of items that the loop over it takes, a cancel among them. \<open>dv_cancelled n\<close> is the flag when \<open>n\<close>
  events of either kind were pushed: the driver pushes one between any two looks at it.
\<close>

datatype stream_item = Chunk json | StreamErr ipc_error | CancelNotified

datatype stream_end = StreamClosed | StreamFailed string | StreamCancelled

record 'w stream_env =
  dv_env :: "'w turn_env"
  dv_stream :: "string \<Rightarrow> string \<Rightarrow> json \<Rightarrow> 'w hstate \<Rightarrow> stream_item list \<times> 'w hstate"
  dv_cancelled :: "nat \<Rightarrow> bool"

definition n_events :: "turn_handle \<Rightarrow> nat" where
  "n_events h = length (th_turn_events h) + length (th_tool_events h)"

definition USAGE_TICK_EVERY :: nat where "USAGE_TICK_EVERY = 16"

section \<open>Chunks\<close>

definition extract_chunk_content :: "json \<Rightarrow> string option" where
  "extract_chunk_content chunk = Option.bind (Option.bind (jget ''message'' chunk) (jget ''content'')) as_str"

definition extract_chunk_thinking :: "json \<Rightarrow> string option" where
  "extract_chunk_thinking chunk =
     (case Option.bind (Option.bind (jget ''message'' chunk) (jget ''thinking'')) as_str of
        Some s \<Rightarrow> if s = [] then None else Some s | None \<Rightarrow> None)"

text \<open>What a round keeps while it reads its stream.\<close>

record stream_acc =
  ra_handle :: turn_handle
  ra_splitter :: think_splitter
  ra_answer :: string
  ra_native :: "json list"
  ra_frames :: nat
  ra_emitted :: nat
  ra_prompt :: "nat option"
  ra_completion :: "nat option"

definition stream_acc_new :: "turn_handle \<Rightarrow> stream_acc" where
  "stream_acc_new h = \<lparr>ra_handle = h, ra_splitter = splitter_new, ra_answer = [], ra_native = [], ra_frames = 0,
     ra_emitted = 0, ra_prompt = None, ra_completion = None\<rparr>"

definition push_thinking :: "string \<Rightarrow> turn_handle \<Rightarrow> turn_handle" where
  "push_thinking s h = (if s = [] then h else push_turn_event (Thinking (th_turn_id h) s) h)"

definition on_content :: "string option \<Rightarrow> stream_acc \<Rightarrow> stream_acc" where
  "on_content content a =
     (case content of
        None \<Rightarrow> a
      | Some piece \<Rightarrow>
          (case splitter_push piece (ra_splitter a) of
             (split, sp) \<Rightarrow> a\<lparr>ra_frames := (if piece = [] then ra_frames a else ra_frames a + 1), ra_splitter := sp,
                ra_answer := ra_answer a @ td_answer split, ra_handle := push_thinking (td_thinking split) (ra_handle a)\<rparr>))"

definition on_counts :: "json \<Rightarrow> stream_acc \<Rightarrow> stream_acc" where
  "on_counts chunk a = a\<lparr>ra_native := ra_native a @ extract_native_tool_calls chunk,
     ra_prompt := or_else (Option.bind (jget ''prompt_eval_count'' chunk) as_u64) (ra_prompt a),
     ra_completion := or_else (Option.bind (jget ''eval_count'' chunk) as_u64) (ra_completion a)\<rparr>"

definition on_tick :: "nat \<Rightarrow> nat \<Rightarrow> stream_acc \<Rightarrow> stream_acc" where
  "on_tick turn_prompt turn_completion a =
     (if USAGE_TICK_EVERY \<le> ra_frames a - ra_emitted a then
        a\<lparr>ra_emitted := ra_frames a, ra_handle := push_turn_event (Usage (th_turn_id (ra_handle a))
           (map_option (u64_add turn_prompt) (ra_prompt a)) (u64_add turn_completion (ra_frames a)) False) (ra_handle a)\<rparr>
      else a)"

definition on_chunk :: "nat \<Rightarrow> nat \<Rightarrow> json \<Rightarrow> stream_acc \<Rightarrow> stream_acc" where
  "on_chunk turn_prompt turn_completion chunk a =
     (let a1 = on_content (extract_chunk_content chunk) a;
          a2 = a1\<lparr>ra_handle := push_thinking (unwrap_or [] (extract_chunk_thinking chunk)) (ra_handle a1)\<rparr>
      in on_tick turn_prompt turn_completion (on_counts chunk a2))"

fun read_stream :: "nat \<Rightarrow> nat \<Rightarrow> stream_item list \<Rightarrow> stream_acc \<Rightarrow> stream_end \<times> stream_acc" where
  "read_stream tp tc [] a = (StreamClosed, a)"
| "read_stream tp tc (Chunk chunk # items) a = read_stream tp tc items (on_chunk tp tc chunk a)"
| "read_stream tp tc (StreamErr e # items) a = (StreamFailed (ie_code e @ '': '' @ ie_message e), a)"
| "read_stream tp tc (CancelNotified # items) a = (StreamCancelled, a)"

text \<open>After the stream: the bytes that the splitter held back.\<close>

definition flush_splitter :: "stream_acc \<Rightarrow> stream_acc" where
  "flush_splitter a =
     (case splitter_finish (ra_splitter a) of
        (tail, sp) \<Rightarrow> a\<lparr>ra_splitter := sp, ra_answer := ra_answer a @ td_answer tail,
                          ra_handle := push_thinking (td_thinking tail) (ra_handle a)\<rparr>)"

section \<open>The end of a turn\<close>

definition emit_aborted :: "abort_reason \<Rightarrow> string option \<Rightarrow> turn_handle \<Rightarrow> turn_handle" where
  "emit_aborted reason error h = push_turn_event (TurnAborted (th_turn_id h) reason error) h"

definition emit_final_usage :: "nat \<Rightarrow> nat \<Rightarrow> turn_handle \<Rightarrow> turn_handle" where
  "emit_final_usage prompt_tokens completion_tokens h =
     (if prompt_tokens = 0 \<and> completion_tokens = 0 then h
      else push_turn_event (Usage (th_turn_id h) (if 0 < prompt_tokens then Some prompt_tokens else None) completion_tokens True) h)"

definition push_token :: "string \<Rightarrow> turn_handle \<Rightarrow> turn_handle" where
  "push_token s h = (if s = [] then h else push_turn_event (Token (th_turn_id h) s) h)"

definition abort_turn :: "abort_reason \<Rightarrow> string option \<Rightarrow> 'w turn_st \<Rightarrow> 'w turn_st" where
  "abort_turn reason error st = st\<lparr>tn_handle := mark_done (emit_aborted reason error (tn_handle st))\<rparr>"

definition complete_turn :: "string \<Rightarrow> nat \<Rightarrow> nat \<Rightarrow> turn_handle \<Rightarrow> turn_handle" where
  "complete_turn final_text prompt_tokens completion_tokens h =
     (let h1 = emit_final_usage prompt_tokens completion_tokens (push_token final_text h)
      in mark_done (push_turn_event (TurnComplete (th_turn_id h1) final_text) h1))"

section \<open>The rounds\<close>

text \<open>The calls of a round, with a look at the flag before each; \<open>True\<close> when the turn was cancelled.\<close>

fun stream_calls ::
  "'w stream_env \<Rightarrow> string \<Rightarrow> tool_call list \<Rightarrow> json list \<Rightarrow> 'w turn_st \<Rightarrow> bool \<times> json list \<times> 'w turn_st" where
  "stream_calls d tier [] messages st = (False, messages, st)"
| "stream_calls d tier (call # calls) messages st =
     (if dv_cancelled d (n_events (tn_handle st)) then (True, messages, st)
      else case dedupe_and_maybe_emit (dv_env d) call st of
        (True, st1) \<Rightarrow> stream_calls d tier calls messages st1
      | (False, st1) \<Rightarrow>
          (case run_one_tool (dv_env d) tier call st1 of
             (msg, st2) \<Rightarrow> stream_calls d tier calls (messages @ [msg]) st2))"

record 'w stream_req =
  sq_input :: "'w turn_input"
  sq_conversation_id :: string
  sq_workspace_id :: "string option"
  sq_model :: string
  sq_user_message :: string
  sq_tier :: string

definition post_turn :: "'w stream_req \<Rightarrow> string \<Rightarrow> 'w hstate \<Rightarrow> 'w hstate" where
  "post_turn q final_text s =
     ti_post_turn (sq_input q) (sq_conversation_id q) (sq_workspace_id q) (sq_model q) (sq_user_message q) final_text s"

text \<open>What follows a stream that ended well: the answer is complete, or its calls are dispatched.\<close>

datatype 'w round_end = TurnOver "'w turn_st" | NextRound "json list" "'w turn_st"

definition after_stream ::
  "'w stream_env \<Rightarrow> 'w stream_req \<Rightarrow> nat \<Rightarrow> nat \<Rightarrow> json list \<Rightarrow> stream_acc \<Rightarrow> 'w turn_st \<Rightarrow> 'w round_end" where
  "after_stream d q tp tc messages a st =
     (case decode_reply (dv_env d) (build_alias_map (tv_cfg (dv_env d)) (tv_reg (dv_env d))) (ra_answer a) (ra_native a) (tn_handle st) of
        (final_text, calls, h) \<Rightarrow>
          (if calls = [] then
             TurnOver (st\<lparr>tn_handle := complete_turn (apply_degraded_notice final_text (ti_degraded (sq_input q))) tp tc h,
                          tn_world := post_turn q final_text (tn_world st)\<rparr>)
           else
             let h1 = push_token final_text (push_turn_event (Phase (th_turn_id h) RunningTools) h)
             in case stream_calls d (sq_tier q) calls (messages @ [assistant_message final_text calls]) (st\<lparr>tn_handle := h1\<rparr>) of
               (True, _, st1) \<Rightarrow> TurnOver (abort_turn Cancelled None st1)
             | (False, messages1, st1) \<Rightarrow> NextRound messages1 st1))"

fun stream_rounds ::
  "'w stream_env \<Rightarrow> 'w stream_req \<Rightarrow> nat \<Rightarrow> json list \<Rightarrow> nat \<Rightarrow> nat \<Rightarrow> 'w turn_st \<Rightarrow> 'w turn_st" where
  "stream_rounds d q 0 messages tp tc st =
     abort_turn ToolLoopLimit (Some (''exceeded '' @ nat_str MAX_TOOL_LOOPS
       @ '' tool-call iterations without a final response'')) st"
| "stream_rounds d q (Suc k) messages tp tc st =
     (let st1 = st\<lparr>tn_round := (tn_round st)\<lparr>rs_rounds := MAX_TOOL_LOOPS - k\<rparr>\<rparr>
      in if dv_cancelled d (n_events (tn_handle st1)) then abort_turn Cancelled None st1
         else
           let h = push_turn_event (Phase (th_turn_id (tn_handle st1)) Generating) (tn_handle st1);
               body = chat_body (dv_env d) (sq_input q) (sq_model q) True messages
           in case dv_stream d (hc_ollama_service (tv_cfg (dv_env d))) ''ollama.chat_stream'' body (tn_world st1) of
             (items, s') \<Rightarrow>
               (case read_stream tp tc items (stream_acc_new h) of
                  (how, a0) \<Rightarrow>
                    (let a = flush_splitter a0;
                         tp' = u64_add tp (unwrap_or 0 (ra_prompt a));
                         tc' = u64_add tc (unwrap_or (ra_frames a) (ra_completion a));
                         st2 = st1\<lparr>tn_handle := ra_handle a, tn_world := s'\<rparr>
                     in if how = StreamCancelled \<or> dv_cancelled d (n_events (ra_handle a)) then abort_turn Cancelled None st2
                        else case how of
                          StreamFailed err \<Rightarrow> abort_turn AbortError (Some err) st2
                        | _ \<Rightarrow>
                            (case after_stream d q tp' tc' messages a st2 of
                               TurnOver st3 \<Rightarrow> st3
                             | NextRound messages1 st3 \<Rightarrow> stream_rounds d q k messages1 tp' tc' st3))))"

definition drive_streaming_turn :: "'w stream_env \<Rightarrow> 'w stream_req \<Rightarrow> turn_handle \<Rightarrow> 'w hstate \<Rightarrow> 'w turn_st" where
  "drive_streaming_turn d q handle s =
     (let h = push_steps (ti_steps (sq_input q)) (push_turn_event (Phase (th_turn_id handle) GatheringContext) handle)
      in stream_rounds d q MAX_TOOL_LOOPS
           (initial_messages (ti_base_prompt (sq_input q)) (ti_history (sq_input q)) (sq_user_message q) (ti_slots (sq_input q)))
           0 0 \<lparr>tn_handle = h, tn_round = round_state_new, tn_world = s\<rparr>)"

text \<open>The action that starts it: the reply, and the turn that the spawned task drives.\<close>

definition handle_start_turn ::
  "'w turn_env \<Rightarrow> 'w turn_input \<Rightarrow> json \<Rightarrow> turns \<Rightarrow> reply \<times> turns \<times> (nat \<times> 'w stream_req) option" where
  "handle_start_turn v ti payload ts =
     (case string_field payload ''user_message'' of
        Inl e \<Rightarrow> (Inl e, ts, None)
      | Inr user_message \<Rightarrow>
          (case string_field payload ''conversation_id'' of
             Inl e \<Rightarrow> (Inl e, ts, None)
           | Inr conversation_id \<Rightarrow>
               (let model = resolve_model payload (tv_cfg v) in
                if model = [] then
                  (ipc_err ''bad_request'' ''model is required (none provided and WYLDE_DEFAULT_MODEL is unset)'', ts, None)
                else
                  let turn_id = unwrap_or (ti_fresh_id ti) (optional_string payload ''turn_id'')
                  in case register_turn turn_id conversation_id ts of
                    (a, ts1) \<Rightarrow>
                      (Inr (JObj [(''turn_id'', JStr turn_id), (''conversation_id'', JStr conversation_id)]), ts1,
                       Some (a, \<lparr>sq_input = ti, sq_conversation_id = conversation_id,
                          sq_workspace_id = optional_string payload ''workspace_id'', sq_model = model,
                          sq_user_message = user_message, sq_tier = turn_tier payload\<rparr>)))))"

end
