(* ===== verification/Chat_Salvage_Correct.thy ===== *)
theory Chat_Salvage_Correct
  imports Chat_Salvage
begin

text \<open>
  What the salvage of tool calls guarantees: the spans it looks at, the calls it returns, the text it
  leaves and the key that tells calls apart.
\<close>

section \<open>The scan for braces\<close>

text \<open>The braces outside string literals.\<close>

fun outside :: "bool \<Rightarrow> bool \<Rightarrow> string \<Rightarrow> string" where
  "outside in_str esc [] = []"
| "outside in_str esc (c # s) =
     (if in_str then
        (if esc then outside True False s
         else if c = CHR 0x5C then outside True True s
         else if c = CHR 0x22 then outside False False s else outside True False s)
      else if c = CHR 0x22 then outside True False s
      else if c = CHR ''{'' \<or> c = CHR ''}'' then c # outside False False s
      else outside False False s)"

inductive balanced :: "string \<Rightarrow> bool" where
  empty: "balanced []"
| wrap: "balanced u \<Longrightarrow> balanced v \<Longrightarrow> balanced (CHR ''{'' # u @ CHR ''}'' # v)"

text \<open>An object: outside its strings, one pair of braces around balanced ones.\<close>

definition brace_object :: "string \<Rightarrow> bool" where
  "brace_object s \<longleftrightarrow> (\<exists>u. balanced u \<and> outside False False s = CHR ''{'' # u @ [CHR ''}''])"

text \<open>The same by counting: the word closes \<open>n\<close> open braces, the last one with its last brace.\<close>

fun closes :: "nat \<Rightarrow> string \<Rightarrow> bool" where
  "closes 0 x = (x = [])"
| "closes (Suc n) [] = False"
| "closes (Suc n) (c # x) =
     (if c = CHR ''{'' then closes (Suc (Suc n)) x else if c = CHR ''}'' then closes n x else False)"

lemma closes_levels:
  "closes n x \<Longrightarrow> \<exists>us. length us = n \<and> list_all balanced us \<and> x = concat (map (\<lambda>u. u @ [CHR ''}'']) us)"
proof (induction n x rule: closes.induct)
  case (3 n c x)
  show ?case
  proof (cases "c = CHR ''{''")
    case True
    then obtain us where us: "length us = Suc (Suc n)" "list_all balanced us" "x = concat (map (\<lambda>u. u @ [CHR ''}'']) us)"
      using 3 by auto
    then obtain u v vs where "us = u # v # vs" by (metis length_Suc_conv)
    then show ?thesis
      using us True balanced.wrap [of u v] by (intro exI [of _ "(CHR ''{'' # u @ CHR ''}'' # v) # vs"]) auto
  next
    case False
    then obtain us where "c = CHR ''}''" "length us = n" "list_all balanced us" "x = concat (map (\<lambda>u. u @ [CHR ''}'']) us)"
      using 3 by (auto split: if_splits)
    then show ?thesis by (intro exI [of _ "[] # us"]) (simp add: balanced.empty)
  qed
qed auto

lemma balanced_closes: "balanced u \<Longrightarrow> closes (Suc n) (u @ x) = closes (Suc n) x"
  by (induction arbitrary: n x rule: balanced.induct) auto

lemma brace_object_closes: "brace_object s \<longleftrightarrow> (\<exists>x. outside False False s = CHR ''{'' # x \<and> closes 1 x)"
proof
  assume "brace_object s"
  then show "\<exists>x. outside False False s = CHR ''{'' # x \<and> closes 1 x"
    by (auto simp: brace_object_def balanced_closes)
next
  assume "\<exists>x. outside False False s = CHR ''{'' # x \<and> closes 1 x"
  then obtain x us where "outside False False s = CHR ''{'' # x" "length us = 1" "list_all balanced us"
    "x = concat (map (\<lambda>u. u @ [CHR ''}'']) us)"
    using closes_levels by blast
  then show "brace_object s"
    by (cases us) (auto simp: brace_object_def)
qed

lemma nat_depth: "0 < depth \<Longrightarrow> nat (depth + 1) = Suc (nat depth)" "0 < depth \<Longrightarrow> nat depth = Suc (nat (depth - 1))"
  by simp_all

lemma brace_close_some:
  "brace_close s depth in_str esc j = Some e \<Longrightarrow> 0 < depth \<Longrightarrow> in_str \<or> \<not> esc \<Longrightarrow>
     closes (nat depth) (outside in_str esc (take (e - j) s))"
proof (induction s depth in_str esc j rule: brace_close.induct)
  case (2 c s depth in_str esc j)
  have "e - j = Suc (e - (j + 1))"
    using brace_close_bounds [OF "2.prems"(1)] by (simp add: Suc_diff_Suc)
  then show ?case
    using 2 by (auto simp: nat_depth split: if_splits)
qed simp

lemma brace_close_none:
  "brace_close s depth in_str esc j = None \<Longrightarrow> 0 < depth \<Longrightarrow> in_str \<or> \<not> esc \<Longrightarrow>
     \<not> closes (nat depth) (outside in_str esc (take k s))"
proof (induction s depth in_str esc j arbitrary: k rule: brace_close.induct)
  case (1 depth in_str esc j)
  then show ?case by (simp add: nat_depth(2))
next
  case (2 c s depth in_str esc j)
  then show ?case
    by (cases k) (auto simp: nat_depth split: if_splits)
qed

text \<open>Where the scan stands: the object that starts here, when it is closed at all.\<close>

lemma scan_here:
  assumes "i < length str" and "str ! i = CHR ''{''"
  shows "brace_close (drop i str) 0 False False i = Some e \<Longrightarrow> brace_object (take (e - i) (drop i str))"
    and "brace_close (drop i str) 0 False False i = None \<Longrightarrow> \<not> brace_object (take k (drop i str))"
proof -
  obtain s where s: "drop i str = CHR ''{'' # s" by (metis Cons_nth_drop_Suc assms)
  show "brace_object (take (e - i) (drop i str))" if "brace_close (drop i str) 0 False False i = Some e"
  proof -
    have "brace_close s 1 False False (i + 1) = Some e" using that by (simp add: s)
    moreover from brace_close_bounds [OF this] have "e - i = Suc (e - (i + 1))" by (simp add: Suc_diff_Suc)
    ultimately show ?thesis using brace_close_some [of s 1 False False "i + 1" e] by (simp add: s brace_object_closes)
  qed
  show "\<not> brace_object (take k (drop i str))" if "brace_close (drop i str) 0 False False i = None"
    using that brace_close_none [of s 1 False False "i + 1"]
    by (cases k) (auto simp: s brace_object_closes)
qed

lemma brace_close_last:
  "brace_close s depth in_str esc j = Some e \<Longrightarrow> s ! (e - j - 1) = CHR ''}''"
proof (induction s depth in_str esc j rule: brace_close.induct)
  case (2 c s depth in_str esc j)
  show ?case
  proof (cases "e = j + 1")
    case True
    have "j + 1 < e" if "brace_close s d a b (j + 1) = Some e" for d a b
      using brace_close_bounds [OF that] by simp
    then show ?thesis using 2 True by (auto split: if_splits)
  next
    case False
    have "e - j - 1 = Suc (e - (j + 1) - 1)"
      using False brace_close_bounds [OF "2.prems"(1)] by linarith
    then show ?thesis using 2 False by (auto split: if_splits)
  qed
qed simp

lemma find_braces_step:
  assumes "i < length str"
  shows "str ! i \<noteq> CHR ''{'' \<Longrightarrow> find_braces_from str i = find_braces_from str (i + 1)"
    and "str ! i = CHR ''{'' \<Longrightarrow> brace_close (drop i str) 0 False False i = None \<Longrightarrow> find_braces_from str i = []"
    and "str ! i = CHR ''{'' \<Longrightarrow> brace_close (drop i str) 0 False False i = Some e \<Longrightarrow>
      find_braces_from str i = (i, e) # find_braces_from str e"
  using assms by (subst find_braces_from.simps, simp)+

lemma find_braces_end: "length str \<le> i \<Longrightarrow> find_braces_from str i = []"
  by (subst find_braces_from.simps) simp

lemma find_braces_cases:
  obtains (past) "length str \<le> i"
    | (other) "i < length str" "str ! i \<noteq> CHR ''{''"
    | (stuck) "i < length str" "str ! i = CHR ''{''" "brace_close (drop i str) 0 False False i = None"
    | (closed) e where "i < length str" "str ! i = CHR ''{''" "brace_close (drop i str) 0 False False i = Some e"
      "i < e" "e \<le> length str" "str ! (e - 1) = CHR ''}''"
proof -
  have "i < e \<and> e \<le> length str \<and> str ! (e - 1) = CHR ''}''"
    if "brace_close (drop i str) 0 False False i = Some e" "i < length str" for e
    using brace_close_bounds [OF that(1)] brace_close_last [OF that(1)] that(2) by (auto simp: Suc_diff_Suc)
  then show thesis using that by (metis linorder_not_le not_Some_eq)
qed

lemma find_braces_spans:
  "(s, e) \<in> set (find_braces_from str i) \<Longrightarrow> i \<le> s \<and> s < e \<and> e \<le> length str
      \<and> str ! s = CHR ''{'' \<and> str ! (e - 1) = CHR ''}'' \<and> brace_object (take (e - s) (drop s str))"
proof (induction str i rule: find_braces_from.induct)
  case (1 str i)
  show ?case
  proof (cases rule: find_braces_cases [of str i])
    case past
    then show ?thesis using 1 by (simp add: find_braces_end)
  next
    case other
    then show ?thesis using 1 by (simp add: find_braces_step(1))
  next
    case stuck
    then show ?thesis using 1 by (simp add: find_braces_step(2))
  next
    case (closed e')
    then show ?thesis using 1 scan_here(1) [OF closed(1-3)] by (auto simp: find_braces_step(3))
  qed
qed

lemma find_braces_sorted: "sorted_wrt (\<lambda>p q. snd p \<le> fst q) (find_braces_from str i)"
proof (induction str i rule: find_braces_from.induct)
  case (1 str i)
  show ?case
  proof (cases rule: find_braces_cases [of str i])
    case (closed e')
    then show ?thesis using 1 by (auto simp: find_braces_step(3) dest: find_braces_spans)
  qed (use 1 in \<open>simp_all add: find_braces_end find_braces_step(1,2)\<close>)
qed

lemma find_braces_complete:
  "i \<le> l \<Longrightarrow> l < length str \<Longrightarrow> str ! l = CHR ''{'' \<Longrightarrow>
     (\<exists>(s, e) \<in> set (find_braces_from str i). s \<le> l \<and> l < e)
   \<or> (\<exists>b \<le> l. i \<le> b \<and> str ! b = CHR ''{'' \<and> (\<forall>k. \<not> brace_object (take k (drop b str)))
         \<and> (\<forall>(s, e) \<in> set (find_braces_from str i). e \<le> b))"
proof (induction str i rule: find_braces_from.induct)
  case (1 str i)
  show ?case
  proof (cases rule: find_braces_cases [of str i])
    case past
    then show ?thesis using 1 by simp
  next
    case other
    then have "i + 1 \<le> l" using "1.prems" by (metis Suc_eq_plus1 le_antisym not_less_eq_eq)
    then show ?thesis
      using "1.IH"(1) [OF _ other(2) _ "1.prems"(2,3)] other by (auto simp: find_braces_step(1) dest: Suc_leD)
  next
    case stuck
    then show ?thesis using scan_here(2) [OF stuck] "1.prems" by (auto simp: find_braces_step(2))
  next
    case (closed e')
    show ?thesis
    proof (cases "l < e'")
      case True
      then show ?thesis using closed "1.prems" by (auto simp: find_braces_step(3))
    next
      case False
      have "e' \<le> b \<Longrightarrow> i \<le> b" for b using closed by simp
      then show ?thesis
        using "1.IH"(2) [OF _ _ closed(3) _ "1.prems"(2,3)] False closed by (auto simp: find_braces_step(3))
    qed
  qed
qed

text \<open>C35: The scan finds exactly the top-level objects: the spans come in order and do not overlap, each is one object from
  its opening to its closing brace, with braces in string literals left out of the count, and every opening brace
  of the text lies in a span, or from some brace before it on the text holds no object at all: that
  brace is never closed, and the scan ends there.
\<close>

theorem braces_are_top_level_objects:
  "(\<forall>(s, e) \<in> set (find_balanced_braces str). s < e \<and> e \<le> length str
      \<and> str ! s = CHR ''{'' \<and> str ! (e - 1) = CHR ''}'' \<and> brace_object (take (e - s) (drop s str)))
   \<and> sorted_wrt (\<lambda>p q. snd p \<le> fst q) (find_balanced_braces str)
   \<and> (\<forall>l < length str. str ! l = CHR ''{'' \<longrightarrow>
        (\<exists>(s, e) \<in> set (find_balanced_braces str). s \<le> l \<and> l < e)
      \<or> (\<exists>b \<le> l. str ! b = CHR ''{'' \<and> (\<forall>k. \<not> brace_object (take k (drop b str)))
            \<and> (\<forall>(s, e) \<in> set (find_balanced_braces str). e \<le> b)))"
  using find_braces_spans [of _ _ str 0] find_braces_sorted [of str 0] find_braces_complete [of 0 _ str]
  by (auto simp: find_balanced_braces_def)

theorem braces_are_top_level_objects_witness:
  "\<exists>(s, e) \<in> set (find_balanced_braces ''a{1}''). s \<le> 1 \<and> 1 < e"
proof -
  have obj: "brace_object (take 3 (drop 1 ''a{1}''))" by (simp add: brace_object_def balanced.empty numeral_3_eq_3)
  have "b = 1" if "b \<le> 1" "''a{1}'' ! b = CHR ''{''" for b :: nat
    using that by (cases b) auto
  then have "\<not> (\<exists>b \<le> 1. ''a{1}'' ! b = CHR ''{'' \<and> (\<forall>k. \<not> brace_object (take k (drop b ''a{1}''))) \<and> Q b)" for Q
    using obj by blast
  then show ?thesis
    using braces_are_top_level_objects [of "''a{1}''", THEN conjunct2, THEN conjunct2, rule_format, of 1] by auto
qed

text \<open>One brace that is never closed hides every object behind it.\<close>

theorem unclosed_brace_hides_calls: "find_balanced_braces ''{ {}'' = [] \<and> find_balanced_braces ''{}'' = [(0, 2)]"
  by (simp add: find_balanced_braces_def find_braces_from.simps)


section \<open>The calls\<close>

text \<open>What every call satisfies: the parameters are an object, and the alias map knows its name or does not.\<close>

definition recovered_ok :: "(string, string) hmap \<Rightarrow> recovered_call \<Rightarrow> bool" where
  "recovered_ok aliases c \<longleftrightarrow>
     rc_raw_name c \<noteq> [] \<and> hm_get aliases (rc_raw_name c) = Some (rc_name c) \<and> is_obj (rc_args c)"

definition unrecognised_ok :: "(string, string) hmap \<Rightarrow> unrecognised_call \<Rightarrow> bool" where
  "unrecognised_ok aliases c \<longleftrightarrow> uc_name c \<noteq> [] \<and> hm_get aliases (uc_name c) = None \<and> is_obj (uc_args c)"

definition call_count :: "salv_acc \<Rightarrow> nat" where
  "call_count a = length (sa_recovered a) + length (sa_unrecognised a)"

definition text_id :: "nat \<Rightarrow> string" where
  "text_id n = ''call_text_'' @ nat_str n"

definition acc_ids :: "salv_acc \<Rightarrow> string list" where
  "acc_ids a = map rc_id (sa_recovered a) @ map uc_id (sa_unrecognised a)"

definition acc_ok :: "(string, string) hmap \<Rightarrow> salv_acc \<Rightarrow> bool" where
  "acc_ok aliases a \<longleftrightarrow>
     list_all (recovered_ok aliases) (sa_recovered a) \<and> list_all (unrecognised_ok aliases) (sa_unrecognised a)
     \<and> sa_seq a = word_of_nat (call_count a)
     \<and> (call_count a < 2 ^ 32 \<longrightarrow> set (acc_ids a) = text_id ` {1..call_count a} \<and> distinct (acc_ids a))"

lemma coerce_args_obj: "is_obj (coerce_args w v)"
  by (simp add: coerce_args_def split: sum.split)
    (auto split: json.splits option.splits)

lemma parse_one_call_ok: "parse_one_call w v = Some (name, args) \<Longrightarrow> name \<noteq> [] \<and> is_obj args"
  by (auto simp: parse_one_call_def Let_def coerce_args_obj split: if_splits option.splits)

lemma unwrap_single_key_ok: "unwrap_single_key w aliases v = Some (name, args) \<Longrightarrow> name \<noteq> [] \<and> is_obj args"
  by (auto simp: unwrap_single_key_def dest: parse_one_call_ok split: json.splits list.splits prod.splits option.splits if_splits)

lemma consume_shape:
  "or_else (parse_one_call w v) (unwrap_single_key w aliases v) = Some (name, args) \<Longrightarrow> name \<noteq> [] \<and> is_obj args"
  by (auto simp: or_else_def dest: parse_one_call_ok unwrap_single_key_ok split: option.splits)

text \<open>Whatever one call keeps, the whole extraction keeps.\<close>

lemma replace_matches_keeps:
  assumes "\<And>body a. P a \<Longrightarrow> P (snd (f body a))"
  shows "P a \<Longrightarrow> P (snd (replace_matches str f ms prev a))"
proof (induction ms arbitrary: prev a)
  case (Cons m ms)
  then show ?case
    using assms [of a "snd (snd m)"] by (cases m) (simp add: split_def)
qed simp

lemma try_body_keeps:
  "(\<And>v a. P a \<Longrightarrow> P (snd (consume w aliases v a))) \<Longrightarrow> P a \<Longrightarrow> P (snd (try_body w aliases body a))"
  by (simp add: try_body_def split_def split: option.split)

lemma tag_pass_keeps:
  assumes "\<And>v a. P a \<Longrightarrow> P (snd (consume w aliases v a))"
  shows "P a \<Longrightarrow> P (snd (tag_pass w aliases ps working a))"
proof (induction ps arbitrary: working a)
  case (Cons p ps)
  then show ?case
    by (simp add: split_def replace_regex_def replace_matches_keeps try_body_keeps assms)
qed simp

lemma bare_pass_keeps:
  assumes "\<And>v a. P a \<Longrightarrow> P (snd (consume w aliases v a))"
  shows "P a \<Longrightarrow> P (snd (bare_pass w aliases working spans a))"
proof (induction spans arbitrary: a)
  case (Cons p spans)
  then show ?case
    using assms by (cases p) (simp add: split_def split: option.split json.split)
qed simp

definition acc_empty :: salv_acc where
  "acc_empty = \<lparr>sa_recovered = [], sa_unrecognised = [], sa_seq = 0\<rparr>"

text \<open>The accumulator at the end of the three passes.\<close>

definition acc_final :: "salv_env \<Rightarrow> (string, string) hmap \<Rightarrow> string \<Rightarrow> salv_acc" where
  "acc_final w aliases str =
     (let s1 = replace_regex w str FencedRe (try_body w aliases) acc_empty;
          s2 = tag_pass w aliases tag_patterns (fst s1) (snd s1)
      in snd (bare_pass w aliases (fst s2) (find_balanced_braces (fst s2)) (snd s2)))"

lemma extract_keeps:
  assumes "\<And>v a. P a \<Longrightarrow> P (snd (consume w aliases v a))" and "P acc_empty"
  shows "P (acc_final w aliases str)"
proof -
  note body = try_body_keeps [of P, OF assms(1)]
  have fenced: "P (snd (replace_regex w str FencedRe (try_body w aliases) acc_empty))"
    unfolding replace_regex_def by (rule replace_matches_keeps [of P, OF body assms(2)])
  show ?thesis
    unfolding acc_final_def Let_def
    by (rule bare_pass_keeps [of P, OF assms(1)], assumption, rule tag_pass_keeps [of P, OF assms(1)], assumption, rule fenced)
qed

lemma extract_final:
  assumes "str \<noteq> []"
  shows "sr_recovered (extract_tool_calls_from_content w aliases str) = sa_recovered (acc_final w aliases str)"
    and "sr_unrecognised (extract_tool_calls_from_content w aliases str) = sa_unrecognised (acc_final w aliases str)"
  using assms by (simp_all add: extract_tool_calls_from_content_def acc_final_def acc_empty_def Let_def split_def)

lemma text_id_inject [simp]: "text_id m = text_id n \<longleftrightarrow> m = n"
  by (simp add: text_id_def)

text \<open>A successful \<open>consume\<close> adds one call under the next number.\<close>

lemma consume_adds:
  assumes "or_else (parse_one_call w v) (unwrap_single_key w aliases v) = Some (name, args)"
    and "consume w aliases v a = (ok, a')"
  defines "i \<equiv> text_id (unat (sa_seq a + 1))"
  shows "ok" "call_count a' = Suc (call_count a)" "sa_seq a' = sa_seq a + 1" "set (acc_ids a') = insert i (set (acc_ids a))"
    and "distinct (acc_ids a') \<longleftrightarrow> i \<notin> set (acc_ids a) \<and> distinct (acc_ids a)"
    and "list_all (recovered_ok aliases) (sa_recovered a') \<longleftrightarrow> list_all (recovered_ok aliases) (sa_recovered a)"
    and "list_all (unrecognised_ok aliases) (sa_unrecognised a') \<longleftrightarrow> list_all (unrecognised_ok aliases) (sa_unrecognised a)"
proof -
  have shape: "name \<noteq> []" "is_obj args" using consume_shape [OF assms(1)] by simp_all
  have "ok \<and> (\<exists>canonical. hm_get aliases name = Some canonical \<and> a' = a\<lparr>sa_seq := sa_seq a + 1, sa_recovered := sa_recovered a
            @ [\<lparr>rc_id = i, rc_name = canonical, rc_args = args, rc_raw_name = name\<rparr>]\<rparr>)
      \<or> ok \<and> hm_get aliases name = None \<and> a' = a\<lparr>sa_seq := sa_seq a + 1, sa_unrecognised := sa_unrecognised a
            @ [\<lparr>uc_id = i, uc_name = name, uc_args = args\<rparr>]\<rparr>"
    using assms(2) unfolding i_def text_id_def
    by (cases "hm_get aliases name") (simp_all add: consume_def assms(1) Let_def)
  then show "ok" "call_count a' = Suc (call_count a)" "sa_seq a' = sa_seq a + 1" "set (acc_ids a') = insert i (set (acc_ids a))"
    "distinct (acc_ids a') \<longleftrightarrow> i \<notin> set (acc_ids a) \<and> distinct (acc_ids a)"
    "list_all (recovered_ok aliases) (sa_recovered a') \<longleftrightarrow> list_all (recovered_ok aliases) (sa_recovered a)"
    "list_all (unrecognised_ok aliases) (sa_unrecognised a') \<longleftrightarrow> list_all (unrecognised_ok aliases) (sa_unrecognised a)"
    using shape by (elim disjE conjE exE; force simp: call_count_def acc_ids_def recovered_ok_def unrecognised_ok_def)+
qed

lemma acc_ok_consume:
  assumes "acc_ok aliases a"
  shows "acc_ok aliases (snd (consume w aliases v a))"
proof (cases "or_else (parse_one_call w v) (unwrap_single_key w aliases v)")
  case None
  then show ?thesis using assms by (simp add: consume_def)
next
  case (Some call)
  obtain name args where call: "call = (name, args)" by fastforce
  obtain ok a' where run: "consume w aliases v a = (ok, a')" by fastforce
  let ?n = "call_count a"
  have seq: "sa_seq a + 1 = word_of_nat (Suc ?n)" using assms by (simp add: acc_ok_def)
  have fresh: "unat (word_of_nat (Suc ?n) :: 32 word) = Suc ?n" if "Suc ?n < 2 ^ 32"
    using that by (simp only: unsigned_of_nat) (simp add: take_bit_nat_eq_self)
  have ids: "{1..Suc ?n} = insert (Suc ?n) {1..?n}" by auto
  note adds = consume_adds [OF Some [unfolded call] run, unfolded seq]
  have "set (acc_ids a') = text_id ` {1..Suc ?n} \<and> distinct (acc_ids a')" if "Suc ?n < 2 ^ 32"
    using assms that unfolding adds fresh [OF that] ids by (auto simp: acc_ok_def)
  then show ?thesis
    using assms adds by (simp add: acc_ok_def run)
qed

text \<open>C34: The calls that the salvage returns are well formed: a recovered call has the canonical name that the alias
  map gives the name in the text, an unrecognised one a name that the map does not know, both have an object
  as their arguments, and their ids are \<open>call_text_1\<close> to \<open>call_text_n\<close>, each once.
\<close>

theorem salvaged_calls_well_formed:
  assumes "r = extract_tool_calls_from_content w aliases str"
    and "n = length (sr_recovered r) + length (sr_unrecognised r)" and "n < 2 ^ 32"
  shows "list_all (recovered_ok aliases) (sr_recovered r) \<and> list_all (unrecognised_ok aliases) (sr_unrecognised r)
    \<and> set (map rc_id (sr_recovered r) @ map uc_id (sr_unrecognised r)) = text_id ` {1..n}
    \<and> distinct (map rc_id (sr_recovered r) @ map uc_id (sr_unrecognised r))"
proof (cases "str = []")
  case True
  then show ?thesis using assms by (simp add: extract_tool_calls_from_content_def)
next
  case False
  have "acc_ok aliases (acc_final w aliases str)"
    by (rule extract_keeps, rule acc_ok_consume) (simp_all add: acc_ok_def acc_empty_def call_count_def acc_ids_def)
  then show ?thesis
    using assms extract_final [OF False] by (simp add: acc_ok_def acc_ids_def call_count_def)
qed

text \<open>No match of a pattern, and a parser that knows the values of a table.\<close>

definition sample_salv :: "(string \<times> json) list \<Rightarrow> salv_env" where
  "sample_salv table = \<lparr>sv_matches = (\<lambda>p t. []), sv_parse = map_of table, sv_escape = (\<lambda>s. dquote @ s @ dquote),
     sv_float = (\<lambda>r. []), sv_sha256 = (\<lambda>s. s)\<rparr>"

definition now_call :: json where
  "now_call = JObj [(''name'', JStr ''time.now''), (''arguments'', JObj [])]"

lemma now_spans: "find_balanced_braces ''so {call}'' = [(3, 9)]"
  by (simp add: find_balanced_braces_def find_braces_from.simps)

lemma so_trim: "trim ''so '' = ''so''"
  by (simp add: trim_def trim_start.simps trim_end.simps ws_len_def ws_len_end_def)

lemma nat_str_1: "nat_str (Suc 0) = ''1''"
  by code_simp

lemma now_consume:
  "consume (sample_salv table) [(''time.now'', ''time_now'')] now_call acc_empty =
     (True, \<lparr>sa_recovered = [\<lparr>rc_id = ''call_text_1'', rc_name = ''time_now'', rc_args = JObj [],
          rc_raw_name = ''time.now''\<rparr>], sa_unrecognised = [], sa_seq = 1\<rparr>)"
proof -
  have "parse_one_call (sample_salv table) now_call = Some (''time.now'', JObj [])"
    by (simp add: parse_one_call_def now_call_def or_else_def get_str_def coerce_args_def)
  then show ?thesis
    by (simp add: consume_def or_else_def acc_empty_def hm_get_def nat_str_1)
qed

lemma now_extract:
  "extract_tool_calls_from_content (sample_salv [(''{call}'', now_call)]) [(''time.now'', ''time_now'')] ''so {call}''
     = \<lparr>sr_cleaned_text = ''so'', sr_recovered = [\<lparr>rc_id = ''call_text_1'', rc_name = ''time_now'', rc_args = JObj [],
          rc_raw_name = ''time.now''\<rparr>], sr_unrecognised = []\<rparr>"
proof -
  have idle: "replace_regex (sample_salv [(''{call}'', now_call)]) s p f a = (s, a)" for s p f and a :: salv_acc
    by (simp add: replace_regex_def sample_salv_def)
  have parse: "sv_parse (sample_salv [(''{call}'', now_call)]) ''{call}'' = Some now_call"
    by (simp add: sample_salv_def)
  have call: "\<exists>m. now_call = JObj m \<and> looks_like_call m" by (simp add: now_call_def looks_like_call_def)
  then obtain m where m: "now_call = JObj m" "looks_like_call m" by blast
  have slice: "take (9 - 3) (drop 3 ''so {call}'') = ''{call}''" by simp
  have "bare_pass (sample_salv [(''{call}'', now_call)]) [(''time.now'', ''time_now'')] ''so {call}'' [(3, 9)] acc_empty
      = ([(3, 9)], snd (consume (sample_salv [(''{call}'', now_call)]) [(''time.now'', ''time_now'')] now_call acc_empty))"
    unfolding m(1) using parse [unfolded m(1)] m(2) now_consume [unfolded m(1)] slice by simp
  then show ?thesis
    by (simp add: extract_tool_calls_from_content_def idle tag_patterns_def now_spans now_consume strip_spans_def
        remove_range_def so_trim flip: acc_empty_def)
qed

theorem salvaged_calls_well_formed_witness:
  "recovered_ok [(''time.now'', ''time_now'')] \<lparr>rc_id = ''call_text_1'', rc_name = ''time_now'', rc_args = JObj [],
     rc_raw_name = ''time.now''\<rparr>"
  using salvaged_calls_well_formed [OF now_extract [symmetric] refl, THEN conjunct1] by simp

section \<open>The text that is left\<close>

text \<open>The matches of a pattern come from left to right and do not overlap.\<close>

fun matches_ok :: "string \<Rightarrow> nat \<Rightarrow> (nat \<times> nat \<times> string) list \<Rightarrow> bool" where
  "matches_ok str prev [] = (prev \<le> length str)"
| "matches_ok str prev ((start, e, body) # ms) = (prev \<le> start \<and> start \<le> e \<and> matches_ok str e ms)"

lemma consume_count:
  "consume w aliases v a = (ok, a') \<Longrightarrow> call_count a' = (if ok then Suc (call_count a) else call_count a)"
proof (cases "or_else (parse_one_call w v) (unwrap_single_key w aliases v)")
  case (Some call)
  then show "consume w aliases v a = (ok, a') \<Longrightarrow> ?thesis"
    using consume_adds(1,2) [of w v aliases "fst call" "snd call" a ok a'] by simp
qed (auto simp: consume_def)


lemma replace_matches_idle:
  assumes "\<And>body a. call_count a \<le> call_count (snd (f body a))"
    and "\<And>body a. call_count (snd (f body a)) = call_count a \<Longrightarrow> fst (f body a) = None"
  shows "matches_ok str prev ms \<Longrightarrow>
    call_count a \<le> call_count (snd (replace_matches str f ms prev a))
    \<and> (call_count (snd (replace_matches str f ms prev a)) = call_count a \<longrightarrow>
         fst (replace_matches str f ms prev a) = drop prev str)"
proof (induction ms arbitrary: prev a)
  case (Cons m ms)
  obtain start e body where m: "m = (start, e, body)" by (metis prod.exhaust)
  obtain r a1 where run: "f body a = (r, a1)" by fastforce
  have le: "call_count a \<le> call_count a1" and keep: "call_count a1 = call_count a \<Longrightarrow> r = None"
    using assms(1) [of a body] assms(2) [of body a] by (simp_all add: run)
  have "take (start - prev) (drop prev str) @ take (e - start) (drop start str) @ drop e str = drop prev str"
    if "prev \<le> start" "start \<le> e"
    using that by (metis append_take_drop_id drop_drop le_add_diff_inverse2)
  then show ?case
    using Cons.IH [of e a1] Cons.prems le keep by (simp add: m run split_def)
qed simp

lemma try_body_count:
  "call_count a \<le> call_count (snd (try_body w aliases body a))"
  "call_count (snd (try_body w aliases body a)) = call_count a \<Longrightarrow> fst (try_body w aliases body a) = None"
  by (cases "sv_parse w body"; auto simp: try_body_def split_def consume_count [OF prod.collapse [symmetric]] split: if_splits)+

lemma tag_pass_idle:
  assumes "\<And>p t. matches_ok t 0 (sv_matches w p t)"
  shows "call_count a \<le> call_count (snd (tag_pass w aliases ps working a))
    \<and> (call_count (snd (tag_pass w aliases ps working a)) = call_count a \<longrightarrow> fst (tag_pass w aliases ps working a) = working)"
proof (induction ps arbitrary: working a)
  case (Cons p ps)
  obtain working1 a1 where run: "replace_regex w working p (\<lambda>body. try_body w aliases (trim body)) a = (working1, a1)" by fastforce
  have "call_count a \<le> call_count a1 \<and> (call_count a1 = call_count a \<longrightarrow> working1 = working)"
    using replace_matches_idle [where f = "\<lambda>body. try_body w aliases (trim body)" and ms = "sv_matches w p working"
        and a = a and prev = 0 and str = working, OF try_body_count assms] run
    by (simp add: replace_regex_def)
  then show ?case
    using Cons.IH [where working = working1 and a = a1] by (simp add: run) (metis le_antisym)
qed simp

lemma bare_pass_idle:
  "call_count a \<le> call_count (snd (bare_pass w aliases working spans a))
    \<and> (call_count (snd (bare_pass w aliases working spans a)) = call_count a \<longrightarrow> fst (bare_pass w aliases working spans a) = [])"
proof (induction spans arbitrary: a)
  case (Cons p spans)
  obtain start e where p: "p = (start, e)" by fastforce
  show ?case
  proof (cases "\<exists>m. sv_parse w (take (e - start) (drop start working)) = Some (JObj m) \<and> looks_like_call m")
    case True
    then obtain m where m: "sv_parse w (take (e - start) (drop start working)) = Some (JObj m)" "looks_like_call m" by blast
    obtain ok a1 where run: "consume w aliases (JObj m) a = (ok, a1)" by fastforce
    show ?thesis
      using Cons.IH [of a1] consume_count [OF run] by (auto simp: p m run split_def split: if_splits)
  next
    case False
    then show ?thesis using Cons.IH [of a] by (auto simp: p split: option.split json.split)
  qed
qed simp

text \<open>
  Text without calls is kept: when the salvage reports no call, recovered or not, what it leaves is the
  text of the reply without the white space around it, fenced examples and JSON in prose included.
\<close>

theorem prose_is_kept:
  assumes "\<And>p t. matches_ok t 0 (sv_matches w p t)"
    and "sr_recovered (extract_tool_calls_from_content w aliases str) = []"
    and "sr_unrecognised (extract_tool_calls_from_content w aliases str) = []"
  shows "sr_cleaned_text (extract_tool_calls_from_content w aliases str) = trim str"
proof (cases "str = []")
  case False
  obtain w1 a1 where fenced: "replace_regex w str FencedRe (try_body w aliases) acc_empty = (w1, a1)" by fastforce
  obtain w2 a2 where tags: "tag_pass w aliases tag_patterns w1 a1 = (w2, a2)" by fastforce
  obtain spans a3 where bare: "bare_pass w aliases w2 (find_balanced_braces w2) a2 = (spans, a3)" by fastforce
  have "call_count a3 = 0"
    using assms(2,3) extract_final [OF False, of w aliases] by (simp add: call_count_def acc_final_def Let_def fenced tags bare)
  moreover have "call_count acc_empty = 0" by (simp add: call_count_def acc_empty_def)
  ultimately have "w1 = str" "w2 = w1" and "call_count a2 = 0"
    using replace_matches_idle [where f = "try_body w aliases" and a = acc_empty, OF try_body_count assms(1) [of str FencedRe]]
      tag_pass_idle [OF assms(1), where a = a1 and aliases = aliases and ps = tag_patterns and working = w1]
      bare_pass_idle [where a = a2 and w = w and aliases = aliases and working = w2 and spans = "find_balanced_braces w2"]
    by (simp_all add: fenced [unfolded replace_regex_def] tags bare)
  moreover have "spans = []"
    using \<open>call_count a2 = 0\<close> \<open>call_count a3 = 0\<close>
      bare_pass_idle [where a = a2 and w = w and aliases = aliases and working = w2 and spans = "find_balanced_braces w2"]
    by (simp add: bare)
  moreover have "sr_cleaned_text (extract_tool_calls_from_content w aliases str) = trim (strip_spans spans w2)"
    using False by (simp add: extract_tool_calls_from_content_def fenced [unfolded acc_empty_def] tags bare)
  ultimately show ?thesis by (simp add: strip_spans_def)
qed (simp add: extract_tool_calls_from_content_def)

theorem prose_is_kept_witness:
  "sr_cleaned_text (extract_tool_calls_from_content (sample_salv []) [] ''a {b} '') = ''a {b}''"
proof -
  have "sr_recovered (extract_tool_calls_from_content (sample_salv []) [] ''a {b} '') = []"
    "sr_unrecognised (extract_tool_calls_from_content (sample_salv []) [] ''a {b} '') = []"
    by (simp_all add: extract_tool_calls_from_content_def sample_salv_def replace_regex_def tag_patterns_def
        find_balanced_braces_def find_braces_from.simps)
  moreover have "matches_ok t 0 (sv_matches (sample_salv []) p t)" for p t by (simp add: sample_salv_def)
  ultimately have "sr_cleaned_text (extract_tool_calls_from_content (sample_salv []) [] ''a {b} '') = trim ''a {b} ''"
    by (intro prose_is_kept)
  then show ?thesis
    by (simp add: trim_def trim_start.simps trim_end.simps ws_len_def ws_len_end_def)
qed

section \<open>The key of a call\<close>

text \<open>A value with the members of its objects in the order of their keys.\<close>

fun sorted_json :: "json \<Rightarrow> json" where
  "sorted_json (JArr xs) = JArr (map sorted_json xs)"
| "sorted_json (JObj m) = JObj (sort_key fst (map (\<lambda>kv. (fst kv, sorted_json (snd kv))) m))"
| "sorted_json v = v"

lemma insort_key_map_snd:
  "insort_key fst (fst x, g (snd x)) (map (\<lambda>kv. (fst kv, g (snd kv))) xs) = map (\<lambda>kv. (fst kv, g (snd kv))) (insort_key fst x xs)"
  by (induction xs) auto

lemma sort_key_map_snd:
  "sort_key fst (map (\<lambda>kv. (fst kv, g (snd kv))) xs) = map (\<lambda>kv. (fst kv, g (snd kv))) (sort_key fst xs)"
  by (induction xs) (simp_all add: insort_key_map_snd)

lemma sort_key_idem: "sort_key f (sort_key f xs) = sort_key f xs"
  by (simp add: sort_key_id_if_sorted)

lemma canonicalise_sorted: "canonicalise_for_hash w (sorted_json v) = canonicalise_for_hash w v"
proof (induction v rule: sorted_json.induct)
  case (1 xs)
  then show ?case by (simp add: o_def cong: map_cong)
next
  case (2 m)
  have "map (\<lambda>kv. (fst kv, canonicalise_for_hash w (snd kv))) (map (\<lambda>kv. (fst kv, sorted_json (snd kv))) m)
      = map (\<lambda>kv. (fst kv, canonicalise_for_hash w (snd kv))) m"
    using 2 by (simp add: o_def cong: map_cong)
  then have "sort_key fst (map (\<lambda>kv. (fst kv, canonicalise_for_hash w (snd kv)))
        (sort_key fst (map (\<lambda>kv. (fst kv, sorted_json (snd kv))) m)))
      = sort_key fst (map (\<lambda>kv. (fst kv, canonicalise_for_hash w (snd kv))) m)"
    using sort_key_map_snd [of "canonicalise_for_hash w"] by (simp only: sort_key_idem flip: sort_key_map_snd)
  then show ?case by (simp only: sorted_json.simps canonicalise_for_hash.simps)
qed simp_all

text \<open>Two calls of a tool whose arguments differ in the order of members alone have one key.\<close>

theorem call_hash_ignores_member_order:
  "sorted_json a = sorted_json b \<Longrightarrow> call_hash w name a = call_hash w name b"
  unfolding call_hash_def by (metis canonicalise_sorted)

theorem call_hash_ignores_member_order_witness:
  "call_hash w ''t'' (JObj [(''b'', JNull), (''a'', JInt 1)]) = call_hash w ''t'' (JObj [(''a'', JInt 1), (''b'', JNull)])"
  by (rule call_hash_ignores_member_order) simp

end
