(* ===== verification/Chat_Turn_Correct.thy ===== *)
theory Chat_Turn_Correct
  imports Chat_Turn Tool_Consent_Safety Chat_Salvage_Correct
begin

text \<open>
  What the turn guarantees: which calls of a round are dispatched, that a turn dispatches no call
  twice, how it ends, and that neither the device tier nor the consent of the user can be passed,
  whatever the model answers.
\<close>

section \<open>The calls that a turn dispatched\<close>

fun dispatched_call :: "tool_event \<Rightarrow> (string \<times> json) option" where
  "dispatched_call (ToolDispatched t c n a) = Some (n, a)"
| "dispatched_call _ = None"

definition dispatched_calls :: "turn_handle \<Rightarrow> (string \<times> json) list" where
  "dispatched_calls h = List.map_filter dispatched_call (th_tool_events h)"

definition call_key :: "'w turn_env \<Rightarrow> string \<times> json \<Rightarrow> string" where
  "call_key v c = call_hash (tv_salv v) (fst c) (snd c)"

lemma dispatched_push [simp]:
  "dispatched_calls (push_tool_event ev h) = dispatched_calls h @ (case dispatched_call ev of Some c \<Rightarrow> [c] | None \<Rightarrow> [])"
  by (simp add: dispatched_calls_def push_tool_event_def List.map_filter_def split: option.split)

lemma dispatched_push_turn [simp]: "dispatched_calls (push_turn_event ev h) = dispatched_calls h"
  by (simp add: dispatched_calls_def push_turn_event_def)

lemma dispatched_memory [simp]: "dispatched_calls (maybe_emit_memory_written v call out h) = dispatched_calls h"
  by (simp add: maybe_emit_memory_written_def Let_def split: option.split)

lemma dispatched_new [simp]: "dispatched_calls (turn_handle_new t c) = []"
  by (simp add: dispatched_calls_def turn_handle_new_def List.map_filter_def)

lemma push_turn_id [simp]:
  "th_turn_id (push_tool_event ev h) = th_turn_id h" "th_turn_id (push_turn_event tev h) = th_turn_id h"
  by (simp_all add: push_tool_event_def push_turn_event_def)

lemma foldl_keeps: "(\<And>h u. P (f h u) = P h) \<Longrightarrow> P (foldl f h us) = P h"
  by (induction us arbitrary: h) simp_all

lemma dispatched_unrecognised [simp]: "dispatched_calls (emit_unrecognised v salvage h) = dispatched_calls h"
  unfolding emit_unrecognised_def by (rule foldl_keeps) simp

lemma dispatched_steps [simp]: "dispatched_calls (push_steps steps h) = dispatched_calls h"
  unfolding push_steps_def by (rule foldl_keeps) (simp add: split_def)

lemma push_summary_fields [simp]:
  "rs_summaries (push_summary row rs) = rs_summaries rs @ [row]"
  "rs_dispatched_hashes (push_summary row rs) = rs_dispatched_hashes rs" "rs_rounds (push_summary row rs) = rs_rounds rs"
  by (simp_all add: push_summary_def)

definition call_ids :: "string \<Rightarrow> json list \<Rightarrow> json option list" where
  "call_ids k rows = map (jget k) rows"

lemma call_ids_append [simp]: "call_ids k (xs @ ys) = call_ids k xs @ call_ids k ys" "call_ids k [x] = [jget k x]"
  by (simp_all add: call_ids_def)

text \<open>One call: it is dispatched, leaves one row, and is answered under its id.\<close>

lemma run_one_tool_frame:
  assumes "run_one_tool v tier call st = (msg, st')"
  shows "dispatched_calls (tn_handle st') = dispatched_calls (tn_handle st) @ [(cl_name call, cl_args call)]"
    and "rs_dispatched_hashes (tn_round st') = rs_dispatched_hashes (tn_round st)"
    and "rs_rounds (tn_round st') = rs_rounds (tn_round st)"
    and "call_ids ''call_id'' (rs_summaries (tn_round st')) = call_ids ''call_id'' (rs_summaries (tn_round st)) @ [Some (JStr (cl_id call))]"
    and "jget ''tool_call_id'' msg = Some (JStr (cl_id call))"
  using assms
  by (auto simp: run_one_tool_def Let_def tool_message_def summary_ok_def summary_err_def
      split: option.split_asm prod.split_asm sum.split_asm)

lemma dedupe_cases:
  obtains (repeat) st1 where "dedupe_and_maybe_emit v call st = (True, st1)"
      "call_key v (cl_name call, cl_args call) \<in> rs_dispatched_hashes (tn_round st)"
      "dispatched_calls (tn_handle st1) = dispatched_calls (tn_handle st)"
      "rs_dispatched_hashes (tn_round st1) = rs_dispatched_hashes (tn_round st)"
      "rs_rounds (tn_round st1) = rs_rounds (tn_round st)" "tn_world st1 = tn_world st"
      "call_ids ''call_id'' (rs_summaries (tn_round st1)) = call_ids ''call_id'' (rs_summaries (tn_round st)) @ [Some (JStr (cl_id call))]"
  | (fresh) "dedupe_and_maybe_emit v call st = (False, st\<lparr>tn_round := (tn_round st)\<lparr>rs_dispatched_hashes :=
          insert (call_key v (cl_name call, cl_args call)) (rs_dispatched_hashes (tn_round st))\<rparr>\<rparr>)"
      "call_key v (cl_name call, cl_args call) \<notin> rs_dispatched_hashes (tn_round st)"
  by (cases "call_key v (cl_name call, cl_args call) \<in> rs_dispatched_hashes (tn_round st)")
    (auto simp: dedupe_and_maybe_emit_def Let_def call_key_def summary_err_def)

section \<open>A round\<close>

text \<open>The reference: the calls of a round whose key did not occur before, in the turn or in the round.\<close>

fun fresh_calls :: "(string \<times> json \<Rightarrow> string) \<Rightarrow> string set \<Rightarrow> tool_call list \<Rightarrow> tool_call list" where
  "fresh_calls key seen [] = []"
| "fresh_calls key seen (c # cs) =
     (let k = key (cl_name c, cl_args c)
      in if k \<in> seen then fresh_calls key seen cs else c # fresh_calls key (insert k seen) cs)"

lemma run_calls_frame:
  assumes "run_calls v tier calls messages st = (messages', st')"
  defines "fresh \<equiv> fresh_calls (call_key v) (rs_dispatched_hashes (tn_round st)) calls"
  shows "dispatched_calls (tn_handle st') = dispatched_calls (tn_handle st) @ map (\<lambda>c. (cl_name c, cl_args c)) fresh
    \<and> rs_dispatched_hashes (tn_round st') = rs_dispatched_hashes (tn_round st) \<union> set (map (\<lambda>c. call_key v (cl_name c, cl_args c)) fresh)
    \<and> prefix messages messages'
    \<and> call_ids ''tool_call_id'' messages' = call_ids ''tool_call_id'' messages @ map (\<lambda>c. Some (JStr (cl_id c))) fresh
    \<and> call_ids ''call_id'' (rs_summaries (tn_round st')) =
        call_ids ''call_id'' (rs_summaries (tn_round st)) @ map (\<lambda>c. Some (JStr (cl_id c))) calls
    \<and> rs_rounds (tn_round st') = rs_rounds (tn_round st)"
  using assms(1) unfolding fresh_def
proof (induction calls arbitrary: messages st)
  case Nil
  then show ?case by simp
next
  case (Cons call calls)
  show ?case
  proof (cases rule: dedupe_cases [of v call st])
    case (repeat st1)
    then show ?thesis using Cons.prems Cons.IH [of messages st1] by simp
  next
    case fresh
    let ?st1 = "st\<lparr>tn_round := (tn_round st)\<lparr>rs_dispatched_hashes :=
      insert (call_key v (cl_name call, cl_args call)) (rs_dispatched_hashes (tn_round st))\<rparr>\<rparr>"
    obtain msg st2 where run: "run_one_tool v tier call ?st1 = (msg, st2)" by fastforce
    show ?thesis
      using Cons.prems Cons.IH [of "messages @ [msg]" st2] run_one_tool_frame [OF run] fresh run
      by (auto dest: append_prefixD)
  qed
qed

text \<open>C19: A round dispatches, in order, exactly its fresh calls and answers each under its id; every call of the
  round, suppressed ones included, leaves one row of the summary. A suppressed call is not answered.
\<close>

theorem round_dispatches_fresh_calls:
  assumes "run_calls v tier calls messages st = (messages', st')"
  defines "fresh \<equiv> fresh_calls (call_key v) (rs_dispatched_hashes (tn_round st)) calls"
  shows "dispatched_calls (tn_handle st') = dispatched_calls (tn_handle st) @ map (\<lambda>c. (cl_name c, cl_args c)) fresh
    \<and> call_ids ''tool_call_id'' messages' = call_ids ''tool_call_id'' messages @ map (\<lambda>c. Some (JStr (cl_id c))) fresh
    \<and> call_ids ''call_id'' (rs_summaries (tn_round st')) =
        call_ids ''call_id'' (rs_summaries (tn_round st)) @ map (\<lambda>c. Some (JStr (cl_id c))) calls"
  using run_calls_frame [OF assms(1)] unfolding fresh_def by blast

text \<open>Two equal calls in one round, on a device that may use no tool.\<close>

definition stubborn_env :: "nat turn_env" where
  "stubborn_env = \<lparr>tv_cfg = \<lparr>hc_default_model = ''m'', hc_max_tool_loops = 3, hc_ollama_service = ''ollama'',
       hc_extension_bridge_service = ''bridge'', hc_mcp_namespaces = [''webcrawler''], hc_default_chat_priority = 60\<rparr>,
     tv_reg = with_only [write_tool],
     tv_ipc = (\<lambda>service action body s. (Inr (JObj [(''message'', JObj [(''tool_calls'',
       JArr [JObj [(''function'', JObj [(''name'', JStr ''write_file'')])]])])]), s)),
     tv_henv = (\<lambda>n. sample_henv), tv_now_ms = int, tv_to_string = (\<lambda>j. []), tv_salv = sample_salv []\<rparr>"

definition blank_turn :: "nat turn_st" where
  "blank_turn = \<lparr>tn_handle = turn_handle_new ''t'' ''c'', tn_round = round_state_new, tn_world = (consent_new None, 0)\<rparr>"

theorem round_dispatches_fresh_calls_witness:
  "dispatched_calls (tn_handle (snd (run_calls stubborn_env TIER_READ_ONLY
     [\<lparr>cl_id = ''1'', cl_name = ''x'', cl_args = JNull\<rparr>, \<lparr>cl_id = ''2'', cl_name = ''x'', cl_args = JNull\<rparr>] [] blank_turn)))
   = [(''x'', JNull)]"
proof -
  let ?cs = "[\<lparr>cl_id = ''1'', cl_name = ''x'', cl_args = JNull\<rparr>, \<lparr>cl_id = ''2'', cl_name = ''x'', cl_args = JNull\<rparr>]"
  obtain ms st where run: "run_calls stubborn_env TIER_READ_ONLY ?cs [] blank_turn = (ms, st)" by fastforce
  show ?thesis
    using round_dispatches_fresh_calls [OF run] unfolding run by (simp add: blank_turn_def round_state_new_def)
qed

section \<open>A whole turn\<close>

text \<open>What the steps of the loop keep, the loop keeps.\<close>

lemma run_rounds_keeps:
  assumes llm: "\<And>st body. I st \<Longrightarrow>
        I (st\<lparr>tn_world := snd (tv_ipc v (hc_ollama_service (tv_cfg v)) ''ollama.chat'' body (tn_world st))\<rparr>)"
    and rounds: "\<And>st n. I st \<Longrightarrow> I (st\<lparr>tn_round := (tn_round st)\<lparr>rs_rounds := n\<rparr>\<rparr>)"
    and unrecognised: "\<And>st salvage. I st \<Longrightarrow> I (st\<lparr>tn_handle := emit_unrecognised v salvage (tn_handle st)\<rparr>)"
    and calls: "\<And>st cs ms. I st \<Longrightarrow> I (snd (run_calls v tier cs ms st))"
    and "I st"
  shows "I (snd (run_rounds v ti model tier k messages final_text st))"
  using assms(5)
proof (induction k arbitrary: messages final_text st)
  case (Suc k)
  let ?st1 = "st\<lparr>tn_round := (tn_round st)\<lparr>rs_rounds := MAX_TOOL_LOOPS - k\<rparr>\<rparr>"
  let ?body = "chat_body v ti model False messages"
  obtain r s' where reply: "tv_ipc v (hc_ollama_service (tv_cfg v)) ''ollama.chat'' ?body (tn_world ?st1) = (r, s')"
    by (metis prod.exhaust)
  have I1: "I (?st1\<lparr>tn_world := s'\<rparr>)"
    using llm [OF rounds [OF Suc.prems], where body = ?body and n1 = "MAX_TOOL_LOOPS - k"] reply by simp
  show ?case
  proof (cases r)
    case (Inl e)
    then show ?thesis using I1 reply by simp
  next
    case (Inr upstream)
    obtain cleaned cs h where dec: "decode_reply v (build_alias_map (tv_cfg v) (tv_reg v)) (extract_assistant_content upstream)
        (extract_native_tool_calls upstream) (tn_handle ?st1) = (cleaned, cs, h)"
      by (metis prod.exhaust)
    have swap: "?st1\<lparr>tn_handle := h, tn_world := s'\<rparr> = ?st1\<lparr>tn_world := s', tn_handle := h\<rparr>" by (cases st) simp
    have "I (?st1\<lparr>tn_world := s', tn_handle := h\<rparr>)"
      using unrecognised [OF I1] dec by (auto simp: decode_reply_def Let_def)
    then have I2: "I (?st1\<lparr>tn_handle := h, tn_world := s'\<rparr>)" unfolding swap .
    obtain ms st3 where run: "run_calls v tier cs (messages @ [assistant_message cleaned cs]) (?st1\<lparr>tn_handle := h, tn_world := s'\<rparr>) = (ms, st3)" by fastforce
    have "I st3" using calls [OF I2] run by (metis snd_conv)
    then show ?thesis using Suc.IH [of st3 ms cleaned] I2 reply dec run Inr by (simp add: Let_def)
  qed
qed simp

text \<open>The invariant: the keys that the turn remembers are those of its dispatched calls, each once.\<close>

definition turn_inv :: "'w turn_env \<Rightarrow> 'w turn_st \<Rightarrow> bool" where
  "turn_inv v st \<longleftrightarrow> distinct (map (call_key v) (dispatched_calls (tn_handle st)))
     \<and> rs_dispatched_hashes (tn_round st) = set (map (call_key v) (dispatched_calls (tn_handle st)))"

lemma fresh_calls_distinct:
  "distinct (map (\<lambda>c. key (cl_name c, cl_args c)) (fresh_calls key seen cs))
   \<and> set (map (\<lambda>c. key (cl_name c, cl_args c)) (fresh_calls key seen cs)) \<inter> seen = {}"
  by (induction cs arbitrary: seen) (auto simp: Let_def)

lemma turn_inv_calls: "turn_inv v st \<Longrightarrow> turn_inv v (snd (run_calls v tier cs ms st))"
proof -
  obtain ms' st' where run: "run_calls v tier cs ms st = (ms', st')" by fastforce
  then show "turn_inv v st \<Longrightarrow> turn_inv v (snd (run_calls v tier cs ms st))"
    using run_calls_frame [OF run] fresh_calls_distinct [of "call_key v" "rs_dispatched_hashes (tn_round st)" cs]
    by (auto simp: turn_inv_def o_def)
qed

text \<open>C20: A turn dispatches no call twice: the keys of the calls that it dispatched are distinct.\<close>

theorem turn_never_repeats_call:
  "distinct (map (call_key v) (dispatched_calls
     (tn_handle (snd (run_turn_loop v ti payload user_message (turn_handle_new t c) s)))))"
proof -
  have "turn_inv v (snd (run_turn_loop v ti payload user_message (turn_handle_new t c) s))"
    unfolding run_turn_loop_def
    by (rule run_rounds_keeps [where I = "turn_inv v"])
      (erule turn_inv_calls | simp add: turn_inv_def round_state_new_def)+
  then show ?thesis by (simp add: turn_inv_def)
qed

section \<open>How a turn ends\<close>

fun loop_outcome_ok :: "loop_result \<Rightarrow> nat \<Rightarrow> nat \<Rightarrow> bool" where
  "loop_outcome_ok r rounds rows =
     (case (lr_completed r, lr_abort r) of
        (True, None) \<Rightarrow> 1 \<le> rounds \<and> rounds \<le> MAX_TOOL_LOOPS \<and> rounds \<le> rows + 1
      | (False, Some (AbortError, _)) \<Rightarrow> 1 \<le> rounds \<and> rounds \<le> MAX_TOOL_LOOPS \<and> rounds \<le> rows + 1
      | (False, None) \<Rightarrow> rounds = MAX_TOOL_LOOPS \<and> MAX_TOOL_LOOPS \<le> rows
      | _ \<Rightarrow> False)"

lemma length_call_ids: "call_ids k xs = call_ids k ys @ zs \<Longrightarrow> length xs = length ys + length zs"
  unfolding call_ids_def by (metis length_append length_map)

lemma run_rounds_outcome:
  assumes "k \<le> MAX_TOOL_LOOPS" and "MAX_TOOL_LOOPS - k \<le> length (rs_summaries (tn_round st))"
    and "k = 0 \<longrightarrow> rs_rounds (tn_round st) = MAX_TOOL_LOOPS"
    and "run_rounds v ti model tier k messages final_text st = (r, st')"
  shows "loop_outcome_ok r (rs_rounds (tn_round st')) (length (rs_summaries (tn_round st')))"
  using assms
proof (induction k arbitrary: messages final_text st)
  case (Suc k)
  let ?st1 = "st\<lparr>tn_round := (tn_round st)\<lparr>rs_rounds := MAX_TOOL_LOOPS - k\<rparr>\<rparr>"
  obtain q s' where reply: "tv_ipc v (hc_ollama_service (tv_cfg v)) ''ollama.chat'' (chat_body v ti model False messages)
      (tn_world st) = (q, s')" by (metis prod.exhaust)
  have bounds: "1 \<le> MAX_TOOL_LOOPS - k" "MAX_TOOL_LOOPS - k \<le> length (rs_summaries (tn_round st)) + 1"
    using Suc.prems(1,2) by simp_all
  show ?case
  proof (cases q)
    case (Inl e)
    then show ?thesis using Suc.prems(4) reply bounds by (auto simp: Let_def)
  next
    case (Inr upstream)
    obtain cleaned cs h where dec: "decode_reply v (build_alias_map (tv_cfg v) (tv_reg v)) (extract_assistant_content upstream)
        (extract_native_tool_calls upstream) (tn_handle st) = (cleaned, cs, h)"
      by (metis prod.exhaust)
    let ?st2 = "?st1\<lparr>tn_handle := h, tn_world := s'\<rparr>"
    obtain ms st3 where run: "run_calls v tier cs (messages @ [assistant_message cleaned cs]) ?st2 = (ms, st3)" by fastforce
    show ?thesis
    proof (cases "cs = []")
      case True
      then show ?thesis using Suc.prems(4) reply Inr dec bounds by (auto simp: Let_def)
    next
      case False
      have "length (rs_summaries (tn_round st3)) = length (rs_summaries (tn_round ?st2)) + length cs"
        using run_calls_frame [OF run] by (auto dest: length_call_ids)
      moreover have "1 \<le> length cs" using False by (cases cs) simp_all
      ultimately have "MAX_TOOL_LOOPS - k \<le> length (rs_summaries (tn_round st3))"
        using Suc.prems(1,2) by simp
      moreover have "rs_rounds (tn_round st3) = MAX_TOOL_LOOPS - k" using run_calls_frame [OF run] by simp
      ultimately show ?thesis
        using Suc.IH [of st3 ms cleaned] Suc.prems(1,4) reply Inr dec run False by (simp add: Let_def)
    qed
  qed
qed (auto simp: MAX_TOOL_LOOPS_def)

text \<open>A turn ends within eight rounds, in one of three ways: completed, on a reply without calls; aborted by an
  error of the model's service; or, when its eighth reply still had calls, at the limit. Each round before the
  last left a row of the summary. The environment's \<open>max_tool_loops\<close> has no influence.
\<close>

theorem turn_ends_within_limit:
  "case run_turn_loop v ti payload user_message h s of
     (r, st) \<Rightarrow> loop_outcome_ok r (rs_rounds (tn_round st)) (length (rs_summaries (tn_round st)))
       \<and> jget ''aborted'' (turn_reply t c d degraded rows r) = Some (JBool (\<not> lr_completed r))"
proof -
  obtain r st where run: "run_turn_loop v ti payload user_message h s = (r, st)" by fastforce
  then have ok: "loop_outcome_ok r (rs_rounds (tn_round st)) (length (rs_summaries (tn_round st)))"
    unfolding run_turn_loop_def by (rule run_rounds_outcome [rotated 3]) (simp_all add: MAX_TOOL_LOOPS_def)
  then show ?thesis
    unfolding run by (cases "lr_completed r") (auto simp: turn_reply_def Let_def split: option.split_asm)
qed

section \<open>The gates\<close>

text \<open>A call that the tier blocks runs nothing: no part of the harness changes but the record of the turn.\<close>

definition tier_blocks :: "'s tool_registry \<Rightarrow> string \<Rightarrow> string \<Rightarrow> bool" where
  "tier_blocks reg tier name \<longleftrightarrow> tier = TIER_READ_ONLY
     \<or> tier \<noteq> TIER_DESTRUCTIVE \<and> (case tool_lookup reg name of Some e \<Rightarrow> te_destructive e | None \<Rightarrow> False)"

lemma check_tier_gate_iff: "check_tier_gate w tier name reg \<noteq> None \<longleftrightarrow> tier_blocks reg tier name"
  by (auto simp: check_tier_gate_def tier_blocks_def Let_def tier_names split: option.split bind_splits)

lemma run_one_tool_blocked:
  assumes "tier_blocks (tv_reg v) tier (cl_name call)"
  shows "tn_world (snd (run_one_tool v tier call st)) = tn_world st"
  using assms check_tier_gate_iff [of "tv_henv v (length (th_tool_events (tn_handle st)))" tier "cl_name call" "tv_reg v"]
  by (auto simp: run_one_tool_def Let_def split_def)

lemma run_one_tool_world:
  "tn_world (snd (run_one_tool v tier call st)) =
     (if tier_blocks (tv_reg v) tier (cl_name call) then tn_world st
      else snd (call_routed v (tv_henv v (length (th_tool_events (tn_handle st)))) tier call (tn_world st)))"
proof (cases "tier_blocks (tv_reg v) tier (cl_name call)")
  case False
  then have "check_tier_gate (tv_henv v (length (th_tool_events (tn_handle st)))) tier (cl_name call) (tv_reg v) = None"
    using check_tier_gate_iff by blast
  then show ?thesis using False by (auto simp: run_one_tool_def Let_def split_def split: sum.split prod.split)
qed (simp add: run_one_tool_blocked)

text \<open>What the handlers below the tier keep, a call keeps.\<close>

definition safe_handlers :: "'w hstate tool_registry \<Rightarrow> ('w \<Rightarrow> bool) \<Rightarrow> bool" where
  "safe_handlers reg P \<longleftrightarrow> (\<forall>name e h w args c x. tool_lookup reg name = Some e \<longrightarrow> \<not> te_destructive e \<longrightarrow> te_kind e = Active h
     \<longrightarrow> P x \<longrightarrow> P (snd (snd (h w args (c, x)))))"

lemma dispatch_keeps:
  assumes "safe_handlers reg P" and "\<not> tier_blocks reg tier name" and "tier \<noteq> TIER_DESTRUCTIVE" and "P (snd s)"
  shows "P (snd (snd (dispatch_tool w reg name tier args confirm s)))"
proof (cases "tool_lookup reg name")
  case None
  then show ?thesis using assms(4) by (simp add: dispatch_tool_def)
next
  case (Some e)
  then have "\<not> te_destructive e" using assms(2,3) by (simp add: tier_blocks_def)
  then have "P (snd (snd (invoke_entry w e args (c, snd s))))" for c
    using assms(1,4) Some by (cases "te_kind e") (auto simp: invoke_entry_def safe_handlers_def)
  then show ?thesis
    using Some assms(4) by (auto simp: dispatch_tool_def split_def split: option.split)
qed

lemma call_routed_keeps:
  assumes "safe_handlers (tv_reg v) P" and "\<not> tier_blocks (tv_reg v) tier (cl_name call)" and "tier \<noteq> TIER_DESTRUCTIVE"
    and "\<And>service action body s. P (snd s) \<Longrightarrow> P (snd (snd (tv_ipc v service action body s)))" and "P (snd s)"
  shows "P (snd (snd (call_routed v w tier call s)))"
  using assms(4,5) dispatch_keeps [OF assms(1,2,3,5)]
  by (auto simp: call_routed_def call_mcp_extension_def call_internal_def split_def split: tool_route.split)

lemma run_calls_keep:
  assumes "safe_handlers (tv_reg v) P" and "tier \<noteq> TIER_DESTRUCTIVE"
    and "\<And>service action body s. P (snd s) \<Longrightarrow> P (snd (snd (tv_ipc v service action body s)))" and "P (snd (tn_world st))"
  shows "P (snd (tn_world (snd (run_calls v tier cs ms st))))"
  using assms(4)
proof (induction cs arbitrary: ms st)
  case (Cons call cs)
  have "P (snd (tn_world (snd (run_one_tool v tier call st1))))" if "P (snd (tn_world st1))" for st1
    using that call_routed_keeps [OF assms(1) _ assms(2,3)] by (simp add: run_one_tool_world)
  moreover have "tn_world (snd (dedupe_and_maybe_emit v call st)) = tn_world st"
    by (simp add: dedupe_and_maybe_emit_def Let_def)
  ultimately show ?case using Cons by (simp add: split_def split: bool.split)
qed simp

text \<open>C10: A turn below the destructive tier runs no destructive tool, whatever the model answers: what the other tools
  and services leave true stays true over the whole turn.
\<close>

theorem turn_runs_no_destructive_tool:
  assumes "turn_tier payload \<noteq> TIER_DESTRUCTIVE" and "safe_handlers (tv_reg v) P"
    and "\<And>service action body s. P (snd s) \<Longrightarrow> P (snd (snd (tv_ipc v service action body s)))" and "P (snd s)"
  shows "P (snd (tn_world (snd (run_turn_loop v ti payload user_message h s))))"
  unfolding run_turn_loop_def
  by (rule run_rounds_keeps [where I = "\<lambda>st. P (snd (tn_world st))"]) (simp_all add: assms(3,4) run_calls_keep [OF assms(2,1,3)])

text \<open>The model of the sample always asks for its destructive tool; the device has the default tier.\<close>

definition plain_input :: "nat turn_input" where
  "plain_input = \<lparr>ti_fresh_id = ''t'', ti_default_depth = Fast, ti_base_prompt = [], ti_tools = [], ti_options = [], ti_history = [],
     ti_slots = [], ti_steps = [], ti_degraded = False, ti_post_turn = (\<lambda>c ws m u f s. s)\<rparr>"

lemma with_only_lookup: "tool_lookup (with_only [e]) name = Some e' \<Longrightarrow> e' = e"
  by (simp add: with_only_def tool_lookup_insert split: if_splits)

theorem turn_runs_no_destructive_tool_witness:
  "snd (tn_world (snd (run_turn_loop stubborn_env plain_input (JObj []) ''Hi'' (turn_handle_new ''t'' ''c'') (consent_new None, 0)))) = 0"
proof (rule turn_runs_no_destructive_tool [where P = "\<lambda>n. n = 0"])
  show "turn_tier (JObj []) \<noteq> TIER_DESTRUCTIVE"
    by (simp add: turn_tier_def optional_string_def get_str_def normalise_device_tier_def tier_names)
  show "safe_handlers (tv_reg stubborn_env) (\<lambda>n. n = 0)"
    by (auto simp: safe_handlers_def stubborn_env_def dest: with_only_lookup)
qed (simp_all add: stubborn_env_def)

text \<open>
  A call of the turn runs a tool of the registry only with the standing approval of the user: the driver
  confirms nothing. Without it the world is untouched and the row of the call reports a failure.
\<close>

theorem turn_call_needs_consent:
  assumes "tool_route_of (tv_cfg v) (cl_name call) = Internal" and "tool_lookup (tv_reg v) (cl_name call) = Some e"
    and "standing (te_id e) (fst (tn_world st)) \<noteq> Some Approved"
    and "\<not> global_bypass_active (tv_henv v (length (th_tool_events (tn_handle st))))"
  shows "snd (tn_world (snd (run_one_tool v tier call st))) = snd (tn_world st)
    \<and> jget ''ok'' (last (rs_summaries (tn_round (snd (run_one_tool v tier call st))))) = Some (JBool False)"
proof -
  let ?w = "tv_henv v (length (th_tool_events (tn_handle st)))"
  let ?d = "dispatch_tool ?w (tv_reg v) (cl_name call) tier (cl_args call) False (tn_world st)"
  obtain block c' where gate: "check_consent_gate ?w e False (fst (tn_world st)) = (Some block, c')"
    using check_consent_gate_iff [of ?w e False "fst (tn_world st)"] assms(3,4)
    by (cases "check_consent_gate ?w e False (fst (tn_world st))") (auto simp: consents_def)
  obtain outcome s' where d: "?d = (outcome, s')" by (metis prod.exhaust)
  have "snd s' = snd (tn_world st)" "\<exists>err. do_result outcome = Inl err"
    using d by (auto simp: dispatch_tool_def assms(2) gate split: option.split_asm)
  then show ?thesis
    using d assms(1) by (auto simp: run_one_tool_def Let_def call_routed_def call_internal_def summary_err_def split: option.split)
qed

theorem turn_call_needs_consent_witness:
  "snd (tn_world (snd (run_one_tool stubborn_env TIER_DESTRUCTIVE \<lparr>cl_id = ''1'', cl_name = ''write_file'', cl_args = JNull\<rparr>
     \<lparr>tn_handle = turn_handle_new ''t'' ''c'', tn_round = round_state_new, tn_world = (consent_new None, 0)\<rparr>))) = 0"
  using turn_call_needs_consent [where v = stubborn_env and e = write_tool and tier = TIER_DESTRUCTIVE
      and call = "\<lparr>cl_id = ''1'', cl_name = ''write_file'', cl_args = JNull\<rparr>"
      and st = "\<lparr>tn_handle = turn_handle_new ''t'' ''c'', tn_round = round_state_new, tn_world = (consent_new None, 0)\<rparr>"]
  by (simp add: stubborn_env_def tool_route_of_def split_once_def standing_def consent_new_def ensure_loaded_def
      consent_file_default_def)

section \<open>Where the code surprises\<close>

text \<open>
  A call that was refused for want of consent is remembered like any other: when the model repeats it in
  the same turn it is suppressed, whatever the user decided meanwhile.
\<close>

theorem approved_retry_is_suppressed:
  "fst (dedupe_and_maybe_emit v call
     ((snd (run_one_tool v tier call (snd (dedupe_and_maybe_emit v call st))))\<lparr>tn_world := s\<rparr>))"
proof -
  obtain msg st' where run: "run_one_tool v tier call (snd (dedupe_and_maybe_emit v call st)) = (msg, st')" by fastforce
  have "call_key v (cl_name call, cl_args call) \<in> rs_dispatched_hashes (tn_round (snd (dedupe_and_maybe_emit v call st)))"
    by (cases rule: dedupe_cases [of v call st]) auto
  then show ?thesis
    using run_one_tool_frame(2) [OF run] run by (simp add: dedupe_and_maybe_emit_def Let_def call_key_def)
qed

text \<open>
  The alias map knows the namespaces of the extensions, not their tools: a call of an extension's tool in the
  text of a reply is unrecognised, though the same name as a native call is routed to the extension.
\<close>

theorem salvaged_extension_call_unrecognised:
  "sa_unrecognised (snd (consume (sample_salv []) (build_alias_map (tv_cfg stubborn_env) registry_empty)
       (JObj [(''name'', JStr ''webcrawler.scrape'')]) acc_empty))
     = [\<lparr>uc_id = ''call_text_1'', uc_name = ''webcrawler.scrape'', uc_args = JObj []\<rparr>]
   \<and> tool_route_of (tv_cfg stubborn_env) ''webcrawler.scrape'' = McpExtension"
proof -
  have aliases: "hm_get (build_alias_map (tv_cfg stubborn_env) registry_empty) ''webcrawler.scrape'' = None"
    by (simp add: build_alias_map_def stubborn_env_def alias_map_get registry_empty_def)
  have "parse_one_call (sample_salv []) (JObj [(''name'', JStr ''webcrawler.scrape'')]) = Some (''webcrawler.scrape'', JObj [])"
    by (simp add: parse_one_call_def or_else_def get_str_def get_obj_def coerce_args_def)
  moreover have "tool_route_of (tv_cfg stubborn_env) ''webcrawler.scrape'' = McpExtension"
    by (simp add: stubborn_env_def tool_route_of_def split_once_def)
  ultimately show ?thesis
    by (simp add: consume_def or_else_def aliases acc_empty_def nat_str_1 Let_def)
qed

end
