(* ===== verification/Chat_Stream_Correct.thy ===== *)
theory Chat_Stream_Correct
  imports Chat_Stream Chat_Turn_Correct
begin

text \<open>
  What the streaming driver guarantees: every turn ends in exactly one closing event, its
  last; a cancel stops it before the next tool; and, when nothing is cancelled, it does what the
  synchronous driver does, however its stream is cut into chunks.
\<close>

section \<open>One end\<close>

fun closing :: "turn_event \<Rightarrow> bool" where
  "closing (TurnComplete t s) = True"
| "closing (TurnAborted t r e) = True"
| "closing _ = False"

definition n_closing :: "turn_handle \<Rightarrow> nat" where
  "n_closing h = length (filter closing (th_turn_events h))"

lemma n_closing_push [simp]:
  "n_closing (push_turn_event ev h) = n_closing h + (if closing ev then 1 else 0)"
  "n_closing (push_tool_event tev h) = n_closing h"
  "n_closing (mark_done h) = n_closing h"
  by (simp_all add: n_closing_def push_turn_event_def push_tool_event_def mark_done_def)

lemma n_closing_new [simp]: "n_closing (turn_handle_new t c) = 0"
  by (simp add: n_closing_def turn_handle_new_def)

lemma n_closing_parts [simp]:
  "n_closing (push_thinking s h) = n_closing h" "n_closing (push_token s h) = n_closing h"
  "n_closing (emit_final_usage p c h) = n_closing h" "n_closing (push_steps steps h) = n_closing h"
  "n_closing (emit_unrecognised v salvage h) = n_closing h" "n_closing (maybe_emit_memory_written v call out h) = n_closing h"
proof -
  show "n_closing (push_steps steps h) = n_closing h"
    unfolding push_steps_def by (rule foldl_keeps) (simp add: split_def)
  show "n_closing (emit_unrecognised v salvage h) = n_closing h"
    unfolding emit_unrecognised_def by (rule foldl_keeps) simp
qed (simp_all add: push_thinking_def push_token_def emit_final_usage_def maybe_emit_memory_written_def Let_def split: option.split)

lemma n_closing_chunk: "n_closing (ra_handle (on_chunk tp tc chunk a)) = n_closing (ra_handle a)"
  by (simp add: on_chunk_def Let_def on_tick_def on_counts_def on_content_def split_def split: option.split)

lemma n_closing_stream: "n_closing (ra_handle (snd (read_stream tp tc items a))) = n_closing (ra_handle a)"
  by (induction tp tc items a rule: read_stream.induct) (simp_all add: n_closing_chunk)

lemma n_closing_flush: "n_closing (ra_handle (flush_splitter a)) = n_closing (ra_handle a)"
  by (simp add: flush_splitter_def split_def)

lemma n_closing_dedupe: "n_closing (tn_handle (snd (dedupe_and_maybe_emit v call st))) = n_closing (tn_handle st)"
  by (simp add: dedupe_and_maybe_emit_def Let_def)

lemma n_closing_tool: "n_closing (tn_handle (snd (run_one_tool v tier call st))) = n_closing (tn_handle st)"
  by (simp add: run_one_tool_def Let_def split_def split: option.split sum.split)

lemma n_closing_calls: "stream_calls d tier cs ms st = (b, ms', st') \<Longrightarrow> n_closing (tn_handle st') = n_closing (tn_handle st)"
proof (induction cs arbitrary: ms st)
  case (Cons call cs)
  obtain b1 st1 where dd: "dedupe_and_maybe_emit (dv_env d) call st = (b1, st1)" by fastforce
  obtain msg st2 where rr: "run_one_tool (dv_env d) tier call st1 = (msg, st2)" by fastforce
  have "n_closing (tn_handle st1) = n_closing (tn_handle st)" "n_closing (tn_handle st2) = n_closing (tn_handle st1)"
    using n_closing_dedupe [of "dv_env d" call st] n_closing_tool [of "dv_env d" tier call st1] dd rr by simp_all
  then show ?case
    using Cons.prems Cons.IH [of ms st1] Cons.IH [of "ms @ [msg]" st2] dd rr by (cases b1) (auto split: if_splits)
qed simp

definition ended_once :: "nat \<Rightarrow> 'w turn_st \<Rightarrow> bool" where
  "ended_once n st \<longleftrightarrow> th_done (tn_handle st) \<and> n_closing (tn_handle st) = n + 1 \<and> closing (last (th_turn_events (tn_handle st)))"

lemma ended_abort: "n_closing (tn_handle st) = n \<Longrightarrow> ended_once n (abort_turn reason err st)"
  by (simp add: ended_once_def abort_turn_def emit_aborted_def) (simp add: push_turn_event_def mark_done_def)

lemma ended_complete:
  "n_closing h = n \<Longrightarrow> ended_once n (st\<lparr>tn_handle := complete_turn str tp tc h, tn_world := s\<rparr>)"
  by (simp add: ended_once_def complete_turn_def Let_def) (simp add: push_turn_event_def mark_done_def)

lemma after_stream_end:
  assumes "n_closing (tn_handle st) = n"
  shows "case after_stream d q tp tc ms a st of TurnOver st1 \<Rightarrow> ended_once n st1 | NextRound ms1 st1 \<Rightarrow> n_closing (tn_handle st1) = n"
proof -
  obtain str calls h where dec: "decode_reply (dv_env d) (build_alias_map (tv_cfg (dv_env d)) (tv_reg (dv_env d))) (ra_answer a)
      (ra_native a) (tn_handle st) = (str, calls, h)" by (metis prod.exhaust)
  then have h: "n_closing h = n" using assms by (auto simp: decode_reply_def Let_def)
  let ?h1 = "push_token str (push_turn_event (Phase (th_turn_id h) RunningTools) h)"
  obtain b ms1 st1 where run: "stream_calls d (sq_tier q) calls (ms @ [assistant_message str calls]) (st\<lparr>tn_handle := ?h1\<rparr>) = (b, ms1, st1)"
    by (metis prod.exhaust)
  have "n_closing (tn_handle st1) = n" using n_closing_calls [OF run] h by simp
  then show ?thesis
    using h by (cases b) (simp_all add: after_stream_def dec run Let_def ended_complete ended_abort)
qed

lemma stream_rounds_end: "n_closing (tn_handle st) = n \<Longrightarrow> ended_once n (stream_rounds d q k ms tp tc st)"
proof (induction k arbitrary: ms tp tc st)
  case 0
  then show ?case by (simp add: ended_abort)
next
  case (Suc k)
  let ?st1 = "st\<lparr>tn_round := (tn_round st)\<lparr>rs_rounds := MAX_TOOL_LOOPS - k\<rparr>\<rparr>"
  let ?h = "push_turn_event (Phase (th_turn_id (tn_handle st)) Generating) (tn_handle st)"
  obtain items s' where strm: "dv_stream d (hc_ollama_service (tv_cfg (dv_env d))) ''ollama.chat_stream''
      (chat_body (dv_env d) (sq_input q) (sq_model q) True ms) (tn_world st) = (items, s')" by (metis prod.exhaust)
  obtain how a0 where read: "read_stream tp tc items (stream_acc_new ?h) = (how, a0)" by fastforce
  let ?a = "flush_splitter a0"
  let ?st2 = "?st1\<lparr>tn_handle := ra_handle ?a, tn_world := s'\<rparr>"
  have st2: "n_closing (tn_handle ?st2) = n"
    using n_closing_stream [of tp tc items "stream_acc_new ?h"] n_closing_flush [of a0] read Suc.prems
    by (simp add: stream_acc_new_def)
  show ?case
    using after_stream_end [OF st2, of d q "u64_add tp (unwrap_or 0 (ra_prompt ?a))"
        "u64_add tc (unwrap_or (ra_frames ?a) (ra_completion ?a))" ms ?a] Suc.IH Suc.prems st2
    by (auto simp: strm read Let_def ended_abort split: stream_end.split round_end.split round_end.split_asm)
qed

text \<open>C18: However the streams go, whatever is cancelled and whatever the tools do, a turn of the streaming driver is
  done in the end and has exactly one closing event, complete or aborted, which is its last.
\<close>

theorem stream_turn_ends_once:
  "ended_once 0 (drive_streaming_turn d q (turn_handle_new t c) s)"
  unfolding drive_streaming_turn_def Let_def
  by (rule stream_rounds_end) simp

section \<open>Cancelling\<close>

lemma n_events_push [simp]:
  "n_events (push_turn_event ev h) = n_events h + 1" "n_events (push_tool_event tev h) = n_events h + 1"
  by (simp_all add: n_events_def push_turn_event_def push_tool_event_def)

lemma n_events_thinking: "n_events h \<le> n_events (push_thinking s h)"
  by (simp add: push_thinking_def)

lemma acc_new_handle [simp]: "ra_handle (stream_acc_new h) = h"
  by (simp add: stream_acc_new_def)

lemma n_events_chunk: "n_events (ra_handle a) \<le> n_events (ra_handle (on_chunk tp tc chunk a))"
  by (simp add: on_chunk_def Let_def on_tick_def on_counts_def on_content_def split_def push_thinking_def split: option.split)

lemma n_events_stream: "n_events (ra_handle a) \<le> n_events (ra_handle (snd (read_stream tp tc items a)))"
  by (induction tp tc items a rule: read_stream.induct) (auto intro: order_trans [OF n_events_chunk])

lemma thinking_tools [simp]:
  "th_tool_events (push_thinking s h) = th_tool_events h" "th_turn_id (push_thinking s h) = th_turn_id h"
  by (simp_all add: push_thinking_def push_turn_event_def)

lemma chunk_tools:
  "th_tool_events (ra_handle (on_chunk tp tc chunk a)) = th_tool_events (ra_handle a)"
  "th_turn_id (ra_handle (on_chunk tp tc chunk a)) = th_turn_id (ra_handle a)"
  by (simp_all add: on_chunk_def Let_def on_tick_def on_counts_def on_content_def split_def push_turn_event_def split: option.split)

lemma stream_tools:
  "th_tool_events (ra_handle (snd (read_stream tp tc items a))) = th_tool_events (ra_handle a)"
  "th_turn_id (ra_handle (snd (read_stream tp tc items a))) = th_turn_id (ra_handle a)"
  by (induction tp tc items a rule: read_stream.induct) (simp_all add: chunk_tools)

lemma flush_tools [simp]:
  "th_tool_events (ra_handle (flush_splitter a)) = th_tool_events (ra_handle a)"
  "th_turn_id (ra_handle (flush_splitter a)) = th_turn_id (ra_handle a)"
  by (simp_all add: flush_splitter_def split_def)


section \<open>Both drivers do the same\<close>

text \<open>
  A stream carries a reply when it is cut out of it: the pieces of its content and its native calls put
  together are the reply's, and there is no inline reasoning; an error comes after any number of chunks.
\<close>

definition stream_carries :: "(ipc_error, json) rust_res \<Rightarrow> stream_item list \<Rightarrow> bool" where
  "stream_carries r items =
     (case r of
        Inl e \<Rightarrow> \<exists>cs. items = map Chunk cs @ [StreamErr e]
      | Inr up \<Rightarrow> \<exists>cs. items = map Chunk cs
          \<and> concat (List.map_filter extract_chunk_content cs) = extract_assistant_content up
          \<and> concat (map extract_native_tool_calls cs) = extract_native_tool_calls up
          \<and> find_sub OPEN (extract_assistant_content up) = None)"

definition fold_chunks :: "nat \<Rightarrow> nat \<Rightarrow> json list \<Rightarrow> stream_acc \<Rightarrow> stream_acc" where
  "fold_chunks tp tc cs a = foldl (\<lambda>a c. on_chunk tp tc c a) a cs"

lemma read_chunks: "read_stream tp tc (map Chunk cs @ items) a = read_stream tp tc items (fold_chunks tp tc cs a)"
  by (induction cs arbitrary: a) (simp_all add: fold_chunks_def)

lemma on_chunk_fields:
  "ra_native (on_chunk tp tc chunk a) = ra_native a @ extract_native_tool_calls chunk"
  "ra_answer (on_chunk tp tc chunk a) =
     (case extract_chunk_content chunk of None \<Rightarrow> ra_answer a | Some p \<Rightarrow> ra_answer a @ td_answer (fst (splitter_push p (ra_splitter a))))"
  "ra_splitter (on_chunk tp tc chunk a) =
     (case extract_chunk_content chunk of None \<Rightarrow> ra_splitter a | Some p \<Rightarrow> snd (splitter_push p (ra_splitter a)))"
  by (simp_all add: on_chunk_def Let_def on_tick_def on_counts_def on_content_def split_def split: option.split)

lemma fold_chunks_answer:
  "ra_answer (flush_splitter (fold_chunks tp tc cs a)) =
     ra_answer a @ td_answer (split_stream (ra_splitter a) (List.map_filter extract_chunk_content cs))"
proof (induction cs arbitrary: a)
  case (Cons c cs)
  then show ?case
    by (simp add: fold_chunks_def on_chunk_fields delta_add_def split: option.split)
qed (simp add: fold_chunks_def flush_splitter_def split_def)

lemma fold_chunks_native: "ra_native (fold_chunks tp tc cs a) = ra_native a @ concat (map extract_native_tool_calls cs)"
  by (induction cs arbitrary: a) (simp_all add: fold_chunks_def on_chunk_fields)

lemma flush_native [simp]: "ra_native (flush_splitter a) = ra_native a"
  by (simp add: flush_splitter_def split_def)

lemma plain_split: "find_sub OPEN (concat ps) = None \<Longrightarrow> td_answer (split_stream splitter_new ps) = concat ps"
  using split_stream_whole [of splitter_new ps]
  by (simp add: splitter_new_def split_whole.simps [of False] think_marker_def route_text_def delta_default_def OPEN_def)

text \<open>What the two drivers share at every moment; their turn events differ.\<close>

definition same_turn :: "'w turn_st \<Rightarrow> 'w turn_st \<Rightarrow> bool" where
  "same_turn a b \<longleftrightarrow> th_tool_events (tn_handle a) = th_tool_events (tn_handle b)
     \<and> th_turn_id (tn_handle a) = th_turn_id (tn_handle b) \<and> tn_round a = tn_round b \<and> tn_world a = tn_world b"

lemma same_push:
  "th_tool_events (push_tool_event ev h) = th_tool_events h @ [ev]" "th_tool_events (push_turn_event tev h) = th_tool_events h"
  by (simp_all add: push_tool_event_def push_turn_event_def)

lemma memory_same:
  assumes "th_tool_events h = th_tool_events h'" and "th_turn_id h = th_turn_id h'"
  shows "th_tool_events (maybe_emit_memory_written v call out h) = th_tool_events (maybe_emit_memory_written v call out h')
    \<and> th_turn_id (maybe_emit_memory_written v call out h) = th_turn_id (maybe_emit_memory_written v call out h')"
  using assms by (simp add: maybe_emit_memory_written_def Let_def same_push split: option.split)

lemma same_tool:
  assumes "same_turn a b"
  shows "fst (run_one_tool v tier call a) = fst (run_one_tool v tier call b)
    \<and> same_turn (snd (run_one_tool v tier call a)) (snd (run_one_tool v tier call b))"
proof (cases "check_tier_gate (tv_henv v (length (th_tool_events (tn_handle b)))) tier (cl_name call) (tv_reg v)")
  case (Some block)
  then show ?thesis
    using assms by (simp add: run_one_tool_def Let_def same_turn_def same_push split_def)
next
  case None
  let ?w = "tv_henv v (length (th_tool_events (tn_handle b)))"
  obtain r reason s' where call: "call_routed v ?w tier call (tn_world b) = ((r, reason), s')" by (metis prod.exhaust)
  show ?thesis
  proof (cases r)
    case (Inl e)
    then show ?thesis using assms None call by (simp add: run_one_tool_def Let_def same_turn_def same_push)
  next
    case (Inr out)
    have "th_tool_events (push_tool_event ev2 (push_tool_event ev1 (tn_handle a))) =
        th_tool_events (push_tool_event ev2 (push_tool_event ev1 (tn_handle b)))" for ev1 ev2
      using assms by (simp add: same_turn_def same_push)
    note mem = memory_same [OF this]
    show ?thesis using Inr assms None call by (simp add: run_one_tool_def Let_def same_turn_def mem)
  qed
qed

lemma same_dedupe:
  assumes "same_turn a b"
  shows "fst (dedupe_and_maybe_emit v call a) = fst (dedupe_and_maybe_emit v call b)
    \<and> same_turn (snd (dedupe_and_maybe_emit v call a)) (snd (dedupe_and_maybe_emit v call b))"
  using assms by (simp add: dedupe_and_maybe_emit_def Let_def same_turn_def same_push)

lemma same_calls:
  assumes "\<And>n. \<not> dv_cancelled d n" and "same_turn a b"
  shows "case (run_calls (dv_env d) tier cs ms a, stream_calls d tier cs ms b) of
    ((ms1, a1), (stop, ms2, b1)) \<Rightarrow> \<not> stop \<and> ms1 = ms2 \<and> same_turn a1 b1"
  using assms(2)
proof (induction cs arbitrary: ms a b)
  case (Cons call cs)
  obtain x a1 where da: "dedupe_and_maybe_emit (dv_env d) call a = (x, a1)" by fastforce
  obtain y b1 where db: "dedupe_and_maybe_emit (dv_env d) call b = (y, b1)" by fastforce
  have yx: "y = x" and ab1: "same_turn a1 b1"
    using same_dedupe [OF Cons.prems, of "dv_env d" call] by (simp_all add: da db)
  obtain msg a2 where ra: "run_one_tool (dv_env d) tier call a1 = (msg, a2)" by fastforce
  obtain msg' b2 where rb: "run_one_tool (dv_env d) tier call b1 = (msg', b2)" by fastforce
  have mm: "msg' = msg" and ab2: "same_turn a2 b2"
    using same_tool [OF ab1, of "dv_env d" tier call] by (simp_all add: ra rb)
  show ?case
    using Cons.IH [OF ab1, of ms] Cons.IH [OF ab2, of "ms @ [msg]"] assms(1) by (cases x) (simp_all add: da db ra rb yx mm)
qed simp

text \<open>How the streaming driver reports what the loop of the synchronous one ends with.\<close>

definition reported :: "bool \<Rightarrow> string \<Rightarrow> loop_result \<Rightarrow> turn_event" where
  "reported degraded t r =
     (if lr_completed r then TurnComplete t (apply_degraded_notice (lr_final_text r) degraded)
      else case lr_abort r of
        Some (why, e) \<Rightarrow> TurnAborted t why (Some e)
      | None \<Rightarrow> TurnAborted t ToolLoopLimit (Some (''exceeded '' @ nat_str MAX_TOOL_LOOPS
          @ '' tool-call iterations without a final response'')))"

definition same_end :: "'w stream_req \<Rightarrow> loop_result \<Rightarrow> 'w turn_st \<Rightarrow> 'w turn_st \<Rightarrow> bool" where
  "same_end q r a b \<longleftrightarrow> th_tool_events (tn_handle b) = th_tool_events (tn_handle a) \<and> tn_round b = tn_round a
     \<and> tn_world b = (if lr_completed r then post_turn q (lr_final_text r) (tn_world a) else tn_world a)
     \<and> last (th_turn_events (tn_handle b)) = reported (ti_degraded (sq_input q)) (th_turn_id (tn_handle a)) r"

definition drivers_linked :: "'w stream_env \<Rightarrow> bool" where
  "drivers_linked d \<longleftrightarrow> (\<forall>ti model ms s.
     stream_carries
       (fst (tv_ipc (dv_env d) (hc_ollama_service (tv_cfg (dv_env d))) ''ollama.chat'' (chat_body (dv_env d) ti model False ms) s))
       (fst (dv_stream d (hc_ollama_service (tv_cfg (dv_env d))) ''ollama.chat_stream'' (chat_body (dv_env d) ti model True ms) s))
     \<and> snd (tv_ipc (dv_env d) (hc_ollama_service (tv_cfg (dv_env d))) ''ollama.chat'' (chat_body (dv_env d) ti model False ms) s)
       = snd (dv_stream d (hc_ollama_service (tv_cfg (dv_env d))) ''ollama.chat_stream'' (chat_body (dv_env d) ti model True ms) s))"

lemma turn_id_parts [simp]:
  "th_turn_id (push_token s h) = th_turn_id h" "th_turn_id (emit_final_usage p c h) = th_turn_id h"
  "th_tool_events (push_token s h) = th_tool_events h" "th_tool_events (emit_final_usage p c h) = th_tool_events h"
  "th_tool_events (mark_done h) = th_tool_events h" "th_turn_events (mark_done h) = th_turn_events h"
  by (simp_all add: push_token_def emit_final_usage_def push_turn_event_def mark_done_def)

lemma unrecognised_same:
  assumes "th_tool_events h = th_tool_events h'" and "th_turn_id h = th_turn_id h'"
  shows "th_tool_events (emit_unrecognised v salvage h) = th_tool_events (emit_unrecognised v salvage h')
    \<and> th_turn_id (emit_unrecognised v salvage h) = th_turn_id (emit_unrecognised v salvage h')"
proof -
  have "th_tool_events (foldl (\<lambda>h u. push_tool_event (f h u) h) h us) = th_tool_events (foldl (\<lambda>h u. push_tool_event (f h u) h) h' us)
      \<and> th_turn_id (foldl (\<lambda>h u. push_tool_event (f h u) h) h us) = th_turn_id (foldl (\<lambda>h u. push_tool_event (f h u) h) h' us)"
    if "\<And>h h' u. th_tool_events h = th_tool_events h' \<Longrightarrow> th_turn_id h = th_turn_id h' \<Longrightarrow> f h u = f h' u" for f us
    using assms
  proof (induction us arbitrary: h h')
    case (Cons u us)
    then show ?case using that [OF Cons.prems] by (simp add: same_push)
  qed simp
  from this [of "\<lambda>h u. ToolError (th_turn_id h) (uc_id u) (uc_name u)
       (''model emitted tool call '' @ he_debug (tv_henv v (length (th_tool_events h))) (uc_name u)
         @ '' in content but the name doesn't resolve to a known tool'') (Some ToolCallTextUnrecognised) 0"]
  show ?thesis unfolding emit_unrecognised_def by simp
qed

lemma read_carried:
  assumes "stream_carries r items"
  obtains acc where "read_stream tp tc items (stream_acc_new h) =
      (case r of Inl e \<Rightarrow> StreamFailed (ie_code e @ '': '' @ ie_message e) | Inr up \<Rightarrow> StreamClosed, acc)"
    "th_tool_events (ra_handle acc) = th_tool_events h" "th_turn_id (ra_handle acc) = th_turn_id h"
    "\<forall>up. r = Inr up \<longrightarrow> ra_answer (flush_splitter acc) = extract_assistant_content up
      \<and> ra_native acc = extract_native_tool_calls up"
proof -
  obtain how acc where read: "read_stream tp tc items (stream_acc_new h) = (how, acc)" by fastforce
  note tools = stream_tools [of tp tc items "stream_acc_new h", unfolded read snd_conv acc_new_handle]
  show thesis
  proof (cases r)
    case (Inl e)
    then obtain cs where "items = map Chunk cs @ [StreamErr e]" using assms by (auto simp: stream_carries_def)
    then show thesis using that tools read Inl by (auto simp: read_chunks)
  next
    case (Inr up)
    then obtain cs where cs: "items = map Chunk cs @ []" "concat (List.map_filter extract_chunk_content cs) = extract_assistant_content up"
        "concat (map extract_native_tool_calls cs) = extract_native_tool_calls up" "find_sub OPEN (extract_assistant_content up) = None"
      using assms by (auto simp: stream_carries_def)
    have acc: "how = StreamClosed" "acc = fold_chunks tp tc cs (stream_acc_new h)"
      using read unfolding cs(1) read_chunks by simp_all
    have "ra_answer (flush_splitter acc) = extract_assistant_content up" "ra_native acc = extract_native_tool_calls up"
      unfolding acc fold_chunks_answer fold_chunks_native
      using plain_split [of "List.map_filter extract_chunk_content cs"] cs(2-4) by (simp_all add: stream_acc_new_def)
    then show thesis using that tools read Inr acc(1) by auto
  qed
qed

lemma drivers_agree_rounds:
  assumes alive: "\<And>n. \<not> dv_cancelled d n" and linked: "drivers_linked d" and "same_turn a b"
    and "run_rounds (dv_env d) (sq_input q) (sq_model q) (sq_tier q) k ms final_text a = (r, a')"
  shows "same_end q r a' (stream_rounds d q k ms tp tc b)"
  using assms(3,4)
proof (induction k arbitrary: ms final_text a b tp tc)
  case 0
  then show ?case
    by (auto simp: same_end_def same_turn_def reported_def abort_turn_def emit_aborted_def same_push push_turn_event_def)
next
  case (Suc k)
  let ?v = "dv_env d" and ?svc = "hc_ollama_service (tv_cfg (dv_env d))"
  let ?up = "\<lambda>st. st\<lparr>tn_round := (tn_round st)\<lparr>rs_rounds := MAX_TOOL_LOOPS - k\<rparr>\<rparr>"
  let ?h = "push_turn_event (Phase (th_turn_id (tn_handle b)) Generating) (tn_handle b)"
  obtain x s' where reply: "tv_ipc ?v ?svc ''ollama.chat'' (chat_body ?v (sq_input q) (sq_model q) False ms) (tn_world a) = (x, s')"
    by (metis prod.exhaust)
  have ab: "tn_world b = tn_world a" "th_tool_events (tn_handle b) = th_tool_events (tn_handle a)"
    "th_turn_id (tn_handle b) = th_turn_id (tn_handle a)" "tn_round b = tn_round a"
    using Suc.prems(1) by (simp_all add: same_turn_def)
  obtain items s2 where strm: "dv_stream d ?svc ''ollama.chat_stream'' (chat_body ?v (sq_input q) (sq_model q) True ms) (tn_world a) = (items, s2)"
    by (metis prod.exhaust)
  have carries: "stream_carries x items" and s2: "s2 = s'"
    using linked [unfolded drivers_linked_def, rule_format, of "sq_input q" "sq_model q" ms "tn_world a"] by (simp_all add: reply strm)
  obtain acc where read: "read_stream tp tc items (stream_acc_new ?h) =
      (case x of Inl e \<Rightarrow> StreamFailed (ie_code e @ '': '' @ ie_message e) | Inr up \<Rightarrow> StreamClosed, acc)"
    and tools: "th_tool_events (ra_handle acc) = th_tool_events ?h" "th_turn_id (ra_handle acc) = th_turn_id ?h"
    and whole: "\<forall>up. x = Inr up \<longrightarrow> ra_answer (flush_splitter acc) = extract_assistant_content up
      \<and> ra_native acc = extract_native_tool_calls up"
    by (rule read_carried [OF carries, of tp tc ?h])
  note tools = tools [unfolded same_push push_turn_id ab]
  show ?case
  proof (cases x)
    case (Inl e)
    have "stream_rounds d q (Suc k) ms tp tc b = abort_turn AbortError (Some (ie_code e @ '': '' @ ie_message e))
        ((?up b)\<lparr>tn_handle := ra_handle (flush_splitter acc), tn_world := s'\<rparr>)"
      using alive by (simp add: ab strm s2 read [unfolded ab] Inl Let_def)
    then show ?thesis
      using Suc.prems(2) reply Inl
      by (auto simp: ab same_end_def reported_def abort_turn_def emit_aborted_def tools same_push Let_def)
        (simp add: push_turn_event_def tools)
  next
    case (Inr up)
    let ?hs = "ra_handle (flush_splitter acc)"
    let ?dec = "decode_reply ?v (build_alias_map (tv_cfg ?v) (tv_reg ?v)) (extract_assistant_content up) (extract_native_tool_calls up)"
    obtain cleaned cs h1 where dec1: "?dec (tn_handle a) = (cleaned, cs, h1)" by (metis prod.exhaust)
    define h2 where "h2 = snd (snd (?dec ?hs))"
    have dec2: "?dec ?hs = (cleaned, cs, h2)" using dec1 by (auto simp: h2_def decode_reply_def Let_def)
    have h12: "th_tool_events h2 = th_tool_events h1" "th_turn_id h2 = th_turn_id h1"
      using dec1 dec2 unrecognised_same [of ?hs "tn_handle a" ?v] by (auto simp: decode_reply_def Let_def tools)
    let ?st = "(?up b)\<lparr>tn_handle := ?hs, tn_world := s'\<rparr>"
    let ?tp = "u64_add tp (unwrap_or 0 (ra_prompt (flush_splitter acc)))"
    let ?tc = "u64_add tc (unwrap_or (ra_frames (flush_splitter acc)) (ra_completion (flush_splitter acc)))"
    have dec: "decode_reply ?v (build_alias_map (tv_cfg ?v) (tv_reg ?v)) (ra_answer (flush_splitter acc))
        (ra_native (flush_splitter acc)) (tn_handle ?st) = (cleaned, cs, h2)"
      using whole Inr dec2 by simp
    have rounds: "stream_rounds d q (Suc k) ms tp tc b =
        (case after_stream d q ?tp ?tc ms (flush_splitter acc) ?st of
           TurnOver st3 \<Rightarrow> st3 | NextRound ms1 st3 \<Rightarrow> stream_rounds d q k ms1 ?tp ?tc st3)"
      using alive by (simp add: ab strm s2 read [unfolded ab] Inr Let_def)
    show ?thesis
    proof (cases "cs = []")
      case True
      then show ?thesis
        using Suc.prems(2) reply Inr dec1 h12 ab(4) unfolding rounds after_stream_def dec
        by (auto simp: Let_def same_end_def reported_def complete_turn_def same_push push_turn_event_def
            push_token_def emit_final_usage_def mark_done_def)
    next
      case False
      let ?hb = "push_token cleaned (push_turn_event (Phase (th_turn_id h2) RunningTools) h2)"
      let ?a2 = "(?up a)\<lparr>tn_handle := h1, tn_world := s'\<rparr>" and ?b2 = "?st\<lparr>tn_handle := ?hb\<rparr>"
      have "same_turn ?a2 ?b2" using h12 ab(4) by (simp add: same_turn_def same_push)
      note same = same_calls [OF alive this, of "sq_tier q" cs "ms @ [assistant_message cleaned cs]"]
      obtain ms1 a3 where run1: "run_calls ?v (sq_tier q) cs (ms @ [assistant_message cleaned cs]) ?a2 = (ms1, a3)" by fastforce
      obtain b3 where run2: "stream_calls d (sq_tier q) cs (ms @ [assistant_message cleaned cs]) ?b2 = (False, ms1, b3)"
        and ab3: "same_turn a3 b3"
        using same run1 by (auto split: prod.split_asm)
      show ?thesis
        using Suc.IH [OF ab3, of ms1 cleaned] Suc.prems(2) reply Inr dec1 False run1 run2
        unfolding rounds after_stream_def dec by (simp add: Let_def)
    qed
  qed
qed


text \<open>A service that answers in one piece or in two, and that nobody cancels.\<close>

definition reply_of :: "string \<Rightarrow> json" where
  "reply_of str = JObj [(''message'', JObj [(''content'', JStr str)])]"

definition polite_env :: "nat stream_env" where
  "polite_env = \<lparr>dv_env = stubborn_env\<lparr>tv_ipc := \<lambda>service action body s. (Inr (reply_of ''Hi''), s)\<rparr>,
     dv_stream = (\<lambda>service action body s. ([Chunk (reply_of ''H''), Chunk (reply_of ''i'')], s)), dv_cancelled = (\<lambda>n. False)\<rparr>"

definition polite_req :: "nat stream_req" where
  "polite_req = \<lparr>sq_input = plain_input, sq_conversation_id = ''c'', sq_workspace_id = None, sq_model = ''m'',
     sq_user_message = ''Hello'', sq_tier = TIER_TOOL_USE\<rparr>"

lemma Hi_extract: "extract_tool_calls_from_content (sample_salv []) aliases ''Hi''
    = \<lparr>sr_cleaned_text = ''Hi'', sr_recovered = [], sr_unrecognised = []\<rparr>"
  by (simp add: extract_tool_calls_from_content_def sample_salv_def replace_regex_def tag_patterns_def
      find_balanced_braces_def find_braces_from.simps strip_spans_def)
    (simp add: trim_def trim_start.simps trim_end.simps ws_len_def ws_len_end_def)

lemma polite_loop:
  "run_turn_loop (dv_env polite_env) (sq_input polite_req) (JObj []) (sq_user_message polite_req) (turn_handle_new ''t'' ''c'') s
     = (\<lparr>lr_final_text = ''Hi'', lr_completed = True, lr_abort = None\<rparr>,
        \<lparr>tn_handle = turn_handle_new ''t'' ''c'', tn_round = round_state_new\<lparr>rs_rounds := 1\<rparr>, tn_world = s\<rparr>)"
proof -
  have "MAX_TOOL_LOOPS = Suc 7" by (simp add: MAX_TOOL_LOOPS_def)
  then show ?thesis
    unfolding run_turn_loop_def \<open>MAX_TOOL_LOOPS = Suc 7\<close> run_rounds.simps
    by (simp add: polite_env_def polite_req_def plain_input_def stubborn_env_def decode_reply_def
        reply_of_def extract_assistant_content_def extract_native_tool_calls_def native_tool_calls_def
        recovered_to_calls_def emit_unrecognised_def Hi_extract push_steps_def Let_def)
qed



section \<open>No repeated call\<close>

lemma turn_inv_same:
  "dispatched_calls h' = dispatched_calls (tn_handle st)
     \<Longrightarrow> turn_inv v (st\<lparr>tn_handle := h', tn_world := s\<rparr>) = turn_inv v st \<and> turn_inv v (st\<lparr>tn_handle := h'\<rparr>) = turn_inv v st"
  by (simp add: turn_inv_def)

lemma turn_inv_stream_calls: "turn_inv (dv_env d) st \<Longrightarrow> turn_inv (dv_env d) (snd (snd (stream_calls d tier cs ms st)))"
proof (induction cs arbitrary: ms st)
  case (Cons call cs)
  obtain b st1 where dd: "dedupe_and_maybe_emit (dv_env d) call st = (b, st1)" by fastforce
  obtain msg st2 where rr: "run_one_tool (dv_env d) tier call st1 = (msg, st2)" by fastforce
  have "turn_inv (dv_env d) (snd (run_calls (dv_env d) tier [call] ms st))" by (rule turn_inv_calls [OF Cons.prems])
  then have "if b then turn_inv (dv_env d) st1 else turn_inv (dv_env d) st2" by (cases b) (simp_all add: dd rr)
  then show ?case using Cons by (cases b) (simp_all add: dd rr)
qed simp

lemma dispatched_stream:
  "th_tool_events h = th_tool_events h' \<Longrightarrow> dispatched_calls h = dispatched_calls h'"
  by (simp add: dispatched_calls_def)

lemma turn_inv_abort [simp]: "turn_inv v (abort_turn reason err st) = turn_inv v st"
  by (simp add: turn_inv_def abort_turn_def emit_aborted_def dispatched_calls_def mark_done_def push_turn_event_def)

lemma turn_inv_after_stream:
  assumes "turn_inv (dv_env d) st"
  shows "case after_stream d q tp tc ms a st of TurnOver st1 \<Rightarrow> turn_inv (dv_env d) st1 | NextRound ms1 st1 \<Rightarrow> turn_inv (dv_env d) st1"
proof -
  obtain str calls h where dec: "decode_reply (dv_env d) (build_alias_map (tv_cfg (dv_env d)) (tv_reg (dv_env d))) (ra_answer a)
      (ra_native a) (tn_handle st) = (str, calls, h)" by (metis prod.exhaust)
  then have h: "dispatched_calls h = dispatched_calls (tn_handle st)" by (auto simp: decode_reply_def Let_def)
  let ?h1 = "push_token str (push_turn_event (Phase (th_turn_id h) RunningTools) h)"
  have h1: "dispatched_calls ?h1 = dispatched_calls (tn_handle st)"
    using h by (simp add: push_token_def)
  have h2: "dispatched_calls (complete_turn x tp tc h) = dispatched_calls (tn_handle st)" for x
    using h by (simp add: complete_turn_def Let_def dispatched_calls_def same_push)
  obtain b ms1 st1 where run: "stream_calls d (sq_tier q) calls (ms @ [assistant_message str calls]) (st\<lparr>tn_handle := ?h1\<rparr>) = (b, ms1, st1)"
    by (metis prod.exhaust)
  have "turn_inv (dv_env d) (st\<lparr>tn_handle := ?h1\<rparr>)" using turn_inv_same [OF h1] assms by blast
  from turn_inv_stream_calls [OF this, of "sq_tier q" calls "ms @ [assistant_message str calls]"]
  have "turn_inv (dv_env d) st1" by (simp add: run)
  then show ?thesis
    using assms turn_inv_same [OF h2] by (cases b) (simp_all add: after_stream_def dec run Let_def)
qed

lemma turn_inv_stream_rounds: "turn_inv (dv_env d) st \<Longrightarrow> turn_inv (dv_env d) (stream_rounds d q k ms tp tc st)"
proof (induction k arbitrary: ms tp tc st)
  case (Suc k)
  let ?st1 = "st\<lparr>tn_round := (tn_round st)\<lparr>rs_rounds := MAX_TOOL_LOOPS - k\<rparr>\<rparr>"
  let ?h = "push_turn_event (Phase (th_turn_id (tn_handle st)) Generating) (tn_handle st)"
  obtain items s' where strm: "dv_stream d (hc_ollama_service (tv_cfg (dv_env d))) ''ollama.chat_stream''
      (chat_body (dv_env d) (sq_input q) (sq_model q) True ms) (tn_world st) = (items, s')" by (metis prod.exhaust)
  obtain how a0 where read: "read_stream tp tc items (stream_acc_new ?h) = (how, a0)" by fastforce
  let ?a = "flush_splitter a0"
  have "th_tool_events (ra_handle ?a) = th_tool_events (tn_handle st)"
    using stream_tools(1) [of tp tc items "stream_acc_new ?h", unfolded read snd_conv] by (simp add: same_push)
  then have inv: "turn_inv (dv_env d) (?st1\<lparr>tn_handle := ra_handle ?a, tn_world := s'\<rparr>)"
    using Suc.prems by (simp add: turn_inv_def dispatched_calls_def)
  moreover have "turn_inv (dv_env d) ?st1" using Suc.prems by (simp add: turn_inv_def)
  ultimately show ?case
    using turn_inv_after_stream [OF inv, of q "u64_add tp (unwrap_or 0 (ra_prompt ?a))"
        "u64_add tc (unwrap_or (ra_frames ?a) (ra_completion ?a))" ms ?a] Suc.IH
    by (auto simp: strm read Let_def split: stream_end.split round_end.split round_end.split_asm)
qed simp

text \<open>Nor does the streaming driver dispatch a call twice in a turn.\<close>

theorem stream_never_repeats_call:
  "distinct (map (call_key (dv_env d)) (dispatched_calls (tn_handle (drive_streaming_turn d q (turn_handle_new t c) s))))"
proof -
  have "turn_inv (dv_env d) (drive_streaming_turn d q (turn_handle_new t c) s)"
    unfolding drive_streaming_turn_def Let_def
    by (rule turn_inv_stream_rounds) (simp add: turn_inv_def round_state_new_def)
  then show ?thesis by (simp add: turn_inv_def)
qed

end
