(* ===== verification/Ipc_Wire.thy ===== *)
theory Ipc_Wire
  imports Wire
begin

text \<open>
  The wire format of the named pipes (\<open>wylde-shared/src/ipc/wire.rs\<close>, and the envelope
  shapes at the head of \<open>server.rs\<close> and \<open>client.rs\<close>): frames of a big-endian length and a
  body, the reply and chunk records, and what \<open>serde\<close> writes and reads for each shape.
  A body is the MessagePack form of a JSON value; that encoding is a parameter, \<open>codec\<close>. A
  value that is not a map is refused where a structure is expected: \<open>serde\<close> would read an
  array by position, which no peer of the pipes sends.
  The locale \<open>self_delimiting\<close> states what reading back a sequence of items rests on; it is
  interpreted on the frames.
\<close>

section \<open>Frames\<close>

definition IPC_VERSION :: nat where
  "IPC_VERSION = 1"

definition MAX_FRAME_SIZE :: nat where
  "MAX_FRAME_SIZE = 64 * 1024 * 1024"

definition STREAM_HEARTBEAT_SECS :: nat where
  "STREAM_HEARTBEAT_SECS = 25"

datatype io_error = UnexpectedEof | FrameSize nat | OtherIo string

text \<open>The text of an error; \<open>what\<close> names the frame that was read.\<close>

fun io_text :: "string \<Rightarrow> io_error \<Rightarrow> string" where
  "io_text what UnexpectedEof = ''early eof''"
| "io_text what (FrameSize n) = what @ '' size out of range: '' @ nat_str n"
| "io_text what (OtherIo t) = t"

definition read_exact :: "nat \<Rightarrow> byte list \<Rightarrow> (io_error, byte list \<times> byte list) rust_res" where
  "read_exact n inp = (if n \<le> length inp then Inr (take n inp, drop n inp) else Inl UnexpectedEof)"

text \<open>The length is cast to \<open>u32\<close>, which cuts it off.\<close>

definition encode_frame :: "byte list \<Rightarrow> byte list" where
  "encode_frame payload = to_be32 (word_of_nat (length payload)) @ payload"

definition frame_len :: "byte list \<Rightarrow> nat" where
  "frame_len header = unat (from_be32 (header ! 0) (header ! 1) (header ! 2) (header ! 3))"

definition decode_frame :: "byte list \<Rightarrow> (io_error, byte list \<times> byte list) rust_res" where
  "decode_frame inp =
     (case read_exact 4 inp of
        Inl e \<Rightarrow> Inl e
      | Inr (header, body) \<Rightarrow>
          let n = frame_len header
          in if n = 0 \<or> MAX_FRAME_SIZE < n then Inl (FrameSize n) else read_exact n body)"

text \<open>A name with or without the prefix gives the same pipe.\<close>

definition pipe_name :: "string \<Rightarrow> string" where
  "pipe_name service =
     (let bare = unwrap_or service (strip_prefix ''wylde-'' service)
      in [CHR 0x5C, CHR 0x5C] @ ''.'' @ [CHR 0x5C] @ ''pipe'' @ [CHR 0x5C] @ ''wylde-'' @ bare)"

section \<open>Replies and chunks\<close>

record ipc_reply =
  rp_ok :: bool
  rp_data :: json
  rp_error :: "ipc_error option"
  rp_transport :: string

definition ipc_error_new :: "string \<Rightarrow> string \<Rightarrow> ipc_error" where
  "ipc_error_new code message = \<lparr>ie_code = code, ie_message = message, ie_details = None\<rparr>"

definition reply_ok :: "json \<Rightarrow> ipc_reply" where
  "reply_ok data = \<lparr>rp_ok = True, rp_data = data, rp_error = None, rp_transport = []\<rparr>"

definition reply_err :: "ipc_error \<Rightarrow> ipc_reply" where
  "reply_err e = \<lparr>rp_ok = False, rp_data = JNull, rp_error = Some e, rp_transport = []\<rparr>"

definition reply_err_msg :: "string \<Rightarrow> string \<Rightarrow> ipc_reply" where
  "reply_err_msg code message = reply_err (ipc_error_new code message)"

record chunk_frame =
  ck_id :: string
  ck_seq :: "32 word"
  ck_payload :: json
  ck_done :: bool
  ck_ok :: bool
  ck_error :: "ipc_error option"

section \<open>What serde writes\<close>

text \<open>\<open>skip_serializing_if\<close>: a field that is absent, or null, is left out.\<close>

definition opt_field :: "string \<Rightarrow> ('a \<Rightarrow> json) \<Rightarrow> 'a option \<Rightarrow> (string \<times> json) list" where
  "opt_field k f x = (case x of None \<Rightarrow> [] | Some v \<Rightarrow> [(k, f v)])"

definition null_skip :: "string \<Rightarrow> json \<Rightarrow> (string \<times> json) list" where
  "null_skip k v = (if v = JNull then [] else [(k, v)])"

definition ser_ipc_error :: "ipc_error \<Rightarrow> json" where
  "ser_ipc_error e = JObj ([(''code'', JStr (ie_code e)), (''message'', JStr (ie_message e))]
     @ opt_field ''details'' id (ie_details e))"

definition ser_chunk :: "chunk_frame \<Rightarrow> json" where
  "ser_chunk f = JObj ([(''id'', JStr (ck_id f)), (''seq'', JInt (uint (ck_seq f)))]
     @ null_skip ''payload'' (ck_payload f)
     @ [(''done'', JBool (ck_done f)), (''ok'', JBool (ck_ok f))]
     @ opt_field ''error'' ser_ipc_error (ck_error f))"

section \<open>What serde reads\<close>

text \<open>\<open>req_field\<close> must be there, \<open>dflt_field\<close> has a default; an \<open>Option\<close> reads null as \<open>None\<close>.\<close>

definition req_field :: "string \<Rightarrow> (json \<Rightarrow> 'a option) \<Rightarrow> (string \<times> json) list \<Rightarrow> 'a option" where
  "req_field k f m = Option.bind (map_of m k) f"

definition dflt_field :: "'a \<Rightarrow> string \<Rightarrow> (json \<Rightarrow> 'a option) \<Rightarrow> (string \<times> json) list \<Rightarrow> 'a option" where
  "dflt_field d k f m = (case map_of m k of None \<Rightarrow> Some d | Some v \<Rightarrow> f v)"

definition de_opt :: "(json \<Rightarrow> 'a option) \<Rightarrow> json \<Rightarrow> 'a option option" where
  "de_opt f v = (if v = JNull then Some None else map_option Some (f v))"

fun de_u32 :: "json \<Rightarrow> (32 word) option" where
  "de_u32 (JInt i) = (if 0 \<le> i \<and> i < 2 ^ 32 then Some (word_of_int i) else None)"
| "de_u32 _ = None"

fun de_ipc_error :: "json \<Rightarrow> ipc_error option" where
  "de_ipc_error (JObj m) = do {
     code \<leftarrow> req_field ''code'' as_str m;
     message \<leftarrow> req_field ''message'' as_str m;
     details \<leftarrow> dflt_field None ''details'' (de_opt Some) m;
     Some \<lparr>ie_code = code, ie_message = message, ie_details = details\<rparr> }"
| "de_ipc_error _ = None"

fun de_chunk :: "json \<Rightarrow> chunk_frame option" where
  "de_chunk (JObj m) = do {
     i \<leftarrow> req_field ''id'' as_str m;
     seq \<leftarrow> req_field ''seq'' de_u32 m;
     payload \<leftarrow> dflt_field JNull ''payload'' Some m;
     dn \<leftarrow> req_field ''done'' as_bool m;
     ok \<leftarrow> dflt_field True ''ok'' as_bool m;
     err \<leftarrow> dflt_field None ''error'' (de_opt de_ipc_error) m;
     Some \<lparr>ck_id = i, ck_seq = seq, ck_payload = payload, ck_done = dn, ck_ok = ok, ck_error = err\<rparr> }"
| "de_chunk _ = None"

section \<open>The envelopes\<close>

text \<open>What the client sends: the handshake and the request.\<close>

record handshake_frame =
  hf_wylde_ipc :: nat
  hf_caller :: string
  hf_service :: string

record request_envelope =
  rq_ver :: nat
  rq_id :: string
  rq_method :: string
  rq_http_verb :: string
  rq_data :: json
  rq_deadline_ms :: nat
  rq_caller :: string

definition ser_handshake :: "handshake_frame \<Rightarrow> json" where
  "ser_handshake h = JObj [(''wylde_ipc'', JInt (int (hf_wylde_ipc h))), (''caller'', JStr (hf_caller h)),
     (''service'', JStr (hf_service h))]"

definition ser_request :: "request_envelope \<Rightarrow> json" where
  "ser_request q = JObj [(''ver'', JInt (int (rq_ver q))), (''id'', JStr (rq_id q)), (''method'', JStr (rq_method q)),
     (''http_verb'', JStr (rq_http_verb q)), (''data'', rq_data q),
     (''meta'', JObj [(''deadline_ms'', JInt (int (rq_deadline_ms q))), (''caller'', JStr (rq_caller q))])]"

text \<open>What the server reads of either, every field optional.\<close>

record incoming_frame =
  in_wylde_ipc :: "(32 word) option"
  in_id :: "string option"
  in_method :: "string option"
  in_http_verb :: "string option"
  in_data :: json

fun de_incoming :: "json \<Rightarrow> incoming_frame option" where
  "de_incoming (JObj m) = do {
     ver \<leftarrow> dflt_field None ''wylde_ipc'' (de_opt de_u32) m;
     i \<leftarrow> dflt_field None ''id'' (de_opt as_str) m;
     method \<leftarrow> dflt_field None ''method'' (de_opt as_str) m;
     verb \<leftarrow> dflt_field None ''http_verb'' (de_opt as_str) m;
     data \<leftarrow> dflt_field JNull ''data'' Some m;
     Some \<lparr>in_wylde_ipc = ver, in_id = i, in_method = method, in_http_verb = verb, in_data = data\<rparr> }"
| "de_incoming _ = None"

text \<open>What the server sends.\<close>

definition ser_handshake_ack :: "string \<Rightarrow> json" where
  "ser_handshake_ack service =
     JObj [(''wylde_ipc'', JInt (int IPC_VERSION)), (''ok'', JBool True), (''service'', JStr service)]"

definition ser_handshake_reject :: "ipc_error \<Rightarrow> string \<Rightarrow> json" where
  "ser_handshake_reject e service =
     JObj [(''wylde_ipc'', JInt (int IPC_VERSION)), (''ok'', JBool False), (''error'', ser_ipc_error e),
       (''service'', JStr service)]"

record reply_frame =
  rf_id :: string
  rf_ok :: bool
  rf_data :: "json option"
  rf_error :: "ipc_error option"

definition ser_reply_frame :: "reply_frame \<Rightarrow> json" where
  "ser_reply_frame f = JObj ([(''id'', JStr (rf_id f)), (''ok'', JBool (rf_ok f))]
     @ opt_field ''data'' id (rf_data f) @ opt_field ''error'' ser_ipc_error (rf_error f))"

text \<open>What the client reads: the answer to its handshake and the reply.\<close>

record handshake_response =
  hr_wylde_ipc :: "(32 word) option"
  hr_ok :: "bool option"
  hr_error :: "ipc_error option"

fun de_handshake_response :: "json \<Rightarrow> handshake_response option" where
  "de_handshake_response (JObj m) = do {
     ver \<leftarrow> dflt_field None ''wylde_ipc'' (de_opt de_u32) m;
     ok \<leftarrow> dflt_field None ''ok'' (de_opt as_bool) m;
     err \<leftarrow> dflt_field None ''error'' (de_opt de_ipc_error) m;
     Some \<lparr>hr_wylde_ipc = ver, hr_ok = ok, hr_error = err\<rparr> }"
| "de_handshake_response _ = None"

record wire_reply =
  wr_ok :: bool
  wr_data :: json
  wr_error :: "ipc_error option"

fun de_wire_reply :: "json \<Rightarrow> wire_reply option" where
  "de_wire_reply (JObj m) = do {
     ok \<leftarrow> dflt_field False ''ok'' as_bool m;
     data \<leftarrow> dflt_field JNull ''data'' Some m;
     err \<leftarrow> dflt_field None ''error'' (de_opt de_ipc_error) m;
     Some \<lparr>wr_ok = ok, wr_data = data, wr_error = err\<rparr> }"
| "de_wire_reply _ = None"

section \<open>The MessagePack codec\<close>

text \<open>
  \<open>rmp_serde\<close> as its callers see it: the bytes of a value, the value of some bytes, and the
  text of the error for a value that is not of the expected shape.
\<close>

record codec =
  cd_enc :: "json \<Rightarrow> (string, byte list) rust_res"
  cd_dec :: "byte list \<Rightarrow> (string, json) rust_res"
  cd_type_err :: "json \<Rightarrow> string"

definition from_slice :: "codec \<Rightarrow> (json \<Rightarrow> 'a option) \<Rightarrow> byte list \<Rightarrow> (string, 'a) rust_res" where
  "from_slice c de b =
     (case cd_dec c b of
        Inl e \<Rightarrow> Inl e
      | Inr v \<Rightarrow> (case de v of None \<Rightarrow> Inl (cd_type_err c v) | Some x \<Rightarrow> Inr x))"

text \<open>The codec carries a value: it is encoded to a body that fits a frame and reads back.\<close>

definition carries :: "codec \<Rightarrow> json \<Rightarrow> bool" where
  "carries c v = (case cd_enc c v of
       Inl _ \<Rightarrow> False
     | Inr b \<Rightarrow> b \<noteq> [] \<and> length b \<le> MAX_FRAME_SIZE \<and> cd_dec c b = Inr v)"

definition body_of :: "codec \<Rightarrow> json \<Rightarrow> byte list" where
  "body_of c v = (case cd_enc c v of Inl _ \<Rightarrow> [] | Inr b \<Rightarrow> b)"

lemma carriesD:
  assumes "carries c v"
  shows "cd_enc c v = Inr (body_of c v)" "body_of c v \<noteq> []" "length (body_of c v) \<le> MAX_FRAME_SIZE"
    "cd_dec c (body_of c v) = Inr v"
  using assms by (auto simp: carries_def body_of_def split: sum.splits)

lemma from_slice_carried: "carries c v \<Longrightarrow> de v = Some x \<Longrightarrow> from_slice c de (body_of c v) = Inr x"
  by (simp add: from_slice_def carriesD(4))

section \<open>Reading back\<close>

text \<open>
  Items that delimit themselves: reading takes exactly one item off the front, whatever
  follows. Then a sequence reads back as it was written, and it has one reading only.
\<close>

locale self_delimiting =
  fixes ok :: "'a \<Rightarrow> bool"
    and put :: "'a \<Rightarrow> 'b list"
    and get :: "'b list \<Rightarrow> ('e, 'a \<times> 'b list) rust_res"
  assumes get_put: "ok x \<Longrightarrow> get (put x @ rest) = Inr (x, rest)"
begin

fun read_n :: "nat \<Rightarrow> 'b list \<Rightarrow> ('e, 'a list \<times> 'b list) rust_res" where
  "read_n 0 inp = Inr ([], inp)"
| "read_n (Suc n) inp =
     (case get inp of
        Inl e \<Rightarrow> Inl e
      | Inr (x, inp') \<Rightarrow> (case read_n n inp' of Inl e \<Rightarrow> Inl e | Inr (xs, r) \<Rightarrow> Inr (x # xs, r)))"

lemma read_n_concat:
  "\<forall>x \<in> set xs. ok x \<Longrightarrow> read_n (length xs) (concat (map put xs) @ rest) = Inr (xs, rest)"
  by (induction xs) (simp_all add: get_put)

lemma put_inject: "ok x \<Longrightarrow> ok y \<Longrightarrow> put x @ a = put y @ b \<Longrightarrow> x = y \<and> a = b"
  by (metis get_put prod.inject sum.inject(2))

end

definition fits_frame :: "byte list \<Rightarrow> bool" where
  "fits_frame p = (p \<noteq> [] \<and> length p \<le> MAX_FRAME_SIZE)"

lemma frame_len_header: "frame_len (to_be32 w) = unat w"
  by (simp add: frame_len_def to_be32_def from_to_be32)

lemma read_exact_append: "length a = n \<Longrightarrow> read_exact n (a @ b) = Inr (a, b)"
  by (simp add: read_exact_def)

lemma decode_encode:
  "decode_frame (encode_frame p @ rest) =
     (let n = length p mod 2 ^ 32
      in if n = 0 \<or> MAX_FRAME_SIZE < n then Inl (FrameSize n) else read_exact n (p @ rest))"
  by (simp add: decode_frame_def encode_frame_def read_exact_append frame_len_header unat_of_nat Let_def)

lemma decode_encode_fits: "fits_frame p \<Longrightarrow> decode_frame (encode_frame p @ rest) = Inr (p, rest)"
proof -
  assume p: "fits_frame p"
  then have "length p < 2 ^ 32" by (simp add: fits_frame_def MAX_FRAME_SIZE_def)
  then show ?thesis
    using p by (auto simp: decode_encode Let_def fits_frame_def read_exact_append)
qed

interpretation frames: self_delimiting fits_frame encode_frame decode_frame
  by unfold_locales (rule decode_encode_fits)

lemma fits_body: "carries c v \<Longrightarrow> fits_frame (body_of c v)"
  by (simp add: fits_frame_def carriesD)

text \<open>All the frames of some bytes, up to the error that ends them.\<close>

function frames_of :: "byte list \<Rightarrow> byte list list \<times> io_error" where
  "frames_of inp =
     (case decode_frame inp of
        Inl e \<Rightarrow> ([], e)
      | Inr (body, rest) \<Rightarrow> (let (bs, e) = frames_of rest in (body # bs, e)))"
  by pat_completeness auto
termination
  by (relation "measure length")
    (auto simp: decode_frame_def read_exact_def Let_def split: sum.splits if_splits)

declare frames_of.simps [simp del]

lemma frames_of_Nil [simp]: "frames_of [] = ([], UnexpectedEof)"
  by (simp add: frames_of.simps [of "[]"] decode_frame_def read_exact_def)

lemma frames_of_frame: "fits_frame p \<Longrightarrow> frames_of (encode_frame p @ rest) = (p # fst (frames_of rest), snd (frames_of rest))"
  by (subst frames_of.simps) (simp add: decode_encode_fits case_prod_beta)

lemma frames_of_concat:
  "\<forall>p \<in> set ps. fits_frame p \<Longrightarrow> frames_of (concat (map encode_frame ps)) = (ps, UnexpectedEof)"
  by (induction ps) (simp_all add: frames_of_frame)

text \<open>The property of the manifest: what a sequence of bodies is read back as.\<close>

lemma frames_read_back:
  assumes "\<forall>p \<in> set ps. fits_frame p"
  shows "frames_of (concat (map encode_frame ps)) = (ps, UnexpectedEof)
     \<and> (length q < 2 ^ 32 \<longrightarrow> \<not> fits_frame q \<longrightarrow>
         frames_of (concat (map encode_frame ps) @ encode_frame q) = (ps, FrameSize (length q)))"
proof (intro conjI impI)
  show "frames_of (concat (map encode_frame ps)) = (ps, UnexpectedEof)"
    by (rule frames_of_concat [OF assms])
next
  assume "length q < 2 ^ 32" and "\<not> fits_frame q"
  then have "decode_frame (encode_frame q) = Inl (FrameSize (length q))"
    using decode_encode [of q "[]"] by (auto simp: fits_frame_def Let_def)
  then have q: "frames_of (encode_frame q) = ([], FrameSize (length q))"
    by (subst frames_of.simps) simp
  show "frames_of (concat (map encode_frame ps) @ encode_frame q) = (ps, FrameSize (length q))"
    using assms by (induction ps) (simp_all add: frames_of_frame q)
qed

lemma frames_read_back_witness:
  "frames_of (concat (map encode_frame [[1, 2], [3]])) = ([[1, 2], [3]], UnexpectedEof)
     \<and> frames_of (concat (map encode_frame [[1, 2], [3]]) @ encode_frame []) = ([[1, 2], [3]], FrameSize 0)"
  using frames_read_back [of "[[1, 2], [3]]" "[]"]
  by (simp add: fits_frame_def MAX_FRAME_SIZE_def)

text \<open>A body of 4 GiB and more wraps: its frame announces, and gives, only the first bytes.\<close>

lemma long_body_is_cut:
  assumes "length p = 2 ^ 32 + n" and "0 < n" and "n \<le> MAX_FRAME_SIZE"
  shows "decode_frame (encode_frame p) = Inr (take n p, drop n p)"
proof -
  have "n < 2 ^ 32" using assms(3) by (simp add: MAX_FRAME_SIZE_def)
  then have "length p mod 2 ^ 32 = n" using assms(1) by simp
  then show ?thesis
    using decode_encode [of p "[]"] assms by (simp add: read_exact_def Let_def)
qed

section \<open>The shapes agree\<close>

text \<open>
  Every shape that one side writes the other reads: with the field names and defaults of both
  sides, nothing but a null in the place of an absent value is lost.
\<close>

definition denull :: "json option \<Rightarrow> json option" where
  "denull x = (if x = Some JNull then None else x)"

definition wire_error :: "ipc_error \<Rightarrow> ipc_error" where
  "wire_error e = e\<lparr>ie_details := denull (ie_details e)\<rparr>"

lemmas serde_defs = opt_field_def null_skip_def req_field_def dflt_field_def de_opt_def

lemma de_ser_ipc_error [simp]: "de_ipc_error (ser_ipc_error e) = Some (wire_error e)"
  by (cases e) (auto simp: ser_ipc_error_def serde_defs wire_error_def denull_def split: option.split)

lemma ser_ipc_error_not_null [simp]: "ser_ipc_error e \<noteq> JNull" "JNull \<noteq> ser_ipc_error e"
  by (simp_all add: ser_ipc_error_def)

lemma uint_lt32: "uint (w :: 32 word) < 4294967296"
  using uint_lt2p [of w] by simp

lemma de_u32_uint [simp]: "de_u32 (JInt (uint w)) = Some w"
  using uint_lt32 [of w] by simp

lemma de_ser_chunk: "de_chunk (ser_chunk f) = Some (f\<lparr>ck_error := map_option wire_error (ck_error f)\<rparr>)"
  by (cases f) (auto simp: ser_chunk_def serde_defs uint_lt32 split: option.split)

lemma de_ser_reply:
  "de_wire_reply (ser_reply_frame f) =
     Some \<lparr>wr_ok = rf_ok f, wr_data = unwrap_or JNull (rf_data f), wr_error = map_option wire_error (rf_error f)\<rparr>"
  by (simp add: ser_reply_frame_def serde_defs split: option.split)

lemma de_ser_handshake:
  "hf_wylde_ipc h < 2 ^ 32 \<Longrightarrow> de_incoming (ser_handshake h) =
     Some \<lparr>in_wylde_ipc = Some (word_of_nat (hf_wylde_ipc h)), in_id = None, in_method = None, in_http_verb = None, in_data = JNull\<rparr>"
  by (simp add: ser_handshake_def serde_defs)

lemma de_ser_request:
  "de_incoming (ser_request q) =
     Some \<lparr>in_wylde_ipc = None, in_id = Some (rq_id q), in_method = Some (rq_method q),
       in_http_verb = Some (rq_http_verb q), in_data = rq_data q\<rparr>"
  by (simp add: ser_request_def serde_defs)

lemma de_ser_ack:
  "de_handshake_response (ser_handshake_ack s) = Some \<lparr>hr_wylde_ipc = Some 1, hr_ok = Some True, hr_error = None\<rparr>"
  by (simp add: ser_handshake_ack_def serde_defs IPC_VERSION_def)

lemma de_ser_reject:
  "de_handshake_response (ser_handshake_reject e s) =
     Some \<lparr>hr_wylde_ipc = Some 1, hr_ok = Some False, hr_error = Some (wire_error e)\<rparr>"
  by (simp add: ser_handshake_reject_def serde_defs IPC_VERSION_def)

text \<open>A name with the prefix and the bare name reach one pipe.\<close>

lemma pipe_name_prefix: "\<not> starts_with s ''wylde-'' \<Longrightarrow> pipe_name (''wylde-'' @ s) = pipe_name s"
  by (simp add: pipe_name_def strip_prefix_def starts_with_def)

end
