(* ===== verification/Ipc_Registry.thy ===== *)
theory Ipc_Registry
  imports Ipc_Wire Keyed_Store "HOL-Library.List_Lexorder" "HOL-Library.Char_ord"
begin

text \<open>
  The dispatch tables of the pipe server: the process-wide action registry with its unary and
  streaming handlers and their metadata (\<open>wylde-shared/src/ipc/actions.rs\<close>), the contract
  file that is written from it, and the HTTP-shaped route table (\<open>http_routes.rs\<close>). A
  handler is a value of the type parameters \<open>'h\<close>, \<open>'s\<close>, \<open>'r\<close>; running one is a parameter.
  The registry refines the simple table \<open>bindings\<close>, a map from names to one handler.
\<close>

section \<open>The action registry\<close>

definition ACTION_DISPATCH_PATH :: string where
  "ACTION_DISPATCH_PATH = ''/__action__''"

record action_meta =
  am_doc :: string
  am_handler_module :: string
  am_streaming :: bool

record ('h, 's) action_registry =
  ar_handlers :: "(string, 'h) hmap"
  ar_streaming :: "(string, 's) hmap"
  ar_meta :: "(string, action_meta) hmap"

definition actions_new :: "('h, 's) action_registry" where
  "actions_new = \<lparr>ar_handlers = [], ar_streaming = [], ar_meta = []\<rparr>"

text \<open>An empty name panics, before the registry is touched.\<close>

definition register_action_with_meta ::
  "string \<Rightarrow> 'h \<Rightarrow> string \<Rightarrow> string \<Rightarrow> ('h, 's) action_registry \<Rightarrow> ('h, 's) action_registry option" where
  "register_action_with_meta name handler doc modl r =
     (if name = [] then None
      else Some \<lparr>ar_handlers = hm_put name handler (ar_handlers r),
        ar_streaming = hm_del name (ar_streaming r),
        ar_meta = hm_put name \<lparr>am_doc = doc, am_handler_module = modl, am_streaming = False\<rparr> (ar_meta r)\<rparr>)"

definition register_action :: "string \<Rightarrow> 'h \<Rightarrow> ('h, 's) action_registry \<Rightarrow> ('h, 's) action_registry option" where
  "register_action name handler r = register_action_with_meta name handler [] [] r"

definition register_streaming_action_with_meta ::
  "string \<Rightarrow> 's \<Rightarrow> string \<Rightarrow> string \<Rightarrow> ('h, 's) action_registry \<Rightarrow> ('h, 's) action_registry option" where
  "register_streaming_action_with_meta name handler doc modl r =
     (if name = [] then None
      else Some \<lparr>ar_handlers = hm_del name (ar_handlers r),
        ar_streaming = hm_put name handler (ar_streaming r),
        ar_meta = hm_put name \<lparr>am_doc = doc, am_handler_module = modl, am_streaming = True\<rparr> (ar_meta r)\<rparr>)"

definition register_streaming_action ::
  "string \<Rightarrow> 's \<Rightarrow> ('h, 's) action_registry \<Rightarrow> ('h, 's) action_registry option" where
  "register_streaming_action name handler r = register_streaming_action_with_meta name handler [] [] r"

definition unregister_action :: "string \<Rightarrow> ('h, 's) action_registry \<Rightarrow> ('h, 's) action_registry" where
  "unregister_action name r = \<lparr>ar_handlers = hm_del name (ar_handlers r),
     ar_streaming = hm_del name (ar_streaming r), ar_meta = hm_del name (ar_meta r)\<rparr>"

text \<open>\<open>dbg\<close> is Rust's \<open>{:?}\<close> of a string; the handler is returned, the server runs it.\<close>

definition take_streaming_action ::
  "(string \<Rightarrow> string) \<Rightarrow> string \<Rightarrow> ('h, 's) action_registry \<Rightarrow> (ipc_error, 's) rust_res" where
  "take_streaming_action dbg name r =
     (case hm_get (ar_streaming r) name of
        Some h \<Rightarrow> Inr h
      | None \<Rightarrow> Inl (ipc_error_new ''no_action'' (''unknown streaming action '' @ dbg name)))"

definition is_streaming_action :: "string \<Rightarrow> ('h, 's) action_registry \<Rightarrow> bool" where
  "is_streaming_action name r = (hm_get (ar_streaming r) name \<noteq> None)"

definition list_actions :: "('h, 's) action_registry \<Rightarrow> string list" where
  "list_actions r = sort (map fst (ar_handlers r))"

definition list_action_meta :: "('h, 's) action_registry \<Rightarrow> (string \<times> action_meta) list" where
  "list_action_meta r = sort_key fst (ar_meta r)"

text \<open>The registration gate: the verbs listed but not registered, and the other way round.\<close>

definition table_mismatch :: "string list \<Rightarrow> string list \<Rightarrow> ('h, 's) action_registry \<Rightarrow> string list \<times> string list" where
  "table_mismatch prefixes all_actions r =
     (let registered = map fst (list_action_meta r)
      in (filter (\<lambda>v. v \<notin> set registered) all_actions,
          filter (\<lambda>n. list_ex (starts_with n) prefixes \<and> n \<notin> set all_actions) registered))"

definition assert_action_table_matches_registry :: "string list \<Rightarrow> string list \<Rightarrow> ('h, 's) action_registry \<Rightarrow> unit option" where
  "assert_action_table_matches_registry prefixes all_actions r =
     (if table_mismatch prefixes all_actions r = ([], []) then Some () else None)"

definition dispatch_action ::
  "(string \<Rightarrow> string) \<Rightarrow> ('h \<Rightarrow> json \<Rightarrow> 'w \<Rightarrow> ipc_reply \<times> 'w) \<Rightarrow> ('h, 's) action_registry \<Rightarrow> json \<Rightarrow> 'w \<Rightarrow> ipc_reply \<times> 'w" where
  "dispatch_action dbg run r payload w =
     (case payload of
        JObj m \<Rightarrow>
          (case Option.bind (map_of m ''action'') as_str of
             None \<Rightarrow> (reply_err (ipc_error_new ''bad_request'' ''missing 'action' field''), w)
           | Some name \<Rightarrow>
               if name = [] then (reply_err (ipc_error_new ''bad_request'' ''missing 'action' field''), w)
               else
                 let inner = unwrap_or JNull (map_of m ''payload'')
                 in (case hm_get (ar_handlers r) name of
                       Some h \<Rightarrow> run h inner w
                     | None \<Rightarrow> (reply_err (ipc_error_new ''no_action'' (''unknown action '' @ dbg name)), w)))
      | _ \<Rightarrow> (reply_err (ipc_error_new ''bad_request'' ''action payload must be a map''), w))"

section \<open>The contract file\<close>

text \<open>Objects sorted by key, as a \<open>BTreeMap\<close> iterates, all the way down.\<close>

fun sort_keys :: "json \<Rightarrow> json" where
  "sort_keys (JObj m) = JObj (sort_key fst (map (\<lambda>(k, v). (k, sort_keys v)) m))"
| "sort_keys (JArr a) = JArr (map sort_keys a)"
| "sort_keys v = v"

definition meta_json :: "action_meta \<Rightarrow> json" where
  "meta_json m = JObj [(''doc'', JStr (am_doc m)), (''handler_module'', JStr (am_handler_module m))]"

definition contract_payload :: "string \<Rightarrow> string \<Rightarrow> ('h, 's) action_registry \<Rightarrow> json" where
  "contract_payload service now r =
     (let entries = list_action_meta r
      in JObj [(''service'', JStr service), (''actions'', JArr (map (\<lambda>e. JStr (fst e)) entries)),
           (''details'', JObj (map (\<lambda>(k, m). (k, meta_json m)) entries)), (''written_at'', JStr now)])"

text \<open>
  The file system as a map from paths to documents; \<open>outcome\<close> says which of the three calls
  (make the directories, write the temporary file, rename it) fails, if one does.
\<close>

datatype fs_fault = NoFault | MkdirFails | WriteFails | RenameFails

definition contract_path :: "string \<Rightarrow> string \<Rightarrow> string" where
  "contract_path base service = base @ ''/data/contracts/actions/'' @ service @ ''.json''"

text \<open>\<open>with_extension\<close> replaces what follows the last dot of the file name, here \<open>json\<close>.\<close>

definition contract_tmp :: "string \<Rightarrow> string \<Rightarrow> nat \<Rightarrow> string" where
  "contract_tmp base service pid =
     base @ ''/data/contracts/actions/'' @ service @ ''.'' @ nat_str pid @ ''.tmp''"

definition write_action_contract ::
  "fs_fault \<Rightarrow> nat \<Rightarrow> string \<Rightarrow> string \<Rightarrow> string \<Rightarrow> ('h, 's) action_registry \<Rightarrow> (string \<rightharpoonup> json)
     \<Rightarrow> (fs_fault, string) rust_res \<times> (string \<rightharpoonup> json)" where
  "write_action_contract fault pid now service base r fs =
     (let path = contract_path base service;
          tmp = contract_tmp base service pid;
          body = sort_keys (contract_payload service now r)
      in if fault = MkdirFails then (Inl MkdirFails, fs)
         else if fault = WriteFails then (Inl WriteFails, fs)
         else if fault = RenameFails then (Inl RenameFails, fs(tmp \<mapsto> body))
         else (Inr path, (fs(tmp := None))(path \<mapsto> body)))"

section \<open>HTTP routes\<close>

record http_request =
  hq_method :: string
  hq_path :: string
  hq_body :: json

record http_response =
  hs_ok :: bool
  hs_data :: json
  hs_error :: "ipc_error option"

definition http_ok :: "json \<Rightarrow> http_response" where
  "http_ok data = \<lparr>hs_ok = True, hs_data = data, hs_error = None\<rparr>"

definition http_err :: "ipc_error \<Rightarrow> http_response" where
  "http_err e = \<lparr>hs_ok = False, hs_data = JNull, hs_error = Some e\<rparr>"

definition http_not_found :: "string \<Rightarrow> http_response" where
  "http_not_found message = http_err (ipc_error_new ''not_found'' message)"

definition http_bad_request :: "string \<Rightarrow> http_response" where
  "http_bad_request message = http_err (ipc_error_new ''bad_request'' message)"

definition http_from_reply :: "ipc_reply \<Rightarrow> http_response" where
  "http_from_reply r = \<lparr>hs_ok = rp_ok r, hs_data = rp_data r, hs_error = rp_error r\<rparr>"

type_synonym 'r route_table = "(string \<times> string, 'r) hmap"

definition route_add :: "string \<Rightarrow> string \<Rightarrow> 'r \<Rightarrow> 'r route_table \<Rightarrow> 'r route_table" where
  "route_add method path handler t = hm_put (to_ascii_uppercase method, path) handler t"

definition route_lookup :: "'r route_table \<Rightarrow> string \<Rightarrow> string \<Rightarrow> 'r option" where
  "route_lookup t method path = hm_get t (to_ascii_uppercase method, path)"

definition route_count :: "'r route_table \<Rightarrow> nat" where
  "route_count t = length t"

text \<open>\<open>sort\<close> on pairs compares the verbs first, then the paths.\<close>

definition routes_registered :: "'r route_table \<Rightarrow> (string \<times> string) list" where
  "routes_registered t = sort_key fst (sort_key snd (map fst t))"

lemma to_ascii_uppercase_idem [simp]: "to_ascii_uppercase (to_ascii_uppercase s) = to_ascii_uppercase s"
proof -
  have "ascii_upper (ascii_upper c) = ascii_upper c" for c
  proof (cases "97 \<le> (of_char c :: nat) \<and> (of_char c :: nat) \<le> 122")
    case True
    then have "(of_char c - 32 :: nat) mod 256 = of_char c - 32" by (intro mod_less) linarith
    moreover have "\<not> 97 \<le> (of_char c - 32 :: nat)" using True by linarith
    ultimately show ?thesis using True by (simp add: ascii_upper_def Let_def of_char_of)
  qed (auto simp: ascii_upper_def Let_def)
  then show ?thesis by (simp add: to_ascii_uppercase_def comp_def)
qed

text \<open>Verbs match in any case, paths only as they are; a later route replaces an equal one.\<close>

lemma route_lookup_add:
  "route_lookup (route_add m p h t) m' p' =
     (if to_ascii_uppercase m' = to_ascii_uppercase m \<and> p' = p then Some h else route_lookup t m' p')"
  by (auto simp: route_lookup_def route_add_def)

section \<open>Well-formedness and the refinement\<close>

text \<open>
  The three tables agree: a name is unary or streaming, never both, and it has metadata
  exactly when it is one of them, which then say which.
\<close>

fun slot_ok :: "'h option \<Rightarrow> 's option \<Rightarrow> action_meta option \<Rightarrow> bool" where
  "slot_ok (Some h) None (Some m) = (\<not> am_streaming m)"
| "slot_ok None (Some s) (Some m) = am_streaming m"
| "slot_ok None None None = True"
| "slot_ok _ _ _ = False"

definition actions_ok :: "('h, 's) action_registry \<Rightarrow> bool" where
  "actions_ok r \<longleftrightarrow> hm_ok (ar_handlers r) \<and> hm_ok (ar_streaming r) \<and> hm_ok (ar_meta r)
     \<and> (\<forall>n. slot_ok (hm_get (ar_handlers r) n) (hm_get (ar_streaming r) n) (hm_get (ar_meta r) n))"

datatype ('h, 's) binding = Unary 'h | Streaming 's

fun slot :: "'h option \<Rightarrow> 's option \<Rightarrow> action_meta option \<Rightarrow> (('h, 's) binding \<times> string \<times> string) option" where
  "slot (Some h) _ (Some m) = Some (Unary h, am_doc m, am_handler_module m)"
| "slot None (Some s) (Some m) = Some (Streaming s, am_doc m, am_handler_module m)"
| "slot _ _ _ = None"

definition bindings :: "('h, 's) action_registry \<Rightarrow> string \<Rightarrow> (('h, 's) binding \<times> string \<times> string) option" where
  "bindings r n = slot (hm_get (ar_handlers r) n) (hm_get (ar_streaming r) n) (hm_get (ar_meta r) n)"

text \<open>The calls on the registry, and what each means for the simple table.\<close>

datatype ('h, 's) action_op =
    OpUnary string 'h string string
  | OpStreaming string 's string string
  | OpUnregister string

fun apply_op :: "('h, 's) action_op \<Rightarrow> ('h, 's) action_registry \<Rightarrow> ('h, 's) action_registry" where
  "apply_op (OpUnary n h d m) r = unwrap_or r (register_action_with_meta n h d m r)"
| "apply_op (OpStreaming n s d m) r = unwrap_or r (register_streaming_action_with_meta n s d m r)"
| "apply_op (OpUnregister n) r = unregister_action n r"

fun op_spec :: "('h, 's) action_op \<Rightarrow> (string \<Rightarrow> (('h, 's) binding \<times> string \<times> string) option)
    \<Rightarrow> (string \<Rightarrow> (('h, 's) binding \<times> string \<times> string) option)" where
  "op_spec (OpUnary n h d m) t = (if n = [] then t else t(n \<mapsto> (Unary h, d, m)))"
| "op_spec (OpStreaming n s d m) t = (if n = [] then t else t(n \<mapsto> (Streaming s, d, m)))"
| "op_spec (OpUnregister n) t = t(n := None)"

lemma actions_ok_new [simp]: "actions_ok actions_new"
  by (simp add: actions_ok_def actions_new_def)

lemmas registry_defs = register_action_with_meta_def register_streaming_action_with_meta_def unregister_action_def

lemma actions_ok_op [wf_intros]: "actions_ok r \<Longrightarrow> actions_ok (apply_op a r)"
  by (cases a) (auto simp: actions_ok_def registry_defs)

lemma bindings_op: "actions_ok r \<Longrightarrow> bindings (apply_op a r) = op_spec a (bindings r)"
  by (cases a) (auto simp: registry_defs bindings_def fun_eq_iff)

definition apply_ops :: "('h, 's) action_op list \<Rightarrow> ('h, 's) action_registry" where
  "apply_ops as = foldl (\<lambda>r a. apply_op a r) actions_new as"

definition ops_spec :: "('h, 's) action_op list \<Rightarrow> string \<Rightarrow> (('h, 's) binding \<times> string \<times> string) option" where
  "ops_spec as = foldl (\<lambda>t a. op_spec a t) Map.empty as"

lemma apply_ops_refine:
  fixes as :: "('h, 's) action_op list"
  shows "actions_ok (apply_ops as) \<and> bindings (apply_ops as) = ops_spec as"
proof -
  have "actions_ok r \<Longrightarrow> actions_ok (foldl (\<lambda>r a. apply_op a r) r as)
    \<and> bindings (foldl (\<lambda>r a. apply_op a r) r as) = foldl (\<lambda>t a. op_spec a t) (bindings r) as"
    for r :: "('h, 's) action_registry"
    by (induction as arbitrary: r) (simp_all add: actions_ok_op bindings_op)
  moreover have "bindings (actions_new :: ('h, 's) action_registry) = Map.empty"
    by (simp add: bindings_def actions_new_def fun_eq_iff)
  ultimately show ?thesis
    by (simp add: apply_ops_def ops_spec_def)
qed

text \<open>What the look-ups answer, in terms of the simple table.\<close>

lemma registry_lookups:
  assumes "actions_ok r"
  shows "is_streaming_action n r \<longleftrightarrow> (\<exists>s dm. bindings r n = Some (Streaming s, dm))"
    and "take_streaming_action dbg n r = Inr s \<longleftrightarrow> (\<exists>dm. bindings r n = Some (Streaming s, dm))"
    and "hm_get (ar_handlers r) n = Some h \<longleftrightarrow> (\<exists>dm. bindings r n = Some (Unary h, dm))"
    and "n \<in> set (list_actions r) \<longleftrightarrow> (\<exists>h dm. bindings r n = Some (Unary h, dm))"
    and "n \<in> set (map fst (list_action_meta r)) \<longleftrightarrow> bindings r n \<noteq> None"
proof -
  have ok: "slot_ok (hm_get (ar_handlers r) n) (hm_get (ar_streaming r) n) (hm_get (ar_meta r) n)"
    using assms by (simp add: actions_ok_def)
  have dom: "n \<in> fst ` set m \<longleftrightarrow> hm_get m n \<noteq> None" for m :: "(string, 'x) hmap"
    by (simp add: hm_get_def dom_map_of_conv_image_fst [symmetric] domIff)
  show handlers: "hm_get (ar_handlers r) n = Some h \<longleftrightarrow> (\<exists>dm. bindings r n = Some (Unary h, dm))" for h
    using ok by (auto simp: bindings_def elim!: slot_ok.elims)
  show "is_streaming_action n r \<longleftrightarrow> (\<exists>s dm. bindings r n = Some (Streaming s, dm))"
    and "take_streaming_action dbg n r = Inr s \<longleftrightarrow> (\<exists>dm. bindings r n = Some (Streaming s, dm))"
    using ok by (auto simp: bindings_def is_streaming_action_def take_streaming_action_def elim!: slot_ok.elims)
  show "n \<in> set (list_actions r) \<longleftrightarrow> (\<exists>h dm. bindings r n = Some (Unary h, dm))"
    using handlers by (auto simp: list_actions_def dom)
  show "n \<in> set (map fst (list_action_meta r)) \<longleftrightarrow> bindings r n \<noteq> None"
    using ok by (auto simp: list_action_meta_def dom bindings_def elim!: slot_ok.elims)
qed

text \<open>C29: Whatever is registered and unregistered, the tables stand for the simple table.\<close>

theorem registry_refines_bindings:
  "bindings (apply_ops as) = ops_spec as
   \<and> (is_streaming_action n (apply_ops as) \<longleftrightarrow> (\<exists>s dm. ops_spec as n = Some (Streaming s, dm)))
   \<and> (take_streaming_action dbg n (apply_ops as) = Inr s \<longleftrightarrow> (\<exists>dm. ops_spec as n = Some (Streaming s, dm)))
   \<and> (hm_get (ar_handlers (apply_ops as)) n = Some h \<longleftrightarrow> (\<exists>dm. ops_spec as n = Some (Unary h, dm)))
   \<and> set (map fst (list_action_meta (apply_ops as))) = dom (ops_spec as)"
proof -
  have ok: "actions_ok (apply_ops as)" and eq: "bindings (apply_ops as) = ops_spec as"
    using apply_ops_refine [of as] by auto
  note lookups = registry_lookups [OF ok, unfolded eq]
  have "set (map fst (list_action_meta (apply_ops as))) = dom (ops_spec as)"
    by (rule set_eqI) (simp only: lookups domIff)
  then show ?thesis using eq lookups by blast
qed

text \<open>
  The gate passes exactly when every listed verb is registered and every registered verb of
  the service's name spaces is listed.
\<close>

lemma table_gate_iff:
  "assert_action_table_matches_registry prefixes listed r = Some () \<longleftrightarrow>
     set listed \<subseteq> set (map fst (list_action_meta r))
     \<and> {n \<in> set (map fst (list_action_meta r)). \<exists>p \<in> set prefixes. starts_with n p} \<subseteq> set listed"
  by (auto simp: assert_action_table_matches_registry_def table_mismatch_def Let_def
      filter_empty_conv list_ex_iff split: if_splits)

text \<open>
  What the contract lists is sorted and is every action; the list of \<open>list_actions\<close> leaves
  the streaming ones out.
\<close>

lemma contract_lists_all:
  assumes "actions_ok r"
  shows "jget ''actions'' (contract_payload service now r) = Some (JArr (map JStr (map fst (list_action_meta r))))"
    and "sorted (map fst (list_action_meta r))"
    and "set (list_actions r) = {n \<in> set (map fst (list_action_meta r)). \<not> is_streaming_action n r}"
proof -
  show "jget ''actions'' (contract_payload service now r) = Some (JArr (map JStr (map fst (list_action_meta r))))"
    by (simp add: contract_payload_def Let_def comp_def)
  show "sorted (map fst (list_action_meta r))"
    by (simp add: list_action_meta_def)
  show "set (list_actions r) = {n \<in> set (map fst (list_action_meta r)). \<not> is_streaming_action n r}"
  proof (rule set_eqI)
    fix n
    have "slot_ok (hm_get (ar_handlers r) n) (hm_get (ar_streaming r) n) (hm_get (ar_meta r) n)"
      using assms by (simp add: actions_ok_def)
    then show "n \<in> set (list_actions r) \<longleftrightarrow> n \<in> {n \<in> set (map fst (list_action_meta r)). \<not> is_streaming_action n r}"
      unfolding mem_Collect_eq registry_lookups [OF assms]
      by (auto simp: bindings_def elim!: slot_ok.elims)
  qed
qed

text \<open>The write of the contract is atomic: the path holds the old document or the whole new one.\<close>

lemma contract_tmp_differs: "contract_tmp base service pid \<noteq> contract_path base service"
proof
  assume "contract_tmp base service pid = contract_path base service"
  then have "List.last (contract_tmp base service pid) = List.last (contract_path base service)" by simp
  then show False by (simp add: contract_tmp_def contract_path_def)
qed

lemma contract_write_atomic:
  "case write_action_contract fault pid now service base r fs of
     (Inl _, fs') \<Rightarrow> fs' (contract_path base service) = fs (contract_path base service)
   | (Inr p, fs') \<Rightarrow> p = contract_path base service
       \<and> fs' p = Some (sort_keys (contract_payload service now r)) \<and> fs' (contract_tmp base service pid) = None"
  using contract_tmp_differs [of base service pid] by (simp add: write_action_contract_def Let_def)

end
