(* ===== verification/Ipc_Server.thy ===== *)
theory Ipc_Server
  imports Ipc_Registry
begin

text \<open>
  The pipe server (\<open>wylde-shared/src/ipc/server.rs\<close>): a connection from its handshake to its
  end, the dispatch of a request to the built-in methods, an action or a route, a streaming
  answer with its heartbeats, and the accept loop.
  A connection reads a list of \<open>read_ev\<close>: whole frames, a failed read, a read that timed out.
  \<open>cn_writes n\<close> says whether the write number \<open>n\<close> reaches the peer; a failed write delivers
  nothing. The handlers and all else in the process are a world \<open>'w\<close> that running a handler
  changes; the registry is part of it, as the handlers of other connections may change it.
\<close>

section \<open>The connection\<close>

datatype read_ev = RFrame "byte list" | RIo io_error | RElapsed

datatype stream_ev = SChunk json | SErr ipc_error | SClosed | STick

record ('h, 's, 'r, 'w) service_env =
  sv_service :: string
  sv_codec :: codec
  sv_debug :: "string \<Rightarrow> string"
  sv_registry :: "'w \<Rightarrow> ('h, 's) action_registry"
  sv_run :: "'h \<Rightarrow> json \<Rightarrow> 'w \<Rightarrow> ipc_reply \<times> 'w"
  sv_stream :: "'s \<Rightarrow> json \<Rightarrow> 'w \<Rightarrow> stream_ev list \<times> 'w"
  sv_routes :: "'r route_table"
  sv_run_route :: "'r \<Rightarrow> http_request \<Rightarrow> 'w \<Rightarrow> http_response \<times> 'w"

record conn =
  cn_frames :: "byte list list"
  cn_count :: nat
  cn_writes :: "nat \<Rightarrow> bool"

definition conn_new :: "(nat \<Rightarrow> bool) \<Rightarrow> conn" where
  "conn_new wr = \<lparr>cn_frames = [], cn_count = 0, cn_writes = wr\<rparr>"

text \<open>The bytes that the peer gets.\<close>

definition conn_bytes :: "conn \<Rightarrow> byte list" where
  "conn_bytes c = concat (map encode_frame (cn_frames c))"

definition write_frame :: "byte list \<Rightarrow> conn \<Rightarrow> bool \<times> conn" where
  "write_frame payload c =
     (let ok = cn_writes c (cn_count c)
      in (ok, c\<lparr>cn_frames := (if ok then cn_frames c @ [payload] else cn_frames c), cn_count := Suc (cn_count c)\<rparr>))"

datatype write_out = Written | WriteFailed | EncodeFailed string

definition put_value :: "codec \<Rightarrow> json \<Rightarrow> conn \<Rightarrow> write_out \<times> conn" where
  "put_value cd v c =
     (case cd_enc cd v of
        Inl e \<Rightarrow> (EncodeFailed e, c)
      | Inr b \<Rightarrow> (case write_frame b c of (ok, c') \<Rightarrow> (if ok then Written else WriteFailed, c')))"

text \<open>\<open>send_error\<close>, whose result the callers drop.\<close>

definition send_error :: "codec \<Rightarrow> string \<Rightarrow> string \<Rightarrow> string \<Rightarrow> conn \<Rightarrow> conn" where
  "send_error cd req_id code message c =
     snd (put_value cd (ser_reply_frame
       \<lparr>rf_id = req_id, rf_ok = False, rf_data = None, rf_error = Some (ipc_error_new code message)\<rparr>) c)"

text \<open>
  How a request, and the connection, goes on: to the next request, to its end, to an end with an
  error (a reply that cannot be encoded), or not at all yet (a stream that is still open).
\<close>

datatype flow = Next | Close | Fail string | Pending

definition flow_of :: "write_out \<times> conn \<Rightarrow> flow \<times> conn" where
  "flow_of r = (case r of (Written, c) \<Rightarrow> (Next, c) | (WriteFailed, c) \<Rightarrow> (Close, c) | (EncodeFailed e, c) \<Rightarrow> (Fail e, c))"

definition answer :: "codec \<Rightarrow> reply_frame \<Rightarrow> conn \<Rightarrow> flow \<times> conn" where
  "answer cd f c = flow_of (put_value cd (ser_reply_frame f) c)"

section \<open>Streams\<close>

definition chunk_of :: "string \<Rightarrow> 32 word \<Rightarrow> json \<Rightarrow> chunk_frame" where
  "chunk_of i seq payload = \<lparr>ck_id = i, ck_seq = seq, ck_payload = payload, ck_done = False, ck_ok = True, ck_error = None\<rparr>"

definition err_chunk :: "string \<Rightarrow> 32 word \<Rightarrow> ipc_error \<Rightarrow> chunk_frame" where
  "err_chunk i seq e = \<lparr>ck_id = i, ck_seq = seq, ck_payload = JNull, ck_done = True, ck_ok = False, ck_error = Some e\<rparr>"

definition end_chunk :: "string \<Rightarrow> 32 word \<Rightarrow> chunk_frame" where
  "end_chunk i seq = \<lparr>ck_id = i, ck_seq = seq, ck_payload = JNull, ck_done = True, ck_ok = True, ck_error = None\<rparr>"

text \<open>\<open>write_chunk\<close>: an encoding error counts as a broken peer.\<close>

definition write_chunk :: "codec \<Rightarrow> chunk_frame \<Rightarrow> conn \<Rightarrow> bool \<times> conn" where
  "write_chunk cd f c = (case put_value cd (ser_chunk f) c of (r, c') \<Rightarrow> (r = Written, c'))"

definition send_stream_error :: "codec \<Rightarrow> string \<Rightarrow> ipc_error \<Rightarrow> conn \<Rightarrow> bool \<times> conn" where
  "send_stream_error cd req_id e c = write_chunk cd (err_chunk req_id 0 e) c"

text \<open>
  The pump: what the handler sends and the ticks of the heartbeat, in the order in which the
  loop sees them. The result is whether the connection is still usable; \<open>None\<close> when the events
  have run out with the stream still open.
\<close>

fun pump :: "codec \<Rightarrow> string \<Rightarrow> 32 word \<Rightarrow> stream_ev list \<Rightarrow> conn \<Rightarrow> bool option \<times> conn" where
  "pump cd i seq [] c = (None, c)"
| "pump cd i seq (SChunk payload # evs) c =
     (case write_chunk cd (chunk_of i seq payload) c of
        (False, c') \<Rightarrow> (Some False, c')
      | (True, c') \<Rightarrow> pump cd i (seq + 1) evs c')"
| "pump cd i seq (SErr e # evs) c = (case write_chunk cd (err_chunk i seq e) c of (ok, c') \<Rightarrow> (Some ok, c'))"
| "pump cd i seq (SClosed # evs) c = (case write_chunk cd (end_chunk i seq) c of (ok, c') \<Rightarrow> (Some ok, c'))"
| "pump cd i seq (STick # evs) c =
     (case write_chunk cd (chunk_of i seq JNull) c of
        (False, c') \<Rightarrow> (Some False, c')
      | (True, c') \<Rightarrow> pump cd i (seq + 1) evs c')"

definition serve_one_stream ::
  "('h, 's, 'r, 'w) service_env \<Rightarrow> string \<Rightarrow> string \<Rightarrow> json \<Rightarrow> conn \<times> 'w \<Rightarrow> flow \<times> conn \<times> 'w" where
  "serve_one_stream env req_id name payload st =
     (case st of (c, w) \<Rightarrow>
        (case take_streaming_action (sv_debug env) name (sv_registry env w) of
           Inl e \<Rightarrow> (case send_stream_error (sv_codec env) req_id e c of
               (ok, c') \<Rightarrow> (if ok then Next else Close, c', w))
         | Inr h \<Rightarrow>
             (case sv_stream env h payload w of (evs, w') \<Rightarrow>
                (case pump (sv_codec env) req_id 0 evs c of
                   (None, c') \<Rightarrow> (Pending, c', w')
                 | (Some usable, c') \<Rightarrow> (if usable then Next else Close, c', w')))))"

text \<open>The override of the cadence, at least one second.\<close>

definition heartbeat_interval_secs :: "string option \<Rightarrow> nat" where
  "heartbeat_interval_secs var =
     (case Option.bind var parse_usize of Some n \<Rightarrow> max n 1 | None \<Rightarrow> STREAM_HEARTBEAT_SECS)"

section \<open>One request\<close>

definition peek_action_envelope :: "json \<Rightarrow> bool \<times> string option" where
  "peek_action_envelope data =
     (case data of
        JObj m \<Rightarrow>
          (unwrap_or False (Option.bind (map_of m ''stream'') as_bool),
           Option.bind (Option.bind (map_of m ''action'') as_str) (\<lambda>s. if s = [] then None else Some s))
      | _ \<Rightarrow> (False, None))"

text \<open>The built-in methods, with the data that they are answered with.\<close>

definition builtin_data :: "string \<Rightarrow> string \<Rightarrow> json option" where
  "builtin_data service method =
     (if method = ''/__ping__'' \<or> method = ''__ping__''
      then Some (JObj [(''pong'', JBool True), (''ver'', JInt (int IPC_VERSION))])
      else if method = ''/__handshake__'' \<or> method = ''__handshake__''
      then Some (JObj [(''ver'', JInt (int IPC_VERSION)), (''service'', JStr service)])
      else if method = ''/health'' \<or> method = ''health''
      then Some (JObj [(''ok'', JBool True), (''service'', JStr service)])
      else None)"

definition reply_frame_of :: "string \<Rightarrow> ipc_reply \<Rightarrow> reply_frame" where
  "reply_frame_of req_id reply = \<lparr>rf_id = req_id, rf_ok = rp_ok reply,
     rf_data = (if rp_ok reply then Some (rp_data reply) else None), rf_error = rp_error reply\<rparr>"

definition unary_answer ::
  "('h, 's, 'r, 'w) service_env \<Rightarrow> string \<Rightarrow> json \<Rightarrow> conn \<times> 'w \<Rightarrow> flow \<times> conn \<times> 'w" where
  "unary_answer env req_id data st =
     (case st of (c, w) \<Rightarrow>
        (case dispatch_action (sv_debug env) (sv_run env) (sv_registry env w) data w of (reply, w') \<Rightarrow>
           (case answer (sv_codec env) (reply_frame_of req_id reply) c of (fl, c') \<Rightarrow> (fl, c', w'))))"

text \<open>
  An action: the two sides must agree on whether it streams. The error for a caller who wants
  a stream of a unary action goes out whether its write works or not.
\<close>

definition serve_action ::
  "('h, 's, 'r, 'w) service_env \<Rightarrow> string \<Rightarrow> json \<Rightarrow> conn \<times> 'w \<Rightarrow> flow \<times> conn \<times> 'w" where
  "serve_action env req_id data st =
     (case st of (c, w) \<Rightarrow>
        (case peek_action_envelope data of
           (wants, Some name) \<Rightarrow>
             (let streams = is_streaming_action name (sv_registry env w)
              in if wants \<and> \<not> streams then
                   (Next, snd (send_stream_error (sv_codec env) req_id
                      (ipc_error_new ''not_streaming'' (''action '' @ sv_debug env name @
                         '' is not registered as streaming on this server'')) c), w)
                 else if \<not> wants \<and> streams then
                   (case answer (sv_codec env) \<lparr>rf_id = req_id, rf_ok = False, rf_data = None,
                        rf_error = Some (ipc_error_new ''stream_required'' (''action '' @ sv_debug env name @
                          '' is streaming; caller must use send_action_stream''))\<rparr> c of
                      (fl, c') \<Rightarrow> (fl, c', w))
                 else if wants \<and> streams then
                   serve_one_stream env req_id name (unwrap_or JNull (jget ''payload'' data)) (c, w)
                 else unary_answer env req_id data (c, w))
         | (wants, None) \<Rightarrow> unary_answer env req_id data (c, w)))"

definition serve_route ::
  "('h, 's, 'r, 'w) service_env \<Rightarrow> string \<Rightarrow> string \<Rightarrow> string \<Rightarrow> json \<Rightarrow> conn \<times> 'w \<Rightarrow> flow \<times> conn \<times> 'w" where
  "serve_route env req_id verb method data st =
     (case st of (c, w) \<Rightarrow>
        (case route_lookup (sv_routes env) verb method of
           Some handler \<Rightarrow>
             (case sv_run_route env handler
                 \<lparr>hq_method = to_ascii_uppercase verb, hq_path = method, hq_body = data\<rparr> w of (resp, w') \<Rightarrow>
                (case answer (sv_codec env) \<lparr>rf_id = req_id, rf_ok = hs_ok resp,
                     rf_data = (if hs_ok resp then Some (hs_data resp) else None), rf_error = hs_error resp\<rparr> c of
                   (fl, c') \<Rightarrow> (fl, c', w')))
         | None \<Rightarrow>
             (case answer (sv_codec env) \<lparr>rf_id = req_id, rf_ok = False, rf_data = None,
                  rf_error = Some (ipc_error_new ''no_handler'' (verb @ '' '' @ sv_debug env method @
                    '' not registered on rust ipc server''))\<rparr> c of
                (fl, c') \<Rightarrow> (fl, c', w))))"

definition serve_request ::
  "('h, 's, 'r, 'w) service_env \<Rightarrow> incoming_frame \<Rightarrow> conn \<times> 'w \<Rightarrow> flow \<times> conn \<times> 'w" where
  "serve_request env req st =
     (case st of (c, w) \<Rightarrow>
        (let req_id = unwrap_or [] (in_id req);
             method = unwrap_or ''/'' (in_method req)
         in case builtin_data (sv_service env) method of
              Some data \<Rightarrow>
                (case answer (sv_codec env) \<lparr>rf_id = req_id, rf_ok = True, rf_data = Some data, rf_error = None\<rparr> c of
                   (fl, c') \<Rightarrow> (fl, c', w))
            | None \<Rightarrow>
                if method = ACTION_DISPATCH_PATH then serve_action env req_id (in_data req) (c, w)
                else serve_route env req_id (unwrap_or ''POST'' (in_http_verb req)) method (in_data req) (c, w)))"

section \<open>A connection\<close>

definition decode_error_text :: "string \<Rightarrow> string" where
  "decode_error_text e = ''msgpack decode failed: '' @ e"

text \<open>The request loop: a frame that does not decode is answered, and the loop goes on.\<close>

fun serve_loop :: "('h, 's, 'r, 'w) service_env \<Rightarrow> read_ev list \<Rightarrow> conn \<times> 'w \<Rightarrow> flow \<times> conn \<times> 'w" where
  "serve_loop env [] st = (Pending, st)"
| "serve_loop env (RFrame b # evs) st =
     (case from_slice (sv_codec env) de_incoming b of
        Inl e \<Rightarrow> serve_loop env evs (send_error (sv_codec env) [] ''decode'' (decode_error_text e) (fst st), snd st)
      | Inr req \<Rightarrow>
          (case serve_request env req st of
             (Next, st') \<Rightarrow> serve_loop env evs st'
           | stop \<Rightarrow> stop))"
| "serve_loop env (RIo e # evs) st = (Close, st)"
| "serve_loop env (RElapsed # evs) st =
     (Close, send_error (sv_codec env) [] ''read_timeout'' ''frame read timed out'' (fst st), snd st)"

definition version_text :: "nat \<Rightarrow> string" where
  "version_text v = ''client ipc version '' @ nat_str v @ '' not supported; server speaks v1..'' @ nat_str IPC_VERSION"

text \<open>The first frame is a handshake or, from an old client, already a request.\<close>

fun handle_client :: "('h, 's, 'r, 'w) service_env \<Rightarrow> read_ev list \<Rightarrow> conn \<times> 'w \<Rightarrow> flow \<times> conn \<times> 'w" where
  "handle_client env [] st = (Pending, st)"
| "handle_client env (RIo e # evs) st = (Close, st)"
| "handle_client env (RElapsed # evs) st =
     (Close, send_error (sv_codec env) [] ''handshake_timeout'' ''no first frame within handshake window'' (fst st), snd st)"
| "handle_client env (RFrame b # evs) st =
     (case from_slice (sv_codec env) de_incoming b of
        Inl e \<Rightarrow> (Close, send_error (sv_codec env) [] ''decode'' (decode_error_text e) (fst st), snd st)
      | Inr first \<Rightarrow>
          (case in_wylde_ipc first of
             Some client_ver \<Rightarrow>
               if unat client_ver < 1 \<or> IPC_VERSION < unat client_ver then
                 (case put_value (sv_codec env) (ser_handshake_reject
                      (ipc_error_new ''version_mismatch'' (version_text (unat client_ver))) (sv_service env)) (fst st) of
                    (Written, c) \<Rightarrow> (Close, c, snd st)
                  | (WriteFailed, c) \<Rightarrow> (Fail ''write'', c, snd st)
                  | (EncodeFailed t, c) \<Rightarrow> (Fail t, c, snd st))
               else
                 (case put_value (sv_codec env) (ser_handshake_ack (sv_service env)) (fst st) of
                    (Written, c) \<Rightarrow> serve_loop env evs (c, snd st)
                  | (WriteFailed, c) \<Rightarrow> (Fail ''write'', c, snd st)
                  | (EncodeFailed t, c) \<Rightarrow> (Fail t, c, snd st))
           | None \<Rightarrow>
               (case serve_request env first st of
                  (Next, st') \<Rightarrow> serve_loop env evs st'
                | stop \<Rightarrow> stop)))"

section \<open>The accept loop\<close>

text \<open>
  The loop creates an instance of the pipe, waits for a client or the stop signal, and after a
  failed creation waits a second or for the signal. \<open>notify_waiters\<close> wakes who waits at that
  moment and leaves nothing behind: a signal that comes while an instance is being created is lost.
\<close>

datatype accept_phase = Creating | Waiting | BackingOff | Stopped

datatype accept_ev = CreateOk | CreateErr | ClientOk | ClientErr | SleptOneSecond | StopSignal

fun accept_step :: "accept_phase \<times> nat \<Rightarrow> accept_ev \<Rightarrow> accept_phase \<times> nat" where
  "accept_step (Creating, n) CreateOk = (Waiting, n)"
| "accept_step (Creating, n) CreateErr = (BackingOff, n)"
| "accept_step (BackingOff, n) SleptOneSecond = (Creating, n)"
| "accept_step (BackingOff, n) StopSignal = (Stopped, n)"
| "accept_step (Waiting, n) ClientOk = (Creating, Suc n)"
| "accept_step (Waiting, n) ClientErr = (Creating, n)"
| "accept_step (Waiting, n) StopSignal = (Stopped, n)"
| "accept_step s _ = s"

definition accept_loop :: "accept_ev list \<Rightarrow> accept_phase \<times> nat" where
  "accept_loop evs = foldl accept_step (Creating, 0) evs"

text \<open>A signal between two waits is lost, and the loop serves the next client.\<close>

lemma stop_can_be_lost: "accept_loop [CreateOk, ClientOk, StopSignal, CreateOk, ClientOk] = (Creating, 2)"
  by (simp add: accept_loop_def)

lemma stop_while_waiting: "accept_loop (evs @ [StopSignal]) = (Stopped, n) \<longleftrightarrow>
   (\<exists>p. accept_loop evs = (p, n) \<and> p \<noteq> Creating)"
  by (cases "accept_loop evs" ; cases "fst (accept_loop evs)") (auto simp: accept_loop_def)

end
