(* ===== verification/Ipc_Client.thy ===== *)
theory Ipc_Client
  imports Ipc_Server
begin

text \<open>
  The pipe client (\<open>wylde-shared/src/ipc/client.rs\<close>): the environment it reads, a request and
  its reply with the error code of every failing step, the streaming driver, the stream that
  the caller polls, and the handler table. The peer is a \<open>pipe_env\<close>: whether the pipe opens, how the
  two writes end, and the list of the reads.
\<close>

section \<open>Configuration\<close>

text \<open>
  \<open>EnvConfig::load\<close>, the fields that the client looks at; \<open>var\<close> is the environment. Only ASCII
  letters lower to the letters of the words that the values are compared with.
\<close>

record env_config =
  ec_transport :: string
  ec_ipc_disable :: bool
  ec_self_name :: string

definition env_transport :: "(string \<Rightarrow> string option) \<Rightarrow> string" where
  "env_transport var =
     (let t = to_ascii_lowercase (trim (unwrap_or ''pipe'' (var ''WYLDE_TRANSPORT'')))
      in if t = ''pipe'' \<or> t = ''http'' then t else ''pipe'')"

definition env_ipc_disable :: "(string \<Rightarrow> string option) \<Rightarrow> bool" where
  "env_ipc_disable var =
     (to_ascii_lowercase (unwrap_or [] (var ''WYLDE_IPC_DISABLE'')) \<in> {''1'', ''true'', ''yes''})"

definition env_load :: "(string \<Rightarrow> string option) \<Rightarrow> env_config" where
  "env_load var = \<lparr>ec_transport = env_transport var, ec_ipc_disable = env_ipc_disable var,
     ec_self_name = unwrap_or ''unknown'' (var ''WYLDE_SERVICE_NAME'')\<rparr>"

section \<open>The handler table\<close>

definition register_handler :: "string \<Rightarrow> string option \<Rightarrow> (string, string) hmap \<Rightarrow> (string, string) hmap" where
  "register_handler method path t = hm_put method (unwrap_or (CHR 0x2F # method) path) t"

definition resolve_handler_path :: "(string, string) hmap \<Rightarrow> string \<Rightarrow> string" where
  "resolve_handler_path t method =
     unwrap_or (if starts_with method [CHR 0x2F] then method else CHR 0x2F # method) (hm_get t method)"

section \<open>The pipe\<close>

datatype write_res = WriteDone | WriteIo io_error | WriteElapsed

record pipe_env =
  pe_open :: "string option"
  pe_hs_write :: write_res
  pe_req_write :: write_res
  pe_reads :: "read_ev list"
  pe_elapsed :: string
  pe_uuid :: string

text \<open>
  The text of a timeout is the library's. A write that fails at once, without a timeout, is
  not an error of the call: the code looks at the outer result only, and reads on.
\<close>

definition write_error :: "pipe_env \<Rightarrow> string \<Rightarrow> write_res \<Rightarrow> ipc_error option" where
  "write_error p code r = (if r = WriteElapsed then Some (ipc_error_new code (pe_elapsed p)) else None)"

text \<open>The read number \<open>i\<close>; a peer that sends nothing more is waited for until the timeout.\<close>

definition read_at :: "pipe_env \<Rightarrow> nat \<Rightarrow> read_ev" where
  "read_at p i = (if i < length (pe_reads p) then pe_reads p ! i else RElapsed)"

text \<open>Connect and handshake, which \<open>send_pipe\<close> and \<open>run_stream_pipe\<close> spell out alike.\<close>

definition hs_frame :: "env_config \<Rightarrow> string \<Rightarrow> handshake_frame" where
  "hs_frame cfg service = \<lparr>hf_wylde_ipc = IPC_VERSION, hf_caller = ec_self_name cfg, hf_service = service\<rparr>"

definition check_handshake :: "codec \<Rightarrow> pipe_env \<Rightarrow> read_ev \<Rightarrow> ipc_error option" where
  "check_handshake cd p r =
     (case r of
        RIo e \<Rightarrow> Some (ipc_error_new ''handshake_io'' (io_text ''handshake reply'' e))
      | RElapsed \<Rightarrow> Some (ipc_error_new ''handshake_timeout'' (pe_elapsed p))
      | RFrame b \<Rightarrow>
          (case from_slice cd de_handshake_response b of
             Inl e \<Rightarrow> Some (ipc_error_new ''decode'' (''handshake decode failed: '' @ e))
           | Inr resp \<Rightarrow>
               if hr_wylde_ipc resp \<noteq> None \<and> hr_ok resp = Some False
               then Some (unwrap_or (ipc_error_new ''handshake_rejected'' ''handshake rejected'') (hr_error resp))
               else None))"

definition open_pipe :: "codec \<Rightarrow> pipe_env \<Rightarrow> env_config \<Rightarrow> string \<Rightarrow> ipc_error option" where
  "open_pipe cd p cfg service =
     (case pe_open p of
        Some e \<Rightarrow> Some (ipc_error_new ''pipe_connect'' (''connect('' @ pipe_name service @ '') failed: '' @ e))
      | None \<Rightarrow>
          (case cd_enc cd (ser_handshake (hs_frame cfg service)) of
             Inl e \<Rightarrow> Some (ipc_error_new ''encode'' (''handshake encode failed: '' @ e))
           | Inr _ \<Rightarrow>
               (case write_error p ''handshake_timeout'' (pe_hs_write p) of
                  Some e \<Rightarrow> Some e
                | None \<Rightarrow> check_handshake cd p (read_at p 0))))"

definition envelope :: "pipe_env \<Rightarrow> env_config \<Rightarrow> string \<Rightarrow> string \<Rightarrow> json \<Rightarrow> nat \<Rightarrow> request_envelope" where
  "envelope p cfg path verb data timeout_ms = \<lparr>rq_ver = IPC_VERSION, rq_id = pe_uuid p, rq_method = path,
     rq_http_verb = verb, rq_data = data, rq_deadline_ms = timeout_ms, rq_caller = ec_self_name cfg\<rparr>"

text \<open>The request goes out: an encoding error, a timeout of the write, or nothing.\<close>

definition send_envelope :: "codec \<Rightarrow> pipe_env \<Rightarrow> request_envelope \<Rightarrow> ipc_error option" where
  "send_envelope cd p q =
     (case cd_enc cd (ser_request q) of
        Inl e \<Rightarrow> Some (ipc_error_new ''encode'' (''request encode failed: '' @ e))
      | Inr _ \<Rightarrow> write_error p ''pipe_timeout'' (pe_req_write p))"

definition slashed :: "string \<Rightarrow> string" where
  "slashed method = (if starts_with method [CHR 0x2F] then method else CHR 0x2F # method)"

definition read_reply :: "codec \<Rightarrow> pipe_env \<Rightarrow> read_ev \<Rightarrow> ipc_reply" where
  "read_reply cd p r =
     (case r of
        RIo e \<Rightarrow> reply_err (ipc_error_new ''pipe_io'' (io_text ''reply'' e))
      | RElapsed \<Rightarrow> reply_err (ipc_error_new ''pipe_timeout'' (pe_elapsed p))
      | RFrame b \<Rightarrow>
          (case from_slice cd de_wire_reply b of
             Inl e \<Rightarrow> reply_err (ipc_error_new ''decode'' (''reply decode failed: '' @ e))
           | Inr wire \<Rightarrow>
               if wr_ok wire then reply_ok (wr_data wire)
               else reply_err (unwrap_or (ipc_error_new ''unknown'' ''unknown error'') (wr_error wire))))"

definition send_pipe ::
  "codec \<Rightarrow> pipe_env \<Rightarrow> env_config \<Rightarrow> string \<Rightarrow> string \<Rightarrow> string \<Rightarrow> json \<Rightarrow> nat \<Rightarrow> ipc_reply" where
  "send_pipe cd p cfg service method verb data timeout_ms =
     (case open_pipe cd p cfg service of
        Some e \<Rightarrow> reply_err e
      | None \<Rightarrow>
          (case send_envelope cd p (envelope p cfg (slashed method) verb data timeout_ms) of
             Some e \<Rightarrow> reply_err e
           | None \<Rightarrow> read_reply cd p (read_at p 1)))"

section \<open>The calls\<close>

definition send_with_verb ::
  "codec \<Rightarrow> pipe_env \<Rightarrow> env_config \<Rightarrow> string \<Rightarrow> string \<Rightarrow> string \<Rightarrow> json \<Rightarrow> nat \<Rightarrow> ipc_reply" where
  "send_with_verb cd p cfg service method verb data timeout_ms =
     (let reply =
        (if ec_ipc_disable cfg
         then reply_err (ipc_error_new ''ipc_disabled'' ''WYLDE_IPC_DISABLE is set; refusing to dispatch'')
         else if ec_transport cfg = ''http''
         then (reply_err (ipc_error_new ''no_http_backend'' ''Rust ipc has no HTTP fallback; set WYLDE_TRANSPORT=pipe''))
                \<lparr>rp_transport := ''none''\<rparr>
         else send_pipe cd p cfg service method verb data timeout_ms)
      in if rp_transport reply = [] then reply\<lparr>rp_transport := ''pipe''\<rparr> else reply)"

definition ipc_send :: "codec \<Rightarrow> pipe_env \<Rightarrow> env_config \<Rightarrow> string \<Rightarrow> string \<Rightarrow> json \<Rightarrow> nat \<Rightarrow> ipc_reply" where
  "ipc_send cd p cfg service method data timeout_ms =
     send_with_verb cd p cfg service method ''POST'' data timeout_ms"

definition action_body :: "string \<Rightarrow> json \<Rightarrow> json" where
  "action_body action payload = JObj [(''action'', JStr action), (''payload'', payload)]"

definition send_action :: "codec \<Rightarrow> pipe_env \<Rightarrow> env_config \<Rightarrow> string \<Rightarrow> string \<Rightarrow> json \<Rightarrow> nat \<Rightarrow> ipc_reply" where
  "send_action cd p cfg service action payload timeout_ms =
     ipc_send cd p cfg service ACTION_DISPATCH_PATH (action_body action payload) timeout_ms"

text \<open>The result of a reply, as \<open>call_action\<close> hands it on.\<close>

definition reply_result :: "ipc_reply \<Rightarrow> reply" where
  "reply_result r =
     (if rp_ok r then Inr (rp_data r)
      else Inl (unwrap_or (ipc_error_new ''unknown'' ''ipc call failed with no error body'') (rp_error r)))"

definition call_action :: "codec \<Rightarrow> pipe_env \<Rightarrow> env_config \<Rightarrow> string \<Rightarrow> string \<Rightarrow> json \<Rightarrow> nat \<Rightarrow> reply" where
  "call_action cd p cfg service action payload timeout_ms =
     reply_result (send_action cd p cfg service action payload timeout_ms)"

section \<open>Streams\<close>

text \<open>
  The driver's loop: what it passes on, as long as the consumer takes it (\<open>live n\<close>: whether it
  still takes the item number \<open>n\<close>). The result is the items passed on and whether the driver
  has ended; it waits when the reads have run out.
\<close>

definition chunk_read :: "codec \<Rightarrow> string \<Rightarrow> read_ev \<Rightarrow> (ipc_error, chunk_frame) rust_res" where
  "chunk_read cd elapsed r =
     (case r of
        RIo e \<Rightarrow> Inl (ipc_error_new ''pipe_io'' (io_text ''chunk'' e))
      | RElapsed \<Rightarrow> Inl (ipc_error_new ''read_timeout'' elapsed)
      | RFrame b \<Rightarrow>
          (case from_slice cd de_chunk b of
             Inl e \<Rightarrow> Inl (ipc_error_new ''decode'' (''chunk decode failed: '' @ e))
           | Inr f \<Rightarrow>
               if ck_ok f then Inr f
               else Inl (unwrap_or (ipc_error_new ''unknown'' ''stream error with no body'') (ck_error f))))"

fun drive_chunks :: "codec \<Rightarrow> string \<Rightarrow> (nat \<Rightarrow> bool) \<Rightarrow> read_ev list \<Rightarrow> nat \<Rightarrow> reply list \<times> bool" where
  "drive_chunks cd elapsed live [] n = ([], False)"
| "drive_chunks cd elapsed live (r # rs) n =
     (case chunk_read cd elapsed r of
        Inl e \<Rightarrow> (if live n then [Inl e] else [], True)
      | Inr f \<Rightarrow>
          if ck_payload f = JNull then
            (if ck_done f then ([], True) else drive_chunks cd elapsed live rs n)
          else if \<not> live n then ([], True)
          else if ck_done f then ([Inr (ck_payload f)], True)
          else (case drive_chunks cd elapsed live rs (Suc n) of (items, ended) \<Rightarrow> (Inr (ck_payload f) # items, ended)))"

definition stream_body :: "string \<Rightarrow> json \<Rightarrow> json" where
  "stream_body action payload =
     JObj [(''action'', JStr action), (''payload'', payload), (''stream'', JBool True)]"

definition run_stream_pipe ::
  "codec \<Rightarrow> pipe_env \<Rightarrow> (nat \<Rightarrow> bool) \<Rightarrow> env_config \<Rightarrow> string \<Rightarrow> string \<Rightarrow> json \<Rightarrow> nat \<Rightarrow> reply list \<times> bool" where
  "run_stream_pipe cd p live cfg service action payload timeout_ms =
     (case open_pipe cd p cfg service of
        Some e \<Rightarrow> (if live 0 then [Inl e] else [], True)
      | None \<Rightarrow>
          (case send_envelope cd p (envelope p cfg ACTION_DISPATCH_PATH ''POST'' (stream_body action payload) timeout_ms) of
             Some e \<Rightarrow> (if live 0 then [Inl e] else [], True)
           | None \<Rightarrow> drive_chunks cd (pe_elapsed p) live (drop 1 (pe_reads p)) 0))"

text \<open>The refusals of \<open>send_action_stream\<close>, before any driver is started.\<close>

definition send_action_stream ::
  "codec \<Rightarrow> pipe_env \<Rightarrow> (nat \<Rightarrow> bool) \<Rightarrow> env_config \<Rightarrow> string \<Rightarrow> string \<Rightarrow> json \<Rightarrow> nat \<Rightarrow> reply list \<times> bool" where
  "send_action_stream cd p live cfg service action payload timeout_ms =
     (if ec_ipc_disable cfg
      then ([Inl (ipc_error_new ''ipc_disabled'' ''WYLDE_IPC_DISABLE is set; refusing to dispatch'')], True)
      else if ec_transport cfg \<noteq> ''pipe''
      then ([Inl (ipc_error_new ''no_http_backend''
               ''Rust ipc streaming has no HTTP fallback; set WYLDE_TRANSPORT=pipe'')], True)
      else run_stream_pipe cd p live cfg service action payload timeout_ms)"

text \<open>
  What the caller polls: the channel with the items that have arrived, whether its sender is
  gone, and whether the stream has finished, after which it yields nothing more.
\<close>

record ipc_stream =
  is_queue :: "reply list"
  is_closed :: bool
  is_finished :: bool

datatype poll = PollPending | PollReady "reply option"

definition stream_new :: "reply list \<Rightarrow> bool \<Rightarrow> ipc_stream" where
  "stream_new items gone = \<lparr>is_queue = items, is_closed = gone, is_finished = False\<rparr>"

definition poll_next :: "ipc_stream \<Rightarrow> poll \<times> ipc_stream" where
  "poll_next s =
     (if is_finished s then (PollReady None, s)
      else case is_queue s of
        [] \<Rightarrow> if is_closed s then (PollReady None, s\<lparr>is_finished := True\<rparr>) else (PollPending, s)
      | Inl e # q \<Rightarrow> (PollReady (Some (Inl e)), s\<lparr>is_queue := q, is_finished := True\<rparr>)
      | Inr v # q \<Rightarrow> (PollReady (Some (Inr v)), s\<lparr>is_queue := q\<rparr>))"

fun poll_all :: "nat \<Rightarrow> ipc_stream \<Rightarrow> reply list" where
  "poll_all 0 s = []"
| "poll_all (Suc k) s =
     (case poll_next s of (PollReady (Some x), s') \<Rightarrow> x # poll_all k s' | _ \<Rightarrow> [])"

section \<open>First facts\<close>

lemma slashed_idem [simp]: "slashed (slashed m) = slashed m"
  by (simp add: slashed_def starts_with_def)

text \<open>Whatever happens to a call, its reply is well formed: data or an error, never both.\<close>

definition reply_wf :: "ipc_reply \<Rightarrow> bool" where
  "reply_wf r = (if rp_ok r then rp_error r = None else rp_error r \<noteq> None \<and> rp_data r = JNull)"

lemma reply_wf_simps [simp]: "reply_wf (reply_ok d)" "reply_wf (reply_err e)" "reply_wf (r\<lparr>rp_transport := t\<rparr>) = reply_wf r"
  by (simp_all add: reply_wf_def reply_ok_def reply_err_def)

lemma send_pipe_wf: "reply_wf (send_pipe cd p cfg service method verb data timeout_ms)"
  by (simp add: send_pipe_def read_reply_def split: option.split read_ev.split sum.split)

lemma send_wf: "reply_wf (send_with_verb cd p cfg service method verb data timeout_ms)"
  by (simp add: send_with_verb_def send_pipe_wf Let_def)

text \<open>An item after an error is never delivered.\<close>

fun until_error :: "reply list \<Rightarrow> reply list" where
  "until_error [] = []"
| "until_error (Inl e # q) = [Inl e]"
| "until_error (Inr v # q) = Inr v # until_error q"

lemma poll_finished: "is_finished s \<Longrightarrow> poll_all k s = []"
  by (cases k) (simp_all add: poll_next_def)

lemma poll_all_until_error: "length q \<le> k \<Longrightarrow> poll_all k (stream_new q c) = until_error q"
proof (induction k arbitrary: q)
  case (Suc k)
  show ?case
  proof (cases q)
    case Nil
    then show ?thesis by (simp add: poll_next_def stream_new_def)
  next
    case (Cons x q')
    have "poll_all k (stream_new q' c) = until_error q'" using Suc Cons by simp
    then show ?thesis
      by (cases x) (simp_all add: Cons poll_next_def stream_new_def poll_finished)
  qed
qed simp

end
