(* ===== verification/Ipc_Correct.thy ===== *)
theory Ipc_Correct
  imports Ipc_Client
begin

text \<open>
  The two sides of the pipe together. The client's frames are what the server reads, the bytes that
  the server has written are what the client reads; over a codec that carries the values exchanged,
  a call over the pipe is a call of the handler, a stream arrives as it was sent, and every
  request is answered in its turn.
\<close>

section \<open>Putting the sides together\<close>

text \<open>What the client reads: the frames of the server's bytes and, when it is closed, the end.\<close>

definition reads_of :: "flow \<Rightarrow> conn \<Rightarrow> read_ev list" where
  "reads_of fl c = (case frames_of (conn_bytes c) of
     (bs, e) \<Rightarrow> map RFrame bs @ (if fl = Pending then [] else [RIo e]))"

definition call_over_pipe ::
  "('h, 's, 'r, 'w) service_env \<Rightarrow> (nat \<Rightarrow> bool) \<Rightarrow> pipe_env \<Rightarrow> env_config \<Rightarrow> string \<Rightarrow> json \<Rightarrow> nat \<Rightarrow> 'w \<Rightarrow> reply \<times> 'w" where
  "call_over_pipe env wr p cfg action payload timeout_ms w =
     (let cd = sv_codec env;
          hs = body_of cd (ser_handshake (hs_frame cfg (sv_service env)));
          rq = body_of cd (ser_request (envelope p cfg ACTION_DISPATCH_PATH ''POST'' (action_body action payload) timeout_ms))
      in case handle_client env [RFrame hs, RFrame rq] (conn_new wr, w) of (fl, c, w') \<Rightarrow>
           (call_action cd (p\<lparr>pe_reads := reads_of fl c\<rparr>) cfg (sv_service env) action payload timeout_ms, w'))"

definition stream_over_pipe ::
  "('h, 's, 'r, 'w) service_env \<Rightarrow> (nat \<Rightarrow> bool) \<Rightarrow> pipe_env \<Rightarrow> (nat \<Rightarrow> bool) \<Rightarrow> env_config \<Rightarrow> string \<Rightarrow> json \<Rightarrow> nat \<Rightarrow> 'w
     \<Rightarrow> (reply list \<times> bool) \<times> 'w" where
  "stream_over_pipe env wr p live cfg action payload timeout_ms w =
     (let cd = sv_codec env;
          hs = body_of cd (ser_handshake (hs_frame cfg (sv_service env)));
          rq = body_of cd (ser_request (envelope p cfg ACTION_DISPATCH_PATH ''POST'' (stream_body action payload) timeout_ms))
      in case handle_client env [RFrame hs, RFrame rq] (conn_new wr, w) of (fl, c, w') \<Rightarrow>
           (send_action_stream cd (p\<lparr>pe_reads := reads_of fl c\<rparr>) live cfg (sv_service env) action payload timeout_ms, w'))"

text \<open>The pipe is up: it opens, the writes end, the configuration does not refuse.\<close>

definition pipe_up :: "pipe_env \<Rightarrow> env_config \<Rightarrow> bool" where
  "pipe_up p cfg \<longleftrightarrow> pe_open p = None \<and> pe_hs_write p = WriteDone \<and> pe_req_write p = WriteDone
     \<and> \<not> ec_ipc_disable cfg \<and> ec_transport cfg = ''pipe''"

section \<open>Writing over a codec that carries the values\<close>

lemma put_carried:
  assumes "carries cd v" and "cn_writes c (cn_count c)"
  shows "put_value cd v c = (Written, c\<lparr>cn_frames := cn_frames c @ [body_of cd v], cn_count := Suc (cn_count c)\<rparr>)"
  using assms by (simp add: put_value_def carriesD(1) write_frame_def Let_def)

definition conn_with :: "(nat \<Rightarrow> bool) \<Rightarrow> codec \<Rightarrow> json list \<Rightarrow> conn" where
  "conn_with wr cd vs = \<lparr>cn_frames = map (body_of cd) vs, cn_count = length vs, cn_writes = wr\<rparr>"

lemma conn_with_Nil: "conn_new wr = conn_with wr cd []"
  by (simp add: conn_new_def conn_with_def)

lemma put_on_conn_with:
  "carries cd v \<Longrightarrow> \<forall>n. wr n \<Longrightarrow> put_value cd v (conn_with wr cd vs) = (Written, conn_with wr cd (vs @ [v]))"
  by (simp add: put_carried conn_with_def)

lemma write_chunk_on_conn_with:
  "carries cd (ser_chunk f) \<Longrightarrow> \<forall>n. wr n \<Longrightarrow>
     write_chunk cd f (conn_with wr cd vs) = (True, conn_with wr cd (vs @ [ser_chunk f]))"
  by (simp add: write_chunk_def put_on_conn_with)

lemma answer_on_conn_with:
  "carries cd (ser_reply_frame f) \<Longrightarrow> \<forall>n. wr n \<Longrightarrow>
     answer cd f (conn_with wr cd vs) = (Next, conn_with wr cd (vs @ [ser_reply_frame f]))"
  by (simp add: answer_def put_on_conn_with flow_of_def)

lemma reads_of_conn_with:
  assumes "\<forall>v \<in> set vs. carries cd v"
  shows "reads_of fl (conn_with wr cd vs) =
    map (\<lambda>v. RFrame (body_of cd v)) vs @ (if fl = Pending then [] else [RIo UnexpectedEof])"
proof -
  have "frames_of (conn_bytes (conn_with wr cd vs)) = (map (body_of cd) vs, UnexpectedEof)"
    unfolding conn_bytes_def conn_with_def
    using frames_of_concat [of "map (body_of cd) vs"] assms fits_body by auto
  then show ?thesis by (simp add: reads_of_def comp_def)
qed

text \<open>A write that fails at once is not noticed where it happens.\<close>

lemma failed_write_unnoticed:
  "send_pipe cd (p\<lparr>pe_hs_write := WriteIo e, pe_req_write := WriteIo e'\<rparr>) cfg service method verb data timeout_ms
     = send_pipe cd (p\<lparr>pe_hs_write := WriteDone, pe_req_write := WriteDone\<rparr>) cfg service method verb data timeout_ms"
  by (simp add: send_pipe_def open_pipe_def send_envelope_def write_error_def check_handshake_def read_at_def
      read_reply_def envelope_def split: option.split sum.split read_ev.split)

text \<open>After a handshake of this version the connection is in its request loop.\<close>

lemma handshake_accepted:
  assumes "carries cd (ser_handshake (hs_frame cfg s))" and "carries cd (ser_handshake_ack (sv_service env))"
    and "\<forall>n. wr n" and "sv_codec env = cd"
  shows "handle_client env (RFrame (body_of cd (ser_handshake (hs_frame cfg s))) # evs) (conn_new wr, w)
    = serve_loop env evs (conn_with wr cd [ser_handshake_ack (sv_service env)], w)"
proof -
  have v: "IPC_VERSION < 2 ^ 32" and one: "unat (word_of_nat IPC_VERSION :: 32 word) = IPC_VERSION"
    by (simp_all add: IPC_VERSION_def)
  have hs: "from_slice cd de_incoming (body_of cd (ser_handshake (hs_frame cfg s)))
    = Inr \<lparr>in_wylde_ipc = Some (word_of_nat IPC_VERSION), in_id = None, in_method = None, in_http_verb = None, in_data = JNull\<rparr>"
    using from_slice_carried [where de = de_incoming, OF assms(1) de_ser_handshake] v by (simp add: hs_frame_def)
  show ?thesis
    using put_on_conn_with [OF assms(2,3), of "[]"]
    by (simp add: hs assms(4) one conn_with_Nil [symmetric] IPC_VERSION_def)
qed

lemma opened:
  assumes "pipe_up p cfg" and "carries cd (ser_handshake (hs_frame cfg s))" and "carries cd (ser_handshake_ack s)"
  shows "open_pipe cd (p\<lparr>pe_reads := RFrame (body_of cd (ser_handshake_ack s)) # rs\<rparr>) cfg s = None"
  using assms(1) carriesD(1) [OF assms(2)] from_slice_carried [where de = de_handshake_response, OF assms(3) de_ser_ack]
  by (simp add: open_pipe_def pipe_up_def write_error_def read_at_def check_handshake_def)

section \<open>A call over the pipe is a call of the handler\<close>

text \<open>A JSON null in the details of an error arrives as no details.\<close>

definition wire_result :: "reply \<Rightarrow> reply" where
  "wire_result r = map_sum wire_error id r"

definition call_values ::
  "('h, 's, 'r, 'w) service_env \<Rightarrow> pipe_env \<Rightarrow> env_config \<Rightarrow> json \<Rightarrow> nat \<Rightarrow> ipc_reply \<Rightarrow> json list" where
  "call_values env p cfg body timeout_ms r =
     [ser_handshake (hs_frame cfg (sv_service env)), ser_handshake_ack (sv_service env),
      ser_request (envelope p cfg ACTION_DISPATCH_PATH ''POST'' body timeout_ms),
      ser_reply_frame (reply_frame_of (pe_uuid p) r)]"

lemma serve_action_call:
  assumes "builtin_data (sv_service env) ACTION_DISPATCH_PATH = None"
    and "carries cd (ser_request (envelope p cfg ACTION_DISPATCH_PATH verb body timeout_ms))" and "sv_codec env = cd"
  shows "serve_loop env [RFrame (body_of cd (ser_request (envelope p cfg ACTION_DISPATCH_PATH verb body timeout_ms)))] (c, w)
    = (case serve_action env (pe_uuid p) body (c, w) of (Next, st') \<Rightarrow> (Pending, st') | stop \<Rightarrow> stop)"
  using assms(1,3) from_slice_carried [where de = de_incoming, OF assms(2) de_ser_request]
  by (simp add: serve_request_def envelope_def split: prod.split flow.split)

lemma action_path_not_builtin: "builtin_data s ACTION_DISPATCH_PATH = None"
  by (simp add: builtin_data_def ACTION_DISPATCH_PATH_def)


section \<open>A codec with a finite table, for the witnesses\<close>

fun index_in :: "json list \<Rightarrow> json \<Rightarrow> nat option" where
  "index_in [] v = None"
| "index_in (x # xs) v = (if x = v then Some 0 else map_option Suc (index_in xs v))"

definition table_codec :: "json list \<Rightarrow> codec" where
  "table_codec vs = \<lparr>
     cd_enc = (\<lambda>v. case index_in vs v of None \<Rightarrow> Inl ''not in the table'' | Some n \<Rightarrow> Inr (replicate (Suc n) 0)),
     cd_dec = (\<lambda>b. if b \<noteq> [] \<and> length b \<le> length vs then Inr (vs ! (length b - 1)) else Inl ''not in the table''),
     cd_type_err = (\<lambda>v. ''type'')\<rparr>"

lemma index_in_set: "v \<in> set vs \<Longrightarrow> \<exists>n. index_in vs v = Some n \<and> n < length vs \<and> vs ! n = v"
  by (induction vs) auto

lemma table_codec_carries: "v \<in> set vs \<Longrightarrow> length vs \<le> MAX_FRAME_SIZE \<Longrightarrow> carries (table_codec vs) v"
  using index_in_set [of v vs] by (auto simp: carries_def table_codec_def)

section \<open>A stream arrives as it was sent\<close>

text \<open>What the server writes for the events of a stream.\<close>

fun stream_frames :: "string \<Rightarrow> 32 word \<Rightarrow> stream_ev list \<Rightarrow> chunk_frame list" where
  "stream_frames i seq [] = []"
| "stream_frames i seq (SChunk p # evs) = chunk_of i seq p # stream_frames i (seq + 1) evs"
| "stream_frames i seq (SErr e # evs) = [err_chunk i seq e]"
| "stream_frames i seq (SClosed # evs) = [end_chunk i seq]"
| "stream_frames i seq (STick # evs) = chunk_of i seq JNull # stream_frames i (seq + 1) evs"

definition is_chunk :: "stream_ev \<Rightarrow> bool" where
  "is_chunk e = (\<exists>p. e = SChunk p)"

definition stream_ended :: "stream_ev list \<Rightarrow> bool" where
  "stream_ended evs = (\<exists>e \<in> set evs. e = SClosed \<or> (\<exists>x. e = SErr x))"

text \<open>
  What the handler said, heartbeats apart: its chunks up to the first error or the end, without
  the null ones, then the error if there is one; and whether it has ended.
\<close>

fun chunk_items :: "stream_ev list \<Rightarrow> reply list" where
  "chunk_items (SChunk p # evs) = (if p = JNull then chunk_items evs else Inr p # chunk_items evs)"
| "chunk_items (SErr e # evs) = [Inl (wire_error e)]"
| "chunk_items _ = []"

definition handler_said :: "stream_ev list \<Rightarrow> reply list \<times> bool" where
  "handler_said evs = (chunk_items (filter (\<lambda>e. e \<noteq> STick) evs), stream_ended evs)"

lemma handler_said_simps [simp]:
  "handler_said [] = ([], False)"
  "handler_said (STick # evs) = handler_said evs"
  "handler_said (SErr e # evs) = ([Inl (wire_error e)], True)"
  "handler_said (SClosed # evs) = ([], True)"
  "handler_said (SChunk p # evs) =
     (if p = JNull then handler_said evs else case handler_said evs of (items, ended) \<Rightarrow> (Inr p # items, ended))"
  by (simp_all add: handler_said_def stream_ended_def)

lemma pump_conn_with:
  "\<forall>f \<in> set (stream_frames i seq evs). carries cd (ser_chunk f) \<Longrightarrow> \<forall>n. wr n \<Longrightarrow>
   pump cd i seq evs (conn_with wr cd vs) =
     (if stream_ended evs then Some True else None, conn_with wr cd (vs @ map ser_chunk (stream_frames i seq evs)))"
proof (induction evs arbitrary: seq vs)
  case (Cons e evs)
  then show ?case
    by (cases e) (simp_all add: write_chunk_on_conn_with stream_ended_def)
qed (simp add: stream_ended_def)

lemma read_chunk:
  "carries cd (ser_chunk f) \<Longrightarrow> ck_error f = None \<Longrightarrow> ck_ok f \<Longrightarrow>
     chunk_read cd t (RFrame (body_of cd (ser_chunk f))) = Inr f"
  "carries cd (ser_chunk (err_chunk i seq e)) \<Longrightarrow>
     chunk_read cd t (RFrame (body_of cd (ser_chunk (err_chunk i seq e)))) = Inl (wire_error e)"
  using from_slice_carried [where de = de_chunk, OF _ de_ser_chunk, of cd]
  by (simp_all add: chunk_read_def err_chunk_def)

lemma drive_stream_frames:
  assumes "\<forall>f \<in> set (stream_frames i seq evs). carries cd (ser_chunk f)" and "\<forall>n. live n"
  shows "drive_chunks cd t live (map (\<lambda>f. RFrame (body_of cd (ser_chunk f))) (stream_frames i seq evs)) n = handler_said evs"
  using assms
proof (induction evs arbitrary: seq n)
  case (Cons e evs)
  then show ?case
    by (cases e) (simp_all add: read_chunk chunk_of_def end_chunk_def)
qed simp

definition stream_values ::
  "('h, 's, 'r, 'w) service_env \<Rightarrow> pipe_env \<Rightarrow> env_config \<Rightarrow> json \<Rightarrow> nat \<Rightarrow> stream_ev list \<Rightarrow> json list" where
  "stream_values env p cfg body timeout_ms evs =
     [ser_handshake (hs_frame cfg (sv_service env)), ser_handshake_ack (sv_service env),
      ser_request (envelope p cfg ACTION_DISPATCH_PATH ''POST'' body timeout_ms)]
     @ map ser_chunk (stream_frames (pe_uuid p) 0 evs)"

text \<open>C15: A stream arrives as it was sent: the caller's stream yields the handler's chunks in their order,
  the null ones left out, and its error as the last item, and it ends exactly when the handler
  has; where and how often the server put heartbeats in between makes no difference.
\<close>

theorem stream_arrives:
  assumes "pipe_up p cfg" and "\<forall>n. wr n" and "\<forall>n. live n" and "action \<noteq> []"
    and "take_streaming_action (sv_debug env) action (sv_registry env w) = Inr h"
    and "sv_stream env h payload w = (evs, w')"
    and "\<forall>v \<in> set (stream_values env p cfg (stream_body action payload) timeout_ms evs). carries (sv_codec env) v"
  shows "stream_over_pipe env wr p live cfg action payload timeout_ms w = (handler_said evs, w')"
proof -
  let ?cd = "sv_codec env" and ?body = "stream_body action payload" and ?s = "sv_service env"
  let ?fs = "stream_frames (pe_uuid p) 0 evs"
  have hs: "carries ?cd (ser_handshake (hs_frame cfg ?s))" and ack: "carries ?cd (ser_handshake_ack ?s)"
    and rq: "carries ?cd (ser_request (envelope p cfg ACTION_DISPATCH_PATH ''POST'' ?body timeout_ms))"
    and fs: "\<forall>f \<in> set ?fs. carries ?cd (ser_chunk f)"
    using assms(7) by (simp_all add: stream_values_def)
  have "is_streaming_action action (sv_registry env w)"
    using assms(5) by (auto simp: is_streaming_action_def take_streaming_action_def split: option.splits)
  then have "serve_action env (pe_uuid p) ?body (conn_with wr ?cd [ser_handshake_ack ?s], w)
      = (if stream_ended evs then Next else Pending, conn_with wr ?cd (ser_handshake_ack ?s # map ser_chunk ?fs), w')"
    using assms(4-6) pump_conn_with [OF fs assms(2), of "[ser_handshake_ack ?s]"]
    by (simp add: serve_action_def peek_action_envelope_def stream_body_def serve_one_stream_def)
  then have served: "handle_client env [RFrame (body_of ?cd (ser_handshake (hs_frame cfg ?s))),
      RFrame (body_of ?cd (ser_request (envelope p cfg ACTION_DISPATCH_PATH ''POST'' ?body timeout_ms)))] (conn_new wr, w)
    = (Pending, conn_with wr ?cd (ser_handshake_ack ?s # map ser_chunk ?fs), w')"
    using handshake_accepted [OF hs ack assms(2) refl] serve_action_call [OF action_path_not_builtin rq refl] by simp
  have reads: "reads_of Pending (conn_with wr ?cd (ser_handshake_ack ?s # map ser_chunk ?fs))
      = RFrame (body_of ?cd (ser_handshake_ack ?s)) # map (\<lambda>f. RFrame (body_of ?cd (ser_chunk f))) ?fs"
    using reads_of_conn_with [of "ser_handshake_ack ?s # map ser_chunk ?fs" ?cd Pending wr] ack fs by (simp add: comp_def)
  have env_reads: "envelope (p\<lparr>pe_reads := rs\<rparr>) = envelope p" for rs
    by (simp add: fun_eq_iff envelope_def)
  have "send_action_stream ?cd (p\<lparr>pe_reads := RFrame (body_of ?cd (ser_handshake_ack ?s))
          # map (\<lambda>f. RFrame (body_of ?cd (ser_chunk f))) ?fs\<rparr>) live cfg ?s action payload timeout_ms = handler_said evs"
    using opened [OF assms(1) hs ack] assms(1) carriesD(1) [OF rq] drive_stream_frames [OF fs assms(3)]
    by (simp add: send_action_stream_def pipe_up_def run_stream_pipe_def env_reads send_envelope_def write_error_def)
  then show ?thesis
    unfolding stream_over_pipe_def Let_def served by (simp add: reads)
qed

section \<open>Concrete calls\<close>

text \<open>A service with an echo and a stream of two values with a heartbeat, on a table codec.\<close>

definition ex_registry :: "(nat, nat) action_registry" where
  "ex_registry = \<lparr>ar_handlers = [(''echo'', 0)], ar_streaming = [(''tail'', 0)],
     ar_meta = [(''echo'', \<lparr>am_doc = [], am_handler_module = [], am_streaming = False\<rparr>),
                (''tail'', \<lparr>am_doc = [], am_handler_module = [], am_streaming = True\<rparr>)]\<rparr>"

definition ex_events :: "stream_ev list" where
  "ex_events = [SChunk (JInt 1), STick, SChunk (JInt 2), SClosed]"

definition ex_service :: "json list \<Rightarrow> (nat, nat, nat, nat) service_env" where
  "ex_service vs = \<lparr>sv_service = ''demo'', sv_codec = table_codec vs, sv_debug = id, sv_registry = (\<lambda>w. ex_registry),
     sv_run = (\<lambda>h v w. (reply_ok v, Suc w)), sv_stream = (\<lambda>h v w. (ex_events, Suc w)),
     sv_routes = [], sv_run_route = (\<lambda>h q w. (http_ok JNull, w))\<rparr>"

definition ex_pipe :: pipe_env where
  "ex_pipe = \<lparr>pe_open = None, pe_hs_write = WriteDone, pe_req_write = WriteDone, pe_reads = [], pe_elapsed = [], pe_uuid = ''u1''\<rparr>"

definition ex_cfg :: env_config where
  "ex_cfg = \<lparr>ec_transport = ''pipe'', ec_ipc_disable = False, ec_self_name = ''me''\<rparr>"

lemmas ex_ipc_defs = ex_registry_def ex_service_def ex_pipe_def ex_cfg_def

lemma ex_carries: "v \<in> set vs \<Longrightarrow> length vs \<le> MAX_FRAME_SIZE \<Longrightarrow> carries (sv_codec (ex_service vs)) v"
  by (simp add: ex_service_def table_codec_carries)


lemma stream_arrives_witness:
  "\<exists>vs. stream_over_pipe (ex_service vs) (\<lambda>n. True) ex_pipe (\<lambda>n. True) ex_cfg ''tail'' JNull 1000 7
     = (([Inr (JInt 1), Inr (JInt 2)], True), 8)"
proof -
  let ?vs = "stream_values (ex_service []) ex_pipe ex_cfg (stream_body ''tail'' JNull) 1000 ex_events"
  have vs: "stream_values (ex_service vs) = stream_values (ex_service [])" for vs
    by (simp add: fun_eq_iff stream_values_def ex_service_def)
  have "stream_over_pipe (ex_service ?vs) (\<lambda>n. True) ex_pipe (\<lambda>n. True) ex_cfg ''tail'' JNull 1000 7
      = (handler_said ex_events, 8)"
  proof (rule stream_arrives)
    show "\<forall>v \<in> set (stream_values (ex_service ?vs) ex_pipe ex_cfg (stream_body ''tail'' JNull) 1000 ex_events).
        carries (sv_codec (ex_service ?vs)) v"
      unfolding vs [of ?vs] by (intro ballI ex_carries) (simp_all add: stream_values_def ex_events_def MAX_FRAME_SIZE_def)
    show "take_streaming_action (sv_debug (ex_service ?vs)) ''tail'' (sv_registry (ex_service ?vs) 7) = Inr 0"
      by (simp add: take_streaming_action_def ex_ipc_defs hm_get_def)
    show "sv_stream (ex_service ?vs) 0 JNull 7 = (ex_events, 8)"
      by (simp add: ex_service_def)
  qed (simp_all add: pipe_up_def ex_ipc_defs)
  then have "stream_over_pipe (ex_service ?vs) (\<lambda>n. True) ex_pipe (\<lambda>n. True) ex_cfg ''tail'' JNull 1000 7
      = (([Inr (JInt 1), Inr (JInt 2)], True), 8)"
    by (simp add: ex_events_def)
  then show ?thesis by (rule exI [where x = ?vs])
qed

end
