(* ===== verification/Ipc_Order.thy ===== *)
theory Ipc_Order
  imports Ipc_Correct
begin

text \<open>
  Answers come in the order of the requests. Each operation of the server is related to the values
  that it writes by \<open>emits\<close>; once a write has failed, nothing more is written. The result holds for
  every registry, all handlers, any requests and any failures.
\<close>

section \<open>What is written\<close>

text \<open>The values written between two states of a connection; a connection that is dead stays so.\<close>

definition dead :: "conn \<Rightarrow> bool" where
  "dead c = (\<forall>n \<ge> cn_count c. \<not> cn_writes c n)"

definition emits :: "codec \<Rightarrow> conn \<Rightarrow> json list \<Rightarrow> conn \<Rightarrow> bool" where
  "emits cd c vs c' \<longleftrightarrow> cn_frames c' = cn_frames c @ map (body_of cd) vs \<and> cn_writes c' = cn_writes c
     \<and> cn_count c \<le> cn_count c' \<and> (dead c \<longrightarrow> vs = [])"

text \<open>A broken pipe stays broken.\<close>

definition breaks_once :: "(nat \<Rightarrow> bool) \<Rightarrow> bool" where
  "breaks_once wr = (\<forall>n. \<not> wr n \<longrightarrow> \<not> wr (Suc n))"

lemma breaks_once_after: "n \<le> m \<Longrightarrow> breaks_once wr \<Longrightarrow> \<not> wr n \<Longrightarrow> \<not> wr m"
  by (induction m rule: dec_induct) (auto simp: breaks_once_def)

lemma emits_refl [simp]: "emits cd c [] c"
  by (simp add: emits_def)

lemma emits_dead: "emits cd c vs c' \<Longrightarrow> dead c \<Longrightarrow> vs = [] \<and> dead c'"
  by (auto simp: emits_def dead_def)

lemma emits_trans: "emits cd c vs c' \<Longrightarrow> emits cd c' us c'' \<Longrightarrow> emits cd c (vs @ us) c''"
  using emits_dead [of cd c vs c'] by (auto simp: emits_def)

lemma emits_writes: "emits cd c vs c' \<Longrightarrow> cn_writes c' = cn_writes c"
  by (simp add: emits_def)

text \<open>One value: written, or else the connection is dead.\<close>

definition encodes_all :: "codec \<Rightarrow> bool" where
  "encodes_all cd = (\<forall>v. \<exists>b. cd_enc cd v = Inr b)"

lemma put_emits:
  assumes "encodes_all cd" and "breaks_once (cn_writes c)" and "put_value cd v c = (r, c')"
  shows "r = Written \<and> emits cd c [v] c' \<or> r = WriteFailed \<and> emits cd c [] c' \<and> dead c'"
proof -
  obtain b where b: "cd_enc cd v = Inr b" using assms(1) by (auto simp: encodes_all_def)
  then have body: "body_of cd v = b" by (simp add: body_of_def)
  show ?thesis
  proof (cases "cn_writes c (cn_count c)")
    case True
    then show ?thesis
      using assms(3) by (auto simp: put_value_def write_frame_def b body emits_def dead_def Let_def)
  next
    case False
    have "\<not> cn_writes c n" if "Suc (cn_count c) \<le> n" for n
      using breaks_once_after [OF _ assms(2) False, of n] that by simp
    then show ?thesis
      using assms(3) False by (auto simp: put_value_def write_frame_def b emits_def dead_def Let_def)
  qed
qed

section \<open>Answers\<close>

definition frame_id :: "json \<Rightarrow> string" where
  "frame_id v = unwrap_or [] (get_str ''id'' v)"

text \<open>A chunk that is not the last of its stream is the one frame that more frames follow.\<close>

definition final_frame :: "json \<Rightarrow> bool" where
  "final_frame v = (jget ''done'' v \<noteq> Some (JBool False))"

text \<open>\<open>answers ids vs\<close>: the frames \<open>vs\<close> begin the answers to the requests \<open>ids\<close>, in their order.\<close>

fun answers :: "string list \<Rightarrow> json list \<Rightarrow> bool" where
  "answers ids [] = True"
| "answers [] (v # vs) = False"
| "answers (i # ids) (v # vs) = (frame_id v = i \<and> answers (if final_frame v then ids else i # ids) vs)"

text \<open>The frames of one request: all under its id, and, when it is done, exactly the last one final.\<close>

definition answer_group :: "string \<Rightarrow> json list \<Rightarrow> bool \<Rightarrow> bool" where
  "answer_group i vs dn \<longleftrightarrow> list_all (\<lambda>v. frame_id v = i) vs
     \<and> (if dn then vs \<noteq> [] \<and> final_frame (List.last vs) \<and> list_all (\<lambda>v. \<not> final_frame v) (butlast vs)
        else list_all (\<lambda>v. \<not> final_frame v) vs)"

lemma answer_group_Nil [simp]: "answer_group i [] False"
  by (simp add: answer_group_def)

lemma answer_group_one: "frame_id v = i \<Longrightarrow> final_frame v \<Longrightarrow> answer_group i [v] True"
  by (simp add: answer_group_def)

lemma answer_group_Cons:
  "frame_id v = i \<Longrightarrow> \<not> final_frame v \<Longrightarrow> answer_group i vs dn \<Longrightarrow> answer_group i (v # vs) dn"
  by (auto simp: answer_group_def)

lemma answers_done: "answer_group i vs True \<Longrightarrow> answers (i # ids) (vs @ us) \<longleftrightarrow> answers ids us"
proof (induction vs)
  case (Cons v vs)
  then show ?case by (cases vs) (auto simp: answer_group_def)
qed (simp add: answer_group_def)

lemma answers_open: "answer_group i vs False \<Longrightarrow> answers (i # ids) vs"
  by (induction vs) (auto simp: answer_group_def)

lemma finals_done: "answer_group i vs True \<Longrightarrow> length (filter final_frame vs) = 1"
proof (induction vs)
  case (Cons v vs)
  then show ?case by (cases vs) (auto simp: answer_group_def)
qed (simp add: answer_group_def)

lemma reply_frame_facts [simp]: "frame_id (ser_reply_frame f) = rf_id f" "final_frame (ser_reply_frame f)"
  by (auto simp: frame_id_def final_frame_def get_str_def ser_reply_frame_def opt_field_def split: option.split)

lemma chunk_frame_facts [simp]: "frame_id (ser_chunk f) = ck_id f" "final_frame (ser_chunk f) \<longleftrightarrow> ck_done f"
  by (auto simp: frame_id_def final_frame_def get_str_def ser_chunk_def null_skip_def opt_field_def split: option.split)

lemma chunk_of_facts [simp]:
  "ck_id (chunk_of i s p) = i" "ck_id (err_chunk i s e) = i" "ck_id (end_chunk i s) = i"
  "\<not> ck_done (chunk_of i s p)" "ck_done (err_chunk i s e)" "ck_done (end_chunk i s)"
  by (simp_all add: chunk_of_def err_chunk_def end_chunk_def)

section \<open>One request\<close>

text \<open>
  \<open>served i c c' dn\<close>: a group of frames for \<open>i\<close> has been written, a complete one when \<open>dn\<close>; one
  that is not complete ends with the connection dead, or is still open (\<open>wait\<close>).
\<close>

definition served :: "codec \<Rightarrow> string \<Rightarrow> conn \<Rightarrow> conn \<Rightarrow> flow \<Rightarrow> bool" where
  "served cd i c c' fl \<longleftrightarrow> (\<exists>vs dn. emits cd c vs c' \<and> answer_group i vs dn
     \<and> (dn \<or> dead c' \<or> fl = Pending) \<and> (fl = Pending \<longrightarrow> \<not> dn))"

lemma served_put:
  assumes "encodes_all cd" and "breaks_once (cn_writes c)" and "put_value cd v c = (r, c')"
    and "frame_id v = i" and "final_frame v" and "fl \<noteq> Pending"
  shows "served cd i c c' fl"
  using put_emits [OF assms(1-3)] answer_group_one [OF assms(4,5)] answer_group_Nil [of i] assms(6)
  unfolding served_def by blast

lemma served_answer:
  assumes "encodes_all cd" and "breaks_once (cn_writes c)" and "answer cd f c = (fl, c')" and "rf_id f = i"
  shows "served cd i c c' fl"
proof -
  obtain r where "put_value cd (ser_reply_frame f) c = (r, c')" and "fl \<noteq> Pending"
    using assms(3) by (auto simp: answer_def flow_of_def split: prod.splits write_out.splits)
  then show ?thesis using served_put [OF assms(1,2)] assms(4) by simp
qed

lemma write_chunk_emits:
  assumes "encodes_all cd" and "breaks_once (cn_writes c)" and "write_chunk cd f c = (ok, c')"
  shows "if ok then emits cd c [ser_chunk f] c' else emits cd c [] c' \<and> dead c'"
proof -
  obtain r where "put_value cd (ser_chunk f) c = (r, c')" "ok = (r = Written)"
    using assms(3) by (auto simp: write_chunk_def split: prod.splits)
  then show ?thesis using put_emits [OF assms(1,2)] by force
qed

lemma final_chunk_emits:
  assumes "encodes_all cd" and "breaks_once (cn_writes c)" and "write_chunk cd f c = (ok, c')"
    and "ck_id f = i" and "ck_done f"
  shows "\<exists>vs dn. emits cd c vs c' \<and> answer_group i vs dn \<and> (dn \<or> dead c')"
proof (cases ok)
  case True
  then have "emits cd c [ser_chunk f] c'" using write_chunk_emits [OF assms(1-3)] by simp
  moreover have "answer_group i [ser_chunk f] True" by (rule answer_group_one) (simp_all add: assms(4,5))
  ultimately show ?thesis by blast
next
  case False
  then have "emits cd c [] c' \<and> dead c'" using write_chunk_emits [OF assms(1-3)] by simp
  then show ?thesis using answer_group_Nil [of i] by blast
qed

lemma served_chunk:
  assumes "encodes_all cd" and "breaks_once (cn_writes c)" and "write_chunk cd f c = (ok, c')"
    and "ck_id f = i" and "ck_done f" and "fl \<noteq> Pending"
  shows "served cd i c c' fl"
  using final_chunk_emits [OF assms(1-5)] assms(6) unfolding served_def by blast

lemma pump_emits:
  assumes "encodes_all cd" and "breaks_once (cn_writes c)" and "pump cd i seq evs c = (res, c')"
  shows "\<exists>vs dn. emits cd c vs c' \<and> answer_group i vs dn \<and> (dn \<or> dead c' \<or> res = None) \<and> (res = None \<longrightarrow> \<not> dn)"
  using assms(2,3)
proof (induction evs arbitrary: seq c)
  case (Cons e evs)
  have step: ?case
    if chunk: "\<And>ok c1. write_chunk cd (chunk_of i seq p) c = (ok, c1) \<Longrightarrow>
        if ok then pump cd i (seq + 1) evs c1 = (res, c') else res = Some False \<and> c' = c1" for p
  proof -
    obtain ok c1 where w: "write_chunk cd (chunk_of i seq p) c = (ok, c1)" by fastforce
    note out = write_chunk_emits [OF assms(1) Cons.prems(1) w]
    show ?thesis
    proof (cases ok)
      case True
      then have e1: "emits cd c [ser_chunk (chunk_of i seq p)] c1" and rest: "pump cd i (seq + 1) evs c1 = (res, c')"
        using out chunk [OF w] by auto
      obtain vs dn where vs: "emits cd c1 vs c'" "answer_group i vs dn" "dn \<or> dead c' \<or> res = None" "res = None \<longrightarrow> \<not> dn"
        using Cons.IH [OF _ rest] Cons.prems(1) emits_writes [OF e1] by auto
      have "emits cd c (ser_chunk (chunk_of i seq p) # vs) c'" using emits_trans [OF e1 vs(1)] by simp
      moreover have "answer_group i (ser_chunk (chunk_of i seq p) # vs) dn"
        by (rule answer_group_Cons [OF _ _ vs(2)]) simp_all
      ultimately show ?thesis using vs(3,4) by blast
    next
      case False
      then show ?thesis using out chunk [OF w] by (intro exI [of _ "[]"] exI [of _ False]) auto
    qed
  qed
  have final: ?case if "write_chunk cd f c = (ok, c')" and "res = Some ok" and "ck_id f = i" and "ck_done f" for f ok
    using final_chunk_emits [OF assms(1) Cons.prems(1) that(1,3,4)] that(2) by auto
  show ?case
  proof (cases e)
    case (SChunk p)
    show ?thesis by (rule step [of p]) (use Cons.prems(2) SChunk in \<open>auto split: bool.splits prod.splits\<close>)
  next
    case STick
    show ?thesis by (rule step [of JNull]) (use Cons.prems(2) STick in \<open>auto split: bool.splits prod.splits\<close>)
  next
    case (SErr x)
    then show ?thesis using Cons.prems(2) final [of "err_chunk i seq x"] by (auto split: prod.splits)
  next
    case SClosed
    then show ?thesis using Cons.prems(2) final [of "end_chunk i seq"] by (auto split: prod.splits)
  qed
qed (auto intro!: exI [of _ "[]"] exI [of _ False])

lemma served_stream:
  assumes "encodes_all (sv_codec env)" and "breaks_once (cn_writes c)"
    and "serve_one_stream env i name payload (c, w) = (fl, c', w')"
  shows "served (sv_codec env) i c c' fl"
proof (cases "take_streaming_action (sv_debug env) name (sv_registry env w)")
  case (Inl e)
  then obtain ok where "write_chunk (sv_codec env) (err_chunk i 0 e) c = (ok, c')" "fl = (if ok then Next else Close)"
    using assms(3) by (auto simp: serve_one_stream_def send_stream_error_def split: prod.splits)
  then show ?thesis
    using served_chunk [OF assms(1,2), of "err_chunk i 0 e" ok c' i fl] by (cases ok) simp_all
next
  case (Inr h)
  obtain evs w1 where s: "sv_stream env h payload w = (evs, w1)" by fastforce
  obtain res c1 where p: "pump (sv_codec env) i 0 evs c = (res, c1)" by fastforce
  have "c' = c1" and "fl = (case res of None \<Rightarrow> Pending | Some u \<Rightarrow> if u then Next else Close)"
    using assms(3) Inr by (auto simp: serve_one_stream_def s p split: option.splits)
  then show ?thesis
    using pump_emits [OF assms(1,2) p] unfolding served_def by (cases res) auto
qed

lemma served_action:
  assumes "encodes_all (sv_codec env)" and "breaks_once (cn_writes c)"
    and "serve_action env i data (c, w) = (fl, c', w')"
  shows "served (sv_codec env) i c c' fl"
proof -
  have unary: "served (sv_codec env) i c c' fl" if "unary_answer env i data (c, w) = (fl, c', w')"
    using that served_answer [OF assms(1,2)] by (auto simp: unary_answer_def reply_frame_of_def split: prod.splits)
  show ?thesis
  proof (cases "peek_action_envelope data")
    case (Pair wants name)
    show ?thesis
    proof (cases name)
      case None
      then show ?thesis using assms(3) Pair unary by (simp add: serve_action_def)
    next
      case (Some n)
      consider "wants" "\<not> is_streaming_action n (sv_registry env w)" | "\<not> wants" "is_streaming_action n (sv_registry env w)"
        | "wants" "is_streaming_action n (sv_registry env w)" | "\<not> wants" "\<not> is_streaming_action n (sv_registry env w)" by blast
      then show ?thesis
      proof cases
        case 1
        define e where "e = ipc_error_new ''not_streaming''
          (''action '' @ sv_debug env n @ '' is not registered as streaming on this server'')"
        obtain ok c1 where w: "write_chunk (sv_codec env) (err_chunk i 0 e) c = (ok, c1)" by fastforce
        then have "c' = c1" "fl = Next"
          using assms(3) Pair Some 1 by (auto simp: serve_action_def send_stream_error_def e_def)
        then show ?thesis using served_chunk [OF assms(1,2) w, of i fl] by simp
      next
        case 2
        then show ?thesis
          using assms(3) Pair Some served_answer [OF assms(1,2)] by (auto simp: serve_action_def split: prod.splits)
      next
        case 3
        then show ?thesis using assms(3) Pair Some served_stream [OF assms(1,2)] by (simp add: serve_action_def)
      next
        case 4
        then show ?thesis using assms(3) Pair Some unary by (simp add: serve_action_def)
      qed
    qed
  qed
qed

lemma served_request:
  assumes "encodes_all (sv_codec env)" and "breaks_once (cn_writes c)"
    and "serve_request env req (c, w) = (fl, c', w')"
  shows "served (sv_codec env) (unwrap_or [] (in_id req)) c c' fl"
  using assms(3) served_answer [OF assms(1,2)] served_action [OF assms(1,2)]
  by (auto simp: serve_request_def serve_route_def Let_def split: option.splits if_splits prod.splits)

section \<open>The connection\<close>

text \<open>The id under which a frame that was read is answered: none for what does not decode.\<close>

definition request_id :: "codec \<Rightarrow> read_ev \<Rightarrow> string" where
  "request_id cd e =
     (case e of
        RFrame b \<Rightarrow> (case from_slice cd de_incoming b of Inl _ \<Rightarrow> [] | Inr req \<Rightarrow> unwrap_or [] (in_id req))
      | _ \<Rightarrow> [])"

text \<open>The first frame: a handshake is answered without an id.\<close>

definition first_id :: "codec \<Rightarrow> read_ev \<Rightarrow> string" where
  "first_id cd e =
     (case e of
        RFrame b \<Rightarrow> (case from_slice cd de_incoming b of Inl _ \<Rightarrow> []
          | Inr req \<Rightarrow> if in_wylde_ipc req = None then unwrap_or [] (in_id req) else [])
      | _ \<Rightarrow> [])"

definition conn_ids :: "codec \<Rightarrow> read_ev list \<Rightarrow> string list" where
  "conn_ids cd evs = (case evs of [] \<Rightarrow> [] | e # es \<Rightarrow> first_id cd e # map (request_id cd) es)"

text \<open>
  What a part of the connection guarantees: the frames begin the answers to the ids; and when
  no write fails and no stream is left open, as many are complete as there were ids.
\<close>

definition in_order :: "codec \<Rightarrow> conn \<Rightarrow> conn \<Rightarrow> string list \<Rightarrow> bool \<Rightarrow> bool" where
  "in_order cd c c' ids full \<longleftrightarrow> (\<exists>vs. emits cd c vs c' \<and> answers ids vs
     \<and> (full \<longrightarrow> (\<forall>n. cn_writes c n) \<longrightarrow> length (filter final_frame vs) = length ids))"

text \<open>A stream of the service that is never left open.\<close>

definition streams_end :: "('h, 's, 'r, 'w) service_env \<Rightarrow> bool" where
  "streams_end env = (\<forall>h p w. stream_ended (fst (sv_stream env h p w)))"

lemma in_order_step:
  assumes "served cd i c c1 fl" and "fl \<noteq> Pending" and "in_order cd c1 c' ids full"
  shows "in_order cd c c' (i # ids) full"
proof -
  obtain vs dn where v: "emits cd c vs c1" "answer_group i vs dn" "dn \<or> dead c1"
    using assms(1,2) by (auto simp: served_def)
  obtain us where u: "emits cd c1 us c'" "answers ids us"
      "full \<longrightarrow> (\<forall>n. cn_writes c1 n) \<longrightarrow> length (filter final_frame us) = length ids"
    using assms(3) by (auto simp: in_order_def)
  have e: "emits cd c (vs @ us) c'" by (rule emits_trans [OF v(1) u(1)])
  show ?thesis
  proof (cases dn)
    case True
    then have "answers (i # ids) (vs @ us)" and "length (filter final_frame vs) = 1"
      using v(2) u(2) answers_done [of i vs] finals_done [of i vs] by auto
    then show ?thesis
      using e u(3) emits_writes [OF v(1)] unfolding in_order_def by (auto intro!: exI [of _ "vs @ us"])
  next
    case False
    then have "dead c1" and "us = []" using v(3) emits_dead [OF u(1)] by auto
    then have "\<not> (\<forall>n. cn_writes c n)" using emits_writes [OF v(1)] by (auto simp: dead_def)
    then show ?thesis
      using e \<open>us = []\<close> answers_open [of i vs] v(2) False unfolding in_order_def by auto
  qed
qed

lemma in_order_stop:
  assumes "served cd i c c' fl" and "\<not> full"
  shows "in_order cd c c' (i # ids) full"
proof -
  obtain vs dn where v: "emits cd c vs c'" "answer_group i vs dn"
    using assms(1) by (auto simp: served_def)
  then have "answers (i # ids) vs"
    using answers_done [of i vs ids "[]"] answers_open [of i vs ids] by (cases dn) auto
  then show ?thesis using v(1) assms(2) unfolding in_order_def by blast
qed

lemma served_send_error:
  assumes "encodes_all cd" and "breaks_once (cn_writes c)"
  shows "served cd [] c (send_error cd [] code message c) Next"
  unfolding send_error_def
  by (rule served_put [OF assms, of _ "fst (put_value cd _ c)"]) (auto simp: prod_eq_iff)

lemma in_order_error:
  assumes "encodes_all cd" and "breaks_once (cn_writes c)"
  shows "in_order cd c (send_error cd [] code message c) ([] # ids) False"
  by (rule in_order_stop [OF served_send_error [OF assms]]) simp

lemma served_writes: "served cd i c c' fl \<Longrightarrow> cn_writes c' = cn_writes c"
  by (auto simp: served_def emits_writes)

lemma pump_ends: "stream_ended evs \<Longrightarrow> pump cd i seq evs c = (res, c') \<Longrightarrow> res \<noteq> None"
proof (induction evs arbitrary: seq c)
  case (Cons e evs)
  then show ?case by (cases e) (auto simp: stream_ended_def split: prod.splits bool.splits)
qed (simp add: stream_ended_def)

lemma answer_not_pending: "answer cd f c = (fl, c') \<Longrightarrow> fl \<noteq> Pending"
  by (auto simp: answer_def flow_of_def split: prod.splits write_out.splits)

lemma stream_not_pending:
  assumes "streams_end env" and "serve_one_stream env i name payload (c, w) = (fl, c', w')"
  shows "fl \<noteq> Pending"
proof (cases "take_streaming_action (sv_debug env) name (sv_registry env w)")
  case (Inr h)
  obtain evs w1 where s: "sv_stream env h payload w = (evs, w1)" by fastforce
  obtain res c1 where p: "pump (sv_codec env) i 0 evs c = (res, c1)" by fastforce
  have "stream_ended evs" using assms(1) s by (metis fst_conv streams_end_def)
  then show ?thesis
    using assms(2) Inr pump_ends [OF _ p] by (auto simp: serve_one_stream_def s p split: option.splits if_splits)
qed (use assms(2) in \<open>auto simp: serve_one_stream_def split: prod.splits if_splits\<close>)

lemma request_not_pending:
  assumes "streams_end env" and "serve_request env req (c, w) = (fl, c', w')"
  shows "fl \<noteq> Pending"
  using assms(2) stream_not_pending [OF assms(1)] answer_not_pending
  by (auto simp: serve_request_def serve_route_def serve_action_def unary_answer_def Let_def
      split: option.splits if_splits prod.splits)

lemma in_order_nothing: "\<not> full \<Longrightarrow> in_order cd c c ids full"
  by (auto simp: in_order_def intro!: exI [of _ "[]"])

text \<open>A request that goes on to the rest of the connection, or ends it.\<close>

lemma request_in_order:
  assumes "encodes_all (sv_codec env)" and "breaks_once (cn_writes c)"
    and "serve_request env req (c, w) = (fl1, c1, w1)"
    and "fl1 = Next \<Longrightarrow> in_order (sv_codec env) c1 c' ids (fl = Pending \<and> streams_end env)"
    and "fl1 \<noteq> Next \<Longrightarrow> c' = c1 \<and> fl = fl1" and "unwrap_or [] (in_id req) = i"
  shows "in_order (sv_codec env) c c' (i # ids) (fl = Pending \<and> streams_end env)"
proof -
  have sr: "served (sv_codec env) i c c1 fl1"
    using served_request [OF assms(1-3)] assms(6) by simp
  show ?thesis
  proof (cases "fl1 = Next")
    case True
    then show ?thesis using in_order_step [OF sr _ assms(4)] by simp
  next
    case False
    then have "\<not> (fl = Pending \<and> streams_end env)"
      using assms(5) request_not_pending [OF _ assms(3)] by auto
    from in_order_stop [OF sr this] show ?thesis using assms(5) False by simp
  qed
qed

lemma request_id_simps:
  "from_slice cd de_incoming b = Inl t \<Longrightarrow> request_id cd (RFrame b) = []"
  "from_slice cd de_incoming b = Inr req \<Longrightarrow> request_id cd (RFrame b) = unwrap_or [] (in_id req)"
  "request_id cd (RIo x) = []" "request_id cd RElapsed = []"
  by (simp_all add: request_id_def)

lemma loop_in_order:
  assumes "encodes_all (sv_codec env)" and "breaks_once (cn_writes c)"
    and "serve_loop env evs (c, w) = (fl, c', w')"
  shows "in_order (sv_codec env) c c' (map (request_id (sv_codec env)) evs) (fl = Pending \<and> streams_end env)"
  using assms(2,3)
proof (induction evs arbitrary: c w)
  case (Cons e evs)
  show ?case
  proof (cases e)
    case (RFrame b)
    show ?thesis
    proof (cases "from_slice (sv_codec env) de_incoming b")
      case (Inl t)
      let ?c1 = "send_error (sv_codec env) [] ''decode'' (decode_error_text t) c"
      have sv: "served (sv_codec env) [] c ?c1 Next" by (rule served_send_error [OF assms(1) Cons.prems(1)])
      have "serve_loop env evs (?c1, w) = (fl, c', w')" using Cons.prems(2) RFrame Inl by simp
      then show ?thesis
        using in_order_step [OF sv _ Cons.IH] served_writes [OF sv] Cons.prems(1) by (simp add: RFrame Inl request_id_simps)
    next
      case (Inr req)
      obtain fl1 c1 w1 where r: "serve_request env req (c, w) = (fl1, c1, w1)" by (metis prod.exhaust)
      have "in_order (sv_codec env) c c' (unwrap_or [] (in_id req) # map (request_id (sv_codec env)) evs)
          (fl = Pending \<and> streams_end env)"
      proof (rule request_in_order [OF assms(1) Cons.prems(1) r _ _ refl])
        show "in_order (sv_codec env) c1 c' (map (request_id (sv_codec env)) evs) (fl = Pending \<and> streams_end env)" if "fl1 = Next"
          using Cons.IH [of c1 w1] Cons.prems RFrame Inr r that served_writes [OF served_request [OF assms(1) Cons.prems(1) r]] by simp
        show "c' = c1 \<and> fl = fl1" if "fl1 \<noteq> Next"
          using Cons.prems(2) RFrame Inr r that by (cases fl1) simp_all
      qed
      then show ?thesis by (simp add: RFrame Inr request_id_simps)
    qed
  next
    case (RIo t)
    then show ?thesis using Cons.prems(2) by (auto intro: in_order_nothing)
  next
    case RElapsed
    then have "c' = send_error (sv_codec env) [] ''read_timeout'' ''frame read timed out'' c" "fl = Close"
      using Cons.prems(2) by auto
    then show ?thesis
      using in_order_error [OF assms(1) Cons.prems(1)] by (simp add: RElapsed request_id_simps)
  qed
qed (auto simp: in_order_def intro!: exI [of _ "[]"])

lemma handshake_facts [simp]:
  "frame_id (ser_handshake_ack s) = []" "final_frame (ser_handshake_ack s)"
  "frame_id (ser_handshake_reject e s) = []" "final_frame (ser_handshake_reject e s)"
  by (simp_all add: frame_id_def final_frame_def get_str_def ser_handshake_ack_def ser_handshake_reject_def)

text \<open>C14: Answers come in order: whatever the registry, the handlers and the requests, and whenever the
  pipe breaks, the frames that a connection writes are the answers to what it has read, in the
  order of the reading: each frame carries the id of the oldest request that is not yet answered,
  and only the last frame of an answer is final. When no write fails, the connection is
  still in its loop and no handler leaves its stream open, every request has its complete answer.
\<close>

theorem responses_in_order:
  assumes "encodes_all (sv_codec env)" and "breaks_once wr"
    and "handle_client env evs (conn_new wr, w) = (fl, c, w')"
  shows "\<exists>vs. cn_frames c = map (body_of (sv_codec env)) vs \<and> answers (conn_ids (sv_codec env) evs) vs
     \<and> (fl = Pending \<longrightarrow> streams_end env \<longrightarrow> (\<forall>n. wr n) \<longrightarrow> length (filter final_frame vs) = length evs)"
proof -
  let ?cd = "sv_codec env" and ?c0 = "conn_new wr" and ?full = "fl = Pending \<and> streams_end env"
  have c0: "breaks_once (cn_writes ?c0)" using assms(2) by (simp add: conn_new_def)
  have main: "in_order ?cd ?c0 c (conn_ids ?cd evs) ?full"
  proof (cases evs)
    case Nil
    then show ?thesis using assms(3) by (auto simp: conn_ids_def in_order_def intro!: exI [of _ "[]"])
  next
    case (Cons e es)
    show ?thesis
    proof (cases e)
      case (RIo t)
      then show ?thesis using assms(3) Cons by (auto intro: in_order_nothing)
    next
      case RElapsed
      then show ?thesis
        using assms(3) Cons in_order_error [OF assms(1) c0] by (auto simp: conn_ids_def first_id_def)
    next
      case (RFrame b)
      show ?thesis
      proof (cases "from_slice ?cd de_incoming b")
        case (Inl t)
        then show ?thesis
          using assms(3) Cons RFrame in_order_error [OF assms(1) c0]
          by (auto simp: conn_ids_def first_id_def)
      next
        case (Inr req)
        show ?thesis
        proof (cases "in_wylde_ipc req")
          case None
          obtain fl1 c1 w1 where r: "serve_request env req (?c0, w) = (fl1, c1, w1)" by (metis prod.exhaust)
          have "in_order ?cd ?c0 c (unwrap_or [] (in_id req) # map (request_id ?cd) es) ?full"
          proof (rule request_in_order [OF assms(1) c0 r _ _ refl])
            show "in_order ?cd c1 c (map (request_id ?cd) es) ?full" if "fl1 = Next"
              using loop_in_order [OF assms(1), of c1 es w1] c0 assms(3) Cons RFrame Inr None r that
                served_writes [OF served_request [OF assms(1) c0 r]] by simp
            show "c = c1 \<and> fl = fl1" if "fl1 \<noteq> Next"
              using assms(3) Cons RFrame Inr None r that by (cases fl1) simp_all
          qed
          then show ?thesis by (simp add: Cons RFrame Inr None conn_ids_def first_id_def)
        next
          case (Some ver)
          define v where "v = (if unat ver < 1 \<or> IPC_VERSION < unat ver
            then ser_handshake_reject (ipc_error_new ''version_mismatch'' (version_text (unat ver))) (sv_service env)
            else ser_handshake_ack (sv_service env))"
          obtain r c1 where p: "put_value ?cd v ?c0 = (r, c1)" by fastforce
          have sv: "served ?cd [] ?c0 c1 Next"
            by (rule served_put [OF assms(1) c0 p]) (simp_all add: v_def)
          have stop: "in_order ?cd ?c0 c (conn_ids ?cd evs) ?full" if "c = c1" "fl \<noteq> Pending"
            using in_order_stop [OF sv] that by (simp add: Cons RFrame Inr Some conn_ids_def first_id_def)
          have go: "in_order ?cd ?c0 c (conn_ids ?cd evs) ?full" if "serve_loop env es (c1, w) = (fl, c, w')"
            using in_order_step [OF sv _ loop_in_order [OF assms(1) _ that]] served_writes [OF sv] c0
            by (simp add: Cons RFrame Inr Some conn_ids_def first_id_def)
          show ?thesis
            using assms(3) p stop go
            by (cases r) (auto simp: Cons RFrame Inr Some v_def split: if_splits)
        qed
      qed
    qed
  qed
  moreover have "length (conn_ids ?cd evs) = length evs" by (cases evs) (simp_all add: conn_ids_def)
  ultimately show ?thesis
    by (auto simp: in_order_def emits_def conn_new_def)
qed

text \<open>A service whose codec encodes everything and reads every frame as a request of the method ping.\<close>

definition ex_total :: "(nat, nat, nat, nat) service_env" where
  "ex_total = (ex_service [])\<lparr>sv_codec := \<lparr>cd_enc = (\<lambda>v. Inr [1]),
     cd_dec = (\<lambda>b. Inr (JObj [(''id'', JStr ''q''), (''method'', JStr ''__ping__'')])), cd_type_err = (\<lambda>v. [])\<rparr>\<rparr>"

lemma responses_in_order_witness:
  "\<exists>vs. cn_frames (fst (snd (handle_client ex_total [RFrame [1], RFrame [2]] (conn_new (\<lambda>n. True), 7))))
       = map (body_of (sv_codec ex_total)) vs \<and> answers [''q'', ''q''] vs \<and> length (filter final_frame vs) = 2"
proof -
  have ids: "conn_ids (sv_codec ex_total) [RFrame [1], RFrame [2]] = [''q'', ''q'']"
    by (simp add: conn_ids_def first_id_def request_id_def ex_total_def from_slice_def serde_defs)
  have run: "fst (handle_client ex_total [RFrame [1], RFrame [2]] (conn_new (\<lambda>n. True), 7 :: nat)) = Pending"
    by (simp add: ex_total_def from_slice_def serde_defs serve_request_def builtin_data_def answer_def put_value_def
        write_frame_def flow_of_def conn_new_def)
  have streams: "streams_end ex_total"
    by (simp add: streams_end_def ex_total_def ex_service_def stream_ended_def ex_events_def)
  obtain fl c w' where h: "handle_client ex_total [RFrame [1], RFrame [2]] (conn_new (\<lambda>n. True), 7) = (fl, c, w')"
    by (metis prod.exhaust)
  have "encodes_all (sv_codec ex_total)" and "breaks_once (\<lambda>n. True)"
    by (simp_all add: encodes_all_def ex_total_def breaks_once_def)
  from responses_in_order [OF this h] show ?thesis
    using run streams unfolding ids h fst_conv snd_conv by (simp add: numeral_2_eq_2)
qed

end
