(* ===== verification/Stack_Roster.thy ===== *)
theory Stack_Roster
  imports Lifecycle_Services
begin

text \<open>
  What the stack consists of (\<open>wylde-stack/src/roster.rs\<close>, \<open>shutdown_targets.rs\<close>): the core tier,
  the walk over the \<open>Services\<close> bucket, the roster made of both, the names of release assets,
  and the two sets of process images that quitting uses. Listing a directory is an argument,
  \<open>ls\<close>; so is \<open>lower\<close>, the Unicode lower-casing of the standard library.
\<close>

section \<open>The core tier\<close>

definition LIFECYCLE :: string where "LIFECYCLE = ''wylde-lifecycle''"
definition GUI :: string where "GUI = ''wylde-gui''"

definition EXE_SUFFIX :: string where
  "EXE_SUFFIX = ''.exe''"

definition RELEASE_TARGET :: string where
  "RELEASE_TARGET = ''x86_64-pc-windows-msvc''"

record core_entry =
  ce_name :: string
  ce_image :: "string option"

definition CORE_STACK :: "core_entry list" where
  "CORE_STACK =
     [\<lparr>ce_name = MEMGRAPH, ce_image = None\<rparr>,
      \<lparr>ce_name = MEMORY_SCHEDULER, ce_image = None\<rparr>,
      \<lparr>ce_name = VRAM_BROKER, ce_image = Some ''wylde-vram-broker.exe''\<rparr>,
      \<lparr>ce_name = VOICE, ce_image = Some ''wylde-voice.exe''\<rparr>,
      \<lparr>ce_name = DEVICE_GATE, ce_image = Some ''wylde-device-gate.exe''\<rparr>,
      \<lparr>ce_name = EXTENSION_BRIDGE, ce_image = Some ''wylde-extension-bridge.exe''\<rparr>,
      \<lparr>ce_name = OLLAMA, ce_image = Some ''wylde-ollama.exe''\<rparr>,
      \<lparr>ce_name = GATEWAY, ce_image = Some ''wylde-gateway.exe''\<rparr>,
      \<lparr>ce_name = HARNESS, ce_image = Some ''wylde-harness.exe''\<rparr>,
      \<lparr>ce_name = TREESITTER, ce_image = Some ''wylde-treesitter.exe''\<rparr>,
      \<lparr>ce_name = WORKSPACES, ce_image = Some ''wylde-workspaces.exe''\<rparr>,
      \<lparr>ce_name = N8N_ENGINE, ce_image = None\<rparr>,
      \<lparr>ce_name = N8N, ce_image = Some ''wylde-n8n.exe''\<rparr>,
      \<lparr>ce_name = VPN, ce_image = Some ''wylde-vpn.exe''\<rparr>]"

datatype stack_tier = TierGui | TierDaemon | TierService

record stack_binary =
  sb_name :: string
  sb_image :: string
  sb_tier :: stack_tier
  sb_folder :: "string option"

definition asset_name :: "stack_binary \<Rightarrow> string" where
  "asset_name b =
     (let stem = (if ends_with (sb_image b) ''.exe'' then take (length (sb_image b) - 4) (sb_image b) else sb_image b)
      in stem @ ''-'' @ RELEASE_TARGET @ ''.exe'')"

definition signature_name :: "stack_binary \<Rightarrow> string" where
  "signature_name b = asset_name b @ ''.minisig''"

definition is_sibling :: "stack_binary \<Rightarrow> bool" where
  "is_sibling b = (sb_folder b \<noteq> None)"

definition retarget_suffix :: "string \<Rightarrow> string" where
  "retarget_suffix img =
     (if ends_with img ''.exe'' then take (length img - 4) img @ EXE_SUFFIX else img)"

section \<open>The Services bucket\<close>

text \<open>An entry of a directory: its name, when that is valid Unicode, and what is found at it.\<close>

record dir_entry =
  de_path :: string
  de_name :: "string option"
  de_is_dir :: bool
  de_manifest :: bool

definition SERVICE_BUCKETS :: "string list" where
  "SERVICE_BUCKETS = [''Services'']"

definition EXCLUDED_PREFIXES :: "char list" where
  "EXCLUDED_PREFIXES = [CHR ''_'', CHR ''.'']"

text \<open>The override holds only for a walk of the real root.\<close>

definition resolve_bucket_dir :: "string \<Rightarrow> string option \<Rightarrow> string \<Rightarrow> string \<Rightarrow> string" where
  "resolve_bucket_dir wylde_root var base bucket =
     (case var of
        None \<Rightarrow> path_join base bucket
      | Some p \<Rightarrow> if bucket = ''Services'' \<and> base = wylde_root \<and> p \<noteq> [] then p else path_join base bucket)"

definition service_folder :: "dir_entry \<Rightarrow> bool" where
  "service_folder e =
     (de_is_dir e \<and> de_manifest e
      \<and> (case de_name e of None \<Rightarrow> False | Some n \<Rightarrow> n = [] \<or> hd n \<notin> set EXCLUDED_PREFIXES))"

definition discovered_folders :: "(string \<Rightarrow> dir_entry list option) \<Rightarrow> string \<Rightarrow> string option \<Rightarrow> string \<Rightarrow> dir_entry list" where
  "discovered_folders ls wylde_root var base =
     remdups_adj (concat (map (\<lambda>bucket.
       case ls (resolve_bucket_dir wylde_root var base bucket) of
         None \<Rightarrow> []
       | Some es \<Rightarrow> sort_key de_path (filter service_folder es)) SERVICE_BUCKETS))"

definition name_with_wylde_prefix :: "(string \<Rightarrow> string) \<Rightarrow> string \<Rightarrow> string" where
  "name_with_wylde_prefix lower name =
     (let candidate = map (\<lambda>c. if c = CHR '' '' then CHR ''-'' else c) (lower name)
      in if starts_with candidate ''wylde-'' then candidate else ''wylde-'' @ candidate)"

section \<open>The roster\<close>

definition core_binary :: "core_entry \<Rightarrow> stack_binary option" where
  "core_binary e = map_option (\<lambda>img. \<lparr>sb_name = ce_name e, sb_image = retarget_suffix img,
     sb_tier = TierService, sb_folder = None\<rparr>) (ce_image e)"

definition core_binaries :: "stack_binary list" where
  "core_binaries =
     \<lparr>sb_name = GUI, sb_image = GUI @ EXE_SUFFIX, sb_tier = TierGui, sb_folder = None\<rparr>
     # \<lparr>sb_name = LIFECYCLE, sb_image = LIFECYCLE @ EXE_SUFFIX, sb_tier = TierDaemon, sb_folder = None\<rparr>
     # List.map_filter core_binary CORE_STACK"

text \<open>A sibling whose name is taken is not a second binary.\<close>

fun add_siblings :: "(string \<Rightarrow> string) \<Rightarrow> dir_entry list \<Rightarrow> stack_binary list \<Rightarrow> stack_binary list" where
  "add_siblings lower [] out = out"
| "add_siblings lower (f # fs) out =
     (case de_name f of
        None \<Rightarrow> add_siblings lower fs out
      | Some n \<Rightarrow>
          (let name = name_with_wylde_prefix lower n
           in if name \<in> set (map sb_name out) then add_siblings lower fs out
              else add_siblings lower fs (out @ [\<lparr>sb_name = name, sb_image = name @ EXE_SUFFIX,
                     sb_tier = TierService, sb_folder = Some (de_path f)\<rparr>])))"

definition roster_in ::
  "(string \<Rightarrow> string) \<Rightarrow> (string \<Rightarrow> dir_entry list option) \<Rightarrow> string \<Rightarrow> string option \<Rightarrow> string \<Rightarrow> stack_binary list" where
  "roster_in lower ls wylde_root var base =
     add_siblings lower (discovered_folders ls wylde_root var base) core_binaries"

section \<open>The images of a shutdown\<close>

definition NON_ROSTER_GUI_IMAGES :: "string list" where
  "NON_ROSTER_GUI_IMAGES = [''fletch-gui.exe'']"

definition kill_targets_in :: "stack_binary list \<Rightarrow> string list" where
  "kill_targets_in r =
     map sb_image (filter (\<lambda>b. sb_tier b \<noteq> TierGui) r) @ map sb_image (filter (\<lambda>b. sb_tier b = TierGui) r)
       @ NON_ROSTER_GUI_IMAGES"

definition poll_set_in :: "stack_binary list \<Rightarrow> string list" where
  "poll_set_in r = map sb_image (filter (\<lambda>b. sb_tier b \<noteq> TierGui) r)"

section \<open>Facts\<close>

text \<open>The core tier and the daemon's table have the same names, in the same order.\<close>

lemma core_stack_is_daemon_table: "map ce_name CORE_STACK = map dm_name DAEMON_MANAGED"
  by (simp add: CORE_STACK_def DAEMON_MANAGED_def managed_row_def)

lemma core_binaries_eval:
  "map (\<lambda>b. (sb_name b, sb_image b)) core_binaries =
     map (\<lambda>n. (n, n @ EXE_SUFFIX)) ([GUI, LIFECYCLE] @ map ce_name (filter (\<lambda>e. ce_image e \<noteq> None) CORE_STACK))"
  by (simp add: core_binaries_def core_binary_def CORE_STACK_def List.map_filter_simps retarget_suffix_def
      ends_with_def EXE_SUFFIX_def service_names N8N_def N8N_ENGINE_def VPN_def)

lemma add_siblings_keep: "\<exists>xs. add_siblings lower fs out = out @ xs \<and> (\<forall>b \<in> set xs. is_sibling b \<and> sb_tier b = TierService)"
proof (induction fs arbitrary: out)
  case (Cons f fs)
  show ?case
  proof (cases "de_name f")
    case (Some n)
    let ?b = "\<lparr>sb_name = name_with_wylde_prefix lower n, sb_image = name_with_wylde_prefix lower n @ EXE_SUFFIX,
       sb_tier = TierService, sb_folder = Some (de_path f)\<rparr>"
    obtain xs where xs: "add_siblings lower fs (out @ [?b]) = (out @ [?b]) @ xs"
        "\<forall>b \<in> set xs. is_sibling b \<and> sb_tier b = TierService"
      using Cons.IH [of "out @ [?b]"] by blast
    show ?thesis
      using Cons.IH [of out] xs by (auto simp: Some Let_def is_sibling_def intro!: exI [of _ "?b # xs"])
  qed (use Cons.IH [of out] in simp)
qed simp

lemma add_siblings_images:
  assumes "\<forall>b \<in> set out. sb_image b = sb_name b @ EXE_SUFFIX"
  shows "\<forall>b \<in> set (add_siblings lower fs out). sb_image b = sb_name b @ EXE_SUFFIX"
  using assms by (induction lower fs out rule: add_siblings.induct) (auto simp: Let_def split: option.splits)

lemma add_siblings_distinct:
  "distinct (map sb_name out) \<Longrightarrow> distinct (map sb_name (add_siblings lower fs out))"
  by (induction lower fs out rule: add_siblings.induct) (auto simp: Let_def split: option.splits)

lemma core_names_distinct: "distinct (map sb_name core_binaries)"
proof -
  have "map sb_name core_binaries = map fst (map (\<lambda>b. (sb_name b, sb_image b)) core_binaries)" by simp
  also have "\<dots> = [GUI, LIFECYCLE] @ map ce_name (filter (\<lambda>e. ce_image e \<noteq> None) CORE_STACK)"
    unfolding core_binaries_eval by (simp add: comp_def)
  finally show ?thesis
    by (simp add: CORE_STACK_def service_names N8N_def VPN_def GUI_def LIFECYCLE_def)
qed

lemma core_images: "\<forall>b \<in> set core_binaries. sb_image b = sb_name b @ EXE_SUFFIX"
proof
  fix b assume "b \<in> set core_binaries"
  then have "(sb_name b, sb_image b) \<in> set (map (\<lambda>b. (sb_name b, sb_image b)) core_binaries)" by force
  then show "sb_image b = sb_name b @ EXE_SUFFIX" unfolding core_binaries_eval by auto
qed

text \<open>The members have distinct names and, as an image is the name with the suffix, distinct images.\<close>

lemma roster_distinct:
  "distinct (map sb_name (roster_in lower ls wr var base))"
  "distinct (map sb_image (roster_in lower ls wr var base))"
proof -
  show names: "distinct (map sb_name (roster_in lower ls wr var base))"
    by (simp add: roster_in_def add_siblings_distinct core_names_distinct)
  have "map sb_image (roster_in lower ls wr var base) = map (\<lambda>n. n @ EXE_SUFFIX) (map sb_name (roster_in lower ls wr var base))"
    using add_siblings_images [OF core_images, of lower] by (simp add: roster_in_def)
  then show "distinct (map sb_image (roster_in lower ls wr var base))"
    using names by (simp add: distinct_map inj_on_def)
qed

lemma roster_split:
  "\<exists>xs. roster_in lower ls wr var base = core_binaries @ xs \<and> (\<forall>b \<in> set xs. is_sibling b \<and> sb_tier b = TierService)"
  by (simp add: roster_in_def add_siblings_keep)

lemma core_not_sibling: "b \<in> set core_binaries \<Longrightarrow> \<not> is_sibling b"
  by (auto simp: core_binaries_def core_binary_def is_sibling_def List.map_filter_def)

text \<open>The kill list misses no image, and the images that are polled are those of no GUI.\<close>

lemma kill_targets_cover:
  "set (map sb_image r) \<subseteq> set (kill_targets_in r)"
  "set (poll_set_in r) \<subseteq> set (kill_targets_in r)"
  by (auto simp: kill_targets_in_def poll_set_in_def)

end
