(* ===== verification/Stack_Current.thy ===== *)
theory Stack_Current
  imports Stack_Roster
begin

text \<open>
  Where the current stack lives and how it is repointed (\<open>wylde-stack/src/current.rs\<close>), over a
  file system that is a map from paths to directories and files. Every call on it may fail: \<open>fx\<close>
  says which do, what a failed write leaves behind and what survives a failed removal. A file's
  content is the string of its bytes.
\<close>

section \<open>The file system\<close>

datatype node = Dir | File string

type_synonym fsys = "(string, node) hmap"

datatype fs_op = MkDirs string | WriteOp string | RenameOp string string | RemoveTree string | RemoveFile string | ListDir string | ReadOp string

record fs_world =
  fx_err :: "fs_op \<Rightarrow> string option"
  fx_junk :: "string \<Rightarrow> string option"
  fx_left :: "string \<Rightarrow> bool"
  fx_canon :: "fsys \<Rightarrow> string \<Rightarrow> string option"

definition path_sep :: char where
  "path_sep = CHR 0x5C"

definition pjoin :: "string \<Rightarrow> string \<Rightarrow> string" where
  "pjoin d n = (if d = [] \<or> List.last d = path_sep then d @ n else d @ [path_sep] @ n)"

definition is_dir :: "fsys \<Rightarrow> string \<Rightarrow> bool" where
  "is_dir fs p = (hm_get fs p = Some Dir)"

definition is_file :: "fsys \<Rightarrow> string \<Rightarrow> bool" where
  "is_file fs p = (case hm_get fs p of Some (File _) \<Rightarrow> True | _ \<Rightarrow> False)"

definition path_ancestors :: "string \<Rightarrow> string list" where
  "path_ancestors p = map (\<lambda>i. take i p) (filter (\<lambda>i. p ! i = path_sep) [1..<length p]) @ [p]"

definition fs_mkdirs :: "fs_world \<Rightarrow> string \<Rightarrow> fsys \<Rightarrow> (string, unit) rust_res \<times> fsys" where
  "fs_mkdirs fx p fs =
     (case fx_err fx (MkDirs p) of
        Some e \<Rightarrow> (Inl e, fs)
      | None \<Rightarrow>
          if list_ex (is_file fs) (path_ancestors p) then (Inl ''not a directory'', fs)
          else (Inr (), fold (\<lambda>q fs. if hm_get fs q = None then hm_put q Dir fs else fs) (path_ancestors p) fs))"

definition fs_write :: "fs_world \<Rightarrow> string \<Rightarrow> string \<Rightarrow> fsys \<Rightarrow> (string, unit) rust_res \<times> fsys" where
  "fs_write fx p content fs =
     (if is_dir fs p then (Inl ''is a directory'', fs)
      else case fx_err fx (WriteOp p) of
        Some e \<Rightarrow> (Inl e, case fx_junk fx p of None \<Rightarrow> fs | Some j \<Rightarrow> hm_put p (File j) fs)
      | None \<Rightarrow> (Inr (), hm_put p (File content) fs))"

definition fs_read :: "fs_world \<Rightarrow> string \<Rightarrow> fsys \<Rightarrow> string option" where
  "fs_read fx p fs =
     (if fx_err fx (ReadOp p) \<noteq> None then None
      else case hm_get fs p of Some (File c) \<Rightarrow> Some c | _ \<Rightarrow> None)"

definition fs_rename :: "fs_world \<Rightarrow> string \<Rightarrow> string \<Rightarrow> fsys \<Rightarrow> (string, unit) rust_res \<times> fsys" where
  "fs_rename fx p q fs =
     (case fx_err fx (RenameOp p q) of
        Some e \<Rightarrow> (Inl e, fs)
      | None \<Rightarrow> (case hm_get fs p of
          None \<Rightarrow> (Inl ''not found'', fs)
        | Some n \<Rightarrow> (Inr (), hm_put q n (hm_del p fs))))"

definition fs_remove_file :: "fs_world \<Rightarrow> string \<Rightarrow> fsys \<Rightarrow> (string, unit) rust_res \<times> fsys" where
  "fs_remove_file fx p fs =
     (case fx_err fx (RemoveFile p) of
        Some e \<Rightarrow> (Inl e, fs)
      | None \<Rightarrow> if is_file fs p then (Inr (), hm_del p fs) else (Inl ''not found'', fs))"

definition under :: "string \<Rightarrow> string \<Rightarrow> bool" where
  "under d p = (p = d \<or> starts_with p (d @ [path_sep]))"

text \<open>A removal that fails may have removed some of the tree.\<close>

definition fs_remove_tree :: "fs_world \<Rightarrow> string \<Rightarrow> fsys \<Rightarrow> (string, unit) rust_res \<times> fsys" where
  "fs_remove_tree fx d fs =
     (case fx_err fx (RemoveTree d) of
        Some e \<Rightarrow> (Inl e, hm_retain (\<lambda>p _. \<not> under d p \<or> fx_left fx p) fs)
      | None \<Rightarrow> (Inr (), hm_retain (\<lambda>p _. \<not> under d p) fs))"

text \<open>The entries of a directory: its paths with one more component.\<close>

definition fs_list :: "fs_world \<Rightarrow> string \<Rightarrow> fsys \<Rightarrow> string list option" where
  "fs_list fx d fs =
     (if fx_err fx (ListDir d) \<noteq> None \<or> \<not> is_dir fs d then None
      else Some (filter (\<lambda>p. starts_with p (d @ [path_sep]) \<and> path_sep \<notin> set (drop (Suc (length d)) p)) (map fst fs)))"

section \<open>The pointer\<close>

datatype stack_error = StackIo string | StackNotFound string

definition stack_error_str :: "stack_error \<Rightarrow> string" where
  "stack_error_str e =
     (case e of StackIo s \<Rightarrow> ''io error: '' @ s | StackNotFound s \<Rightarrow> ''no runnable Wylde stack found: '' @ s)"

definition wylde_home :: "(string \<Rightarrow> string option) \<Rightarrow> string option" where
  "wylde_home var =
     (case var ''WYLDE_HOME'' of
        Some (c # v) \<Rightarrow> Some (c # v)
      | _ \<Rightarrow>
          (case (case var ''LOCALAPPDATA'' of
                   Some b \<Rightarrow> Some b
                 | None \<Rightarrow> (case var ''XDG_DATA_HOME'' of
                     Some b \<Rightarrow> Some b
                   | None \<Rightarrow> map_option (\<lambda>h. pjoin h ''.local/share'') (var ''HOME''))) of
             None \<Rightarrow> None
           | Some b \<Rightarrow> Some (pjoin b ''Wylde'')))"

definition pointer_path :: "(string \<Rightarrow> string option) \<Rightarrow> string option" where
  "pointer_path var = map_option (\<lambda>h. pjoin h ''current'') (wylde_home var)"

definition current_dir :: "fs_world \<Rightarrow> (string \<Rightarrow> string option) \<Rightarrow> fsys \<Rightarrow> string option" where
  "current_dir fx var fs =
     (let by_pointer =
        (case pointer_path var of
           None \<Rightarrow> None
         | Some pointer \<Rightarrow>
             (case fs_read fx pointer fs of
                None \<Rightarrow> None
              | Some raw \<Rightarrow> if is_dir fs (trim raw) then Some (trim raw) else None))
      in case var ''WYLDE_CURRENT'' of
           Some p \<Rightarrow> if is_dir fs p then Some p else by_pointer
         | None \<Rightarrow> by_pointer)"

text \<open>\<open>with_extension\<close> on \<open>current\<close>, which has no extension, appends.\<close>

definition pointer_tmp :: "string \<Rightarrow> string" where
  "pointer_tmp home = pjoin home ''current'' @ ''.current.tmp''"

definition set_current :: "fs_world \<Rightarrow> (string \<Rightarrow> string option) \<Rightarrow> string \<Rightarrow> fsys \<Rightarrow> (stack_error, unit) rust_res \<times> fsys" where
  "set_current fx var dir fs =
     (if \<not> is_dir fs dir then (Inl (StackIo (''refusing to point `current` at a non-directory: '' @ dir)), fs)
      else case wylde_home var of
        None \<Rightarrow> (Inl (StackIo ''no home directory for the pointer''), fs)
      | Some home \<Rightarrow>
          let pointer = pjoin home ''current''; tmp = pointer_tmp home
          in case fs_mkdirs fx home fs of
               (Inl e, fs1) \<Rightarrow> (Inl (StackIo (''creating '' @ home @ '': '' @ e)), fs1)
             | (Inr _, fs1) \<Rightarrow>
                 (case fs_write fx tmp dir fs1 of
                    (Inl e, fs2) \<Rightarrow> (Inl (StackIo (''writing pointer temp: '' @ e)), fs2)
                  | (Inr _, fs2) \<Rightarrow>
                      (case fs_rename fx tmp pointer fs2 of
                         (Inl e, fs3) \<Rightarrow> (Inl (StackIo (''renaming pointer into place: '' @ e)), snd (fs_remove_file fx tmp fs3))
                       | (Inr _, fs3) \<Rightarrow> (Inr (), fs3))))"

section \<open>Resolution\<close>

datatype source = Current string | BuildTree "string option" "string option"

record resolved_binary =
  rb_name :: string
  rb_tier :: stack_tier
  rb_path :: "string option"

record resolved_stack =
  rs_source :: source
  rs_binaries :: "resolved_binary list"

definition BACKEND_PROFILE_DIRS :: "string list list" where
  "BACKEND_PROFILE_DIRS = [[''rust'', ''bin''], [''rust'', ''target'', ''release''], [''rust'', ''target'', ''debug'']]"

definition GUI_PROFILE_DIRS :: "string list list" where
  "GUI_PROFILE_DIRS = [[''Core'', ''GUI'', ''target'', ''release''], [''Core'', ''GUI'', ''target'', ''debug'']]"

definition existing :: "fsys \<Rightarrow> string \<Rightarrow> string option" where
  "existing fs p = (if is_file fs p then Some p else None)"

definition image_of :: "stack_binary list \<Rightarrow> string \<Rightarrow> string" where
  "image_of entries name =
     (case List.find (\<lambda>b. sb_name b = name) entries of Some b \<Rightarrow> sb_image b | None \<Rightarrow> name @ EXE_SUFFIX)"

fun choose_dir :: "fsys \<Rightarrow> string \<Rightarrow> string list list \<Rightarrow> string \<Rightarrow> string option \<Rightarrow> string option" where
  "choose_dir fs base [] anchor first = first"
| "choose_dir fs base (parts # cands) anchor first =
     (let dir = foldl pjoin base parts
      in if is_file fs (pjoin dir anchor) then Some dir
         else choose_dir fs base cands anchor (if first = None \<and> is_dir fs dir then Some dir else first))"

definition sibling_path :: "fsys \<Rightarrow> string \<Rightarrow> string \<Rightarrow> string option" where
  "sibling_path fs folder img =
     (let bare = unwrap_or img (strip_prefix ''wylde-'' img);
          dirs = [folder, pjoin (pjoin folder ''target'') ''release'', pjoin (pjoin folder ''target'') ''debug'']
      in List.find (is_file fs) [pjoin d n. d \<leftarrow> dirs, n \<leftarrow> [img, bare]])"

definition resolve_one :: "fsys \<Rightarrow> string option \<Rightarrow> string option \<Rightarrow> stack_binary \<Rightarrow> string option" where
  "resolve_one fs backend gui b =
     (case sb_folder b of
        Some folder \<Rightarrow> sibling_path fs folder (sb_image b)
      | None \<Rightarrow> Option.bind (if sb_tier b = TierGui then gui else backend) (\<lambda>d. existing fs (pjoin d (sb_image b))))"

definition resolve_in :: "fs_world \<Rightarrow> (string \<Rightarrow> string option) \<Rightarrow> stack_binary list \<Rightarrow> string \<Rightarrow> fsys \<Rightarrow> resolved_stack" where
  "resolve_in fx var entries base fs =
     (case current_dir fx var fs of
        Some dir \<Rightarrow>
          \<lparr>rs_source = Current dir,
           rs_binaries = map (\<lambda>b. \<lparr>rb_name = sb_name b, rb_tier = sb_tier b,
             rb_path = existing fs (pjoin dir (sb_image b))\<rparr>) entries\<rparr>
      | None \<Rightarrow>
          let backend = choose_dir fs base BACKEND_PROFILE_DIRS (image_of entries LIFECYCLE) None;
              gui = choose_dir fs base GUI_PROFILE_DIRS (image_of entries GUI) None
          in \<lparr>rs_source = BuildTree backend gui,
              rs_binaries = map (\<lambda>b. \<lparr>rb_name = sb_name b, rb_tier = sb_tier b,
                rb_path = resolve_one fs backend gui b\<rparr>) entries\<rparr>)"

definition rs_get :: "resolved_stack \<Rightarrow> string \<Rightarrow> resolved_binary option" where
  "rs_get s name = List.find (\<lambda>b. rb_name b = name) (rs_binaries s)"

definition path_of :: "resolved_stack \<Rightarrow> string \<Rightarrow> string option" where
  "path_of s name = Option.bind (rs_get s name) rb_path"

definition rs_missing :: "resolved_stack \<Rightarrow> string list" where
  "rs_missing s = map rb_name (filter (\<lambda>b. rb_path b = None) (rs_binaries s))"

definition searched_hint :: "resolved_stack \<Rightarrow> string" where
  "searched_hint s =
     (case rs_source s of
        Current dir \<Rightarrow> dir
      | BuildTree backend gui \<Rightarrow> ''backend='' @ unwrap_or ''<none>'' backend @ '', gui='' @ unwrap_or ''<none>'' gui)"

definition rs_daemon :: "resolved_stack \<Rightarrow> (stack_error, string) rust_res" where
  "rs_daemon s =
     (case path_of s LIFECYCLE of
        Some p \<Rightarrow> Inr p
      | None \<Rightarrow> Inl (StackNotFound (''no '' @ LIFECYCLE @ EXE_SUFFIX @ '' found (searched: '' @ searched_hint s @ '')'')))"

definition rs_gui :: "resolved_stack \<Rightarrow> (stack_error, string) rust_res" where
  "rs_gui s =
     (case path_of s GUI of
        Some p \<Rightarrow> Inr p
      | None \<Rightarrow> Inl (StackNotFound (''no '' @ GUI @ EXE_SUFFIX @ '' found (searched: '' @ searched_hint s @ '')'')))"

section \<open>Facts\<close>

text \<open>What an operation leaves alone.\<close>

definition same_at :: "(string \<Rightarrow> bool) \<Rightarrow> fsys \<Rightarrow> fsys \<Rightarrow> bool" where
  "same_at P fs fs' = (\<forall>p. P p \<longrightarrow> hm_get fs' p = hm_get fs p)"

lemma same_at_refl [simp]: "same_at P fs fs"
  by (simp add: same_at_def)

lemma same_at_trans: "same_at P a b \<Longrightarrow> same_at P b c \<Longrightarrow> same_at P a c"
  by (simp add: same_at_def)

lemma same_at_mono: "same_at P a b \<Longrightarrow> (\<And>p. Q p \<Longrightarrow> P p) \<Longrightarrow> same_at Q a b"
  by (simp add: same_at_def)

text \<open>New directories appear only where there was nothing.\<close>

lemma mkdirs_fold:
  "hm_get (fold (\<lambda>q fs. if hm_get fs q = None then hm_put q Dir fs else fs) qs fs) p =
     (if p \<in> set qs \<and> hm_get fs p = None then Some Dir else hm_get fs p)"
  by (induction qs arbitrary: fs) auto

lemma mkdirs_get:
  "fs_mkdirs fx d fs = (Inr (), fs') \<Longrightarrow>
     hm_get fs' p = (if p \<in> set (path_ancestors d) \<and> hm_get fs p = None then Some Dir else hm_get fs p)"
  by (auto simp: fs_mkdirs_def mkdirs_fold split: option.splits if_splits)

lemma mkdirs_err: "fs_mkdirs fx d fs = (Inl e, fs') \<Longrightarrow> fs' = fs"
  by (auto simp: fs_mkdirs_def split: option.splits if_splits)

lemma mkdirs_keeps: "fs_mkdirs fx d fs = (r, fs') \<Longrightarrow> hm_get fs p \<noteq> None \<Longrightarrow> hm_get fs' p = hm_get fs p"
  using mkdirs_get [of fx d fs fs' p] mkdirs_err [of fx d fs] by (cases r) auto

lemma mkdirs_outside: "fs_mkdirs fx d fs = (r, fs') \<Longrightarrow> p \<notin> set (path_ancestors d) \<Longrightarrow> hm_get fs' p = hm_get fs p"
  using mkdirs_get [of fx d fs fs' p] mkdirs_err [of fx d fs] by (cases r) auto

lemma mkdirs_dir: "fs_mkdirs fx d fs = (Inr (), fs') \<Longrightarrow> is_dir fs' d"
proof -
  assume m: "fs_mkdirs fx d fs = (Inr (), fs')"
  have d: "d \<in> set (path_ancestors d)" by (simp add: path_ancestors_def)
  then have "\<not> is_file fs d"
    using m by (auto simp: fs_mkdirs_def list_ex_iff split: option.splits if_splits)
  then show "is_dir fs' d"
    using mkdirs_get [OF m, of d] d by (auto simp: is_dir_def is_file_def split: option.splits node.splits)
qed

lemma write_same: "fs_write fx p c fs = (r, fs') \<Longrightarrow> q \<noteq> p \<Longrightarrow> hm_get fs' q = hm_get fs q"
  by (auto simp: fs_write_def split: option.splits if_splits)

lemma write_done: "fs_write fx p c fs = (Inr (), fs') \<Longrightarrow> hm_get fs' p = Some (File c)"
  by (auto simp: fs_write_def split: option.splits if_splits)

lemma rename_same: "fs_rename fx p q fs = (r, fs') \<Longrightarrow> x \<noteq> p \<Longrightarrow> x \<noteq> q \<Longrightarrow> hm_get fs' x = hm_get fs x"
  by (auto simp: fs_rename_def split: option.splits)

lemma rename_err: "fs_rename fx p q fs = (Inl e, fs') \<Longrightarrow> fs' = fs"
  by (auto simp: fs_rename_def split: option.splits)

lemma rename_done: "fs_rename fx p q fs = (Inr (), fs') \<Longrightarrow> hm_get fs' q = hm_get fs p"
  by (auto simp: fs_rename_def split: option.splits)

lemma remove_file_same: "x \<noteq> p \<Longrightarrow> hm_get (snd (fs_remove_file fx p fs)) x = hm_get fs x"
  by (simp add: fs_remove_file_def split: option.splits)

lemma pointer_tmp_differs: "pointer_tmp home \<noteq> pjoin home ''current''"
  by (simp add: pointer_tmp_def)

text \<open>
  Repointing is atomic: when it fails, every path but that of the temporary file is as before, in
  particular the pointer; when it succeeds, the pointer names the directory.
\<close>

lemma set_current_atomic:
  assumes "set_current fx var dir fs = (r, fs')" and "wylde_home var = Some home" and "p \<noteq> pointer_tmp home"
    and "hm_get fs p \<noteq> None \<or> p \<notin> set (path_ancestors home)"
  shows "case r of
     Inl _ \<Rightarrow> hm_get fs' p = hm_get fs p
   | Inr _ \<Rightarrow> hm_get fs' (pjoin home ''current'') = Some (File dir) \<and> (p \<noteq> pjoin home ''current'' \<longrightarrow> hm_get fs' p = hm_get fs p)"
proof (cases "is_dir fs dir")
  case False
  then show ?thesis using assms(1) by (auto simp: set_current_def)
next
  case True
  let ?t = "pointer_tmp home" and ?c = "pjoin home ''current''"
  obtain r1 fs1 where m: "fs_mkdirs fx home fs = (r1, fs1)" by fastforce
  obtain r2 fs2 where w: "fs_write fx ?t dir fs1 = (r2, fs2)" by fastforce
  obtain r3 fs3 where n: "fs_rename fx ?t ?c fs2 = (r3, fs3)" by fastforce
  have k1: "hm_get fs1 p = hm_get fs p" using mkdirs_keeps [OF m] mkdirs_outside [OF m] assms(4) by auto
  have k2: "hm_get fs2 p = hm_get fs1 p" using write_same [OF w] assms(3) by simp
  show ?thesis
  proof (cases r1)
    case (Inl e)
    then show ?thesis using assms(1,2) True m k1 by (auto simp: set_current_def Let_def)
  next
    case r1: (Inr u)
    show ?thesis
    proof (cases r2)
      case (Inl e)
      then show ?thesis using assms(1,2) True m w r1 k1 k2 by (auto simp: set_current_def Let_def)
    next
      case r2: (Inr u2)
      show ?thesis
      proof (cases r3)
        case (Inl e)
        then have "r = Inl (StackIo (''renaming pointer into place: '' @ e))" "fs' = snd (fs_remove_file fx ?t fs3)"
          using assms(1,2) True m w n r1 r2 by (auto simp: set_current_def Let_def)
        then show ?thesis using rename_err [OF n [unfolded Inl]] remove_file_same [of p ?t fx fs3] assms(3) k1 k2 by auto
      next
        case (Inr u3)
        then have "r = Inr ()" "fs' = fs3"
          using assms(1,2) True m w n r1 r2 by (auto simp: set_current_def Let_def)
        moreover have "hm_get fs3 ?c = Some (File dir)"
          using rename_done [of fx ?t ?c fs2 fs3] n Inr write_done [of fx ?t dir fs1 fs2] w r2 by simp
        moreover have "p \<noteq> ?c \<longrightarrow> hm_get fs3 p = hm_get fs2 p" using rename_same [OF n] assms(3) by simp
        ultimately show ?thesis using k1 k2 by simp
      qed
    qed
  qed
qed

text \<open>One directory holds all the binaries of an installed stack.\<close>

lemma resolved_from_one_dir:
  "current_dir fx var fs = Some dir \<Longrightarrow> b \<in> set (rs_binaries (resolve_in fx var entries base fs)) \<Longrightarrow>
     rb_path b = Some p \<Longrightarrow> \<exists>e \<in> set entries. rb_name b = sb_name e \<and> p = pjoin dir (sb_image e) \<and> is_file fs p"
  by (auto simp: resolve_in_def existing_def split: if_splits)

text \<open>In the build tree all in-tree services come from one directory, too, and the shell from another.\<close>

lemma build_tree_one_dir:
  assumes "current_dir fx var fs = None" and "rs_source (resolve_in fx var entries base fs) = BuildTree backend gui"
    and "b \<in> set (rs_binaries (resolve_in fx var entries base fs))" and "rb_path b = Some p"
  shows "\<exists>e \<in> set entries. rb_name b = sb_name e \<and>
    (\<not> is_sibling e \<longrightarrow> (\<exists>d. (if sb_tier e = TierGui then gui else backend) = Some d \<and> p = pjoin d (sb_image e)))"
  using assms by (auto simp: resolve_in_def Let_def resolve_one_def is_sibling_def existing_def
      split: option.splits bind_splits if_splits)

end
