(* ===== verification/Updater_Release.thy ===== *)
theory Updater_Release
  imports Stack_Current Ipc_Wire
begin

text \<open>
  Which release is an update (\<open>wylde-updater/src/release.rs\<close>): channels, the releases as the
  service lists them, selection, the match of the roster to the assets, and the decision. Versions
  come from the crate \<open>semver\<close>: a type with its linear order, a parser and a printer, both
  fields of \<open>semver\<close>.
\<close>

section \<open>Data\<close>

record 'v semver =
  sv_parse :: "string \<Rightarrow> 'v option"
  sv_print :: "'v \<Rightarrow> string"

datatype channel = Stable | Beta

definition channel_str :: "channel \<Rightarrow> string" where
  "channel_str c = (case c of Stable \<Rightarrow> ''stable'' | Beta \<Rightarrow> ''beta'')"

definition from_str_lossy :: "string \<Rightarrow> channel" where
  "from_str_lossy s = (if to_ascii_lowercase (trim s) = ''beta'' then Beta else Stable)"

definition accepts_prerelease :: "channel \<Rightarrow> bool" where
  "accepts_prerelease c = (c = Beta)"

record release_asset =
  ra_name :: string
  ra_url :: string
  ra_size :: nat

record release =
  rl_tag :: string
  rl_draft :: bool
  rl_prerelease :: bool
  rl_body :: string
  rl_html_url :: string
  rl_assets :: "release_asset list"

record stack_asset =
  sa_name :: string
  sa_image :: string
  sa_binary :: release_asset
  sa_signature :: release_asset

record update_info =
  ui_version :: string
  ui_tag :: string
  ui_notes :: string
  ui_html_url :: string
  ui_assets :: "stack_asset list"

datatype update_status = UpToDate string | Available update_info

datatype update_error = UHttp string | UParse string | UVersion string | UNoAsset | UNoSignature
  | UNoSigningKey | UVerify string | UIo string

definition update_error_str :: "update_error \<Rightarrow> string" where
  "update_error_str e = (case e of
     UHttp s \<Rightarrow> ''network error: '' @ s
   | UParse s \<Rightarrow> ''could not parse GitHub response: '' @ s
   | UVersion s \<Rightarrow> ''version error: '' @ s
   | UNoAsset \<Rightarrow> ''release is missing a required stack binary''
   | UNoSignature \<Rightarrow> ''release binary is unsigned (no .minisig asset)''
   | UNoSigningKey \<Rightarrow> ''this build has no signing key embedded; updates are disabled''
   | UVerify s \<Rightarrow> s
   | UIo s \<Rightarrow> ''io error: '' @ s)"

text \<open>A sum of sizes wraps at \<open>2 ^ 64\<close>.\<close>

definition total_size :: "update_info \<Rightarrow> nat" where
  "total_size i = u64_sum (map (\<lambda>a. ra_size (sa_binary a)) (ui_assets i))"

definition ui_asset :: "update_info \<Rightarrow> string \<Rightarrow> stack_asset option" where
  "ui_asset i name = List.find (\<lambda>a. sa_name a = name) (ui_assets i)"

definition is_available :: "update_status \<Rightarrow> bool" where
  "is_available s = (case s of Available _ \<Rightarrow> True | UpToDate _ \<Rightarrow> False)"

section \<open>What the service lists\<close>

fun de_asset :: "json \<Rightarrow> release_asset option" where
  "de_asset (JObj m) = do {
     name \<leftarrow> req_field ''name'' as_str m;
     url \<leftarrow> req_field ''browser_download_url'' as_str m;
     sz \<leftarrow> dflt_field 0 ''size'' as_u64 m;
     Some \<lparr>ra_name = name, ra_url = url, ra_size = sz\<rparr> }"
| "de_asset _ = None"

fun all_some :: "'a option list \<Rightarrow> 'a list option" where
  "all_some [] = Some []"
| "all_some (x # xs) = do { y \<leftarrow> x; ys \<leftarrow> all_some xs; Some (y # ys) }"

definition de_list :: "(json \<Rightarrow> 'a option) \<Rightarrow> json \<Rightarrow> 'a list option" where
  "de_list f v = (case v of JArr xs \<Rightarrow> all_some (map f xs) | _ \<Rightarrow> None)"

fun de_release :: "json \<Rightarrow> release option" where
  "de_release (JObj m) = do {
     tag \<leftarrow> req_field ''tag_name'' as_str m;
     draft \<leftarrow> dflt_field False ''draft'' as_bool m;
     pre \<leftarrow> dflt_field False ''prerelease'' as_bool m;
     body \<leftarrow> dflt_field [] ''body'' as_str m;
     url \<leftarrow> dflt_field [] ''html_url'' as_str m;
     assets \<leftarrow> dflt_field [] ''assets'' (de_list de_asset) m;
     Some \<lparr>rl_tag = tag, rl_draft = draft, rl_prerelease = pre, rl_body = body, rl_html_url = url, rl_assets = assets\<rparr> }"
| "de_release _ = None"

section \<open>Selection\<close>

text \<open>\<open>trim_start_matches(['v', 'V'])\<close> takes off all of them.\<close>

definition strip_v :: "string \<Rightarrow> string" where
  "strip_v s = dropWhile (\<lambda>c. c = CHR ''v'' \<or> c = CHR ''V'') s"

definition parse_tag :: "'v semver \<Rightarrow> string \<Rightarrow> 'v option" where
  "parse_tag sv tag = sv_parse sv (strip_v (trim tag))"

definition eligible :: "channel \<Rightarrow> release \<Rightarrow> bool" where
  "eligible c r = (\<not> rl_draft r \<and> (accepts_prerelease c \<or> \<not> rl_prerelease r))"

definition candidates :: "'v semver \<Rightarrow> channel \<Rightarrow> release list \<Rightarrow> (release \<times> 'v) list" where
  "candidates sv c rs =
     List.map_filter (\<lambda>r. map_option (\<lambda>v. (r, v)) (parse_tag sv (rl_tag r))) (filter (eligible c) rs)"

text \<open>\<open>max_by\<close> gives the last of several greatest elements.\<close>

fun max_by_snd :: "('a \<times> 'v :: linorder) list \<Rightarrow> ('a \<times> 'v) option" where
  "max_by_snd [] = None"
| "max_by_snd (x # xs) =
     (case max_by_snd xs of None \<Rightarrow> Some x | Some y \<Rightarrow> if snd x \<le> snd y then Some y else Some x)"

definition select_release :: "'v :: linorder semver \<Rightarrow> channel \<Rightarrow> release list \<Rightarrow> release option" where
  "select_release sv c rs = map_option fst (max_by_snd (candidates sv c rs))"

definition find_asset :: "release \<Rightarrow> string \<Rightarrow> release_asset option" where
  "find_asset r name = List.find (\<lambda>a. ra_name a = name) (rl_assets r)"

fun pick_assets :: "release \<Rightarrow> stack_binary list \<Rightarrow> (update_error, stack_asset list) rust_res" where
  "pick_assets r [] = Inr []"
| "pick_assets r (e # es) =
     (case find_asset r (asset_name e) of
        None \<Rightarrow> if is_sibling e then pick_assets r es else Inl UNoAsset
      | Some binary \<Rightarrow>
          (case find_asset r (signature_name e) of
             None \<Rightarrow> Inl UNoSignature
           | Some sig \<Rightarrow>
               (case pick_assets r es of
                  Inl err \<Rightarrow> Inl err
                | Inr out \<Rightarrow> Inr (\<lparr>sa_name = sb_name e, sa_image = sb_image e, sa_binary = binary, sa_signature = sig\<rparr> # out))))"

text \<open>\<open>expect\<close> on a tag that does not parse again would panic: \<open>None\<close>.\<close>

definition evaluate ::
  "'v :: linorder semver \<Rightarrow> stack_binary list \<Rightarrow> release list \<Rightarrow> channel \<Rightarrow> string \<Rightarrow> (update_error, update_status) rust_res option" where
  "evaluate sv roster rs c current_version =
     (case parse_tag sv current_version of
        None \<Rightarrow> Some (Inl (UVersion (''current version `'' @ current_version @ ''` is not valid semver'')))
      | Some current \<Rightarrow>
          (case select_release sv c rs of
             None \<Rightarrow> Some (Inr (UpToDate (sv_print sv current)))
           | Some r \<Rightarrow>
               (case parse_tag sv (rl_tag r) of
                  None \<Rightarrow> None
                | Some latest \<Rightarrow>
                    if latest \<le> current then Some (Inr (UpToDate (sv_print sv current)))
                    else (case pick_assets r roster of
                        Inl e \<Rightarrow> Some (Inl e)
                      | Inr assets \<Rightarrow> Some (Inr (Available \<lparr>ui_version = sv_print sv latest, ui_tag = rl_tag r,
                          ui_notes = rl_body r, ui_html_url = rl_html_url r, ui_assets = assets\<rparr>))))))"

section \<open>Facts\<close>

lemma channel_round_trip: "from_str_lossy (channel_str c) = c"
proof (cases c)
  case Stable
  have "trim ''stable'' = ''stable''" by code_simp
  then show ?thesis by (simp add: Stable from_str_lossy_def channel_str_def) code_simp
next
  case Beta
  have "trim ''beta'' = ''beta''" by code_simp
  then show ?thesis by (simp add: Beta from_str_lossy_def channel_str_def) code_simp
qed

lemma candidates_iff:
  "(r, v) \<in> set (candidates sv c rs) \<longleftrightarrow> r \<in> set rs \<and> eligible c r \<and> parse_tag sv (rl_tag r) = Some v"
  by (induction rs) (auto simp: candidates_def List.map_filter_simps split: option.splits)

lemma max_by_snd_None: "max_by_snd xs = None \<longleftrightarrow> xs = []"
  by (cases xs) (auto split: option.splits)

lemma max_by_snd_Some: "max_by_snd xs = Some x \<Longrightarrow> x \<in> set xs \<and> (\<forall>y \<in> set xs. snd y \<le> snd x)"
proof (induction xs arbitrary: x)
  case (Cons a xs)
  show ?case
  proof (cases "max_by_snd xs")
    case None
    then show ?thesis using Cons.prems max_by_snd_None [of xs] by simp
  next
    case (Some y)
    then show ?thesis using Cons.prems Cons.IH [OF Some] by (auto split: if_splits)
  qed
qed simp

text \<open>The selected release is eligible, has a version, and no eligible release has a greater one.\<close>

lemma select_release_Some:
  assumes "select_release sv c rs = Some r"
  shows "\<exists>v. r \<in> set rs \<and> eligible c r \<and> parse_tag sv (rl_tag r) = Some v
     \<and> (\<forall>r' \<in> set rs. \<forall>v'. eligible c r' \<longrightarrow> parse_tag sv (rl_tag r') = Some v' \<longrightarrow> v' \<le> v)"
proof -
  from assms obtain v where m: "max_by_snd (candidates sv c rs) = Some (r, v)" by (auto simp: select_release_def)
  then show ?thesis
    using max_by_snd_Some [OF m] candidates_iff [of _ _ sv c rs] by fastforce
qed

lemma select_release_None:
  "select_release sv c rs = None \<longleftrightarrow> (\<forall>r \<in> set rs. eligible c r \<longrightarrow> parse_tag sv (rl_tag r) = None)"
proof -
  have "select_release sv c rs = None \<longleftrightarrow> set (candidates sv c rs) = {}"
    by (simp add: select_release_def max_by_snd_None)
  also have "\<dots> \<longleftrightarrow> (\<forall>r v. (r, v) \<notin> set (candidates sv c rs))"
    by (metis all_not_in_conv surj_pair)
  also have "\<dots> \<longleftrightarrow> (\<forall>r \<in> set rs. eligible c r \<longrightarrow> parse_tag sv (rl_tag r) = None)"
    by (auto simp: candidates_iff)
  finally show ?thesis .
qed

lemma find_assetD: "find_asset r n = Some a \<Longrightarrow> a \<in> set (rl_assets r) \<and> ra_name a = n"
  by (auto simp: find_asset_def dest: find_SomeD)

text \<open>
  The match is complete: every in-tree member is carried, a sibling when the release has it, each
  with the asset of its own name and that asset's signature, in the order of the roster.
\<close>

definition carried :: "release \<Rightarrow> stack_binary \<Rightarrow> stack_asset option" where
  "carried r e = do {
     binary \<leftarrow> find_asset r (asset_name e);
     sig \<leftarrow> find_asset r (signature_name e);
     Some \<lparr>sa_name = sb_name e, sa_image = sb_image e, sa_binary = binary, sa_signature = sig\<rparr> }"

lemma pick_assets_spec:
  "pick_assets r es = Inr out \<longleftrightarrow>
     out = List.map_filter (carried r) es
     \<and> (\<forall>e \<in> set es. (carried r e = None \<longrightarrow> is_sibling e \<and> find_asset r (asset_name e) = None))"
  by (induction es arbitrary: out)
    (auto simp: carried_def List.map_filter_simps split: option.splits sum.splits)

lemma evaluate_no_panic: "evaluate sv roster rs c cur \<noteq> None"
  using select_release_Some [of sv c rs] by (auto simp: evaluate_def split: option.splits sum.splits)

lemma evaluate_spec:
  "\<exists>res. evaluate sv roster rs c cur = Some res \<and> (case res of
     Inr (Available i) \<Rightarrow> (\<exists>r \<in> set rs. \<exists>v now. eligible c r \<and> parse_tag sv (rl_tag r) = Some v
         \<and> parse_tag sv cur = Some now \<and> now < v \<and> ui_version i = sv_print sv v \<and> ui_tag i = rl_tag r
         \<and> (\<forall>r' \<in> set rs. \<forall>v'. eligible c r' \<longrightarrow> parse_tag sv (rl_tag r') = Some v' \<longrightarrow> v' \<le> v)
         \<and> (\<forall>e \<in> set roster. \<not> is_sibling e \<longrightarrow> (\<exists>a \<in> set (ui_assets i). carried r e = Some a))
         \<and> ui_assets i = List.map_filter (carried r) roster)
   | Inr (UpToDate s) \<Rightarrow> (\<exists>now. parse_tag sv cur = Some now \<and> s = sv_print sv now
         \<and> (\<forall>r \<in> set rs. \<forall>v. eligible c r \<longrightarrow> parse_tag sv (rl_tag r) = Some v \<longrightarrow> v \<le> now))
   | Inl e \<Rightarrow> e = UNoAsset \<or> e = UNoSignature \<or> parse_tag sv cur = None)"
proof (cases "parse_tag sv cur")
  case None
  then show ?thesis by (simp add: evaluate_def)
next
  case now: (Some now)
  show ?thesis
  proof (cases "select_release sv c rs")
    case None
    then show ?thesis using now select_release_None [of sv c rs] by (auto simp: evaluate_def)
  next
    case (Some r)
    then obtain v where r: "r \<in> set rs" "eligible c r" "parse_tag sv (rl_tag r) = Some v"
        "\<forall>r' \<in> set rs. \<forall>v'. eligible c r' \<longrightarrow> parse_tag sv (rl_tag r') = Some v' \<longrightarrow> v' \<le> v"
      using select_release_Some by blast
    show ?thesis
    proof (cases "v \<le> now")
      case True
      then have "evaluate sv roster rs c cur = Some (Inr (UpToDate (sv_print sv now)))"
        using now Some r(3) by (simp add: evaluate_def)
      moreover have "\<forall>r \<in> set rs. \<forall>v. eligible c r \<longrightarrow> parse_tag sv (rl_tag r) = Some v \<longrightarrow> v \<le> now"
        using r(4) True by (meson order.trans)
      ultimately show ?thesis using now by simp
    next
      case False
      show ?thesis
      proof (cases "pick_assets r roster")
        case (Inl e)
        have "e = UNoAsset \<or> e = UNoSignature"
          using Inl by (induction roster arbitrary: e) (auto split: option.splits if_splits sum.splits)
        then show ?thesis using now Some r(3) False Inl by (simp add: evaluate_def)
      next
        case (Inr assets)
        then have a: "assets = List.map_filter (carried r) roster"
            "\<forall>e \<in> set roster. carried r e = None \<longrightarrow> is_sibling e"
          using pick_assets_spec [of r roster assets] by auto
        have "\<forall>e \<in> set roster. \<not> is_sibling e \<longrightarrow> (\<exists>x \<in> set assets. carried r e = Some x)"
          using a by (force simp: List.map_filter_def)
        then show ?thesis using now Some r False Inr a(1) by (auto simp: evaluate_def not_le)
      qed
    qed
  qed
qed

end
