(* ===== verification/Updater_Install.thy ===== *)
theory Updater_Install
  imports Updater_Release
begin

text \<open>
  Checking for, downloading and installing an update (\<open>wylde-updater/src/lib.rs\<close>, \<open>verify.rs\<close>,
  \<open>pubkey.rs\<close>), on Windows. The signature scheme (crate \<open>minisign-verify\<close>) and the HTTP client
  (crate \<open>ureq\<close>) are parameters; the file system is that of \<open>Stack_Current\<close>.
\<close>

section \<open>Signatures\<close>

record ('k, 's) minisign =
  ms_key :: "string \<Rightarrow> 'k option"
  ms_decode :: "string \<Rightarrow> (string, 's) rust_res"
  ms_verify :: "'k \<Rightarrow> string \<Rightarrow> 's \<Rightarrow> bool \<Rightarrow> (string, unit) rust_res"

definition PLACEHOLDER :: string where
  "PLACEHOLDER = ''PLACEHOLDER_REPLACE_BEFORE_RELEASE''"

definition PUBLIC_KEY :: string where
  "PUBLIC_KEY = ''RWS2rPLp9BN+2obJk6h80IJAlurEyac8bz7REt0ea7v6uLG2AoppP0kb''"

definition has_signing_key :: "('k, 's) minisign \<Rightarrow> bool" where
  "has_signing_key ms = (PUBLIC_KEY \<noteq> PLACEHOLDER \<and> ms_key ms PUBLIC_KEY \<noteq> None)"

definition verify_with_key :: "('k, 's) minisign \<Rightarrow> string \<Rightarrow> string \<Rightarrow> string \<Rightarrow> (update_error, unit) rust_res" where
  "verify_with_key ms key_b64 content minisig =
     (case ms_key ms key_b64 of
        None \<Rightarrow> Inl UNoSigningKey
      | Some k \<Rightarrow>
          (case ms_decode ms minisig of
             Inl e \<Rightarrow> Inl (UVerify (''bad signature: '' @ e))
           | Inr s \<Rightarrow>
               (case ms_verify ms k content s False of
                  Inl e \<Rightarrow> Inl (UVerify (''signature verification failed: '' @ e))
                | Inr _ \<Rightarrow> Inr ())))"

definition verify_signature :: "('k, 's) minisign \<Rightarrow> string \<Rightarrow> string \<Rightarrow> (update_error, unit) rust_res" where
  "verify_signature ms content minisig =
     (if PUBLIC_KEY = PLACEHOLDER then Inl UNoSigningKey else verify_with_key ms PUBLIC_KEY content minisig)"

section \<open>The network\<close>

definition DEFAULT_RELEASES_URL :: string where
  "DEFAULT_RELEASES_URL = ''https://api.github.com/repos/PeopleWonder/wylde/releases?per_page=30''"

definition USER_AGENT :: string where
  "USER_AGENT = ''wylde-updater/0.2.0-beta.1''"

text \<open>A request is a URL and its headers; a body may be read as text or as bytes.\<close>

record 'r http =
  ht_call :: "string \<Rightarrow> (string \<times> string) list \<Rightarrow> (string, 'r) rust_res"
  ht_text :: "'r \<Rightarrow> (string, string) rust_res"
  ht_bytes :: "'r \<Rightarrow> (string, string) rust_res"

definition releases_url :: "(string \<Rightarrow> string option) \<Rightarrow> string" where
  "releases_url var = unwrap_or DEFAULT_RELEASES_URL (var ''WYLDE_UPDATE_RELEASES_URL'')"

definition http_get_text :: "'r http \<Rightarrow> string \<Rightarrow> (update_error, string) rust_res" where
  "http_get_text ht url =
     (case ht_call ht url [(''User-Agent'', USER_AGENT), (''Accept'', ''application/vnd.github+json'')] of
        Inl e \<Rightarrow> Inl (UHttp e)
      | Inr r \<Rightarrow> (case ht_text ht r of
          Inl e \<Rightarrow> Inl (UHttp (''reading response body: '' @ e))
        | Inr t \<Rightarrow> Inr t))"

definition http_get_bytes :: "'r http \<Rightarrow> string \<Rightarrow> (update_error, string) rust_res" where
  "http_get_bytes ht url =
     (case ht_call ht url [(''User-Agent'', USER_AGENT)] of
        Inl e \<Rightarrow> Inl (UHttp e)
      | Inr r \<Rightarrow> (case ht_bytes ht r of
          Inl e \<Rightarrow> Inl (UHttp (''reading response body: '' @ e))
        | Inr t \<Rightarrow> Inr t))"

definition check_for_update ::
  "'v :: linorder semver \<Rightarrow> 'r http \<Rightarrow> (string \<Rightarrow> (string, json) rust_res) \<Rightarrow> (string \<Rightarrow> string option) \<Rightarrow>
   stack_binary list \<Rightarrow> channel \<Rightarrow> string \<Rightarrow> (update_error, update_status) rust_res option" where
  "check_for_update sv ht from_str var roster c current_version =
     (case http_get_text ht (releases_url var) of
        Inl e \<Rightarrow> Some (Inl e)
      | Inr body \<Rightarrow>
          (case from_str body of
             Inl e \<Rightarrow> Some (Inl (UParse e))
           | Inr v \<Rightarrow> (case de_list de_release v of
               None \<Rightarrow> Some (Inl (UParse ''invalid type''))
             | Some rs \<Rightarrow> evaluate sv roster rs c current_version)))"

record downloaded_binary =
  db_name :: string
  db_image :: string
  db_bytes :: string
  db_minisig :: string

definition dr_get :: "downloaded_binary list \<Rightarrow> string \<Rightarrow> downloaded_binary option" where
  "dr_get bs name = List.find (\<lambda>b. db_name b = name) bs"

definition download_one :: "'r http \<Rightarrow> stack_asset \<Rightarrow> (update_error, downloaded_binary) rust_res" where
  "download_one ht a =
     (case http_get_bytes ht (ra_url (sa_binary a)) of
        Inl e \<Rightarrow> Inl e
      | Inr bytes \<Rightarrow> (case http_get_text ht (ra_url (sa_signature a)) of
          Inl e \<Rightarrow> Inl e
        | Inr ms \<Rightarrow> Inr \<lparr>db_name = sa_name a, db_image = sa_image a, db_bytes = bytes, db_minisig = ms\<rparr>))"

fun download_all :: "'r http \<Rightarrow> stack_asset list \<Rightarrow> (update_error, downloaded_binary list) rust_res" where
  "download_all ht [] = Inr []"
| "download_all ht (a # as) =
     (case download_one ht a of
        Inl e \<Rightarrow> Inl e
      | Inr b \<Rightarrow> (case download_all ht as of Inl e \<Rightarrow> Inl e | Inr bs \<Rightarrow> Inr (b # bs)))"

definition download_release :: "'r http \<Rightarrow> update_info \<Rightarrow> (update_error, downloaded_binary list) rust_res" where
  "download_release ht i = download_all ht (ui_assets i)"

section \<open>The version directory\<close>

definition is_reserved_device :: "string \<Rightarrow> bool" where
  "is_reserved_device version =
     (let stem = before_char (CHR ''.'') version; up = to_ascii_uppercase stem
      in up \<in> {''CON'', ''PRN'', ''AUX'', ''NUL''}
         \<or> (length stem = 4 \<and> (starts_with up ''COM'' \<or> starts_with up ''LPT'') \<and> is_digit (List.last stem)))"

definition suspicious_version :: "string \<Rightarrow> bool" where
  "suspicious_version version =
     (version = [] \<or> list_ex (\<lambda>c. c \<in> {CHR ''/'', path_sep, CHR '':''}) version \<or> contains_sub version ''..''
      \<or> starts_with version ''.'' \<or> is_reserved_device version)"

text \<open>The parent of the pointer is the home directory.\<close>

definition path_parent :: "string \<Rightarrow> string" where
  "path_parent p =
     (let d = rev (dropWhile (\<lambda>c. c \<noteq> path_sep) (rev p)); e = rev (dropWhile (\<lambda>c. c = path_sep) (rev d))
      in if e = [] \<or> List.last e = CHR '':'' then d else e)"

definition version_dir ::
  "fs_world \<Rightarrow> (string \<Rightarrow> string option) \<Rightarrow> string \<Rightarrow> fsys \<Rightarrow> (update_error, string) rust_res \<times> fsys" where
  "version_dir fx var version fs =
     (if suspicious_version version
      then (Inl (UIo (''refusing to install into a suspicious version directory: '' @ version)), fs)
      else case wylde_home var of
        None \<Rightarrow> (Inl (UIo ''no home directory for the install root''), fs)
      | Some home \<Rightarrow>
          let dir = pjoin (pjoin home ''versions'') version
          in case fs_mkdirs fx dir fs of
               (Inl e, fs') \<Rightarrow> (Inl (UIo (''creating '' @ dir @ '': '' @ e)), fs')
             | (Inr _, fs') \<Rightarrow> (Inr dir, fs'))"

definition same_dir :: "fs_world \<Rightarrow> fsys \<Rightarrow> string \<Rightarrow> string \<Rightarrow> bool" where
  "same_dir fx fs a b =
     (case (fx_canon fx fs a, fx_canon fx fs b) of
        (Some x, Some y) \<Rightarrow> x = y
      | _ \<Rightarrow> a = b)"

section \<open>Staging\<close>

text \<open>\<open>Path::join\<close> gives the right path alone when that is absolute.\<close>

definition is_absolute :: "string \<Rightarrow> bool" where
  "is_absolute p = (starts_with p [path_sep] \<or> starts_with p ''/'' \<or> (1 < length p \<and> p ! 1 = CHR '':''))"

definition join_image :: "string \<Rightarrow> string \<Rightarrow> string" where
  "join_image dir img = (if is_absolute img then img else pjoin dir img)"

fun stage_stack_in :: "fs_world \<Rightarrow> string \<Rightarrow> downloaded_binary list \<Rightarrow> fsys \<Rightarrow> (update_error, unit) rust_res \<times> fsys" where
  "stage_stack_in fx dir [] fs = (Inr (), fs)"
| "stage_stack_in fx dir (b # bs) fs =
     (if db_bytes b = [] then (Inl (UIo (''refusing to stage an empty payload for '' @ db_name b)), fs)
      else case fs_write fx (join_image dir (db_image b)) (db_bytes b) fs of
        (Inl e, fs') \<Rightarrow> (Inl (UIo (''staging '' @ db_image b @ '': '' @ e)), fs')
      | (Inr _, fs') \<Rightarrow> stage_stack_in fx dir bs fs')"

section \<open>Pruning\<close>

definition VERSIONS_RETAINED :: nat where
  "VERSIONS_RETAINED = 2"

definition file_name :: "string \<Rightarrow> string" where
  "file_name p = rev (takeWhile (\<lambda>c. c \<noteq> path_sep) (rev p))"

definition dir_version :: "'v semver \<Rightarrow> string \<Rightarrow> 'v option" where
  "dir_version sv d = sv_parse sv (strip_v (file_name d))"

text \<open>The order of the sort: versions first, greatest first; the other names in descending order.\<close>

definition newer_first :: "'v :: linorder semver \<Rightarrow> string \<Rightarrow> string \<Rightarrow> bool" where
  "newer_first sv a b =
     (case (dir_version sv a, dir_version sv b) of
        (Some x, Some y) \<Rightarrow> y \<le> x
      | (Some _, None) \<Rightarrow> True
      | (None, Some _) \<Rightarrow> False
      | (None, None) \<Rightarrow> file_name b \<le> file_name a)"

text \<open>\<open>sort_by\<close> is stable: insertion behind the elements that are not greater.\<close>

fun insert_by :: "('a \<Rightarrow> 'a \<Rightarrow> bool) \<Rightarrow> 'a \<Rightarrow> 'a list \<Rightarrow> 'a list" where
  "insert_by le x [] = [x]"
| "insert_by le x (y # ys) = (if le x y then x # y # ys else y # insert_by le x ys)"

definition sort_by :: "('a \<Rightarrow> 'a \<Rightarrow> bool) \<Rightarrow> 'a list \<Rightarrow> 'a list" where
  "sort_by le xs = foldr (insert_by le) xs []"

definition stale_dirs :: "'v :: linorder semver \<Rightarrow> fs_world \<Rightarrow> string \<Rightarrow> string \<Rightarrow> fsys \<Rightarrow> string list" where
  "stale_dirs sv fx vroot current fs =
     (case fs_list fx vroot fs of
        None \<Rightarrow> []
      | Some ps \<Rightarrow> sort_by (newer_first sv) (filter (\<lambda>p. is_dir fs p \<and> \<not> same_dir fx fs p current) ps))"

definition prune_old_versions :: "'v :: linorder semver \<Rightarrow> fs_world \<Rightarrow> string \<Rightarrow> string \<Rightarrow> nat \<Rightarrow> fsys \<Rightarrow> fsys" where
  "prune_old_versions sv fx vroot current keep fs =
     fold (\<lambda>old fs. snd (fs_remove_tree fx old fs)) (drop (keep - 1) (stale_dirs sv fx vroot current fs)) fs"

section \<open>Installing\<close>

definition stage_switch_and_prune ::
  "'v :: linorder semver \<Rightarrow> fs_world \<Rightarrow> (string \<Rightarrow> string option) \<Rightarrow> string \<Rightarrow> downloaded_binary list \<Rightarrow> fsys \<Rightarrow>
   (update_error, unit) rust_res \<times> fsys" where
  "stage_switch_and_prune sv fx var version bins fs =
     (case version_dir fx var version fs of
        (Inl e, fs1) \<Rightarrow> (Inl e, fs1)
      | (Inr dir, fs1) \<Rightarrow>
          if (case current_dir fx var fs1 of None \<Rightarrow> False | Some live \<Rightarrow> same_dir fx fs1 live dir)
          then (Inl (UIo (''version '' @ version @ '' is already the current stack; refusing to overwrite it in place'')), fs1)
          else case stage_stack_in fx dir bins fs1 of
            (Inl e, fs2) \<Rightarrow> (Inl e, fs2)
          | (Inr _, fs2) \<Rightarrow>
              (case set_current fx var dir fs2 of
                 (Inl e, fs3) \<Rightarrow> (Inl (UIo (stack_error_str e)), fs3)
               | (Inr _, fs3) \<Rightarrow> (Inr (), prune_old_versions sv fx (path_parent dir) dir VERSIONS_RETAINED fs3)))"

fun verify_all :: "('k, 's) minisign \<Rightarrow> downloaded_binary list \<Rightarrow> (update_error, unit) rust_res" where
  "verify_all ms [] = Inr ()"
| "verify_all ms (b # bs) =
     (case verify_signature ms (db_bytes b) (db_minisig b) of Inl e \<Rightarrow> Inl e | Inr _ \<Rightarrow> verify_all ms bs)"

definition install_stack ::
  "'v :: linorder semver \<Rightarrow> ('k, 's) minisign \<Rightarrow> fs_world \<Rightarrow> (string \<Rightarrow> string option) \<Rightarrow> string \<Rightarrow> downloaded_binary list \<Rightarrow> fsys \<Rightarrow>
   (update_error, unit) rust_res \<times> fsys" where
  "install_stack sv ms fx var version bins fs =
     (if bins = [] then (Inl (UIo ''refusing to install an empty stack''), fs)
      else case verify_all ms bins of
        Inl e \<Rightarrow> (Inl e, fs)
      | Inr _ \<Rightarrow> stage_switch_and_prune sv fx var version bins fs)"

text \<open>What the buttons of the shell run (\<open>updater_state.rs\<close>).\<close>

definition gui_install ::
  "'v :: linorder semver \<Rightarrow> 'r http \<Rightarrow> ('k, 's) minisign \<Rightarrow> fs_world \<Rightarrow> (string \<Rightarrow> string option) \<Rightarrow> update_info \<Rightarrow> fsys \<Rightarrow>
   (string, unit) rust_res \<times> fsys" where
  "gui_install sv ht ms fx var i fs =
     (case download_release ht i of
        Inl e \<Rightarrow> (Inl (update_error_str e), fs)
      | Inr dl \<Rightarrow>
          (case install_stack sv ms fx var (ui_version i) dl fs of
             (Inl e, fs') \<Rightarrow> (Inl (update_error_str e), fs')
           | (Inr _, fs') \<Rightarrow> (Inr (), fs')))"

end
