(* ===== verification/Updater_Correct.thy ===== *)
theory Updater_Correct
  imports Updater_Install
begin

text \<open>
  What installing an update does to the disk: nothing but staged files on failure, the whole
  verified stack on success, at most two versions afterwards; and the way from the list of
  releases to the binaries that the launcher resolves.
\<close>

section \<open>Paths\<close>

lemma pjoin_prefix: "\<exists>a. \<forall>n. pjoin d n = a @ n"
  by (cases "d = [] \<or> List.last d = path_sep") (auto simp: pjoin_def)

definition versions_root :: "string \<Rightarrow> string" where
  "versions_root home = pjoin home ''versions''"

lemma versions_root_nice: "versions_root home \<noteq> []" "List.last (versions_root home) = CHR ''s''"
proof -
  obtain a where "versions_root home = a @ ''versions''"
    using pjoin_prefix [of home] by (auto simp: versions_root_def)
  then show "versions_root home \<noteq> []" "List.last (versions_root home) = CHR ''s''" by auto
qed

lemma version_path: "pjoin (versions_root home) v = versions_root home @ path_sep # v"
  using versions_root_nice [of home] by (simp add: pjoin_def path_sep_def)

lemma pointer_not_version:
  "pjoin home ''current'' @ s \<noteq> versions_root home @ t"
proof -
  obtain a where "\<forall>n. pjoin home n = a @ n" using pjoin_prefix [of home] by blast
  then show ?thesis by (simp add: versions_root_def)
qed

lemma pointers_not_under:
  "\<not> under (versions_root home @ s) (pjoin home ''current'')" "\<not> under (versions_root home @ s) (pointer_tmp home)"
proof -
  have no: "\<not> under (versions_root home @ s) (pjoin home ''current'' @ t)" for t
  proof
    assume "under (versions_root home @ s) (pjoin home ''current'' @ t)"
    then obtain u where "pjoin home ''current'' @ t = versions_root home @ u"
      unfolding under_def starts_with_def by (metis append.assoc append_take_drop_id)
    then show False using pointer_not_version by blast
  qed
  from no [of "[]"] no [of "''.current.tmp''"]
  show "\<not> under (versions_root home @ s) (pjoin home ''current'')" "\<not> under (versions_root home @ s) (pointer_tmp home)"
    by (simp_all add: pointer_tmp_def)
qed

text \<open>A path below one version is below no other.\<close>

lemma before_sep: "path_sep \<notin> set x \<Longrightarrow> takeWhile (\<lambda>c. c \<noteq> path_sep) (x @ path_sep # y) = x"
  by (induction x) auto

lemma before_sep_all: "path_sep \<notin> set x \<Longrightarrow> takeWhile (\<lambda>c. c \<noteq> path_sep) x = x"
  by (induction x) auto

lemma under_child:
  assumes "under (r @ path_sep # n) (r @ path_sep # v @ rest)" "path_sep \<notin> set n" "path_sep \<notin> set v"
    "rest = [] \<or> (\<exists>t. rest = path_sep # t)"
  shows "n = v"
proof -
  have v: "takeWhile (\<lambda>c. c \<noteq> path_sep) (v @ rest) = v"
    using assms(3,4) before_sep before_sep_all by auto
  from assms(1) have "v @ rest = n \<or> take (length n + 1) (v @ rest) = n @ [path_sep]"
    by (auto simp: under_def starts_with_def)
  then consider "v @ rest = n" | t where "v @ rest = n @ path_sep # t"
    by (metis append.assoc append_Cons append_Nil append_take_drop_id)
  then show ?thesis
    using v before_sep [OF assms(2)] before_sep_all [OF assms(2)] by cases auto
qed

lemma unsuspicious: "\<not> suspicious_version v \<Longrightarrow> v \<noteq> [] \<and> path_sep \<notin> set v"
  by (auto simp: suspicious_version_def list_ex_iff)

lemma path_parent_version:
  assumes "path_sep \<notin> set v"
  shows "path_parent (pjoin (versions_root home) v) = versions_root home"
proof -
  let ?r = "versions_root home"
  have l: "dropWhile (\<lambda>c. c \<noteq> path_sep) (rev v @ path_sep # rev ?r) = path_sep # rev ?r"
    using assms by (induction v rule: rev_induct) auto
  obtain x where x: "?r = x @ [CHR ''s'']"
    using versions_root_nice [of home] by (metis append_butlast_last_id)
  have "dropWhile (\<lambda>c. c = path_sep) (rev ?r) = rev ?r" "\<exists>c \<in> set ?r. c \<noteq> path_sep"
    by (simp_all add: x path_sep_def)
  then show ?thesis
    unfolding version_path path_parent_def
    using versions_root_nice [of home] by (simp add: l Let_def)
qed

lemma plain_join: "\<not> is_absolute img \<Longrightarrow> join_image (pjoin (versions_root home) v) img = pjoin (pjoin (versions_root home) v) img"
  by (simp add: join_image_def)

lemma version_not_pointer [simp]:
  "versions_root home @ t \<noteq> pjoin home ''current''" "versions_root home @ t \<noteq> pointer_tmp home"
  using pointer_not_version [of home "[]" t] pointer_not_version [of home "''.current.tmp''" t]
  by (auto simp: pointer_tmp_def)

lemma under_root: "under (r @ path_sep # n) p \<Longrightarrow> under r p"
proof -
  assume u: "under (r @ path_sep # n) p"
  then have "take (Suc (length r)) p = take (Suc (length r)) (r @ path_sep # n @ [path_sep]) \<or> p = r @ path_sep # n"
    unfolding under_def starts_with_def by (metis append.assoc append_Cons length_append min.absorb1 le_add1 length_Cons add_Suc_right Suc_le_mono take_take)
  then show "under r p" by (auto simp: under_def starts_with_def)
qed

section \<open>What the steps leave alone\<close>

lemma stage_same:
  "stage_stack_in fx dir bins fs = (r, fs') \<Longrightarrow> p \<notin> (\<lambda>b. join_image dir (db_image b)) ` set bins \<Longrightarrow> hm_get fs' p = hm_get fs p"
  by (induction fx dir bins fs rule: stage_stack_in.induct) (auto dest: write_same split: if_splits prod.splits sum.splits)

lemma stage_content:
  "stage_stack_in fx dir bins fs = (Inr (), fs') \<Longrightarrow> inj_on (\<lambda>b. join_image dir (db_image b)) (set bins) \<Longrightarrow> distinct bins \<Longrightarrow>
     b \<in> set bins \<Longrightarrow> hm_get fs' (join_image dir (db_image b)) = Some (File (db_bytes b))"
proof (induction bins arbitrary: fs)
  case (Cons a bins)
  let ?j = "\<lambda>b. join_image dir (db_image b)"
  from Cons.prems(1) obtain fs1 where w: "fs_write fx (?j a) (db_bytes a) fs = (Inr (), fs1)"
      and s: "stage_stack_in fx dir bins fs1 = (Inr (), fs')"
    by (auto split: if_splits prod.splits sum.splits)
  show ?case
  proof (cases "b = a")
    case True
    then have "?j b \<notin> ?j ` set bins" using Cons.prems(2,3) by (auto simp: inj_on_def)
    then show ?thesis using stage_same [OF s] write_done [OF w] True by simp
  next
    case False
    then show ?thesis using Cons.IH [OF s] Cons.prems by (simp add: inj_on_def)
  qed
qed simp

lemma mkdirs_ok: "fs_mkdirs fx d fs = (r, fs') \<Longrightarrow> hm_ok fs \<Longrightarrow> hm_ok fs'"
proof -
  have "hm_ok (fold (\<lambda>q fs. if hm_get fs q = None then hm_put q Dir fs else fs) qs fs)" if "hm_ok fs" for qs and fs :: fsys
    using that by (induction qs arbitrary: fs) auto
  then show "fs_mkdirs fx d fs = (r, fs') \<Longrightarrow> hm_ok fs \<Longrightarrow> hm_ok fs'"
    by (auto simp: fs_mkdirs_def split: option.splits if_splits)
qed

lemma write_ok: "fs_write fx p c fs = (r, fs') \<Longrightarrow> hm_ok fs \<Longrightarrow> hm_ok fs'"
  by (auto simp: fs_write_def split: option.splits if_splits)

lemma rename_ok: "fs_rename fx p q fs = (r, fs') \<Longrightarrow> hm_ok fs \<Longrightarrow> hm_ok fs'"
  by (auto simp: fs_rename_def split: option.splits)

lemma remove_file_ok: "hm_ok fs \<Longrightarrow> hm_ok (snd (fs_remove_file fx p fs))"
  by (auto simp: fs_remove_file_def split: option.splits)

lemma remove_tree_ok: "hm_ok fs \<Longrightarrow> hm_ok (snd (fs_remove_tree fx p fs))"
  by (auto simp: fs_remove_tree_def split: option.splits)

lemmas fs_ok = mkdirs_ok write_ok rename_ok remove_file_ok remove_tree_ok

lemma stage_ok: "stage_stack_in fx dir bins fs = (r, fs') \<Longrightarrow> hm_ok fs \<Longrightarrow> hm_ok fs'"
  by (induction fx dir bins fs rule: stage_stack_in.induct) (auto dest: write_ok split: if_splits prod.splits sum.splits)

lemma set_current_ok: "set_current fx var dir fs = (r, fs') \<Longrightarrow> hm_ok fs \<Longrightarrow> hm_ok fs'"
  by (auto simp: set_current_def Let_def intro!: remove_file_ok dest: mkdirs_ok write_ok rename_ok split: if_splits option.splits prod.splits sum.splits)

section \<open>Pruning\<close>

abbreviation removed :: "fs_world \<Rightarrow> string list \<Rightarrow> fsys \<Rightarrow> fsys" where
  "removed fx qs fs \<equiv> fold (\<lambda>old fs. snd (fs_remove_tree fx old fs)) qs fs"

lemma remove_tree_get:
  "hm_ok fs \<Longrightarrow> hm_get (snd (fs_remove_tree fx q fs)) p =
     (if under q p \<and> (fx_err fx (RemoveTree q) = None \<or> \<not> fx_left fx p) then None else hm_get fs p)"
  by (auto simp: fs_remove_tree_def hm_get_retain split: option.splits)

lemma removed_same: "hm_ok fs \<Longrightarrow> \<forall>q \<in> set qs. \<not> under q p \<Longrightarrow> hm_get (removed fx qs fs) p = hm_get fs p"
  by (induction qs arbitrary: fs) (auto simp: remove_tree_get remove_tree_ok)

lemma removed_none: "hm_ok fs \<Longrightarrow> hm_get fs p = None \<Longrightarrow> hm_get (removed fx qs fs) p = None"
  by (induction qs arbitrary: fs) (auto simp: remove_tree_get remove_tree_ok)

lemma removed_gone:
  "hm_ok fs \<Longrightarrow> q \<in> set qs \<Longrightarrow> under q p \<Longrightarrow> fx_err fx (RemoveTree q) = None \<Longrightarrow> hm_get (removed fx qs fs) p = None"
proof (induction qs arbitrary: fs)
  case (Cons a qs)
  then show ?case
    by (cases "q = a") (auto simp: remove_tree_get remove_tree_ok intro: removed_none)
qed simp

lemma removed_ok: "hm_ok fs \<Longrightarrow> hm_ok (removed fx qs fs)"
  by (induction qs arbitrary: fs) (auto simp: remove_tree_ok)

lemma set_insert_by [simp]: "set (insert_by le x ys) = insert x (set ys)"
  by (induction ys) auto

lemma set_sort_by [simp]: "set (sort_by le xs) = set xs"
  by (induction xs) (auto simp: sort_by_def)

lemma distinct_sort_by: "distinct (sort_by le xs) \<longleftrightarrow> distinct xs"
proof -
  have i: "distinct (insert_by le x ys) \<longleftrightarrow> x \<notin> set ys \<and> distinct ys" for x :: 'a and ys
    by (induction ys) auto
  show ?thesis by (induction xs) (simp_all add: sort_by_def i, metis set_sort_by sort_by_def)
qed

lemma sorted_sort_by:
  assumes total: "\<And>x y. le x y \<or> le y x" and trans: "\<And>x y z. le x y \<Longrightarrow> le y z \<Longrightarrow> le x z"
  shows "sorted_wrt le (sort_by le xs)"
proof -
  have "sorted_wrt le (insert_by le x ys)" if "sorted_wrt le ys" for x ys
    using that
  proof (induction ys)
    case (Cons y ys)
    show ?case
    proof (cases "le x y")
      case True
      then show ?thesis using Cons.prems trans by auto
    next
      case False
      then show ?thesis using Cons total [of x y] by auto
    qed
  qed simp
  then show ?thesis by (induction xs) (simp_all add: sort_by_def)
qed

lemma newer_first_total: "newer_first sv a b \<or> newer_first sv b a"
  by (auto simp: newer_first_def split: option.splits)

lemma newer_first_trans: "newer_first sv a b \<Longrightarrow> newer_first sv b c \<Longrightarrow> newer_first sv a c"
  by (auto simp: newer_first_def split: option.splits)

lemma stale_sorted: "sorted_wrt (newer_first sv) (stale_dirs sv fx vr cur fs)"
  by (auto simp: stale_dirs_def split: option.split
      intro!: sorted_sort_by newer_first_total elim: newer_first_trans)

lemma same_dir_refl: "same_dir fx fs a a"
  by (simp add: same_dir_def split: option.splits)

text \<open>A stale directory is another child of the root.\<close>

lemma stale_childD:
  assumes "q \<in> set (stale_dirs sv fx (versions_root home) (pjoin (versions_root home) v) fs)"
  shows "\<exists>n. q = versions_root home @ path_sep # n \<and> path_sep \<notin> set n \<and> n \<noteq> v"
proof -
  let ?r = "versions_root home"
  from assms have q: "starts_with q (?r @ [path_sep])" "path_sep \<notin> set (drop (Suc (length ?r)) q)"
      "\<not> same_dir fx fs q (pjoin ?r v)"
    by (auto simp: stale_dirs_def fs_list_def split: option.splits if_splits)
  let ?n = "drop (Suc (length ?r)) q"
  have "q = ?r @ path_sep # ?n"
    using q(1) unfolding starts_with_def
    by (metis append.assoc append_Cons append_Nil append_take_drop_id length_append_singleton)
  moreover from this have "?n \<noteq> v" using q(3) same_dir_refl by (metis version_path)
  ultimately show ?thesis using q(2) by blast
qed

lemma stale_not_above:
  assumes "q \<in> set (stale_dirs sv fx (versions_root home) (pjoin (versions_root home) v) fs)"
    and "path_sep \<notin> set v" and "rest = [] \<or> (\<exists>t. rest = path_sep # t)"
  shows "\<not> under q (pjoin (versions_root home) v @ rest)"
  using stale_childD [OF assms(1)] under_child assms(2,3) by (auto simp: version_path)

lemma stale_not_pointer:
  assumes "q \<in> set (stale_dirs sv fx (versions_root home) (pjoin (versions_root home) v) fs)"
  shows "\<not> under q (pjoin home ''current'')"
  using stale_childD [OF assms] pointers_not_under by auto

section \<open>Installing\<close>

text \<open>The ways an installation may end.\<close>

lemma version_dir_cases:
  assumes "version_dir fx var version fs = (r, fs1)" and "wylde_home var = Some home"
  obtains e where "r = Inl e" "fs1 = fs"
  | "r = Inr (pjoin (versions_root home) version)" "\<not> suspicious_version version"
    "fs_mkdirs fx (pjoin (versions_root home) version) fs = (Inr (), fs1)"
proof -
  let ?dir = "pjoin (versions_root home) version"
  obtain r1 fs' where m: "fs_mkdirs fx ?dir fs = (r1, fs')" by fastforce
  show ?thesis
    using that assms m mkdirs_err [of fx ?dir fs]
    by (cases r1) (auto simp: version_dir_def versions_root_def Let_def split: if_splits)
qed

lemma stage_switch_cases:
  assumes i: "stage_switch_and_prune sv fx var version bins fs = (r, fs')" and home: "wylde_home var = Some home"
  obtains e where "r = Inl e" "fs' = fs"
  | e live where "r = Inl e" "fs_mkdirs fx (pjoin (versions_root home) version) fs = (Inr (), fs')"
      "current_dir fx var fs' = Some live" "same_dir fx fs' live (pjoin (versions_root home) version)"
  | e fs1 where "r = Inl e" "fs_mkdirs fx (pjoin (versions_root home) version) fs = (Inr (), fs1)"
      "stage_stack_in fx (pjoin (versions_root home) version) bins fs1 = (Inl e, fs')"
  | e fs1 fs2 where "r = Inl (UIo (stack_error_str e))" "fs_mkdirs fx (pjoin (versions_root home) version) fs = (Inr (), fs1)"
      "stage_stack_in fx (pjoin (versions_root home) version) bins fs1 = (Inr (), fs2)"
      "set_current fx var (pjoin (versions_root home) version) fs2 = (Inl e, fs')"
  | fs1 fs2 fs3 where "r = Inr ()" "\<not> suspicious_version version"
      "fs_mkdirs fx (pjoin (versions_root home) version) fs = (Inr (), fs1)"
      "\<And>live. current_dir fx var fs1 = Some live \<Longrightarrow> \<not> same_dir fx fs1 live (pjoin (versions_root home) version)"
      "stage_stack_in fx (pjoin (versions_root home) version) bins fs1 = (Inr (), fs2)"
      "set_current fx var (pjoin (versions_root home) version) fs2 = (Inr (), fs3)"
      "fs' = prune_old_versions sv fx (versions_root home) (pjoin (versions_root home) version) VERSIONS_RETAINED fs3"
proof -
  let ?dir = "pjoin (versions_root home) version"
  obtain r1 fs1 where v: "version_dir fx var version fs = (r1, fs1)" by fastforce
  from v home show ?thesis
  proof (cases rule: version_dir_cases)
    case (1 e)
    then have "r = Inl e" "fs' = fs" using i v by (auto simp: stage_switch_and_prune_def)
    then show ?thesis by (rule that(1))
  next
    case 2
    obtain r2 fs2 where s: "stage_stack_in fx ?dir bins fs1 = (r2, fs2)" by fastforce
    obtain r3 fs3 where c: "set_current fx var ?dir fs2 = (r3, fs3)" by fastforce
    have par: "path_parent ?dir = versions_root home" using unsuspicious [OF 2(2)] by (simp add: path_parent_version)
    show ?thesis
    proof (cases "\<exists>live. current_dir fx var fs1 = Some live \<and> same_dir fx fs1 live ?dir")
      case True
      then obtain live where live: "current_dir fx var fs1 = Some live" "same_dir fx fs1 live ?dir" by blast
      then have "\<exists>e. r = Inl e" "fs' = fs1"
        using i by (auto simp: stage_switch_and_prune_def v 2(1))
      then show ?thesis using that(2) 2(3) live by blast
    next
      case False
      then have cond: "(case current_dir fx var fs1 of None \<Rightarrow> False | Some live \<Rightarrow> same_dir fx fs1 live ?dir) = False"
        by (auto split: option.split)
      note run = i [unfolded stage_switch_and_prune_def v 2(1) prod.case sum.case cond if_False s c par]
      show ?thesis
      proof (cases r2)
        case (Inl e)
        then have "r = Inl e" "fs' = fs2" using run by auto
        then show ?thesis using that(3) s Inl 2(3) by blast
      next
        case r2: (Inr u)
        show ?thesis
        proof (cases r3)
          case (Inl e)
          then have "r = Inl (UIo (stack_error_str e))" "fs' = fs3" using run r2 c by auto
          then show ?thesis using that(4) s r2 c Inl 2(3) by simp
        next
          case (Inr u3)
          then have "r = Inr ()" "fs' = prune_old_versions sv fx (versions_root home) ?dir VERSIONS_RETAINED fs3"
            using run r2 c par by auto
          then show ?thesis using that(5) 2 False s r2 c Inr by simp
        qed
      qed
    qed
  qed
qed

lemma verify_all_Inr: "verify_all ms bins = Inr () \<longleftrightarrow> (\<forall>b \<in> set bins. verify_signature ms (db_bytes b) (db_minisig b) = Inr ())"
  by (induction bins) (auto split: sum.splits)

definition plain_images :: "downloaded_binary list \<Rightarrow> bool" where
  "plain_images bins = (\<forall>b \<in> set bins. \<not> is_absolute (db_image b) \<and> path_sep \<notin> set (db_image b))"

lemma staged_paths:
  "plain_images bins \<Longrightarrow> b \<in> set bins \<Longrightarrow> path_sep \<notin> set v \<Longrightarrow> v \<noteq> [] \<Longrightarrow>
     join_image (pjoin (versions_root home) v) (db_image b) = versions_root home @ path_sep # v @ path_sep # db_image b"
proof -
  assume a: "plain_images bins" "b \<in> set bins" "path_sep \<notin> set v" "v \<noteq> []"
  then have "List.last v \<noteq> path_sep" by (metis last_in_set)
  then show ?thesis
    using a plain_join [of "db_image b" home v] version_path [of home v] by (auto simp: plain_images_def pjoin_def)
qed

lemma under_below [simp]: "under d d" "under d (d @ path_sep # t)"
  by (simp_all add: under_def starts_with_def)

lemma pointer_kept_current:
  assumes "var ''WYLDE_CURRENT'' = None" and "current_dir fx var fs = Some d"
    and "\<And>p. hm_get fs p \<noteq> None \<Longrightarrow> hm_get fs' p = hm_get fs p"
  shows "current_dir fx var fs' = Some d"
proof -
  from assms(1,2) obtain q raw where q: "pointer_path var = Some q" "fs_read fx q fs = Some raw" "is_dir fs (trim raw)" "d = trim raw"
    by (auto simp: current_dir_def Let_def split: option.splits if_splits)
  then have "hm_get fs' q = hm_get fs q" "hm_get fs' d = hm_get fs d"
    using assms(3) [of q] assms(3) [of d] by (auto simp: fs_read_def is_dir_def split: if_splits option.splits)
  then show ?thesis using assms(1) q
    by (auto simp: current_dir_def fs_read_def is_dir_def split: if_splits option.splits node.splits)
qed

text \<open>Switching to a staged version: the pointer moves, everything else that exists stays.\<close>

lemma switch_keeps:
  assumes "set_current fx var dir fs = (r, fs')" "wylde_home var = Some home" "hm_get fs p \<noteq> None" "p \<noteq> pointer_tmp home"
    and "p \<noteq> pjoin home ''current'' \<or> (\<exists>e. r = Inl e)"
  shows "hm_get fs' p = hm_get fs p"
  using set_current_atomic [OF assms(1,2,4)] assms(3,5) by (auto split: sum.splits)

lemma switch_pointer:
  assumes "set_current fx var dir fs = (Inr (), fs')" "wylde_home var = Some home"
  shows "hm_get fs' (pjoin home ''current'') = Some (File dir)"
proof (cases "hm_get fs (pjoin home ''current'') = None \<and> pjoin home ''current'' \<in> set (path_ancestors home)")
  case True
  then have "pjoin home ''current'' = take (length (pjoin home ''current'')) home"
    by (auto simp: path_ancestors_def)
  moreover have "length home < length (pjoin home ''current'')" by (simp add: pjoin_def)
  ultimately have False by (metis length_take less_irrefl min_less_iff_conj)
  then show ?thesis ..
next
  case False
  then show ?thesis
    using set_current_atomic [OF assms, of "pjoin home ''current''"] pointer_tmp_differs [of home] by auto
qed

lemma images_inj:
  assumes "distinct (map db_image bins)" "plain_images bins" "path_sep \<notin> set v" "v \<noteq> []"
  shows "inj_on (\<lambda>b. join_image (pjoin (versions_root home) v) (db_image b)) (set bins)" "distinct bins"
  using assms(1) by (auto simp: inj_on_def staged_paths [OF assms(2) _ assms(3,4)] distinct_map)

lemma install_failed:
  assumes "install_stack sv ms fx var version bins fs = (Inl e, fs')" and home: "wylde_home var = Some home"
    and p: "hm_get fs p \<noteq> None" "p \<noteq> pointer_tmp home"
    and out: "p \<notin> (\<lambda>b. join_image (pjoin (versions_root home) version) (db_image b)) ` set bins"
  shows "hm_get fs' p = hm_get fs p"
proof (cases "stage_switch_and_prune sv fx var version bins fs = (Inl e, fs')")
  case False
  then show ?thesis using assms(1) by (auto simp: install_stack_def split: if_splits sum.splits)
next
  case True
  from True home show ?thesis
  proof (cases rule: stage_switch_cases)
    case (2 e live)
    then show ?thesis using mkdirs_keeps p(1) by blast
  next
    case (3 e fs1)
    then show ?thesis using mkdirs_keeps [OF 3(2) p(1)] stage_same [OF 3(3) out] by simp
  next
    case (4 e fs1 fs2)
    have "hm_get fs2 p = hm_get fs p" using mkdirs_keeps [OF 4(2) p(1)] stage_same [OF 4(3) out] by simp
    then show ?thesis using switch_keeps [OF 4(4) home _ p(2)] p(1) by auto
  qed simp_all
qed

lemma install_live_refused:
  assumes "install_stack sv ms fx var version bins fs = (r, fs')" and home: "wylde_home var = Some home"
    and "var ''WYLDE_CURRENT'' = None" and live: "current_dir fx var fs = Some (pjoin (versions_root home) version)"
  shows "(\<exists>e. r = Inl e) \<and> (\<forall>p. hm_get fs p \<noteq> None \<longrightarrow> hm_get fs' p = hm_get fs p)"
proof (cases "stage_switch_and_prune sv fx var version bins fs = (r, fs')")
  case False
  then have "fs' = fs" "\<exists>e. r = Inl e"
    using assms(1) by (cases "verify_all ms bins"; auto simp: install_stack_def split: if_splits)+
  then show ?thesis by simp
next
  case True
  let ?dir = "pjoin (versions_root home) version"
  obtain r1 fs1 where v: "version_dir fx var version fs = (r1, fs1)" by fastforce
  from v home show ?thesis
  proof (cases rule: version_dir_cases)
    case (1 e)
    then show ?thesis using True by (auto simp: stage_switch_and_prune_def v)
  next
    case 2
    have k: "hm_get fs p \<noteq> None \<Longrightarrow> hm_get fs1 p = hm_get fs p" for p using mkdirs_keeps 2(3) by blast
    have "current_dir fx var fs1 = Some ?dir" by (rule pointer_kept_current [OF assms(3) live k])
    then have "(\<exists>e. r = Inl e) \<and> fs' = fs1"
      using True by (auto simp: stage_switch_and_prune_def v 2(1) same_dir_refl)
    then show ?thesis using k by blast
  qed
qed

text \<open>A successful installation, step by step; the pruning takes nothing that is needed.\<close>

lemma install_steps:
  assumes "install_stack sv ms fx var version bins fs = (Inr (), fs')" and home: "wylde_home var = Some home" and "hm_ok fs"
  obtains fs1 fs2 fs3 where "verify_all ms bins = Inr ()" "\<not> suspicious_version version"
    "fs_mkdirs fx (pjoin (versions_root home) version) fs = (Inr (), fs1)"
    "stage_stack_in fx (pjoin (versions_root home) version) bins fs1 = (Inr (), fs2)"
    "set_current fx var (pjoin (versions_root home) version) fs2 = (Inr (), fs3)" "hm_ok fs3"
    "fs' = prune_old_versions sv fx (versions_root home) (pjoin (versions_root home) version) VERSIONS_RETAINED fs3"
proof -
  have run: "stage_switch_and_prune sv fx var version bins fs = (Inr (), fs')" and ver: "verify_all ms bins = Inr ()"
    using assms(1) by (auto simp: install_stack_def split: if_splits sum.splits)
  show ?thesis
  proof (rule stage_switch_cases [OF run home])
    fix fs1 fs2 fs3
    assume "\<not> suspicious_version version" "fs_mkdirs fx (pjoin (versions_root home) version) fs = (Inr (), fs1)"
      "stage_stack_in fx (pjoin (versions_root home) version) bins fs1 = (Inr (), fs2)"
      "set_current fx var (pjoin (versions_root home) version) fs2 = (Inr (), fs3)"
      "fs' = prune_old_versions sv fx (versions_root home) (pjoin (versions_root home) version) VERSIONS_RETAINED fs3"
    then show thesis using that ver assms(3) mkdirs_ok stage_ok set_current_ok by metis
  qed simp_all
qed

lemma prune_keeps:
  assumes "hm_ok fs"
    and "\<And>q. q \<in> set (stale_dirs sv fx vr cur fs) \<Longrightarrow> \<not> under q p"
  shows "hm_get (prune_old_versions sv fx vr cur k fs) p = hm_get fs p"
  unfolding prune_old_versions_def using assms(2) by (intro removed_same [OF assms(1)]) (auto dest: in_set_dropD)

lemma prune_keeps_outside:
  assumes "hm_ok fs" "\<not> under (versions_root home) p"
  shows "hm_get (prune_old_versions sv fx (versions_root home) (pjoin (versions_root home) v) k fs) p = hm_get fs p"
proof (rule prune_keeps [OF assms(1)])
  fix q assume "q \<in> set (stale_dirs sv fx (versions_root home) (pjoin (versions_root home) v) fs)"
  then obtain n where "q = versions_root home @ path_sep # n" using stale_childD by blast
  then show "\<not> under q p" using under_root assms(2) by blast
qed

lemma prune_keeps_inside:
  assumes "hm_ok fs" "path_sep \<notin> set v" "rest = [] \<or> (\<exists>t. rest = path_sep # t)"
  shows "hm_get (prune_old_versions sv fx (versions_root home) (pjoin (versions_root home) v) k fs) (pjoin (versions_root home) v @ rest) =
     hm_get fs (pjoin (versions_root home) v @ rest)"
  by (rule prune_keeps [OF assms(1) stale_not_above [OF _ assms(2,3)]])

lemma pointer_outside: "\<not> under (versions_root home) (pjoin home ''current'')"
  using pointers_not_under [of home "[]"] by simp

lemma new_images:
  assumes "plain_images bins" "\<not> suspicious_version v" "b \<in> set bins"
  shows "join_image (pjoin (versions_root home) v) (db_image b) = pjoin (versions_root home) v @ path_sep # db_image b"
    "pjoin (pjoin (versions_root home) v) (db_image b) = pjoin (versions_root home) v @ path_sep # db_image b"
  using staged_paths [OF assms(1,3)] unsuspicious [OF assms(2)] assms(1,3)
  by (auto simp: version_path plain_images_def join_image_def)

lemma install_files:
  assumes inst: "install_stack sv ms fx var version bins fs = (Inr (), fs')" and home: "wylde_home var = Some home" and ok: "hm_ok fs"
    and plain: "plain_images bins" and dist: "distinct (map db_image bins)" and b: "b \<in> set bins"
  shows "hm_get fs' (pjoin (pjoin (versions_root home) version) (db_image b)) = Some (File (db_bytes b))"
proof -
  let ?d = "pjoin (versions_root home) version"
  from install_steps [OF inst home ok] obtain fs1 fs2 fs3 where s: "\<not> suspicious_version version"
      "stage_stack_in fx ?d bins fs1 = (Inr (), fs2)" "set_current fx var ?d fs2 = (Inr (), fs3)" "hm_ok fs3"
      "fs' = prune_old_versions sv fx (versions_root home) ?d VERSIONS_RETAINED fs3" by metis
  have v: "path_sep \<notin> set version" "version \<noteq> []" using unsuspicious [OF s(1)] by auto
  let ?p = "?d @ path_sep # db_image b"
  have "hm_get fs2 ?p = Some (File (db_bytes b))"
    using stage_content [OF s(2) images_inj [OF dist plain v] b] new_images [OF plain s(1) b] by simp
  moreover from this have "hm_get fs3 ?p = hm_get fs2 ?p"
    by (intro switch_keeps [OF s(3) home]) (auto simp: version_path simp del: append_assoc append_Cons, simp_all)
  ultimately show ?thesis
    using prune_keeps_inside [OF s(4) v(1), where rest = "path_sep # db_image b" and sv = sv] new_images [OF plain s(1) b] s(5) by simp
qed

lemma install_pointer:
  assumes inst: "install_stack sv ms fx var version bins fs = (Inr (), fs')" and home: "wylde_home var = Some home" and ok: "hm_ok fs"
  shows "hm_get fs' (pjoin home ''current'') = Some (File (pjoin (versions_root home) version))"
proof -
  let ?d = "pjoin (versions_root home) version"
  from install_steps [OF inst home ok] obtain fs2 fs3 where
      "set_current fx var ?d fs2 = (Inr (), fs3)" "hm_ok fs3"
      "fs' = prune_old_versions sv fx (versions_root home) ?d VERSIONS_RETAINED fs3" by metis
  then show ?thesis using prune_keeps_outside [OF _ pointer_outside] switch_pointer home by metis
qed

lemma install_dir:
  assumes inst: "install_stack sv ms fx var version bins fs = (Inr (), fs')" and home: "wylde_home var = Some home" and ok: "hm_ok fs"
    and plain: "plain_images bins"
  shows "is_dir fs' (pjoin (versions_root home) version)"
proof -
  let ?d = "pjoin (versions_root home) version"
  from install_steps [OF inst home ok] obtain fs1 fs2 fs3 where s: "\<not> suspicious_version version"
      "fs_mkdirs fx ?d fs = (Inr (), fs1)" "stage_stack_in fx ?d bins fs1 = (Inr (), fs2)"
      "set_current fx var ?d fs2 = (Inr (), fs3)" "hm_ok fs3"
      "fs' = prune_old_versions sv fx (versions_root home) ?d VERSIONS_RETAINED fs3" by metis
  have "?d \<notin> (\<lambda>b. join_image ?d (db_image b)) ` set bins"
    using new_images(1) [OF plain s(1), of _ home] by (metis (no_types, lifting) imageE append_self_conv list.distinct(1))
  then have "hm_get fs2 ?d = Some Dir"
    using mkdirs_dir [OF s(2)] stage_same [OF s(3)] by (simp add: is_dir_def)
  moreover from this have "hm_get fs3 ?d = hm_get fs2 ?d"
    by (intro switch_keeps [OF s(4) home]) (auto simp: version_path)
  ultimately show ?thesis
    using prune_keeps_inside [OF s(5), where v = version and rest = "[]" and sv = sv] unsuspicious [OF s(1)] s(6) by (simp add: is_dir_def)
qed

lemma install_outside:
  assumes inst: "install_stack sv ms fx var version bins fs = (Inr (), fs')" and home: "wylde_home var = Some home" and ok: "hm_ok fs"
    and plain: "plain_images bins"
    and p: "hm_get fs p \<noteq> None" "\<not> under (versions_root home) p" "p \<noteq> pointer_tmp home" "p \<noteq> pjoin home ''current''"
  shows "hm_get fs' p = hm_get fs p"
proof -
  let ?d = "pjoin (versions_root home) version"
  from install_steps [OF inst home ok] obtain fs1 fs2 fs3 where s: "\<not> suspicious_version version"
      "fs_mkdirs fx ?d fs = (Inr (), fs1)" "stage_stack_in fx ?d bins fs1 = (Inr (), fs2)"
      "set_current fx var ?d fs2 = (Inr (), fs3)" "hm_ok fs3"
      "fs' = prune_old_versions sv fx (versions_root home) ?d VERSIONS_RETAINED fs3" by metis
  have "p \<notin> (\<lambda>b. join_image ?d (db_image b)) ` set bins"
    using new_images(1) [OF plain s(1), of _ home] p(2) by (force simp: version_path)
  then have 2: "hm_get fs2 p = hm_get fs p" using mkdirs_keeps [OF s(2) p(1)] stage_same [OF s(3)] by simp
  then have "hm_get fs3 p = hm_get fs2 p" using p by (intro switch_keeps [OF s(4) home]) auto
  then show ?thesis using 2 prune_keeps_outside [OF s(5) p(2), where sv = sv] s(6) by simp
qed


section \<open>The number of versions on disk\<close>

text \<open>Without links, the directories below \<open>versions\<close> that are left are the new one and the stale ones that are kept.\<close>

definition no_links :: "fs_world \<Rightarrow> bool" where
  "no_links fx = (\<forall>fs p. fx_canon fx fs p = (if hm_get fs p = None then None else Some p))"

lemma same_dir_no_links: "no_links fx \<Longrightarrow> same_dir fx fs a b \<longleftrightarrow> a = b"
  by (auto simp: same_dir_def no_links_def)

definition version_dirs :: "string \<Rightarrow> fsys \<Rightarrow> string set" where
  "version_dirs vr fs = {p. is_dir fs p \<and> starts_with p (vr @ [path_sep]) \<and> path_sep \<notin> set (drop (Suc (length vr)) p)}"

lemma stale_dirs_set:
  assumes "fx_err fx (ListDir vr) = None" "is_dir fs vr" "no_links fx" "hm_ok fs"
  shows "set (stale_dirs sv fx vr cur fs) = version_dirs vr fs - {cur}"
proof -
  have "hm_get fs p = Some Dir \<Longrightarrow> p \<in> fst ` set fs" for p
    using hm_entry_iff [OF assms(4)] by (force simp: image_iff)
  then show ?thesis
    using assms(1-3) by (auto simp: stale_dirs_def fs_list_def version_dirs_def same_dir_no_links is_dir_def)
qed

lemma pruned_dirs:
  assumes "fx_err fx (ListDir vr) = None" "is_dir fs vr" "no_links fx" "hm_ok fs"
    and "\<forall>p. fx_err fx (RemoveTree p) = None" and "cur \<in> version_dirs vr fs"
  shows "version_dirs vr (prune_old_versions sv fx vr cur k fs) \<subseteq> insert cur (set (take (k - 1) (stale_dirs sv fx vr cur fs)))"
proof
  fix p assume p: "p \<in> version_dirs vr (prune_old_versions sv fx vr cur k fs)"
  let ?st = "stale_dirs sv fx vr cur fs"
  have r: "hm_get (removed fx (drop (k - 1) ?st) fs) p = Some Dir"
    using p by (simp add: version_dirs_def is_dir_def prune_old_versions_def)
  then have "hm_get fs p = Some Dir"
    using removed_none [OF assms(4), of p fx "drop (k - 1) ?st"]
      removed_gone [OF assms(4)] removed_same [OF assms(4), of "drop (k - 1) ?st" p fx] assms(5) by fastforce
  then have "p \<in> version_dirs vr fs" using p by (simp add: version_dirs_def is_dir_def)
  moreover have "p \<notin> set (drop (k - 1) ?st)"
    using removed_gone [OF assms(4), of p "drop (k - 1) ?st" p fx] assms(5) r by auto
  ultimately show "p \<in> insert cur (set (take (k - 1) ?st))"
    using stale_dirs_set [OF assms(1-4), of sv cur] append_take_drop_id [of "k - 1" ?st]
    by (metis Diff_iff Un_iff insert_iff set_append singletonD)
qed

lemma versions_root_ancestor: "versions_root home \<in> set (path_ancestors (pjoin (versions_root home) v))"
  using versions_root_nice [of home] unfolding version_path path_ancestors_def
  by (auto simp: nth_append Suc_le_eq intro!: image_eqI [of _ _ "length (versions_root home)"])

lemma mkdirs_ancestor_dir: "fs_mkdirs fx d fs = (Inr (), fs') \<Longrightarrow> q \<in> set (path_ancestors d) \<Longrightarrow> is_dir fs' q"
proof -
  assume m: "fs_mkdirs fx d fs = (Inr (), fs')" and q: "q \<in> set (path_ancestors d)"
  then have "\<not> is_file fs q" by (auto simp: fs_mkdirs_def list_ex_iff split: option.splits if_splits)
  then show "is_dir fs' q"
    using mkdirs_get [OF m, of q] q by (auto simp: is_dir_def is_file_def split: option.splits node.splits)
qed

lemma version_dirsD: "q \<in> version_dirs (versions_root home) fs \<Longrightarrow> \<exists>n. q = versions_root home @ path_sep # n \<and> path_sep \<notin> set n"
proof -
  assume "q \<in> version_dirs (versions_root home) fs"
  then have "take (Suc (length (versions_root home))) q = versions_root home @ [path_sep]"
      "path_sep \<notin> set (drop (Suc (length (versions_root home))) q)"
    by (auto simp: version_dirs_def starts_with_def)
  then show "\<exists>n. q = versions_root home @ path_sep # n \<and> path_sep \<notin> set n"
    by (metis append.assoc append_Cons append_Nil append_take_drop_id)
qed

lemma version_dirs_new: "is_dir fs (pjoin (versions_root home) v) \<Longrightarrow> path_sep \<notin> set v \<Longrightarrow>
  pjoin (versions_root home) v \<in> version_dirs (versions_root home) fs"
  by (simp add: version_dirs_def starts_with_def version_path)

text \<open>Up to the pruning, a successful installation keeps every directory of a version.\<close>

lemma install_keeps_dirs:
  assumes home: "wylde_home var = Some home" and plain: "plain_images bins" and v: "\<not> suspicious_version version"
    and s: "fs_mkdirs fx (pjoin (versions_root home) version) fs = (Inr (), fs1)"
      "stage_stack_in fx (pjoin (versions_root home) version) bins fs1 = (Inr (), fs2)"
      "set_current fx var (pjoin (versions_root home) version) fs2 = (Inr (), fs3)"
    and q: "is_dir fs1 q" "q = versions_root home \<or> (\<exists>n. q = versions_root home @ path_sep # n \<and> path_sep \<notin> set n)"
  shows "is_dir fs3 q"
proof -
  let ?d = "pjoin (versions_root home) version"
  have "q \<notin> (\<lambda>b. join_image ?d (db_image b)) ` set bins"
  proof
    assume "q \<in> (\<lambda>b. join_image ?d (db_image b)) ` set bins"
    then obtain t where "q = ?d @ path_sep # t" by (auto simp: new_images(1) [OF plain v])
    then show False using q(2) by (auto simp: version_path)
  qed
  then have 2: "hm_get fs2 q = Some Dir" using stage_same [OF s(2)] q(1) by (simp add: is_dir_def)
  moreover obtain t where t: "q = versions_root home @ t" using q(2) by (metis append_Nil2)
  moreover have "hm_get fs3 q = hm_get fs2 q"
    using t 2 by (intro switch_keeps [OF s(3) home]) auto
  ultimately show ?thesis by (simp add: is_dir_def)
qed

text \<open>C37: The disk stays bounded: on a disk without links whose removals succeed, after an installation
  there are at most two versions, the new one among them, and the other one, if any, is the newest
  of those that were there.
\<close>

theorem versions_bounded:
  assumes inst: "install_stack sv ms fx var version bins fs = (Inr (), fs')" and home: "wylde_home var = Some home" and ok: "hm_ok fs"
    and plain: "plain_images bins" and links: "no_links fx"
    and ls: "fx_err fx (ListDir (versions_root home)) = None" and rm: "\<forall>p. fx_err fx (RemoveTree p) = None"
  shows "finite (version_dirs (versions_root home) fs')
     \<and> pjoin (versions_root home) version \<in> version_dirs (versions_root home) fs'
     \<and> card (version_dirs (versions_root home) fs') \<le> VERSIONS_RETAINED
     \<and> (\<forall>q \<in> version_dirs (versions_root home) fs' - {pjoin (versions_root home) version}.
          \<forall>q' \<in> version_dirs (versions_root home) fs - {pjoin (versions_root home) version}. newer_first sv q q')"
proof -
  let ?r = "versions_root home" and ?d = "pjoin (versions_root home) version"
  from install_steps [OF inst home ok] obtain fs1 fs2 fs3 where s: "\<not> suspicious_version version"
      "fs_mkdirs fx ?d fs = (Inr (), fs1)" "stage_stack_in fx ?d bins fs1 = (Inr (), fs2)"
      "set_current fx var ?d fs2 = (Inr (), fs3)" "hm_ok fs3"
      "fs' = prune_old_versions sv fx ?r ?d VERSIONS_RETAINED fs3" by metis
  note dirs = install_keeps_dirs [OF home plain s(1-4)]
  let ?st = "stale_dirs sv fx ?r ?d fs3"
  have v: "path_sep \<notin> set version" using unsuspicious [OF s(1)] by simp
  have root3: "is_dir fs3 ?r" using dirs mkdirs_ancestor_dir [OF s(2) versions_root_ancestor] by blast
  have d': "?d \<in> version_dirs ?r fs'"
    by (rule version_dirs_new [OF install_dir [OF inst home ok plain] v])
  have d3: "?d \<in> version_dirs ?r fs3"
    by (rule version_dirs_new [OF dirs [OF mkdirs_dir [OF s(2)]] v]) (simp add: version_path v)
  have sub: "version_dirs ?r fs' \<subseteq> insert ?d (set (take 1 ?st))"
    using pruned_dirs [OF ls root3 links s(5) rm d3, of sv VERSIONS_RETAINED] s(6) by (simp add: VERSIONS_RETAINED_def)
  then have fin: "finite (version_dirs ?r fs')" by (rule finite_subset) simp
  have "card (insert ?d (set (take 1 ?st))) \<le> 2" by (cases ?st) (auto simp: card_insert_if)
  then have "card (version_dirs ?r fs') \<le> VERSIONS_RETAINED"
    using card_mono [OF _ sub] by (simp add: VERSIONS_RETAINED_def)
  moreover have "newer_first sv q q'" if q: "q \<in> version_dirs ?r fs' - {?d}" and q': "q' \<in> version_dirs ?r fs - {?d}" for q q'
  proof -
    have "is_dir fs1 q'" using q' mkdirs_keeps [OF s(2), of q'] by (simp add: version_dirs_def is_dir_def)
    then have "is_dir fs3 q'" using dirs version_dirsD q' by blast
    then have "q' \<in> set ?st" using stale_dirs_set [OF ls root3 links s(5), of sv ?d] q' by (simp add: version_dirs_def)
    moreover from q sub have "q \<in> set (take 1 ?st)" by blast
    then obtain rest where "?st = q # rest" by (cases ?st) auto
    ultimately show ?thesis using stale_sorted [of sv fx ?r ?d fs3] newer_first_total [of sv q q] by auto
  qed
  ultimately show "finite (version_dirs ?r fs') \<and> ?d \<in> version_dirs ?r fs' \<and> card (version_dirs ?r fs') \<le> VERSIONS_RETAINED
     \<and> (\<forall>q \<in> version_dirs ?r fs' - {?d}. \<forall>q' \<in> version_dirs ?r fs - {?d}. newer_first sv q q')"
    using d' fin by blast
qed

section \<open>From the list of releases to the running stack\<close>

lemma download_all_spec:
  "download_all ht as = Inr bins \<Longrightarrow> map db_image bins = map sa_image as \<and> map db_name bins = map sa_name as"
  by (induction as arbitrary: bins) (auto simp: download_one_def split: sum.splits)

lemma carried_images:
  "map sa_image (List.map_filter (carried r) es) = map sb_image (filter (\<lambda>e. carried r e \<noteq> None) es)"
  by (induction es) (auto simp: List.map_filter_simps carried_def split: option.splits bind_splits)

lemma carried_fields: "carried r e = Some a \<Longrightarrow> sa_image a = sb_image e \<and> sa_name a = sb_name e"
  by (auto simp: carried_def split: bind_splits)

lemma offered_assets:
  assumes "check_for_update sv ht from_str var roster c cur = Some (Inr (Available i))"
  shows "\<exists>r. ui_assets i = List.map_filter (carried r) roster
     \<and> (\<forall>e \<in> set roster. \<not> is_sibling e \<longrightarrow> (\<exists>a \<in> set (ui_assets i). carried r e = Some a))"
proof -
  obtain rs where "evaluate sv roster rs c cur = Some (Inr (Available i))"
    using assms by (auto simp: check_for_update_def split: sum.splits option.splits)
  then show ?thesis using evaluate_spec [of sv roster rs c cur] by auto
qed

lemma find_unique_name: "distinct (map sb_name es) \<Longrightarrow> e \<in> set es \<Longrightarrow> List.find (\<lambda>b. sb_name b = sb_name e) es = Some e"
  by (induction es) auto

lemma resolve_installed:
  assumes "current_dir fx var fs = Some d" "distinct (map sb_name es)" "e \<in> set es" "is_file fs (pjoin d (sb_image e))"
  shows "path_of (resolve_in fx var es base fs) (sb_name e) = Some (pjoin d (sb_image e))"
proof -
  have f: "List.find (\<lambda>b. rb_name b = n) (map (\<lambda>b. \<lparr>rb_name = sb_name b, rb_tier = sb_tier b, rb_path = h b\<rparr>) xs) =
      map_option (\<lambda>b. \<lparr>rb_name = sb_name b, rb_tier = sb_tier b, rb_path = h b\<rparr>) (List.find (\<lambda>b. sb_name b = n) xs)" for h n xs
    by (induction xs) auto
  show ?thesis
    using assms find_unique_name [OF assms(2,3)] by (simp add: path_of_def rs_get_def resolve_in_def f existing_def)
qed

text \<open>C6: The way of an update, from the list of releases to the launcher: when the check offers an
  update and the install button succeeds, every in-tree member of the stack resolves to its image
  in the directory of the new version, and the bytes of that file carry a signature that verifies
  under the embedded key.
\<close>

theorem update_runs_signed_binaries:
  assumes offer: "check_for_update sv ht from_str var (roster_in lower lsd wr env estate) c cur = Some (Inr (Available i))"
    and gui: "gui_install sv ht ms fx var i fs = (Inr (), fs')"
    and home: "wylde_home var = Some home" and ok: "hm_ok fs"
    and images: "\<forall>e \<in> set (roster_in lower lsd wr env estate). \<not> is_absolute (sb_image e) \<and> path_sep \<notin> set (sb_image e)"
    and reads: "var ''WYLDE_CURRENT'' = None" "fx_err fx (ReadOp (pjoin home ''current'')) = None"
      "trim (pjoin (versions_root home) (ui_version i)) = pjoin (versions_root home) (ui_version i)"
    and e: "e \<in> set (roster_in lower lsd wr env estate)" "\<not> is_sibling e"
  shows "\<exists>p content sig. path_of (resolve_in fx var (roster_in lower lsd wr env estate) estate fs') (sb_name e) = Some p
     \<and> p = pjoin (pjoin (versions_root home) (ui_version i)) (sb_image e)
     \<and> hm_get fs' p = Some (File content) \<and> verify_signature ms content sig = Inr ()"
proof -
  let ?r = "roster_in lower lsd wr env estate" and ?d = "pjoin (versions_root home) (ui_version i)"
  from gui obtain bins where down: "download_release ht i = Inr bins"
      and inst: "install_stack sv ms fx var (ui_version i) bins fs = (Inr (), fs')"
    by (auto simp: gui_install_def split: sum.splits prod.splits)
  obtain rel where rel: "ui_assets i = List.map_filter (carried rel) ?r"
      "\<forall>e \<in> set ?r. \<not> is_sibling e \<longrightarrow> (\<exists>a \<in> set (ui_assets i). carried rel e = Some a)"
    using offered_assets [OF offer] by blast
  have imgs: "map db_image bins = map sb_image (filter (\<lambda>e. carried rel e \<noteq> None) ?r)"
    using download_all_spec [of ht "ui_assets i" bins] down carried_images [of rel ?r] rel(1) by (simp add: download_release_def)
  have "set (map db_image bins) \<subseteq> set (map sb_image ?r)" unfolding imgs by auto
  then have plain: "plain_images bins" using images by (auto simp: plain_images_def)
  have dist: "distinct (map db_image bins)"
    unfolding imgs using roster_distinct(2) [of lower lsd wr env estate] by (rule distinct_map_filter)
  have "sb_image e \<in> set (map db_image bins)" unfolding imgs using rel(2) e by auto
  then obtain b where b: "b \<in> set bins" "db_image b = sb_image e" by auto
  have content: "hm_get fs' (pjoin ?d (sb_image e)) = Some (File (db_bytes b))"
    using install_files [OF inst home ok plain dist b(1)] b(2) by simp
  have signed: "verify_signature ms (db_bytes b) (db_minisig b) = Inr ()"
    using install_steps [OF inst home ok] verify_all_Inr b(1) by metis
  have "current_dir fx var fs' = Some ?d"
    using install_pointer [OF inst home ok] install_dir [OF inst home ok plain] reads home
    by (simp add: current_dir_def pointer_path_def fs_read_def)
  then have "path_of (resolve_in fx var ?r estate fs') (sb_name e) = Some (pjoin ?d (sb_image e))"
    using content e(1) by (intro resolve_installed roster_distinct(1)) (simp_all add: is_file_def)
  then show ?thesis using content signed by blast
qed

text \<open>C13: Installing is all or nothing. When it fails, every path that existed is as before, the pointer
  and the running stack included, except the images staged for this version and the temporary
  pointer file; of the version that is running, no file is touched. When it succeeds, the version
  was not the running one, every binary passed the signature check under the embedded key, each
  image holds the bytes that were verified, the pointer names the new directory, and nothing that
  existed outside of the versions is changed, whatever fails while old versions are pruned.
\<close>

theorem install_all_or_nothing:
  assumes inst: "install_stack sv ms fx var version bins fs = (r, fs')" and home: "wylde_home var = Some home" and ok: "hm_ok fs"
    and plain: "plain_images bins" and dist: "distinct (map db_image bins)" and "var ''WYLDE_CURRENT'' = None"
  shows "case r of
     Inl e \<Rightarrow> (\<forall>p. hm_get fs p \<noteq> None \<longrightarrow> p \<noteq> pointer_tmp home \<longrightarrow>
         (current_dir fx var fs = Some (pjoin (versions_root home) version)
          \<or> p \<notin> (\<lambda>b. pjoin (pjoin (versions_root home) version) (db_image b)) ` set bins) \<longrightarrow>
         hm_get fs' p = hm_get fs p)
   | Inr _ \<Rightarrow> current_dir fx var fs \<noteq> Some (pjoin (versions_root home) version)
       \<and> hm_get fs' (pjoin home ''current'') = Some (File (pjoin (versions_root home) version))
       \<and> (\<forall>b \<in> set bins. verify_signature ms (db_bytes b) (db_minisig b) = Inr ()
            \<and> hm_get fs' (pjoin (pjoin (versions_root home) version) (db_image b)) = Some (File (db_bytes b)))
       \<and> (\<forall>p. hm_get fs p \<noteq> None \<longrightarrow> \<not> under (versions_root home) p \<longrightarrow> p \<noteq> pointer_tmp home \<longrightarrow>
            p \<noteq> pjoin home ''current'' \<longrightarrow> hm_get fs' p = hm_get fs p)"
proof (cases r)
  case (Inl e)
  have j: "join_image d (db_image b) = pjoin d (db_image b)" if "b \<in> set bins" for b d
    using plain that by (simp add: plain_images_def join_image_def)
  have img: "(\<lambda>b. join_image (pjoin (versions_root home) version) (db_image b)) ` set bins =
      (\<lambda>b. pjoin (pjoin (versions_root home) version) (db_image b)) ` set bins"
    using j by (intro image_cong) auto
  show ?thesis
    using install_failed [OF inst [unfolded Inl] home] install_live_refused [OF inst home assms(6)] Inl img by auto
next
  case (Inr u)
  have inst': "install_stack sv ms fx var version bins fs = (Inr (), fs')" using inst Inr by simp
  have "current_dir fx var fs \<noteq> Some (pjoin (versions_root home) version)"
    using install_live_refused [OF inst home assms(6)] Inr by auto
  moreover have "verify_all ms bins = Inr ()" using install_steps [OF inst' home ok] by metis
  ultimately show ?thesis
    using Inr install_pointer [OF inst' home ok] install_files [OF inst' home ok plain dist]
      install_outside [OF inst' home ok plain] by (simp add: verify_all_Inr)
qed

section \<open>Concrete runs\<close>

text \<open>Two versions, a signature that repeats the content, a disk without faults or links.\<close>

definition ex_sv :: "nat semver" where
  "ex_sv = \<lparr>sv_parse = (\<lambda>s. if s = ''0.1.0'' then Some 1 else if s = ''0.2.0'' then Some 2 else if s = ''0.3.0'' then Some 3 else None),
     sv_print = (\<lambda>n. if n = 1 then ''0.1.0'' else if n = 2 then ''0.2.0'' else ''0.3.0'')\<rparr>"

definition ex_ms :: "(unit, string) minisign" where
  "ex_ms = \<lparr>ms_key = (\<lambda>_. Some ()), ms_decode = Inr,
     ms_verify = (\<lambda>_ content s _. if s = ''sig '' @ content then Inr () else Inl ''bad'')\<rparr>"

definition ex_fx :: fs_world where
  "ex_fx = \<lparr>fx_err = (\<lambda>_. None), fx_junk = (\<lambda>_. None), fx_left = (\<lambda>_. True),
     fx_canon = (\<lambda>fs p. if hm_get fs p = None then None else Some p)\<rparr>"

definition ex_bad_fx :: fs_world where
  "ex_bad_fx = ex_fx\<lparr>fx_err := (\<lambda>c. case c of WriteOp p \<Rightarrow> if ends_with p ''b.exe'' then Some ''disk full'' else None | _ \<Rightarrow> None)\<rparr>"

definition ex_var :: "string \<Rightarrow> string option" where
  "ex_var n = (if n = ''WYLDE_HOME'' then Some ''H'' else None)"

definition ex_bins :: "downloaded_binary list" where
  "ex_bins = [\<lparr>db_name = ''a'', db_image = ''a.exe'', db_bytes = ''A'', db_minisig = ''sig A''\<rparr>,
     \<lparr>db_name = ''b'', db_image = ''b.exe'', db_bytes = ''B'', db_minisig = ''sig B''\<rparr>]"

definition ex_child :: "string \<Rightarrow> string" where
  "ex_child v = pjoin (versions_root ''H'') v"

definition ex_fs :: fsys where
  "ex_fs = [(''H'', Dir), (pjoin ''H'' ''keep'', File ''k''), (pjoin ''H'' ''current'', File (ex_child ''0.1.0'')),
     (versions_root ''H'', Dir), (ex_child ''0.1.0'', Dir), (ex_child ''0.0.9'', Dir)]"

lemma fst_pair: "fst x = a \<Longrightarrow> \<exists>b. x = (a, b)"
  by (cases x) simp

lemma ex_fs_ok: "hm_ok ex_fs" and ex_bins_plain: "plain_images ex_bins" and ex_bins_dist: "distinct (map db_image ex_bins)"
  by code_simp+

lemma ex_home: "wylde_home ex_var = Some ''H''" "ex_var ''WYLDE_CURRENT'' = None"
  by code_simp+

lemma ex_installed: "fst (install_stack ex_sv ex_ms ex_fx ex_var ''0.2.0'' ex_bins ex_fs) = Inr ()"
  by code_simp

lemma ex_failed: "case fst (install_stack ex_sv ex_ms ex_bad_fx ex_var ''0.2.0'' ex_bins ex_fs) of Inl _ \<Rightarrow> True | Inr _ \<Rightarrow> False"
  by code_simp

lemma install_all_or_nothing_witness:
  "(\<exists>fs'. install_stack ex_sv ex_ms ex_fx ex_var ''0.2.0'' ex_bins ex_fs = (Inr (), fs')
      \<and> hm_get fs' (pjoin ''H'' ''current'') = Some (File (ex_child ''0.2.0'')))
   \<and> (\<exists>e fs'. install_stack ex_sv ex_ms ex_bad_fx ex_var ''0.2.0'' ex_bins ex_fs = (Inl e, fs')
      \<and> hm_get fs' (pjoin ''H'' ''current'') = Some (File (ex_child ''0.1.0'')))"
proof (intro conjI)
  obtain fs' where i: "install_stack ex_sv ex_ms ex_fx ex_var ''0.2.0'' ex_bins ex_fs = (Inr (), fs')"
    using fst_pair [OF ex_installed] by blast
  show "\<exists>fs'. install_stack ex_sv ex_ms ex_fx ex_var ''0.2.0'' ex_bins ex_fs = (Inr (), fs')
      \<and> hm_get fs' (pjoin ''H'' ''current'') = Some (File (ex_child ''0.2.0''))"
    using install_all_or_nothing [OF i ex_home(1) ex_fs_ok ex_bins_plain ex_bins_dist ex_home(2)] i by (simp add: ex_child_def)
next
  obtain r fs' where r: "install_stack ex_sv ex_ms ex_bad_fx ex_var ''0.2.0'' ex_bins ex_fs = (r, fs')"
    by (rule prod.exhaust)
  then obtain e where i: "install_stack ex_sv ex_ms ex_bad_fx ex_var ''0.2.0'' ex_bins ex_fs = (Inl e, fs')"
    using ex_failed by (cases r) simp_all
  have "hm_get ex_fs (pjoin ''H'' ''current'') = Some (File (ex_child ''0.1.0''))" by code_simp
  moreover have "pjoin ''H'' ''current'' \<noteq> pointer_tmp ''H''" by code_simp
  moreover have "pjoin ''H'' ''current'' \<notin> (\<lambda>b. pjoin (pjoin (versions_root ''H'') ''0.2.0'') (db_image b)) ` set ex_bins" by code_simp
  ultimately show "\<exists>e fs'. install_stack ex_sv ex_ms ex_bad_fx ex_var ''0.2.0'' ex_bins ex_fs = (Inl e, fs')
      \<and> hm_get fs' (pjoin ''H'' ''current'') = Some (File (ex_child ''0.1.0''))"
    using install_all_or_nothing [OF i ex_home(1) ex_fs_ok ex_bins_plain ex_bins_dist ex_home(2)] i by auto
qed

lemma versions_bounded_witness:
  "card (version_dirs (versions_root ''H'') ex_fs) = 2
   \<and> (\<exists>fs'. install_stack ex_sv ex_ms ex_fx ex_var ''0.2.0'' ex_bins ex_fs = (Inr (), fs')
      \<and> card (version_dirs (versions_root ''H'') fs') \<le> 2)"
proof
  obtain fs' where i: "install_stack ex_sv ex_ms ex_fx ex_var ''0.2.0'' ex_bins ex_fs = (Inr (), fs')"
    using fst_pair [OF ex_installed] by blast
  have "no_links ex_fx" "fx_err ex_fx (ListDir (versions_root ''H'')) = None" "\<forall>p. fx_err ex_fx (RemoveTree p) = None"
    by (simp_all add: no_links_def ex_fx_def)
  from versions_bounded [OF i ex_home(1) ex_fs_ok ex_bins_plain this]
  show "\<exists>fs'. install_stack ex_sv ex_ms ex_fx ex_var ''0.2.0'' ex_bins ex_fs = (Inr (), fs')
      \<and> card (version_dirs (versions_root ''H'') fs') \<le> 2"
    using i by (auto simp: VERSIONS_RETAINED_def)
next
  have "version_dirs (versions_root ''H'') ex_fs = set (stale_dirs ex_sv ex_fx (versions_root ''H'') ''none'' ex_fs)"
  proof -
    have "is_dir ex_fs (versions_root ''H'')" "''none'' \<notin> version_dirs (versions_root ''H'') ex_fs"
      unfolding version_dirs_def by (code_simp, simp) code_simp
    then show ?thesis
      using stale_dirs_set [OF _ _ _ ex_fs_ok, of ex_fx "versions_root ''H''" ex_sv "''none''"]
      by (simp add: no_links_def ex_fx_def)
  qed
  moreover have "stale_dirs ex_sv ex_fx (versions_root ''H'') ''none'' ex_fs = [ex_child ''0.1.0'', ex_child ''0.0.9'']"
    by code_simp
  moreover have "ex_child ''0.1.0'' \<noteq> ex_child ''0.0.9''" by code_simp
  ultimately show "card (version_dirs (versions_root ''H'') ex_fs) = 2" by simp
qed

text \<open>A release with every in-tree binary, as the service lists it, and what is made of it.\<close>

definition ex_json :: json where
  "ex_json = JArr [JObj [(''tag_name'', JStr ''0.2.0''), (''assets'', JArr (concat (map (\<lambda>b.
     [JObj [(''name'', JStr (asset_name b)), (''browser_download_url'', JStr (sb_name b))],
      JObj [(''name'', JStr (signature_name b)), (''browser_download_url'', JStr (''sig '' @ sb_name b))]]) core_binaries)))]]"

definition ex_http :: "string http" where
  "ex_http = \<lparr>ht_call = (\<lambda>url _. Inr url), ht_text = Inr, ht_bytes = Inr\<rparr>"

definition ex_roster :: "stack_binary list" where
  "ex_roster = roster_in (\<lambda>s. s) (\<lambda>_. None) ''E'' None ''E''"

definition ex_info :: update_info where
  "ex_info = \<lparr>ui_version = ''0.2.0'', ui_tag = ''0.2.0'', ui_notes = [], ui_html_url = [],
     ui_assets = map (\<lambda>b. \<lparr>sa_name = sb_name b, sa_image = sb_image b,
        sa_binary = \<lparr>ra_name = asset_name b, ra_url = sb_name b, ra_size = 0\<rparr>,
        sa_signature = \<lparr>ra_name = signature_name b, ra_url = ''sig '' @ sb_name b, ra_size = 0\<rparr>\<rparr>) core_binaries\<rparr>"

definition ex_all :: "downloaded_binary list" where
  "ex_all = map (\<lambda>b. \<lparr>db_name = sb_name b, db_image = sb_image b, db_bytes = sb_name b, db_minisig = ''sig '' @ sb_name b\<rparr>) core_binaries"

lemma ex_offer: "check_for_update ex_sv ex_http (\<lambda>_. Inr ex_json) ex_var ex_roster Stable ''0.1.0'' = Some (Inr (Available ex_info))"
  by code_simp

lemma ex_down: "download_release ex_http ex_info = Inr ex_all"
  by code_simp

lemma ex_inst: "fst (install_stack ex_sv ex_ms ex_fx ex_var ''0.2.0'' ex_all ex_fs) = Inr ()"
  by code_simp
lemma update_runs_signed_binaries_witness:
  "\<exists>fs' p content sig. path_of (resolve_in ex_fx ex_var ex_roster ''E'' fs') LIFECYCLE = Some p
     \<and> hm_get fs' p = Some (File content) \<and> verify_signature ex_ms content sig = Inr ()"
proof -
  have ver: "ui_version ex_info = ''0.2.0''" by (simp add: ex_info_def)
  from fst_pair [OF ex_inst] obtain fs' where "install_stack ex_sv ex_ms ex_fx ex_var (ui_version ex_info) ex_all ex_fs = (Inr (), fs')"
    unfolding ver by blast
  then have i: "gui_install ex_sv ex_http ex_ms ex_fx ex_var ex_info ex_fs = (Inr (), fs')"
    using ex_down by (simp add: gui_install_def)
  let ?e = "\<lparr>sb_name = LIFECYCLE, sb_image = LIFECYCLE @ EXE_SUFFIX, sb_tier = TierDaemon, sb_folder = None\<rparr>"
  have "list_all (\<lambda>e. \<not> is_absolute (sb_image e) \<and> path_sep \<notin> set (sb_image e)) ex_roster" by code_simp
  then have "\<forall>e \<in> set ex_roster. \<not> is_absolute (sb_image e) \<and> path_sep \<notin> set (sb_image e)"
    by (simp add: list_all_iff)
  moreover have "trim (pjoin (versions_root ''H'') (ui_version ex_info)) = pjoin (versions_root ''H'') (ui_version ex_info)" by code_simp
  moreover have "fx_err ex_fx (ReadOp (pjoin ''H'' ''current'')) = None" by code_simp
  moreover have "?e \<in> set ex_roster" by code_simp
  ultimately show ?thesis
    using update_runs_signed_binaries [of ex_sv ex_http "\<lambda>_. Inr ex_json" ex_var "\<lambda>s. s" "\<lambda>_. None" "''E''" None "''E''" Stable
        "''0.1.0''" ex_info ex_ms ex_fx ex_fs fs' "''H''" ?e] ex_offer i ex_home ex_fs_ok
    unfolding ex_roster_def by (auto simp: is_sibling_def)
qed

text \<open>
  The rollback target may be lost: after a staging of 0.3.0 that failed, the installation of 0.2.0
  over 0.1.0 keeps what is left of 0.3.0 and deletes 0.1.0, the stack that was running.
\<close>

lemma prune_loses_running_stack:
  "\<exists>fs1 fs2. current_dir ex_fx ex_var ex_fs = Some (ex_child ''0.1.0'')
     \<and> (\<exists>e. install_stack ex_sv ex_ms ex_bad_fx ex_var ''0.3.0'' ex_bins ex_fs = (Inl e, fs1))
     \<and> current_dir ex_fx ex_var fs1 = Some (ex_child ''0.1.0'')
     \<and> install_stack ex_sv ex_ms ex_fx ex_var ''0.2.0'' ex_bins fs1 = (Inr (), fs2)
     \<and> hm_get fs2 (ex_child ''0.1.0'') = None \<and> hm_get fs2 (ex_child ''0.3.0'') = Some Dir
     \<and> hm_get fs2 (pjoin (ex_child ''0.3.0'') ''b.exe'') = None"
proof -
  let ?r1 = "install_stack ex_sv ex_ms ex_bad_fx ex_var ''0.3.0'' ex_bins ex_fs"
  let ?r2 = "install_stack ex_sv ex_ms ex_fx ex_var ''0.2.0'' ex_bins (snd ?r1)"
  have "current_dir ex_fx ex_var ex_fs = Some (ex_child ''0.1.0'')" by code_simp
  moreover have "fst ?r1 = Inl (UIo ''staging b.exe: disk full'')" by code_simp
  moreover have "current_dir ex_fx ex_var (snd ?r1) = Some (ex_child ''0.1.0'')" by code_simp
  moreover have "fst ?r2 = Inr ()" by code_simp
  moreover have "hm_get (snd ?r2) (ex_child ''0.1.0'') = None" by code_simp
  moreover have "hm_get (snd ?r2) (ex_child ''0.3.0'') = Some Dir" by code_simp
  moreover have "hm_get (snd ?r2) (pjoin (ex_child ''0.3.0'') ''b.exe'') = None" by code_simp
  ultimately show ?thesis
    by (intro exI [of _ "snd ?r1"] exI [of _ "snd ?r2"]) (simp add: prod_eq_iff)
qed

text \<open>
  When the directory that the pointer names is gone, installing that version again creates it
  empty, then refuses because it is the current one; from then on nothing of the stack resolves.
\<close>

definition ex_lost_fs :: fsys where
  "ex_lost_fs = [(''H'', Dir), (pjoin ''H'' ''current'', File (ex_child ''0.2.0'')), (versions_root ''H'', Dir)]"

lemma lost_version_not_reinstalled:
  "current_dir ex_fx ex_var ex_lost_fs = None
   \<and> (\<exists>fs'. (\<exists>e. install_stack ex_sv ex_ms ex_fx ex_var ''0.2.0'' ex_all ex_lost_fs = (Inl e, fs'))
      \<and> current_dir ex_fx ex_var fs' = Some (ex_child ''0.2.0'')
      \<and> rs_missing (resolve_in ex_fx ex_var ex_roster ''E'' fs') = map sb_name ex_roster)"
proof -
  let ?r = "install_stack ex_sv ex_ms ex_fx ex_var ''0.2.0'' ex_all ex_lost_fs"
  have "current_dir ex_fx ex_var ex_lost_fs = None" by code_simp
  moreover have "case fst ?r of Inl _ \<Rightarrow> True | Inr _ \<Rightarrow> False" by code_simp
  then obtain e where "fst ?r = Inl e" by (cases "fst ?r") simp_all
  moreover have "current_dir ex_fx ex_var (snd ?r) = Some (ex_child ''0.2.0'')" by code_simp
  moreover have "rs_missing (resolve_in ex_fx ex_var ex_roster ''E'' (snd ?r)) = map sb_name ex_roster" by code_simp
  ultimately show ?thesis by (intro conjI exI [of _ "snd ?r"]) (auto simp: prod_eq_iff)
qed

text \<open>
  What is offered is the newest: an update that is offered is newer than the running version, is
  the greatest version among the releases that are eligible on the channel (no draft, and on the
  stable channel nothing that is marked as a pre-release), and carries every in-tree member of the
  stack with its own signature; and when the answer is up to date, no eligible release is newer.
\<close>

theorem offer_is_newest_complete:
  "\<exists>res. evaluate sv roster rs c cur = Some res \<and> (case res of
     Inr (Available i) \<Rightarrow> (\<exists>r \<in> set rs. \<exists>v now. eligible c r \<and> parse_tag sv (rl_tag r) = Some v
         \<and> parse_tag sv cur = Some now \<and> now < v \<and> ui_version i = sv_print sv v \<and> ui_tag i = rl_tag r
         \<and> (\<forall>r' \<in> set rs. \<forall>v'. eligible c r' \<longrightarrow> parse_tag sv (rl_tag r') = Some v' \<longrightarrow> v' \<le> v)
         \<and> (\<forall>e \<in> set roster. \<not> is_sibling e \<longrightarrow> (\<exists>a \<in> set (ui_assets i). carried r e = Some a))
         \<and> ui_assets i = List.map_filter (carried r) roster)
   | Inr (UpToDate s) \<Rightarrow> (\<exists>now. parse_tag sv cur = Some now \<and> s = sv_print sv now
         \<and> (\<forall>r \<in> set rs. \<forall>v. eligible c r \<longrightarrow> parse_tag sv (rl_tag r) = Some v \<longrightarrow> v \<le> now))
   | Inl e \<Rightarrow> e = UNoAsset \<or> e = UNoSignature \<or> parse_tag sv cur = None)"
  by (rule evaluate_spec)

lemma offer_is_newest_complete_witness:
  "\<exists>i. evaluate ex_sv [\<lparr>sb_name = ''a'', sb_image = ''a.exe'', sb_tier = TierService, sb_folder = None\<rparr>]
      [\<lparr>rl_tag = ''v0.2.0'', rl_draft = False, rl_prerelease = False, rl_body = [], rl_html_url = [], rl_assets =
          [\<lparr>ra_name = ''a-x86_64-pc-windows-msvc.exe'', ra_url = [], ra_size = 1\<rparr>,
           \<lparr>ra_name = ''a-x86_64-pc-windows-msvc.exe.minisig'', ra_url = [], ra_size = 1\<rparr>]\<rparr>,
       \<lparr>rl_tag = ''v0.3.0'', rl_draft = False, rl_prerelease = True, rl_body = [], rl_html_url = [], rl_assets = []\<rparr>]
      Stable ''0.1.0'' = Some (Inr (Available i)) \<and> ui_tag i = ''v0.2.0''" (is "\<exists>i. evaluate ?sv ?es ?rs ?c ?v = _ \<and> _")
proof -
  have "(case evaluate ?sv ?es ?rs ?c ?v of Some (Inr (Available i)) \<Rightarrow> ui_tag i = ''v0.2.0'' | _ \<Rightarrow> False)" by code_simp
  then show ?thesis
    using offer_is_newest_complete [of ?sv ?es ?rs ?c ?v] by (auto split: option.splits sum.splits update_status.splits)
qed

end
