(* ===== verification/Updater_Auto.thy ===== *)
theory Updater_Auto
  imports Updater_Install
begin

text \<open>
  Automatic checks: the preferences that the daemon keeps (\<open>wylde-lifecycle/src/updater_prefs.rs\<close>
  and the two actions of \<open>control.rs\<close>) and the check that the shell makes when it starts
  (\<open>Core/GUI/Frontend/Pipe/src/updater_state.rs\<close>). The JSON reader and writer, the pipe and the
  update service are a record of functions.
\<close>

section \<open>Preferences\<close>

record updater_prefs =
  up_enabled :: bool
  up_auto_check :: bool
  up_frequency :: string
  up_channel :: string
  up_last_checked :: "nat option"
  up_skipped_version :: "string option"

definition default_prefs :: updater_prefs where
  "default_prefs = \<lparr>up_enabled = False, up_auto_check = False, up_frequency = ''weekly'', up_channel = ''stable'',
     up_last_checked = None, up_skipped_version = None\<rparr>"

definition prefs_to_value :: "updater_prefs \<Rightarrow> json" where
  "prefs_to_value p = JObj ([(''enabled'', JBool (up_enabled p)), (''auto_check'', JBool (up_auto_check p)),
       (''frequency'', JStr (up_frequency p)), (''channel'', JStr (up_channel p))]
     @ opt_field ''last_checked'' (\<lambda>n. JInt (int n)) (up_last_checked p)
     @ opt_field ''skipped_version'' JStr (up_skipped_version p))"

fun de_prefs :: "json \<Rightarrow> updater_prefs option" where
  "de_prefs (JObj m) = do {
     en \<leftarrow> req_field ''enabled'' as_bool m;
     auto \<leftarrow> req_field ''auto_check'' as_bool m;
     fr \<leftarrow> req_field ''frequency'' as_str m;
     ch \<leftarrow> req_field ''channel'' as_str m;
     ts \<leftarrow> dflt_field None ''last_checked'' (de_opt as_u64) m;
     sk \<leftarrow> dflt_field None ''skipped_version'' (de_opt as_str) m;
     Some \<lparr>up_enabled = en, up_auto_check = auto, up_frequency = fr, up_channel = ch,
       up_last_checked = ts, up_skipped_version = sk\<rparr> }"
| "de_prefs _ = None"

definition set_opt :: "'a option \<Rightarrow> ('a \<Rightarrow> 'b \<Rightarrow> 'b) \<Rightarrow> 'b \<Rightarrow> 'b" where
  "set_opt x f p = (case x of None \<Rightarrow> p | Some v \<Rightarrow> f v p)"

fun apply_patch :: "json \<Rightarrow> updater_prefs \<Rightarrow> updater_prefs" where
  "apply_patch (JObj m) p =
     (let p = set_opt (Option.bind (map_of m ''enabled'') as_bool) (\<lambda>v p. p\<lparr>up_enabled := v\<rparr>) p;
          p = set_opt (Option.bind (map_of m ''auto_check'') as_bool) (\<lambda>v p. p\<lparr>up_auto_check := v\<rparr>) p;
          p = set_opt (Option.bind (map_of m ''frequency'') as_str) (\<lambda>v p. p\<lparr>up_frequency := v\<rparr>) p;
          p = set_opt (Option.bind (map_of m ''channel'') as_str) (\<lambda>v p. p\<lparr>up_channel := v\<rparr>) p;
          p = (case map_of m ''last_checked'' of
                 Some (JInt i) \<Rightarrow> p\<lparr>up_last_checked := as_u64 (JInt i)\<rparr>
               | Some (JFloat r) \<Rightarrow> p\<lparr>up_last_checked := None\<rparr>
               | Some JNull \<Rightarrow> p\<lparr>up_last_checked := None\<rparr>
               | _ \<Rightarrow> p)
      in case map_of m ''skipped_version'' of
           Some (JStr s) \<Rightarrow> p\<lparr>up_skipped_version := Some s\<rparr>
         | Some JNull \<Rightarrow> p\<lparr>up_skipped_version := None\<rparr>
         | _ \<Rightarrow> p)"
| "apply_patch _ p = p"

definition prefs_dir :: "(string \<Rightarrow> string option) \<Rightarrow> string" where
  "prefs_dir var =
     (case var ''WYLDE_DATA_DIR'' of
        Some (c # v) \<Rightarrow> c # v
      | _ \<Rightarrow> pjoin (pjoin (unwrap_or ''.'' (var ''WYLDE_ROOT'')) ''.wylde'') ''data'')"

definition prefs_path :: "(string \<Rightarrow> string option) \<Rightarrow> string" where
  "prefs_path var = pjoin (prefs_dir var) ''updater_prefs.json''"

section \<open>The daemon\<close>

record 'v upd_world =
  uw_fx :: fs_world
  uw_var :: "string \<Rightarrow> string option"
  uw_read :: "string \<Rightarrow> json option"
  uw_show :: "json \<Rightarrow> string"
  uw_pipe :: "string \<Rightarrow> string option"
  uw_err :: "ipc_error \<Rightarrow> string"

definition load_at :: "'v upd_world \<Rightarrow> string \<Rightarrow> fsys \<Rightarrow> updater_prefs" where
  "load_at w path fs =
     (case fs_read (uw_fx w) path fs of
        None \<Rightarrow> default_prefs
      | Some bytes \<Rightarrow> unwrap_or default_prefs (Option.bind (uw_read w bytes) de_prefs))"

definition load_prefs :: "'v upd_world \<Rightarrow> fsys \<Rightarrow> updater_prefs" where
  "load_prefs w = load_at w (prefs_path (uw_var w))"

definition save_at :: "'v upd_world \<Rightarrow> updater_prefs \<Rightarrow> string \<Rightarrow> string \<Rightarrow> fsys \<Rightarrow> (string, unit) rust_res \<times> fsys" where
  "save_at w p parent path fs =
     (case fs_mkdirs (uw_fx w) parent fs of
        (Inl e, fs1) \<Rightarrow> (Inl e, fs1)
      | (Inr _, fs1) \<Rightarrow>
          (case fs_write (uw_fx w) (path @ ''.tmp'') (uw_show w (prefs_to_value p)) fs1 of
             (Inl e, fs2) \<Rightarrow> (Inl e, fs2)
           | (Inr _, fs2) \<Rightarrow> fs_rename (uw_fx w) (path @ ''.tmp'') path fs2))"

definition save_prefs :: "'v upd_world \<Rightarrow> updater_prefs \<Rightarrow> fsys \<Rightarrow> (string, unit) rust_res \<times> fsys" where
  "save_prefs w p = save_at w p (prefs_dir (uw_var w)) (prefs_path (uw_var w))"

definition updater_get_prefs_action :: "'v upd_world \<Rightarrow> fsys \<Rightarrow> reply" where
  "updater_get_prefs_action w fs = Inr (prefs_to_value (load_prefs w fs))"

definition updater_set_prefs_action :: "'v upd_world \<Rightarrow> json \<Rightarrow> fsys \<Rightarrow> reply \<times> fsys" where
  "updater_set_prefs_action w payload fs =
     (let prefs = apply_patch payload (load_prefs w fs)
      in case save_prefs w prefs fs of
           (Inl e, fs') \<Rightarrow> (ipc_err ''io_error'' (''persist updater prefs: '' @ e), fs')
         | (Inr _, fs') \<Rightarrow> (Inr (prefs_to_value prefs), fs'))"

text \<open>The shell's side of the pipe: the transport may fail, and an error reply is an error.\<close>

definition lifecycle_get_prefs :: "'v upd_world \<Rightarrow> fsys \<Rightarrow> (string, json) rust_res" where
  "lifecycle_get_prefs w fs =
     (case uw_pipe w ''updater.get_prefs'' of
        Some e \<Rightarrow> Inl e
      | None \<Rightarrow> (case updater_get_prefs_action w fs of Inl e \<Rightarrow> Inl (uw_err w e) | Inr v \<Rightarrow> Inr v))"

definition lifecycle_set_prefs :: "'v upd_world \<Rightarrow> json \<Rightarrow> fsys \<Rightarrow> (string, json) rust_res \<times> fsys" where
  "lifecycle_set_prefs w payload fs =
     (case uw_pipe w ''updater.set_prefs'' of
        Some e \<Rightarrow> (Inl e, fs)
      | None \<Rightarrow> (case updater_set_prefs_action w payload fs of
          (Inl e, fs') \<Rightarrow> (Inl (uw_err w e), fs')
        | (Inr v, fs') \<Rightarrow> (Inr v, fs')))"

section \<open>The check at startup\<close>

record startup_check =
  su_outcome :: "(string, update_status) rust_res option"
  su_checked_at :: "nat option"

definition no_check :: startup_check where
  "no_check = \<lparr>su_outcome = None, su_checked_at = None\<rparr>"

definition record_check :: "(string, update_status) rust_res \<Rightarrow> nat \<Rightarrow> startup_check" where
  "record_check outcome checked_at = \<lparr>su_outcome = Some outcome, su_checked_at = Some checked_at\<rparr>"

definition update_available :: "startup_check \<Rightarrow> bool" where
  "update_available s = (case su_outcome s of Some (Inr (Available _)) \<Rightarrow> True | _ \<Rightarrow> False)"

definition available_info :: "startup_check \<Rightarrow> update_info option" where
  "available_info s = (case su_outcome s of Some (Inr (Available i)) \<Rightarrow> Some i | _ \<Rightarrow> None)"

definition ignore_version :: "'v upd_world \<Rightarrow> string \<Rightarrow> fsys \<Rightarrow> (string, unit) rust_res \<times> fsys" where
  "ignore_version w version fs =
     (case lifecycle_set_prefs w (JObj [(''skipped_version'', JStr version)]) fs of
        (Inl e, fs') \<Rightarrow> (Inl e, fs')
      | (Inr _, fs') \<Rightarrow> (Inr (), fs'))"

definition ignored_version :: "'v upd_world \<Rightarrow> fsys \<Rightarrow> string option" where
  "ignored_version w fs =
     (case lifecycle_get_prefs w fs of Inl _ \<Rightarrow> None | Inr v \<Rightarrow> get_str ''skipped_version'' v)"

definition cadence_secs :: "string \<Rightarrow> nat" where
  "cadence_secs frequency =
     (let day = 24 * 60 * 60
      in if frequency = ''daily'' then day else if frequency = ''monthly'' then 30 * day else 7 * day)"

definition due_for_check :: "bool \<Rightarrow> bool \<Rightarrow> string \<Rightarrow> nat option \<Rightarrow> nat \<Rightarrow> bool" where
  "due_for_check enabled auto_check frequency last_checked now =
     (if \<not> (enabled \<and> auto_check) then False
      else case last_checked of
        None \<Rightarrow> True
      | Some ts \<Rightarrow>
          let ts_secs = (if 1000000000000 \<le> ts then ts div 1000 else ts)
          in cadence_secs frequency \<le> now - ts_secs)"

definition skip_suppresses :: "string \<Rightarrow> string option \<Rightarrow> bool" where
  "skip_suppresses version skipped = (skipped = Some version)"

text \<open>
  The answer, what is cached, the disk, and the calls of the update service: at most one.
  \<open>check\<close> is \<open>check_for_update\<close> with its errors as text.
\<close>

record startup_run =
  sr_available :: bool
  sr_cell :: startup_check
  sr_fs :: fsys
  sr_calls :: "(channel \<times> string) list"

definition run_startup_check ::
  "'v upd_world \<Rightarrow> (channel \<Rightarrow> string \<Rightarrow> (string, update_status) rust_res) \<Rightarrow> string \<Rightarrow> nat \<Rightarrow> startup_check \<Rightarrow> fsys \<Rightarrow> startup_run" where
  "run_startup_check w check current_version now cell fs =
     (case lifecycle_get_prefs w fs of
        Inl _ \<Rightarrow> \<lparr>sr_available = False, sr_cell = cell, sr_fs = fs, sr_calls = []\<rparr>
      | Inr prefs \<Rightarrow>
          let enabled = unwrap_or False (Option.bind (jget ''enabled'' prefs) as_bool);
              auto_check = unwrap_or False (Option.bind (jget ''auto_check'' prefs) as_bool);
              frequency = unwrap_or ''weekly'' (get_str ''frequency'' prefs);
              channel_str = unwrap_or ''stable'' (get_str ''channel'' prefs);
              last_checked = Option.bind (jget ''last_checked'' prefs) as_u64;
              skipped = get_str ''skipped_version'' prefs
          in if \<not> due_for_check enabled auto_check frequency last_checked now
             then \<lparr>sr_available = False, sr_cell = cell, sr_fs = fs, sr_calls = []\<rparr>
             else
               let channel = from_str_lossy channel_str;
                   outcome = (case check channel current_version of
                       Inr (Available i) \<Rightarrow>
                         if skip_suppresses (ui_version i) skipped then Inr (UpToDate current_version) else Inr (Available i)
                     | other \<Rightarrow> other)
               in \<lparr>sr_available = (case outcome of Inr (Available _) \<Rightarrow> True | _ \<Rightarrow> False),
                   sr_cell = record_check outcome now,
                   sr_fs = snd (lifecycle_set_prefs w (JObj [(''last_checked'', JInt (int now))]) fs),
                   sr_calls = [(channel, current_version)]\<rparr>)"

text \<open>The starts of the shell at given times, each with an empty cache: when it called the service.\<close>

fun check_times ::
  "'v upd_world \<Rightarrow> (channel \<Rightarrow> string \<Rightarrow> (string, update_status) rust_res) \<Rightarrow> string \<Rightarrow> nat list \<Rightarrow> fsys \<Rightarrow> nat list" where
  "check_times w check v [] fs = []"
| "check_times w check v (now # ts) fs =
     (let r = run_startup_check w check v now no_check fs
      in (if sr_calls r = [] then [] else [now]) @ check_times w check v ts (sr_fs r))"

section \<open>Facts\<close>

lemma prefs_round_trip:
  "(\<forall>n. up_last_checked p = Some n \<longrightarrow> n < 2 ^ 64) \<Longrightarrow> de_prefs (prefs_to_value p) = Some p"
  by (cases p, cases "up_last_checked p"; cases "up_skipped_version p")
    (auto simp: prefs_to_value_def opt_field_def req_field_def dflt_field_def de_opt_def)

lemma as_u64_bound: "as_u64 v = Some n \<Longrightarrow> n < 2 ^ 64"
  by (cases v) (auto split: if_splits)

lemma de_prefs_bound: "de_prefs v = Some p \<Longrightarrow> up_last_checked p = Some n \<Longrightarrow> n < 2 ^ 64"
  by (cases v) (auto simp: dflt_field_def de_opt_def split: bind_splits option.splits if_splits dest!: as_u64_bound)

lemma load_bound: "up_last_checked (load_prefs w fs) = Some n \<Longrightarrow> n < 2 ^ 64"
  by (auto simp: load_prefs_def load_at_def default_prefs_def unwrap_or_def split: option.splits bind_splits dest: de_prefs_bound)

text \<open>What the shell reads from the reply is what the daemon holds.\<close>

lemma reply_fields:
  "jget ''enabled'' (prefs_to_value p) = Some (JBool (up_enabled p))"
  "jget ''auto_check'' (prefs_to_value p) = Some (JBool (up_auto_check p))"
  "jget ''frequency'' (prefs_to_value p) = Some (JStr (up_frequency p))"
  "jget ''channel'' (prefs_to_value p) = Some (JStr (up_channel p))"
  "Option.bind (jget ''skipped_version'' (prefs_to_value p)) as_str = up_skipped_version p"
  by (simp_all add: prefs_to_value_def opt_field_def split: option.split)

lemma reply_last_checked:
  "Option.bind (jget ''last_checked'' (prefs_to_value (load_prefs w fs))) as_u64 = up_last_checked (load_prefs w fs)"
  using load_bound [of w fs] by (auto simp: prefs_to_value_def opt_field_def split: option.split)

definition due :: "updater_prefs \<Rightarrow> nat \<Rightarrow> bool" where
  "due p now = due_for_check (up_enabled p) (up_auto_check p) (up_frequency p) (up_last_checked p) now"

text \<open>A start without a call changes nothing; one with a call asks once, on the channel of the preferences.\<close>

lemma run_startup_eval:
  "run_startup_check w check v now cell fs =
     (if uw_pipe w ''updater.get_prefs'' = None \<and> due (load_prefs w fs) now
      then (let outcome = (case check (from_str_lossy (up_channel (load_prefs w fs))) v of
                Inr (Available i) \<Rightarrow> if up_skipped_version (load_prefs w fs) = Some (ui_version i) then Inr (UpToDate v) else Inr (Available i)
              | other \<Rightarrow> other)
            in \<lparr>sr_available = (case outcome of Inr (Available _) \<Rightarrow> True | _ \<Rightarrow> False), sr_cell = record_check outcome now,
                sr_fs = snd (lifecycle_set_prefs w (JObj [(''last_checked'', JInt (int now))]) fs),
                sr_calls = [(from_str_lossy (up_channel (load_prefs w fs)), v)]\<rparr>)
      else \<lparr>sr_available = False, sr_cell = cell, sr_fs = fs, sr_calls = []\<rparr>)"
  unfolding skip_suppresses_def run_startup_check_def
  by (simp add: lifecycle_get_prefs_def updater_get_prefs_action_def reply_fields reply_last_checked
      get_str_def due_def Let_def split: option.split)

lemma due_spec:
  "due p now \<longleftrightarrow> up_enabled p \<and> up_auto_check p \<and> (case up_last_checked p of
     None \<Rightarrow> True
   | Some ts \<Rightarrow> (if 1000000000000 \<le> ts then ts div 1000 else ts) + cadence_secs (up_frequency p) \<le> now)"
proof -
  have "0 < cadence_secs f" for f by (simp add: cadence_secs_def Let_def)
  then have "cadence_secs f \<le> now - t \<longleftrightarrow> t + cadence_secs f \<le> now" for f t
    by (metis Nat.le_diff_conv2 add.commute diff_is_0_eq' le_add2 le_cases le_trans leD)
  then show ?thesis by (auto simp: due_def due_for_check_def Let_def split: option.split)
qed

text \<open>Storing the preferences: a disk that takes them gives them back.\<close>

definition prefs_storable :: "'v upd_world \<Rightarrow> fsys \<Rightarrow> bool" where
  "prefs_storable w fs =
     (list_all (\<lambda>q. \<not> is_file fs q) (path_ancestors (prefs_dir (uw_var w)))
      \<and> \<not> is_dir fs (prefs_path (uw_var w)) \<and> \<not> is_dir fs (prefs_path (uw_var w) @ ''.tmp''))"

definition no_faults :: "'v upd_world \<Rightarrow> bool" where
  "no_faults w = ((\<forall>c. fx_err (uw_fx w) c = None) \<and> (\<forall>a. uw_pipe w a = None))"

text \<open>The JSON text of these preferences, whatever the time of the last check, reads as them.\<close>

definition json_keeps :: "'v upd_world \<Rightarrow> updater_prefs \<Rightarrow> bool" where
  "json_keeps w p = (\<forall>n. uw_read w (uw_show w (prefs_to_value (p\<lparr>up_last_checked := n\<rparr>))) = Some (prefs_to_value (p\<lparr>up_last_checked := n\<rparr>)))"

lemma json_keeps_stamp [simp]: "json_keeps w (p\<lparr>up_last_checked := n\<rparr>) = json_keeps w p"
  by (simp add: json_keeps_def)

lemma path_not_ancestor: "q \<in> set (path_ancestors d) \<Longrightarrow> length q \<le> length d"
  by (auto simp: path_ancestors_def)

lemma save_prefs_ok:
  assumes "no_faults w" "prefs_storable w fs" "\<forall>n. up_last_checked p = Some n \<longrightarrow> n < 2 ^ 64" "json_keeps w p"
  shows "\<exists>fs'. save_prefs w p fs = (Inr (), fs') \<and> load_prefs w fs' = p \<and> prefs_storable w fs'"
proof -
  let ?d = "prefs_dir (uw_var w)" and ?p = "prefs_path (uw_var w)"
  let ?c = "File (uw_show w (prefs_to_value p))"
  have nf: "fx_err (uw_fx w) c = None" for c
    using assms(1) by (simp add: no_faults_def)
  have "p\<lparr>up_last_checked := up_last_checked p\<rparr> = p" by simp
  then have rd: "uw_read w (uw_show w (prefs_to_value p)) = Some (prefs_to_value p)"
    using assms(4) unfolding json_keeps_def by metis
  obtain fs1 where m: "fs_mkdirs (uw_fx w) ?d fs = (Inr (), fs1)"
    using assms(2) nf by (simp add: fs_mkdirs_def prefs_storable_def list_all_iff list_ex_iff)
  have long: "?p \<notin> set (path_ancestors ?d)" "?p @ ''.tmp'' \<notin> set (path_ancestors ?d)"
    by (auto simp: prefs_path_def pjoin_def dest!: path_not_ancestor)
  then have nd: "\<not> is_dir fs1 ?p" "\<not> is_dir fs1 (?p @ ''.tmp'')"
    using assms(2) mkdirs_outside [OF m] by (simp_all add: prefs_storable_def is_dir_def)
  let ?fs' = "hm_put ?p ?c (hm_del (?p @ ''.tmp'') (hm_put (?p @ ''.tmp'') ?c fs1))"
  have s: "save_prefs w p fs = (Inr (), ?fs')"
    using m nd nf by (simp add: save_prefs_def save_at_def fs_write_def fs_rename_def)
  moreover have "load_prefs w ?fs' = p"
    using nf rd prefs_round_trip [OF assms(3)] by (simp add: load_prefs_def load_at_def fs_read_def)
  moreover have "is_file ?fs' q \<Longrightarrow> q \<in> set (path_ancestors ?d) \<Longrightarrow> is_file fs q" for q
    using mkdirs_get [OF m, of q] long by (auto simp: is_file_def split: if_splits option.splits node.splits)
  then have "prefs_storable w ?fs'"
    using assms(2) by (auto simp: prefs_storable_def list_all_iff is_dir_def)
  ultimately show ?thesis by blast
qed

lemma patch_last_checked:
  "apply_patch (JObj [(''last_checked'', JInt (int now))]) p = p\<lparr>up_last_checked := (if now < 2 ^ 64 then Some now else None)\<rparr>"
  by (simp add: set_opt_def)

lemma startup_stamps:
  assumes "no_faults w" "prefs_storable w fs" "now < 2 ^ 64" "due (load_prefs w fs) now" "json_keeps w (load_prefs w fs)"
  shows "load_prefs w (sr_fs (run_startup_check w check v now cell fs)) = (load_prefs w fs)\<lparr>up_last_checked := Some now\<rparr>
     \<and> prefs_storable w (sr_fs (run_startup_check w check v now cell fs))"
proof -
  obtain fs' where s: "save_prefs w ((load_prefs w fs)\<lparr>up_last_checked := Some now\<rparr>) fs = (Inr (), fs')"
      "load_prefs w fs' = (load_prefs w fs)\<lparr>up_last_checked := Some now\<rparr>" "prefs_storable w fs'"
    using save_prefs_ok [OF assms(1,2), of "(load_prefs w fs)\<lparr>up_last_checked := Some now\<rparr>"] assms(3,5) by auto
  moreover have "sr_fs (run_startup_check w check v now cell fs) = fs'"
    using assms s(1) patch_last_checked [of now "load_prefs w fs"]
    by (simp add: run_startup_eval no_faults_def Let_def lifecycle_set_prefs_def updater_set_prefs_action_def del: apply_patch.simps)
  ultimately show ?thesis by simp
qed

lemma startup_not_due:
  "\<not> due (load_prefs w fs) now \<Longrightarrow> run_startup_check w check v now cell fs =
     \<lparr>sr_available = False, sr_cell = cell, sr_fs = fs, sr_calls = []\<rparr>"
  by (simp add: run_startup_eval)

lemma check_times_from:
  assumes "no_faults w" "prefs_storable w fs" "json_keeps w (load_prefs w fs)" "\<forall>t \<in> set ts. t < 1000000000000"
  shows "(\<forall>n. up_last_checked (load_prefs w fs) = Some n \<longrightarrow> n < 1000000000000 \<longrightarrow>
        (\<forall>t \<in> set (check_times w check v ts fs). n + cadence_secs (up_frequency (load_prefs w fs)) \<le> t))
     \<and> sorted_wrt (\<lambda>a b. a + cadence_secs (up_frequency (load_prefs w fs)) \<le> b) (check_times w check v ts fs)"
  using assms
proof (induction ts arbitrary: fs)
  case (Cons now ts)
  let ?run = "run_startup_check w check v now no_check fs"
  show ?case
  proof (cases "due (load_prefs w fs) now")
    case False
    then show ?thesis using Cons by (simp add: startup_not_due)
  next
    case True
    have 2: "load_prefs w (sr_fs ?run) = (load_prefs w fs)\<lparr>up_last_checked := Some now\<rparr>" "prefs_storable w (sr_fs ?run)"
      using startup_stamps [OF Cons.prems(1,2) _ True Cons.prems(3)] Cons.prems(4) by simp_all
    have "sr_calls ?run \<noteq> []"
      using True Cons.prems(1) by (simp add: run_startup_eval no_faults_def Let_def)
    then have t: "check_times w check v (now # ts) fs = now # check_times w check v ts (sr_fs ?run)"
      by (simp add: Let_def)
    have "now < 1000000000000" using Cons.prems(4) by simp
    then have "\<forall>t \<in> set (check_times w check v ts (sr_fs ?run)). now + cadence_secs (up_frequency (load_prefs w fs)) \<le> t"
      and "sorted_wrt (\<lambda>a b. a + cadence_secs (up_frequency (load_prefs w fs)) \<le> b) (check_times w check v ts (sr_fs ?run))"
      using Cons.IH [OF Cons.prems(1) 2(2)] Cons.prems(3,4) 2(1) by simp_all
    then show ?thesis
      unfolding t using True by (fastforce simp: due_spec)
  qed
qed simp

theorem startup_asks_only_when_allowed:
  "sr_calls (run_startup_check w check v now cell fs) =
     (if uw_pipe w ''updater.get_prefs'' = None \<and> up_enabled (load_prefs w fs) \<and> up_auto_check (load_prefs w fs)
         \<and> (case up_last_checked (load_prefs w fs) of None \<Rightarrow> True
            | Some ts \<Rightarrow> (if 1000000000000 \<le> ts then ts div 1000 else ts) + cadence_secs (up_frequency (load_prefs w fs)) \<le> now)
      then [(from_str_lossy (up_channel (load_prefs w fs)), v)] else [])"
  by (simp add: run_startup_eval due_spec Let_def)

text \<open>C38: Automatic checks are the user's choice and are spaced: over any sequence of starts, with no fault
  of the disk and the pipe, the update service is called only when updates and automatic checks are
  both switched on, and each call comes at least one period of the chosen cadence after the one
  before.
\<close>

theorem checks_are_spaced:
  assumes "no_faults w" "prefs_storable w fs" "json_keeps w (load_prefs w fs)" "\<forall>t \<in> set ts. t < 1000000000000"
  shows "sorted_wrt (\<lambda>a b. a + cadence_secs (up_frequency (load_prefs w fs)) \<le> b) (check_times w check v ts fs)
     \<and> (check_times w check v ts fs \<noteq> [] \<longrightarrow> up_enabled (load_prefs w fs) \<and> up_auto_check (load_prefs w fs))"
proof -
  have "up_enabled (load_prefs w fs) \<and> up_auto_check (load_prefs w fs)" if "check_times w check v ts fs \<noteq> []"
    using that
  proof (induction ts)
    case (Cons now ts)
    then show ?case by (cases "due (load_prefs w fs) now") (auto simp: due_spec startup_not_due)
  qed simp
  then show ?thesis using check_times_from [OF assms] by blast
qed

text \<open>A number that is no \<open>u64\<close> clears the time of the last check, so that the next start asks again.\<close>

lemma bad_number_clears_last_checked:
  "up_last_checked (apply_patch (JObj [(''last_checked'', JInt (- 1))]) p) = None"
  "up_last_checked (apply_patch (JObj [(''last_checked'', JStr s)]) p) = up_last_checked p"
  by (simp_all add: set_opt_def)

text \<open>Starts on the days 20000, 20001, 20007 and 20008 with weekly checks: two calls.\<close>

definition ex_prefs :: updater_prefs where
  "ex_prefs = default_prefs\<lparr>up_enabled := True, up_auto_check := True\<rparr>"

definition ex_world :: "unit upd_world" where
  "ex_world = \<lparr>uw_fx = \<lparr>fx_err = (\<lambda>_. None), fx_junk = (\<lambda>_. None), fx_left = (\<lambda>_. True), fx_canon = (\<lambda>_ p. Some p)\<rparr>,
     uw_var = (\<lambda>n. if n = ''WYLDE_DATA_DIR'' then Some ''D'' else None),
     uw_read = (\<lambda>s. Some (prefs_to_value (ex_prefs\<lparr>up_last_checked :=
        (if s = [] then None else Some (foldl (\<lambda>v c. v * 10 + (of_char c - 48)) 0 s))\<rparr>))),
     uw_show = (\<lambda>v. case jget ''last_checked'' v of Some (JInt i) \<Rightarrow> nat_str (nat i) | _ \<Rightarrow> []),
     uw_pipe = (\<lambda>_. None), uw_err = ie_code\<rparr>"

definition ex_disk :: fsys where
  "ex_disk = [(prefs_path (uw_var ex_world), File [])]"

lemma ex_loads: "load_prefs ex_world ex_disk = ex_prefs"
  by code_simp

abbreviation ex_days :: "nat list" where
  "ex_days \<equiv> map (\<lambda>d. d * 86400) [20000, 20001, 20007, 20008]"

lemma checks_are_spaced_witness:
  "check_times ex_world (\<lambda>_ _. Inl ''offline'') ''0.1.0'' ex_days ex_disk \<noteq> []
   \<and> sorted_wrt (\<lambda>a b. a + 604800 \<le> b) (check_times ex_world (\<lambda>_ _. Inl ''offline'') ''0.1.0'' ex_days ex_disk)"
proof -
  have nf: "no_faults ex_world" by (simp add: no_faults_def ex_world_def)
  have st: "prefs_storable ex_world ex_disk" by code_simp
  have js: "json_keeps ex_world (load_prefs ex_world ex_disk)"
    unfolding ex_loads
    by (auto simp: json_keeps_def ex_world_def prefs_to_value_def opt_field_def nat_str_value nat_str_digits ex_prefs_def split: option.split)
  have ds: "\<forall>t \<in> set ex_days. t < (1000000000000 :: nat)" by simp
  have wk: "cadence_secs (up_frequency (load_prefs ex_world ex_disk)) = 604800"
    unfolding ex_loads by (simp add: ex_prefs_def default_prefs_def cadence_secs_def)
  have sp: "sorted_wrt (\<lambda>a b. a + 604800 \<le> b) (check_times ex_world (\<lambda>_ _. Inl ''offline'') ''0.1.0'' ex_days ex_disk)"
    using checks_are_spaced [OF nf st js ds, of "\<lambda>_ _. Inl ''offline''" "''0.1.0''"] unfolding wk by (rule conjunct1)
  let ?c = "\<lambda>_ _. Inl ''offline''"
  have "due (load_prefs ex_world ex_disk) 1728000000"
    unfolding ex_loads due_spec by (simp add: ex_prefs_def default_prefs_def)
  then have "sr_calls (run_startup_check ex_world ?c ''0.1.0'' 1728000000 no_check ex_disk) \<noteq> []"
    using nf unfolding run_startup_eval by (simp add: no_faults_def Let_def)
  moreover have days: "ex_days = 1728000000 # map (\<lambda>d. d * 86400) [20001, 20007, 20008]" by simp
  ultimately have "check_times ex_world ?c ''0.1.0'' ex_days ex_disk \<noteq> []"
    unfolding days check_times.simps(2) Let_def by simp
  then show ?thesis using sp by (rule conjI)
qed

end
