(* ===== verification/Spec2Isabelle.thy ===== *)
theory Spec2Isabelle
  imports Vram_Broker Gate_Pipe Egress_Client Rate_Limit Link_Pairing Turn Lifecycle_Shutdown Tool_Verbs_Safety
    Chat_Budget Chat_Stream_Correct Ipc_Order Updater_Correct Updater_Auto
begin

text \<open>
  \<^bold>\<open>Wylde, verified.\<close> Wylde is a local AI stack of Rust services that talk over named pipes. This library
  models the services that hold its state and its promises, from the source under
  \<open>rust/crates\<close>, and proves what makes them correct.

  \<^bold>\<open>The parts and how they meet.\<close> The lifecycle daemon (\<open>wylde-lifecycle\<close>) starts every service, watches
  their manifest files and restarts what crashed. The harness (\<open>wylde-harness\<close>) runs the turns of a chat: it
  gathers context, asks the model service, finds the tool calls in the reply, sends each through the tier
  and consent gates to a handler or to an extension, and reports on two streams of events. The model service
  reserves GPU memory at the VRAM broker (\<open>wylde-vram-broker\<close>). Phones pair with the device gate
  (\<open>wylde-device-gate\<close>), whose tiers the harness enforces, and reach the stack over WyldeLink
  (\<open>wylde-vpn\<close>); everything outbound goes through the gateway's egress (\<open>wylde-gateway\<close>).

  \<^bold>\<open>Theories.\<close>
  \<^item> \<open>Prelude\<close>: results, \<open>u64\<close> arithmetic, Rust strings as UTF-8 bytes, JSON, replies; \<open>Keyed_Store\<close>: the
    locale of Rust's \<open>HashMap\<close> with its accounting lemmas, interpreted on association lists;
    \<open>Admission_Window\<close>: the locale of a counter with a window, interpreted on the pairing and the minute limits;
    \<open>Tunnel_Backend\<close>: the locale of the tunnel back end, interpreted on the production and the recording one.
  \<^item> \<open>Vram_Registry\<close> (\<open>registry.rs\<close>), \<open>Vram_Estimate\<close> (\<open>model_cache.rs\<close>, \<open>estimate.rs\<close>), \<open>Vram_Policy\<close>
    (\<open>policy.rs\<close>), \<open>Vram_Service\<close> (\<open>service.rs\<close>, \<open>workers.rs\<close>), \<open>Vram_Broker\<close>: the steps of the broker, its
    invariant and what a grant and a refusal mean.
  \<^item> \<open>Gate_Auth\<close>, \<open>Gate_Store\<close>, \<open>Gate_Service\<close>, \<open>Gate_Pipe\<close> (\<open>auth.rs\<close>, \<open>store.rs\<close>, \<open>core.rs\<close>, \<open>pipe.rs\<close>): the
    device gate, its actions as a step relation, its invariant.
  \<^item> \<open>Egress_Destinations\<close>, \<open>Egress_Ssrf\<close>, \<open>Egress_Client\<close> (\<open>egress/*.rs\<close>), \<open>Rate_Limit\<close>
    (\<open>middleware/rate_limit.rs\<close>): the outbound checks and the limiter.
  \<^item> \<open>Wire\<close>, \<open>Stun\<close>, \<open>Turn\<close> (\<open>nat/*.rs\<close>), \<open>Link_Peers\<close>, \<open>Link_Pairing\<close>, \<open>Tunnel_Manager\<close>: WyldeLink.
  \<^item> \<open>Lifecycle_Manifest\<close> (\<open>wylde-shared/src/manifest.rs\<close>), \<open>Lifecycle_Restart\<close>, \<open>Lifecycle_Sweep\<close>,
    \<open>Lifecycle_Services\<close>, \<open>Lifecycle_Supervisor\<close>, \<open>Lifecycle_Crash\<close>, \<open>Lifecycle_Shutdown\<close> (\<open>state/*.rs\<close>,
    \<open>daemon.rs\<close>, \<open>daemon_managed.rs\<close>): the supervisor as a step relation of ticks, pending restarts and commands.
  \<^item> \<open>Tool_Consent\<close>, \<open>Tool_Registry\<close>, \<open>Tool_Runner\<close>, \<open>Tool_Verbs\<close> (\<open>tooling/*.rs\<close>) with \<open>Tool_Consent_Safety\<close> and
    \<open>Tool_Verbs_Safety\<close>: the gates before every tool, over whole runs of the harness with restarts.
  \<^item> \<open>Chat_Salvage\<close> (\<open>turn/salvage.rs\<close>), \<open>Chat_Think\<close> (\<open>think_stream.rs\<close>), \<open>Chat_Context\<close> and \<open>Chat_Budget\<close>
    (\<open>context_gather.rs\<close>, \<open>prompt_assembly.rs\<close>, \<open>token_budget.rs\<close>, \<open>chat_options.rs\<close>), \<open>Chat_Events\<close> (\<open>events.rs\<close>,
    \<open>state.rs\<close>), \<open>Chat_Round\<close> (\<open>tool_round.rs\<close>, \<open>dispatch.rs\<close>), \<open>Chat_Turn\<close> and \<open>Chat_Stream\<close> (\<open>actions.rs\<close>) with
    \<open>Chat_Salvage_Correct\<close>, \<open>Chat_Turn_Correct\<close>, \<open>Chat_Stream_Correct\<close>: a turn from the reply of the
    model to the last event that a subscriber sees.

  \<^bold>\<open>What the lemmas show.\<close> The broker never grants more than is free and refuses only with reason; the gates let
  nothing pass that tier, consent, token, allowlist or address check forbid; a crash is reported once and
  restarted within its budget, a stopped service stays stopped; pairing tokens work once and addresses stay
  unique; the parsers of NAT messages are total and round trip; a turn ends once, within its
  limit, dispatches no call twice, and both of its drivers do the same. Where the code does something else
  than it says, a theorem states what it does.

  \<^bold>\<open>Conventions.\<close> State is passed explicitly. Clocks, random values, files, sockets, other services, regular
  expressions, the JSON parser, hashes and ciphers are arguments of the definitions; a model that calls another
  service lets it change all the state, since other actions run while it waits. \<open>f64\<close> is modelled by reals, the
  iteration order of a \<open>HashMap\<close> by that of its list. Integers keep their width where the code can wrap.
  A loop that waits takes a schedule of the moments it looks at; its claims of return hold for the
  schedule that its deadline gives. The turn's loop has eight rounds, the constant of the code. All other
  functions are total by structural recursion or by a measure.

  \<^bold>\<open>Not modelled.\<close> The desktop GUI and the workspaces, language and voice services; HTTP routing of the
  gateway; packet I/O of the VPN; the context gather and the memory stores behind it; the reasoning tier,
  which is off by default (the streaming driver is modelled with it off); the handlers of the built-in
  tools, which are parameters of the registry.
\<close>

end
